(* ===== verification/Decimal.thy ===== *)
theory Decimal
  imports Prelude
begin

text \<open>
  Fixed-point arithmetic on smallest units (\<open>packages/shared/src/money/decimal.ts\<close>): the three
  rounding divisions, rescaling, and the conversion between decimal strings and units. The
  contract of a rounding division is a locale, interpreted on the three divisions; the round
  trip between \<open>parseUnits\<close> and \<open>formatUnits\<close> is proved for every amount and precision.
\<close>

datatype rounding_mode = Floor | Ceil | HalfUp

datatype money_error =
    BadDecimals int                  \<comment> \<open>decimals must be an integer in [0, MAX_DECIMALS]\<close>
  | Pow10OutOfRange int
  | InvalidDecimal string
  | TooManyPlaces string nat int
  | DivisionByZero
  | CannotCombine string int string int
  | DenominatorZero
  | RateNotPositive int
  | CannotPrice string string string
  | CannotValue string string string

definition MAX_DECIMALS :: int where
  "MAX_DECIMALS = 36"

definition assertDecimals :: "int \<Rightarrow> money_error + unit" where
  "assertDecimals decimals =
     (if decimals < 0 \<or> decimals > MAX_DECIMALS then Inl (BadDecimals decimals) else Inr ())"

definition pow10 :: "int \<Rightarrow> money_error + int" where
  "pow10 exponent =
     (if exponent < 0 \<or> exponent > MAX_DECIMALS * 2 then Inl (Pow10OutOfRange exponent)
      else Inr (10 ^ nat exponent))"

section \<open>Parsing and formatting\<close>

text \<open>\<open>DECIMAL_PATTERN\<close>: an optional minus sign, digits, and optionally a point and digits.\<close>

definition is_unsigned_decimal :: "string \<Rightarrow> bool" where
  "is_unsigned_decimal s = (let whole = takeWhile is_digit s; rest = dropWhile is_digit s in
     whole \<noteq> [] \<and>
     (case rest of [] \<Rightarrow> True
      | c # fraction \<Rightarrow> c = CHR ''.'' \<and> fraction \<noteq> [] \<and> list_all is_digit fraction))"

definition DECIMAL_PATTERN :: "string \<Rightarrow> bool" where
  "DECIMAL_PATTERN s = (case s of
     [] \<Rightarrow> False
   | c # cs \<Rightarrow> if c = CHR ''-'' then is_unsigned_decimal cs else is_unsigned_decimal s)"

definition parseUnits :: "string \<Rightarrow> int \<Rightarrow> money_error + int" where
  "parseUnits value decimals =
     bind_result (assertDecimals decimals) (\<lambda>_.
     let trimmed = js_trim value in
     if trimmed = [] \<or> \<not> DECIMAL_PATTERN trimmed then Inl (InvalidDecimal value)
     else
       let negative = startsWith trimmed ''-'';
           unsigned = (if negative then drop 1 trimmed else trimmed);
           parts = split_on (CHR ''.'') unsigned;
           wholePart = (case parts of [] \<Rightarrow> ''0'' | w # _ \<Rightarrow> w);
           fractionPart = (case parts of _ # f # _ \<Rightarrow> f | _ \<Rightarrow> [])
       in if int (length fractionPart) > decimals
          then Inl (TooManyPlaces value (length fractionPart) decimals)
          else
            let padded = padEnd (nat decimals) fractionPart in
            bind_result (pow10 decimals) (\<lambda>p.
              let units = digits_value wholePart * p
                          + digits_value (if padded = [] then ''0'' else padded)
              in Inr (if negative then - units else units)))"

definition formatUnits :: "int \<Rightarrow> int \<Rightarrow> money_error + string" where
  "formatUnits units decimals =
     bind_result (assertDecimals decimals) (\<lambda>_.
     if decimals = 0 then Inr (show_int units)
     else
       let negative = units < 0; absolute = (if negative then - units else units) in
       bind_result (pow10 decimals) (\<lambda>divisor.
         let whole = absolute sdiv divisor;
             fraction = padStart (nat decimals) (show_int (absolute smod divisor))
         in Inr ((if negative then ''-'' else []) @ show_int whole @ ''.'' @ fraction)))"

text \<open>\<open>s.replace(/\.?0+$/, '')\<close>: the zeros at the end, with a point just before them.\<close>

definition strip_trailing_zeros :: "string \<Rightarrow> string" where
  "strip_trailing_zeros s =
     (let r = dropWhile (\<lambda>c. c = CHR ''0'') (rev s) in
      if length r = length s then s
      else rev (case r of [] \<Rightarrow> [] | c # cs \<Rightarrow> if c = CHR ''.'' then cs else r))"

definition formatUnitsTrimmed :: "int \<Rightarrow> int \<Rightarrow> money_error + string" where
  "formatUnitsTrimmed units decimals =
     bind_result (formatUnits units decimals) (\<lambda>formatted.
       if CHR ''.'' \<notin> set formatted then Inr formatted
       else Inr (strip_trailing_zeros formatted))"

section \<open>Rounding divisions\<close>

definition divFloor :: "int \<Rightarrow> int \<Rightarrow> money_error + int" where
  "divFloor numerator denominator =
     (if denominator = 0 then Inl DivisionByZero
      else
        let quotient = numerator sdiv denominator;
            hasRemainder = numerator smod denominator \<noteq> 0;
            negativeResult = ((numerator < 0) \<noteq> (denominator < 0))
        in Inr (if hasRemainder \<and> negativeResult then quotient - 1 else quotient))"

definition divCeil :: "int \<Rightarrow> int \<Rightarrow> money_error + int" where
  "divCeil numerator denominator =
     (if denominator = 0 then Inl DivisionByZero
      else
        let quotient = numerator sdiv denominator;
            hasRemainder = numerator smod denominator \<noteq> 0;
            positiveResult = ((numerator < 0) = (denominator < 0))
        in Inr (if hasRemainder \<and> positiveResult then quotient + 1 else quotient))"

definition divHalfUp :: "int \<Rightarrow> int \<Rightarrow> money_error + int" where
  "divHalfUp numerator denominator =
     (if denominator = 0 then Inl DivisionByZero
      else
        let negativeResult = ((numerator < 0) \<noteq> (denominator < 0));
            absNumerator = (if numerator < 0 then - numerator else numerator);
            absDenominator = (if denominator < 0 then - denominator else denominator);
            quotient = absNumerator sdiv absDenominator;
            remainder = absNumerator smod absDenominator;
            rounded = (if remainder * 2 \<ge> absDenominator then quotient + 1 else quotient)
        in Inr (if negativeResult then - rounded else rounded))"

fun divide_mode :: "int \<Rightarrow> int \<Rightarrow> rounding_mode \<Rightarrow> money_error + int" where
  "divide_mode numerator denominator Floor = divFloor numerator denominator"
| "divide_mode numerator denominator Ceil = divCeil numerator denominator"
| "divide_mode numerator denominator HalfUp = divHalfUp numerator denominator"

definition rescaleUnits :: "int \<Rightarrow> int \<Rightarrow> int \<Rightarrow> rounding_mode \<Rightarrow> money_error + int" where
  "rescaleUnits units fromDecimals toDecimals mode =
     bind_result (assertDecimals fromDecimals) (\<lambda>_.
     bind_result (assertDecimals toDecimals) (\<lambda>_.
     if fromDecimals = toDecimals then Inr units
     else if toDecimals > fromDecimals
       then bind_result (pow10 (toDecimals - fromDecimals)) (\<lambda>p. Inr (units * p))
       else bind_result (pow10 (fromDecimals - toDecimals)) (\<lambda>p. divide_mode units p mode)))"

definition absUnits :: "int \<Rightarrow> int" where
  "absUnits units = (if units < 0 then - units else units)"

definition minUnits :: "int \<Rightarrow> int \<Rightarrow> int" where
  "minUnits a b = (if a < b then a else b)"

definition maxUnits :: "int \<Rightarrow> int \<Rightarrow> int" where
  "maxUnits a b = (if a > b then a else b)"

section \<open>Correctness of the rounding divisions\<close>

lemma smod_eq_0_iff: "n smod d = 0 \<longleftrightarrow> d dvd (n::int)"
  by (cases "n = 0") (simp_all add: signed_modulo_int_def mod_eq_0_iff_dvd sgn_0_0)

lemma divFloor_eq: "d \<noteq> 0 \<Longrightarrow> divFloor n d = Inr (n div d)"
  by (auto simp: divFloor_def Let_def smod_eq_0_iff divide_int_eq_signed_divide_int sgn_if)

lemma divCeil_eq: "d \<noteq> 0 \<Longrightarrow> divCeil n d = Inr (- (- n div d))"
  by (auto simp: divCeil_def Let_def smod_eq_0_iff divide_int_eq_signed_divide_int sgn_if)

lemma divHalfUp_eq:
  assumes "d \<noteq> 0"
  shows "divHalfUp n d = Inr (sgn n * sgn d * ((2 * \<bar>n\<bar> + \<bar>d\<bar>) div (2 * \<bar>d\<bar>)))"
proof -
  define q r where "q = \<bar>n\<bar> div \<bar>d\<bar>" and "r = \<bar>n\<bar> mod \<bar>d\<bar>"
  have n: "\<bar>n\<bar> = q * \<bar>d\<bar> + r" and r: "0 \<le> r" "r < \<bar>d\<bar>"
    using assms by (simp_all add: q_def r_def)
  have "(2 * \<bar>n\<bar> + \<bar>d\<bar>) div (2 * \<bar>d\<bar>) = (if r * 2 \<ge> \<bar>d\<bar> then q + 1 else q)"
  proof (cases "r * 2 \<ge> \<bar>d\<bar>")
    case True
    have "2 * \<bar>n\<bar> + \<bar>d\<bar> = (2 * r - \<bar>d\<bar>) + (q + 1) * (2 * \<bar>d\<bar>)" unfolding n by (simp add: algebra_simps)
    moreover have "(2 * r - \<bar>d\<bar>) div (2 * \<bar>d\<bar>) = 0" using True r by (intro div_pos_pos_trivial) auto
    ultimately show ?thesis using True assms by (simp only: div_mult_self1) (simp add: add.commute)
  next
    case False
    have "2 * \<bar>n\<bar> + \<bar>d\<bar> = (2 * r + \<bar>d\<bar>) + q * (2 * \<bar>d\<bar>)" unfolding n by (simp add: algebra_simps)
    moreover have "(2 * r + \<bar>d\<bar>) div (2 * \<bar>d\<bar>) = 0" using False r by (intro div_pos_pos_trivial) auto
    ultimately show ?thesis using False assms by (simp only: div_mult_self1) (simp add: add.commute)
  qed
  moreover have "\<bar>n\<bar> sdiv \<bar>d\<bar> = q" "\<bar>n\<bar> smod \<bar>d\<bar> = r"
    using assms by (simp_all add: signed_divide_int_def signed_modulo_int_def q_def r_def sgn_if)
  moreover have "n = 0 \<Longrightarrow> q = 0 \<and> r = 0" by (simp add: q_def r_def)
  ultimately show ?thesis
    using assms by (simp add: divHalfUp_def Let_def abs_if [symmetric] sgn_if)
qed

text \<open>The contract the callers of a rounding division rely on: it fails exactly for a zero
  denominator, and its result is less than one unit away from the exact quotient.\<close>

locale rounding_division =
  fixes rdiv :: "int \<Rightarrow> int \<Rightarrow> money_error + int"
  assumes rdiv_zero: "rdiv n 0 = Inl DivisionByZero"
    and rdiv_total: "d \<noteq> 0 \<Longrightarrow> \<exists>q. rdiv n d = Inr q"
    and rdiv_close: "rdiv n d = Inr q \<Longrightarrow> \<bar>n - q * d\<bar> < \<bar>d\<bar>"
begin

lemma fails_iff: "(\<exists>e. rdiv n d = Inl e) \<longleftrightarrow> d = 0"
  using rdiv_zero rdiv_total by (metis Inl_Inr_False)

lemma nonzero: "rdiv n d = Inr q \<Longrightarrow> d \<noteq> 0"
  using rdiv_zero by (metis Inl_Inr_False)

lemma exact: "d \<noteq> 0 \<Longrightarrow> rdiv (k * d) d = Inr k"
proof -
  assume d: "d \<noteq> 0"
  then obtain q where q: "rdiv (k * d) d = Inr q" using rdiv_total by blast
  have "\<bar>k - q\<bar> * \<bar>d\<bar> < 1 * \<bar>d\<bar>"
    using rdiv_close [OF q] by (simp add: abs_mult [symmetric] left_diff_distrib)
  then have "\<bar>k - q\<bar> < 1" using d by (metis abs_ge_zero mult_less_cancel_right_disj not_less)
  with q show ?thesis by simp
qed

lemma nonneg:
  assumes "rdiv n d = Inr q" "0 \<le> n" "0 < d"
  shows "0 \<le> q"
proof (rule ccontr)
  assume "\<not> 0 \<le> q"
  then have "q * d \<le> (-1) * d" using assms(3) by (intro mult_right_mono) auto
  with rdiv_close [OF assms(1)] assms(2,3) show False by simp
qed

end

lemma abs_mod_bound: "d \<noteq> 0 \<Longrightarrow> \<bar>n mod d\<bar> < \<bar>d :: int\<bar>"
  using pos_mod_sign[of d n] pos_mod_bound[of d n] neg_mod_sign[of d n] neg_mod_bound[of d n]
  by (cases "0 < d") auto

lemma divFloor_close: "divFloor n d = Inr q \<Longrightarrow> \<bar>n - q * d\<bar> < \<bar>d\<bar>"
proof (cases "d = 0")
  case False
  assume "divFloor n d = Inr q"
  then have "q = n div d" using False by (simp add: divFloor_eq)
  then have "n - q * d = n mod d" by (simp add: minus_div_mult_eq_mod)
  with abs_mod_bound [OF False, of n] show ?thesis by simp
qed (simp add: divFloor_def)

lemma divCeil_close: "divCeil n d = Inr q \<Longrightarrow> \<bar>n - q * d\<bar> < \<bar>d\<bar>"
proof (cases "d = 0")
  case False
  assume "divCeil n d = Inr q"
  then have q: "q = - (- n div d)" using False by (simp add: divCeil_eq)
  have "n - q * d = - (- n mod d)" using minus_div_mult_eq_mod [of "- n" d] q by simp
  with abs_mod_bound [OF False, of "- n"] show ?thesis by simp
qed (simp add: divCeil_def)

lemma half_up_bound:
  fixes a b :: int assumes "0 < b"
  shows "\<bar>2 * (a - ((2 * a + b) div (2 * b)) * b)\<bar> \<le> b"
proof -
  have "(2 * a + b) mod (2 * b) = 2 * a + b - ((2 * a + b) div (2 * b)) * (2 * b)"
    by (simp add: minus_div_mult_eq_mod)
  moreover have "0 \<le> (2 * a + b) mod (2 * b)" "(2 * a + b) mod (2 * b) < 2 * b"
    using assms by simp_all
  ultimately show ?thesis by (simp add: algebra_simps abs_le_iff)
qed

lemma divHalfUp_bound:
  assumes "divHalfUp n d = Inr q"
  shows "\<bar>2 * (n - q * d)\<bar> \<le> \<bar>d\<bar>"
proof -
  have d: "d \<noteq> 0" using assms by (auto simp: divHalfUp_def)
  define k where "k = (2 * \<bar>n\<bar> + \<bar>d\<bar>) div (2 * \<bar>d\<bar>)"
  have "n = 0 \<Longrightarrow> k = 0" using d by (simp add: k_def)
  have "q = sgn n * sgn d * k" using assms d by (simp add: divHalfUp_eq k_def)
  then have "\<bar>n - q * d\<bar> = \<bar>\<bar>n\<bar> - k * \<bar>d\<bar>\<bar>"
    using \<open>n = 0 \<Longrightarrow> k = 0\<close> by (cases "n = 0") (auto simp: sgn_if abs_if algebra_simps)
  moreover have "\<bar>2 * (\<bar>n\<bar> - k * \<bar>d\<bar>)\<bar> \<le> \<bar>d\<bar>"
    using half_up_bound [of "\<bar>d\<bar>" "\<bar>n\<bar>"] d by (simp add: k_def)
  ultimately show ?thesis by (simp only: abs_mult)
qed

interpretation floor_div: rounding_division divFloor
  by unfold_locales (auto simp: divFloor_def Let_def divFloor_close simp del: One_nat_def)

interpretation ceil_div: rounding_division divCeil
  by unfold_locales (auto simp: divCeil_def Let_def divCeil_close)

interpretation half_up_div: rounding_division divHalfUp
proof
  fix n d q :: int
  show "divHalfUp n 0 = Inl DivisionByZero" by (simp add: divHalfUp_def)
  show "d \<noteq> 0 \<Longrightarrow> \<exists>q. divHalfUp n d = Inr q" by (simp add: divHalfUp_eq)
  assume q: "divHalfUp n d = Inr q"
  then have "d \<noteq> 0" by (auto simp: divHalfUp_def)
  with divHalfUp_bound [OF q] show "\<bar>n - q * d\<bar> < \<bar>d\<bar>" by (simp add: abs_mult)
qed

interpretation mode_div: rounding_division "\<lambda>n d. divide_mode n d mode" for mode
  by (cases mode) (simp_all add: floor_div.rounding_division_axioms
      ceil_div.rounding_division_axioms half_up_div.rounding_division_axioms)

lemma divFloor_le: "divFloor n d = Inr q \<Longrightarrow> 0 < d \<Longrightarrow> q * d \<le> n \<and> n < (q + 1) * d"
proof -
  assume "divFloor n d = Inr q" and d: "0 < d"
  then have "q = n div d" by (simp add: divFloor_eq)
  then have "n - q * d = n mod d" by (simp add: minus_div_mult_eq_mod)
  with pos_mod_sign [OF d, of n] pos_mod_bound [OF d, of n] show ?thesis
    by (simp add: distrib_right)
qed

lemma divCeil_ge: "divCeil n d = Inr q \<Longrightarrow> 0 < d \<Longrightarrow> n \<le> q * d \<and> (q - 1) * d < n"
proof -
  assume "divCeil n d = Inr q" and d: "0 < d"
  then have q: "q = - (- n div d)" by (simp add: divCeil_eq)
  have "n - q * d = - (- n mod d)" using minus_div_mult_eq_mod [of "- n" d] q by simp
  with pos_mod_sign [OF d, of "- n"] pos_mod_bound [OF d, of "- n"] show ?thesis
    by (simp add: left_diff_distrib)
qed
section \<open>Parsing and formatting are inverse\<close>

text \<open>The text of a decimal number: sign, whole digits, and the fraction digits after a point
  when there are any.\<close>

definition decimal_text :: "bool \<Rightarrow> string \<Rightarrow> string \<Rightarrow> string" where
  "decimal_text neg w f = (if neg then ''-'' else []) @ w @ (if f = [] then [] else CHR ''.'' # f)"

lemma assertDecimals_Inr_iff [result_simps]: "assertDecimals d = Inr u \<longleftrightarrow> 0 \<le> d \<and> d \<le> 36"
  by (auto simp: assertDecimals_def MAX_DECIMALS_def)

lemma assertDecimals_ok [simp]: "0 \<le> d \<Longrightarrow> d \<le> 36 \<Longrightarrow> assertDecimals d = Inr ()"
  by (simp add: assertDecimals_def MAX_DECIMALS_def)

lemma pow10_ok [simp]: "0 \<le> d \<Longrightarrow> d \<le> 72 \<Longrightarrow> pow10 d = Inr (10 ^ nat d)"
  by (simp add: pow10_def MAX_DECIMALS_def)

lemma pow10_Inr_iff [result_simps]: "pow10 d = Inr p \<longleftrightarrow> 0 \<le> d \<and> d \<le> 72 \<and> p = 10 ^ nat d"
  by (auto simp: pow10_def MAX_DECIMALS_def)

lemma digits_hd: "list_all is_digit w \<Longrightarrow> w \<noteq> [] \<Longrightarrow> is_digit (hd w)"
  by (cases w) auto

lemma digits_last: "list_all is_digit w \<Longrightarrow> w \<noteq> [] \<Longrightarrow> is_digit (last w)"
  by (auto simp: list_all_iff)

lemma minus_not_space: "\<not> is_space (CHR ''-'')"
  by (simp add: is_space_def Let_def)

lemma is_unsigned_decimal_text:
  assumes "w \<noteq> []" "list_all is_digit w" "list_all is_digit f"
  shows "is_unsigned_decimal (decimal_text False w f)"
  using assms by (auto simp: is_unsigned_decimal_def decimal_text_def takeWhile_append dropWhile_append list_all_iff
      Let_def)

lemma decimal_text_trim:
  assumes "w \<noteq> []" "list_all is_digit w" "list_all is_digit f"
  shows "js_trim (decimal_text neg w f) = decimal_text neg w f"
proof (rule js_trim_id)
  show "decimal_text neg w f \<noteq> []" using assms(1) by (simp add: decimal_text_def)
  show "\<not> is_space (hd (decimal_text neg w f))"
    using assms digits_hd [OF assms(2,1)] is_digit_not_space minus_not_space
    by (simp add: decimal_text_def)
  show "\<not> is_space (last (decimal_text neg w f))"
    using assms digits_last [OF assms(2,1)] digits_last [OF assms(3)] is_digit_not_space
    by (simp add: decimal_text_def)
qed

lemma decimal_text_pattern:
  assumes "w \<noteq> []" "list_all is_digit w" "list_all is_digit f"
  shows "DECIMAL_PATTERN (decimal_text neg w f)"
proof -
  obtain c cs where c: "decimal_text False w f = c # cs" "is_digit c"
    using assms(1,2) by (cases w) (auto simp: decimal_text_def)
  then have "c \<noteq> CHR ''-''" by auto
  moreover have "decimal_text True w f = CHR ''-'' # decimal_text False w f"
    by (simp add: decimal_text_def)
  ultimately show ?thesis
    using is_unsigned_decimal_text [OF assms] c(1) by (cases neg) (simp_all add: DECIMAL_PATTERN_def)
qed

lemma decimal_text_sign:
  assumes "w \<noteq> []" "list_all is_digit w"
  shows "startsWith (decimal_text neg w f) ''-'' = neg"
  using assms by (cases w) (auto simp: decimal_text_def startsWith_def)

lemma decimal_text_split:
  assumes "list_all is_digit w" "list_all is_digit f"
  shows "split_on (CHR ''.'') (w @ (if f = [] then [] else CHR ''.'' # f)) = (if f = [] then [w] else [w, f])"
  using digits_no_char [OF assms(1), of "CHR ''.''"] digits_no_char [OF assms(2), of "CHR ''.''"]
  by (simp add: split_on_none split_on_append)

lemma decimal_text_facts:
  fixes neg :: bool and w f :: string
  assumes "w \<noteq> []" "list_all is_digit w" "list_all is_digit f"
  defines "t \<equiv> decimal_text neg w f"
  shows "t \<noteq> []" "js_trim t = t" "DECIMAL_PATTERN t" "startsWith t ''-'' = neg"
    and "split_on (CHR ''.'') (if neg then drop 1 t else t) = (if f = [] then [w] else [w, f])"
proof -
  show "t \<noteq> []" "js_trim t = t" "DECIMAL_PATTERN t" "startsWith t ''-'' = neg"
    using assms(1) decimal_text_trim [OF assms(1-3)] decimal_text_pattern [OF assms(1-3)]
      decimal_text_sign [OF assms(1,2)] by (auto simp: t_def decimal_text_def)
  have "(if neg then drop 1 t else t) = w @ (if f = [] then [] else CHR ''.'' # f)"
    by (simp add: t_def decimal_text_def)
  then show "split_on (CHR ''.'') (if neg then drop 1 t else t) = (if f = [] then [w] else [w, f])"
    using decimal_text_split [OF assms(2,3)] by simp
qed

lemma parseUnits_decimal_text:
  assumes w: "w \<noteq> []" "list_all is_digit w" "list_all is_digit f"
    and d: "0 \<le> d" "d \<le> 36" "int (length f) \<le> d"
  shows "parseUnits (decimal_text neg w f) d =
    Inr ((if neg then -1 else 1) *
         (digits_value w * 10 ^ nat d + digits_value f * 10 ^ (nat d - length f)))"
proof -
  have pad: "digits_value (if padEnd (nat d) f = [] then ''0'' else padEnd (nat d) f)
      = digits_value f * 10 ^ (nat d - length f)"
    using d digits_value_padEnd [of f "nat d"] by (auto simp: padEnd_def)
  define t where "t = decimal_text neg w f"
  note facts = decimal_text_facts [OF w, of neg, folded t_def]
  show ?thesis
    using d pad unfolding parseUnits_def t_def [symmetric]
    by (cases "f = []") (simp_all add: Let_def facts split del: if_split, simp_all add: padEnd_def)
qed

lemma parseUnits_too_long:
  assumes w: "w \<noteq> []" "list_all is_digit w" "list_all is_digit f"
    and d: "0 \<le> d" "d \<le> 36" "\<not> int (length f) \<le> d"
  shows "parseUnits (decimal_text neg w f) d = Inl (TooManyPlaces (decimal_text neg w f) (length f) d)"
proof -
  have "f \<noteq> []" using d by auto
  define t where "t = decimal_text neg w f"
  note facts = decimal_text_facts [OF w, of neg, folded t_def]
  show ?thesis
    using d \<open>f \<noteq> []\<close> unfolding parseUnits_def t_def [symmetric]
    by (simp add: Let_def facts split del: if_split)
qed

lemma formatUnits_decimal_text:
  assumes d: "0 < d" "d \<le> 36"
  shows "formatUnits u d = Inr (decimal_text (u < 0) (show_digits (\<bar>u\<bar> div 10 ^ nat d))
           (padStart (nat d) (show_digits (\<bar>u\<bar> mod 10 ^ nat d))))"
proof -
  have "\<bar>u\<bar> sdiv 10 ^ nat d = \<bar>u\<bar> div 10 ^ nat d" "\<bar>u\<bar> smod 10 ^ nat d = \<bar>u\<bar> mod 10 ^ nat d"
    by (simp_all add: signed_divide_int_def signed_modulo_int_def sgn_if)
  moreover have "show_int (\<bar>u\<bar> div 10 ^ nat d) = show_digits (\<bar>u\<bar> div 10 ^ nat d)"
      "show_int (\<bar>u\<bar> mod 10 ^ nat d) = show_digits (\<bar>u\<bar> mod 10 ^ nat d)"
    by (simp_all add: show_int_nonneg div_int_pos_iff)
  moreover have "padStart (nat d) s \<noteq> []" if "s \<noteq> []" for s
    using that by (simp add: padStart_def)
  ultimately show ?thesis
    using d by (simp add: formatUnits_def Let_def abs_if [symmetric] decimal_text_def)
qed

lemma parse_formatUnits:
  assumes "0 \<le> d" "d \<le> 36"
  shows "bind_result (formatUnits u d) (\<lambda>s. parseUnits s d) = Inr u"
proof (cases "d = 0")
  case True
  have "show_int u = decimal_text (u < 0) (show_digits \<bar>u\<bar>) []"
    by (simp add: show_int_def decimal_text_def abs_if)
  then show ?thesis
    using True parseUnits_decimal_text [of "show_digits \<bar>u\<bar>" "[]" 0 "u < 0"] show_digits_digits
    by (simp add: formatUnits_def)
next
  case False
  define q r where "q = \<bar>u\<bar> div 10 ^ nat d" and "r = \<bar>u\<bar> mod 10 ^ nat d"
  have r: "r < 10 ^ nat d" by (simp add: r_def nat_less_iff)
  have u: "\<bar>u\<bar> = q * 10 ^ nat d + r"
    by (simp add: q_def r_def div_int_pos_iff div_mult_mod_eq)
  have q0: "0 \<le> q" and r0: "0 \<le> r" by (simp_all add: q_def r_def div_int_pos_iff)
  have len: "length (padStart (nat d) (show_digits r)) = nat d"
    using length_show_digits [OF r] False assms by (simp add: length_padStart)
  have "parseUnits (decimal_text (u < 0) (show_digits q) (padStart (nat d) (show_digits r))) d
      = Inr ((if u < 0 then -1 else 1) * \<bar>u\<bar>)"
    using parseUnits_decimal_text [of "show_digits q" "padStart (nat d) (show_digits r)" d "u < 0"]
      assms len q0 r0 show_digits_digits [OF q0] digits_padStart [OF show_digits_digits [OF r0]] u by simp
  then show ?thesis
    using False assms formatUnits_decimal_text [of d u] by (simp add: q_def r_def abs_if)
qed


text \<open>Trimming only removes zeros that padding puts back.\<close>

lemma strip_trailing_zeros_text:
  assumes "list_all is_digit f" "f \<noteq> []"
  obtains g z where "f = g @ replicate z (CHR ''0'')" "list_all is_digit g"
    "strip_trailing_zeros (decimal_text neg w f) = decimal_text neg w g"
proof -
  define p where "p = (if neg then ''-'' else []) @ w"
  define g where "g = rev (dropWhile (\<lambda>c. c = CHR ''0'') (rev f))"
  define z where "z = length (takeWhile (\<lambda>c. c = CHR ''0'') (rev f))"
  have "takeWhile (\<lambda>c. c = CHR ''0'') (rev f) = replicate z (CHR ''0'')"
    unfolding z_def by (rule replicate_length_same [symmetric]) (auto dest: set_takeWhileD)
  then have rf: "rev f = replicate z (CHR ''0'') @ rev g"
    using takeWhile_dropWhile_id [of "\<lambda>c. c = CHR ''0''" "rev f"] by (simp add: g_def)
  from arg_cong [OF rf, of rev] have f: "f = g @ replicate z (CHR ''0'')" by simp
  have g1: "rev g = dropWhile (\<lambda>c. c = CHR ''0'') (rev f)" by (simp add: g_def)
  have g2: "list_all is_digit g" using assms(1) unfolding f by simp
  have drop: "dropWhile (\<lambda>c. c = CHR ''0'') (rev g @ CHR ''.'' # rev p) = rev g @ CHR ''.'' # rev p"
  proof (rule dropWhile_id)
    have "rev g \<noteq> [] \<Longrightarrow> hd (rev g) \<noteq> CHR ''0''" unfolding g1 by (rule hd_dropWhile)
    then show "rev g @ CHR ''.'' # rev p = [] \<or> hd (rev g @ CHR ''.'' # rev p) \<noteq> CHR ''0''"
      by (cases "rev g") auto
  qed
  have rp: "rev (p @ CHR ''.'' # f) = replicate z (CHR ''0'') @ (rev g @ CHR ''.'' # rev p)"
    by (simp add: rf)
  have r: "dropWhile (\<lambda>c. c = CHR ''0'') (rev (p @ CHR ''.'' # f)) = rev g @ CHR ''.'' # rev p"
    unfolding rp by (subst dropWhile_append2) (simp, rule drop)
  have "strip_trailing_zeros (p @ CHR ''.'' # f) = p @ (if g = [] then [] else CHR ''.'' # g)"
  proof (cases "g = []")
    case True
    have "length (rev g @ CHR ''.'' # rev p) \<noteq> length (p @ CHR ''.'' # f)"
      using True assms(2) by simp
    then show ?thesis unfolding strip_trailing_zeros_def r Let_def using True by simp
  next
    case False
    then obtain c cs where c: "rev g = c # cs" by (metis list.exhaust rev_is_Nil_conv)
    then have "c \<in> set g" by (metis list.set_intros(1) set_rev)
    then have "is_digit c" using g2 by (simp add: list_all_iff)
    then have "c \<noteq> CHR ''.''" by auto
    then have "rev (case rev g @ CHR ''.'' # rev p of [] \<Rightarrow> [] | c # cs \<Rightarrow>
        if c = CHR ''.'' then cs else rev g @ CHR ''.'' # rev p) = rev (rev g @ CHR ''.'' # rev p)"
      by (simp add: c)
    moreover have "length (rev g @ CHR ''.'' # rev p) = length (p @ CHR ''.'' # f) \<Longrightarrow> g = f"
      using f by simp
    ultimately show ?thesis using False unfolding strip_trailing_zeros_def r Let_def
      by (cases "length (rev g @ CHR ''.'' # rev p) = length (p @ CHR ''.'' # f)") simp_all
  qed
  then have "strip_trailing_zeros (decimal_text neg w f) = decimal_text neg w g"
    using assms(2) by (simp add: decimal_text_def p_def)
  with f g2 show thesis using that by blast
qed

lemma parse_formatUnitsTrimmed:
  assumes "0 \<le> d" "d \<le> 36"
  shows "bind_result (formatUnitsTrimmed u d) (\<lambda>s. parseUnits s d) = Inr u"
proof (cases "d = 0")
  case True
  have "CHR ''.'' \<notin> set (show_int u)"
    by (auto simp: show_int_def show_digits_no_char dest: show_digits_no_char)
  with True parse_formatUnits [OF assms, of u] show ?thesis
    by (simp add: formatUnitsTrimmed_def formatUnits_def)
next
  case False
  define w f where "w = show_digits (\<bar>u\<bar> div 10 ^ nat d)"
    and "f = padStart (nat d) (show_digits (\<bar>u\<bar> mod 10 ^ nat d))"
  have fmt: "formatUnits u d = Inr (decimal_text (u < 0) w f)"
    using False assms formatUnits_decimal_text [of d u] by (simp add: w_def f_def)
  have w: "w \<noteq> []" "list_all is_digit w" and fd: "list_all is_digit f" "f \<noteq> []"
    by (simp_all add: w_def f_def show_digits_digits digits_padStart div_int_pos_iff)
      (simp add: padStart_def)
  have len: "length f = nat d"
    using length_show_digits [of "\<bar>u\<bar> mod 10 ^ nat d" "nat d"] False assms
    by (simp add: f_def length_padStart nat_less_iff)
  obtain g z where g: "f = g @ replicate z (CHR ''0'')" "list_all is_digit g"
      "strip_trailing_zeros (decimal_text (u < 0) w f) = decimal_text (u < 0) w g"
    using strip_trailing_zeros_text [OF fd] by metis
  have "digits_value f = digits_value g * 10 ^ (nat d - length g)"
    using len g(1) by (auto simp: digits_value_append)
  moreover have "int (length g) \<le> d" using len g(1) assms by simp
  ultimately have "parseUnits (decimal_text (u < 0) w g) d = parseUnits (decimal_text (u < 0) w f) d"
    using parseUnits_decimal_text [OF w fd(1), of d "u < 0"]
      parseUnits_decimal_text [OF w g(2), of d "u < 0"] assms len by simp
  moreover have "CHR ''.'' \<in> set (decimal_text (u < 0) w f)"
    using fd by (simp add: decimal_text_def)
  ultimately show ?thesis
    using parse_formatUnits [OF assms, of u] g(3) by (simp add: formatUnitsTrimmed_def fmt)
qed

section \<open>Properties\<close>

text \<open>The three divisions round as their names say, for every numerator and every positive
  denominator: \<open>floor\<close> gives the largest integer not above the quotient, \<open>ceil\<close> the smallest
  not below it, \<open>half-up\<close> one that is at most half a unit away, and a zero denominator is
  rejected in every mode.\<close>

lemma divide_mode_rounds:
  assumes "0 < d"
  shows "(\<exists>q. divide_mode n d Floor = Inr q \<and> q * d \<le> n \<and> n < (q + 1) * d)
    \<and> (\<exists>q. divide_mode n d Ceil = Inr q \<and> (q - 1) * d < n \<and> n \<le> q * d)
    \<and> (\<exists>q. divide_mode n d HalfUp = Inr q \<and> \<bar>2 * (n - q * d)\<bar> \<le> d)
    \<and> divide_mode n 0 mode = Inl DivisionByZero"
proof -
  have d: "d \<noteq> 0" using assms by simp
  obtain q1 q2 q3 where "divFloor n d = Inr q1" "divCeil n d = Inr q2" "divHalfUp n d = Inr q3"
    using floor_div.rdiv_total [OF d] ceil_div.rdiv_total [OF d] half_up_div.rdiv_total [OF d] by blast
  then show ?thesis
    using assms divFloor_le [of n d q1] divCeil_ge [of n d q2] divHalfUp_bound [of n d q3]
      mode_div.rdiv_zero [of n mode] by auto
qed

text \<open>C22: a formatted amount parses back to exactly the same units, for every amount, negative
  ones included, and every supported precision, and so does its display form without trailing
  zeros.\<close>

theorem format_parse_roundtrip:
  assumes "0 \<le> d" "d \<le> MAX_DECIMALS"
  shows "bind_result (formatUnits u d) (\<lambda>s. parseUnits s d) = Inr u
    \<and> bind_result (formatUnitsTrimmed u d) (\<lambda>s. parseUnits s d) = Inr u"
  using assms parse_formatUnits parse_formatUnitsTrimmed by (simp add: MAX_DECIMALS_def)

theorem format_parse_roundtrip_witness:
  "bind_result (formatUnits (-1500) 6) (\<lambda>s. parseUnits s 6) = Inr (-1500)
   \<and> formatUnitsTrimmed 1500 6 = Inr ''0.0015''"
  using format_parse_roundtrip [of 6 "-1500"] by (simp add: MAX_DECIMALS_def) code_simp

text \<open>Parsing never truncates: a decimal text with no more fraction digits than the asset
  supports denotes exactly the scaled value, and one with more is rejected, whatever the digits
  are.\<close>

lemma parseUnits_never_truncates:
  assumes "w \<noteq> []" "list_all is_digit w" "list_all is_digit f" "0 \<le> d" "d \<le> MAX_DECIMALS"
  shows "parseUnits (decimal_text neg w f) d =
    (if int (length f) \<le> d
     then Inr ((if neg then -1 else 1) * digits_value (w @ f) * 10 ^ (nat d - length f))
     else Inl (TooManyPlaces (decimal_text neg w f) (length f) d))"
proof (cases "int (length f) \<le> d")
  case True
  have "digits_value w * 10 ^ nat d + digits_value f * 10 ^ (nat d - length f)
      = digits_value (w @ f) * 10 ^ (nat d - length f)"
    using True assms(4) by (simp add: digits_value_append distrib_right mult.assoc flip: power_add)
  with parseUnits_decimal_text [OF assms(1-4), of neg] assms(5) True show ?thesis
    by (simp add: MAX_DECIMALS_def)
next
  case False
  with parseUnits_too_long [OF assms(1-4), of neg] assms(5) show ?thesis
    by (simp add: MAX_DECIMALS_def)
qed

end
