(* ===== verification/Money.thy ===== *)
theory Money
  imports Decimal
begin

text \<open>
  Amounts tagged with their asset (\<open>packages/shared/src/money/money.ts\<close>) and price observations
  (\<open>packages/shared/src/money/exchange-rate.ts\<close>). The arithmetic on amounts is the abstract
  contract of an asset-tagged group; conversion of an invoice amount is proved never to
  undercharge.
\<close>

section \<open>Money\<close>

record money =
  m_units :: int
  m_asset :: string
  m_decimals :: int

definition mk_money :: "int \<Rightarrow> string \<Rightarrow> int \<Rightarrow> money" where
  "mk_money u a d = \<lparr>m_units = u, m_asset = a, m_decimals = d\<rparr>"

definition fromUnits :: "int \<Rightarrow> string \<Rightarrow> int \<Rightarrow> money" where
  "fromUnits u a d = mk_money u a d"

definition fromDecimal :: "string \<Rightarrow> string \<Rightarrow> int \<Rightarrow> money_error + money" where
  "fromDecimal value a d = bind_result (parseUnits value d) (\<lambda>u. Inr (mk_money u a d))"

definition zero_money :: "string \<Rightarrow> int \<Rightarrow> money" where
  "zero_money a d = mk_money 0 a d"

definition assertSameAsset :: "money \<Rightarrow> money \<Rightarrow> money_error + unit" where
  "assertSameAsset x y =
     (if m_asset x \<noteq> m_asset y \<or> m_decimals x \<noteq> m_decimals y
      then Inl (CannotCombine (m_asset x) (m_decimals x) (m_asset y) (m_decimals y)) else Inr ())"

definition money_add :: "money \<Rightarrow> money \<Rightarrow> money_error + money" where
  "money_add x y = bind_result (assertSameAsset x y)
     (\<lambda>_. Inr (mk_money (m_units x + m_units y) (m_asset x) (m_decimals x)))"

definition money_subtract :: "money \<Rightarrow> money \<Rightarrow> money_error + money" where
  "money_subtract x y = bind_result (assertSameAsset x y)
     (\<lambda>_. Inr (mk_money (m_units x - m_units y) (m_asset x) (m_decimals x)))"

definition multiplyInteger :: "money \<Rightarrow> int \<Rightarrow> money" where
  "multiplyInteger x factor = mk_money (m_units x * factor) (m_asset x) (m_decimals x)"

text \<open>The module's own division helpers.\<close>

definition floorDiv :: "int \<Rightarrow> int \<Rightarrow> int" where
  "floorDiv numerator denominator =
     (let quotient = numerator sdiv denominator;
          negative = ((numerator < 0) \<noteq> (denominator < 0))
      in if negative \<and> numerator smod denominator \<noteq> 0 then quotient - 1 else quotient)"

definition ceilDiv :: "int \<Rightarrow> int \<Rightarrow> int" where
  "ceilDiv numerator denominator =
     (let quotient = numerator sdiv denominator;
          positive = ((numerator < 0) = (denominator < 0))
      in if positive \<and> numerator smod denominator \<noteq> 0 then quotient + 1 else quotient)"

definition halfUpDiv :: "int \<Rightarrow> int \<Rightarrow> int" where
  "halfUpDiv numerator denominator =
     (let negative = ((numerator < 0) \<noteq> (denominator < 0));
          absN = (if numerator < 0 then - numerator else numerator);
          absD = (if denominator < 0 then - denominator else denominator);
          quotient = absN sdiv absD;
          remainder = absN smod absD;
          rounded = (if remainder * 2 \<ge> absD then quotient + 1 else quotient)
      in if negative then - rounded else rounded)"

definition multiplyRatio :: "money \<Rightarrow> int \<Rightarrow> int \<Rightarrow> rounding_mode \<Rightarrow> money_error + money" where
  "multiplyRatio x numerator denominator mode =
     (if denominator = 0 then Inl DenominatorZero
      else
        let product = m_units x * numerator;
            scaled = (if mode = Floor then floorDiv product denominator
                      else if mode = Ceil then ceilDiv product denominator
                      else halfUpDiv product denominator)
        in Inr (mk_money scaled (m_asset x) (m_decimals x)))"

definition percentageBps :: "money \<Rightarrow> int \<Rightarrow> rounding_mode \<Rightarrow> money_error + money" where
  "percentageBps x bps mode = multiplyRatio x bps 10000 mode"

definition money_compare :: "money \<Rightarrow> money \<Rightarrow> money_error + int" where
  "money_compare x y = bind_result (assertSameAsset x y)
     (\<lambda>_. Inr (if m_units x < m_units y then -1 else if m_units x > m_units y then 1 else 0))"

definition money_equals :: "money \<Rightarrow> money \<Rightarrow> bool" where
  "money_equals x y \<longleftrightarrow> m_asset x = m_asset y \<and> m_decimals x = m_decimals y \<and> m_units x = m_units y"

definition greaterThan :: "money \<Rightarrow> money \<Rightarrow> money_error + bool" where
  "greaterThan x y = bind_result (money_compare x y) (\<lambda>c. Inr (c = 1))"

definition greaterThanOrEqual :: "money \<Rightarrow> money \<Rightarrow> money_error + bool" where
  "greaterThanOrEqual x y = bind_result (money_compare x y) (\<lambda>c. Inr (c \<ge> 0))"

definition lessThan :: "money \<Rightarrow> money \<Rightarrow> money_error + bool" where
  "lessThan x y = bind_result (money_compare x y) (\<lambda>c. Inr (c = -1))"

definition lessThanOrEqual :: "money \<Rightarrow> money \<Rightarrow> money_error + bool" where
  "lessThanOrEqual x y = bind_result (money_compare x y) (\<lambda>c. Inr (c \<le> 0))"

definition isZero :: "money \<Rightarrow> bool" where "isZero x \<longleftrightarrow> m_units x = 0"
definition isPositive :: "money \<Rightarrow> bool" where "isPositive x \<longleftrightarrow> m_units x > 0"
definition isNegative :: "money \<Rightarrow> bool" where "isNegative x \<longleftrightarrow> m_units x < 0"

definition money_abs :: "money \<Rightarrow> money" where
  "money_abs x = mk_money (absUnits (m_units x)) (m_asset x) (m_decimals x)"

definition money_negate :: "money \<Rightarrow> money" where
  "money_negate x = mk_money (- m_units x) (m_asset x) (m_decimals x)"

definition withDecimals :: "money \<Rightarrow> int \<Rightarrow> rounding_mode \<Rightarrow> money_error + money" where
  "withDecimals x d mode =
     bind_result (rescaleUnits (m_units x) (m_decimals x) d mode) (\<lambda>u. Inr (mk_money u (m_asset x) d))"

definition toDecimalString :: "money \<Rightarrow> money_error + string" where
  "toDecimalString x = formatUnits (m_units x) (m_decimals x)"

definition toTrimmedString :: "money \<Rightarrow> money_error + string" where
  "toTrimmedString x = formatUnitsTrimmed (m_units x) (m_decimals x)"

record money_json =
  mj_units :: string
  mj_asset :: string
  mj_decimals :: int
  mj_amount :: string

definition money_toJSON :: "money \<Rightarrow> money_error + money_json" where
  "money_toJSON x = bind_result (toDecimalString x) (\<lambda>s.
     Inr \<lparr>mj_units = show_int (m_units x), mj_asset = m_asset x, mj_decimals = m_decimals x, mj_amount = s\<rparr>)"

definition money_toString :: "money \<Rightarrow> money_error + string" where
  "money_toString x = bind_result (toDecimalString x) (\<lambda>s. Inr (s @ '' '' @ m_asset x))"

section \<open>Exchange rates\<close>

definition RATE_SCALE :: int where
  "RATE_SCALE = 18"

record exchange_rate =
  er_base :: string
  er_quote :: string
  er_numerator :: int
  er_provider :: string
  er_observedAt :: int

definition mk_rate :: "string \<Rightarrow> string \<Rightarrow> int \<Rightarrow> string \<Rightarrow> int \<Rightarrow> money_error + exchange_rate" where
  "mk_rate base qt numerator provider observedAt =
     (if numerator \<le> 0 then Inl (RateNotPositive numerator)
      else Inr \<lparr>er_base = base, er_quote = qt, er_numerator = numerator,
                er_provider = provider, er_observedAt = observedAt\<rparr>)"

definition rate_fromDecimal :: "string \<Rightarrow> string \<Rightarrow> string \<Rightarrow> string \<Rightarrow> int \<Rightarrow> money_error + exchange_rate" where
  "rate_fromDecimal base qt rate provider observedAt =
     bind_result (parseUnits rate RATE_SCALE) (\<lambda>n. mk_rate base qt n provider observedAt)"

definition fromScaledNumerator :: "string \<Rightarrow> string \<Rightarrow> int \<Rightarrow> string \<Rightarrow> int \<Rightarrow> money_error + exchange_rate" where
  "fromScaledNumerator base qt numerator provider observedAt = mk_rate base qt numerator provider observedAt"

definition rate_identity :: "string \<Rightarrow> string \<Rightarrow> int \<Rightarrow> money_error + exchange_rate" where
  "rate_identity a provider observedAt =
     bind_result (pow10 RATE_SCALE) (\<lambda>p. mk_rate a a p provider observedAt)"

definition ageMs :: "exchange_rate \<Rightarrow> int \<Rightarrow> int" where
  "ageMs r now = now - er_observedAt r"

definition isStale :: "exchange_rate \<Rightarrow> int \<Rightarrow> int \<Rightarrow> bool" where
  "isStale r now maxAgeMs \<longleftrightarrow> ageMs r now > maxAgeMs"

definition rate_toDecimalString :: "exchange_rate \<Rightarrow> money_error + string" where
  "rate_toDecimalString r =
     bind_result (pow10 RATE_SCALE) (\<lambda>divisor.
       Inr (show_int (er_numerator r sdiv divisor) @ ''.'' @
            padStart (nat RATE_SCALE) (show_int (er_numerator r smod divisor))))"

definition convertQuoteToBase ::
  "exchange_rate \<Rightarrow> money \<Rightarrow> int \<Rightarrow> rounding_mode \<Rightarrow> money_error + money" where
  "convertQuoteToBase r amount baseDecimals mode =
     (if m_asset amount \<noteq> er_quote r then Inl (CannotPrice (er_base r) (er_quote r) (m_asset amount))
      else
        bind_result (pow10 baseDecimals) (\<lambda>pb.
        bind_result (pow10 RATE_SCALE) (\<lambda>ps.
        bind_result (pow10 (m_decimals amount)) (\<lambda>pa.
        bind_result (divide_mode (m_units amount * pb * ps) (pa * er_numerator r) mode) (\<lambda>u.
        Inr (fromUnits u (er_base r) baseDecimals))))))"

definition convertBaseToQuote ::
  "exchange_rate \<Rightarrow> money \<Rightarrow> int \<Rightarrow> rounding_mode \<Rightarrow> money_error + money" where
  "convertBaseToQuote r amount quoteDecimals mode =
     (if m_asset amount \<noteq> er_base r then Inl (CannotValue (er_base r) (er_quote r) (m_asset amount))
      else
        bind_result (pow10 quoteDecimals) (\<lambda>pq.
        bind_result (pow10 RATE_SCALE) (\<lambda>ps.
        bind_result (pow10 (m_decimals amount)) (\<lambda>pa.
        bind_result (divide_mode (m_units amount * er_numerator r * pq) (ps * pa) mode) (\<lambda>u.
        Inr (fromUnits u (er_quote r) quoteDecimals))))))"

record rate_json =
  rj_base :: string
  rj_quote :: string
  rj_rate :: string
  rj_numerator :: string
  rj_scale :: int
  rj_provider :: string
  rj_observedAt :: int

definition rate_toJSON :: "exchange_rate \<Rightarrow> money_error + rate_json" where
  "rate_toJSON r = bind_result (rate_toDecimalString r) (\<lambda>s.
     Inr \<lparr>rj_base = er_base r, rj_quote = er_quote r, rj_rate = s,
          rj_numerator = show_int (er_numerator r), rj_scale = RATE_SCALE,
          rj_provider = er_provider r, rj_observedAt = er_observedAt r\<rparr>)"

section \<open>Lemmas\<close>

lemma mk_money_sel [simp]:
  "m_units (mk_money u a d) = u" "m_asset (mk_money u a d) = a" "m_decimals (mk_money u a d) = d"
  by (simp_all add: mk_money_def)

lemma mk_money_id [simp]: "mk_money (m_units x) (m_asset x) (m_decimals x) = x"
  by (simp add: mk_money_def)

lemma mk_money_eq_iff: "mk_money u a d = mk_money u' a' d' \<longleftrightarrow> u = u' \<and> a = a' \<and> d = d'"
  by (auto simp: mk_money_def)

definition same_asset :: "money \<Rightarrow> money \<Rightarrow> bool" where
  "same_asset x y \<longleftrightarrow> m_asset x = m_asset y \<and> m_decimals x = m_decimals y"

lemma assertSameAsset_Inr_iff [result_simps]: "assertSameAsset x y = Inr u \<longleftrightarrow> same_asset x y"
  by (auto simp: assertSameAsset_def same_asset_def)

lemma assertSameAsset_ok [simp]: "same_asset x y \<Longrightarrow> assertSameAsset x y = Inr ()"
  by (simp add: result_simps)

lemma same_asset_mk [simp]: "same_asset (mk_money u a d) (mk_money u' a d)"
  by (simp add: same_asset_def)

lemma money_add_Inr_iff [result_simps]:
  "money_add x y = Inr z \<longleftrightarrow> same_asset x y \<and> z = mk_money (m_units x + m_units y) (m_asset x) (m_decimals x)"
  by (auto simp: money_add_def result_simps)

lemma money_subtract_Inr_iff [result_simps]:
  "money_subtract x y = Inr z \<longleftrightarrow> same_asset x y \<and> z = mk_money (m_units x - m_units y) (m_asset x) (m_decimals x)"
  by (auto simp: money_subtract_def result_simps)

lemma lessThan_same: "same_asset x y \<Longrightarrow> lessThan x y = Inr (m_units x < m_units y)"
  by (simp add: lessThan_def money_compare_def)

lemma greaterThan_same: "same_asset x y \<Longrightarrow> greaterThan x y = Inr (m_units x > m_units y)"
  by (simp add: greaterThan_def money_compare_def)

lemma lessThanOrEqual_same: "same_asset x y \<Longrightarrow> lessThanOrEqual x y = Inr (m_units x \<le> m_units y)"
  by (simp add: lessThanOrEqual_def money_compare_def)

lemma greaterThanOrEqual_same: "same_asset x y \<Longrightarrow> greaterThanOrEqual x y = Inr (m_units x \<ge> m_units y)"
  by (simp add: greaterThanOrEqual_def money_compare_def)

lemmas comparison_same = lessThan_same greaterThan_same lessThanOrEqual_same greaterThanOrEqual_same

lemma money_div_helpers:
  assumes "d \<noteq> 0"
  shows "divFloor n d = Inr (floorDiv n d)" "divCeil n d = Inr (ceilDiv n d)"
    "divHalfUp n d = Inr (halfUpDiv n d)"
  using assms by (auto simp: divFloor_def floorDiv_def divCeil_def ceilDiv_def divHalfUp_def halfUpDiv_def Let_def)

lemma multiplyRatio_divide:
  assumes "d \<noteq> 0"
  shows "multiplyRatio x n d mode =
    bind_result (divide_mode (m_units x * n) d mode) (\<lambda>u. Inr (mk_money u (m_asset x) (m_decimals x)))"
  using assms by (cases mode) (simp_all add: multiplyRatio_def money_div_helpers Let_def)

lemma percentageBps_floor:
  "percentageBps x bps Floor = Inr (mk_money (m_units x * bps div 10000) (m_asset x) (m_decimals x))"
  by (simp add: percentageBps_def multiplyRatio_divide divFloor_eq)

lemma bps_share_bounds:
  assumes "0 \<le> u" "0 \<le> bps" "bps \<le> (10000::int)"
  shows "0 \<le> u * bps div 10000" "u * bps div 10000 \<le> u"
proof -
  show "0 \<le> u * bps div 10000" using assms by (simp add: pos_imp_zdiv_nonneg_iff)
  have "u * bps div 10000 \<le> u * 10000 div 10000"
    using assms by (intro zdiv_mono1 mult_left_mono) auto
  then show "u * bps div 10000 \<le> u" by simp
qed

lemma mk_rate_Inr_iff [result_simps]:
  "mk_rate b q n p t = Inr r \<longleftrightarrow> 0 < n \<and>
     r = \<lparr>er_base = b, er_quote = q, er_numerator = n, er_provider = p, er_observedAt = t\<rparr>"
  by (auto simp: mk_rate_def)

lemma le_div_of_mult_le: "0 < b \<Longrightarrow> a * b \<le> n \<Longrightarrow> a \<le> n div (b::int)"
  by (metis nonzero_mult_div_cancel_right order_less_irrefl zdiv_mono1)

text \<open>What a client of asset-tagged amounts relies on: addition and subtraction fail exactly on
  amounts of different assets, and subtracting a part and adding it back gives the whole.\<close>

locale tagged_amounts =
  fixes plus_op minus_op :: "'m \<Rightarrow> 'm \<Rightarrow> 'e + 'm"
    and tag_of :: "'m \<Rightarrow> 't"
    and amount_of :: "'m \<Rightarrow> int"
  assumes plus_law: "plus_op x y = Inr z \<longleftrightarrow> tag_of x = tag_of y \<and> tag_of z = tag_of x \<and> amount_of z = amount_of x + amount_of y"
    and minus_law: "minus_op x y = Inr z \<longleftrightarrow> tag_of x = tag_of y \<and> tag_of z = tag_of x \<and> amount_of z = amount_of x - amount_of y"
    and plus_total: "tag_of x = tag_of y \<Longrightarrow> \<exists>z. plus_op x y = Inr z"
begin

lemma split_rejoins: "minus_op whole part = Inr rest \<Longrightarrow> plus_op rest part = Inr whole"
  by (simp add: plus_law minus_law)

lemma plus_commutes: "plus_op x y = Inr z \<Longrightarrow> plus_op y x = Inr z"
  by (simp add: plus_law)

lemma plus_assoc:
  assumes "plus_op x y = Inr xy" "plus_op y z = Inr yz"
  shows "plus_op xy z = plus_op x yz"
proof -
  have "tag_of x = tag_of yz" using assms by (simp add: plus_law)
  then obtain s where s: "plus_op x yz = Inr s" using plus_total by blast
  with assms have "plus_op xy z = Inr s" by (simp add: plus_law)
  with s show ?thesis by simp
qed

end

interpretation money_ops: tagged_amounts money_add money_subtract "\<lambda>x. (m_asset x, m_decimals x)" m_units
  by unfold_locales
    (auto simp: money_add_def money_subtract_def assertSameAsset_def bind_result_def mk_money_def)

section \<open>Properties\<close>

text \<open>The amount arithmetic never mixes assets: addition and subtraction succeed exactly on
  amounts with the same asset code and precision, a part taken out of an amount and added back
  gives the amount, and addition is commutative and associative where it is defined.\<close>

lemma money_arithmetic_laws:
  "((\<exists>z. money_add x y = Inr z) \<longleftrightarrow> m_asset x = m_asset y \<and> m_decimals x = m_decimals y)
   \<and> (\<forall>rest. money_subtract x y = Inr rest \<longrightarrow> money_add rest y = Inr x)
   \<and> (\<forall>z. money_add x y = Inr z \<longrightarrow> money_add y x = Inr z)
   \<and> (\<forall>xy yw. money_add x y = Inr xy \<longrightarrow> money_add y w = Inr yw \<longrightarrow> money_add xy w = money_add x yw)"
proof (intro conjI allI impI)
  show "(\<exists>z. money_add x y = Inr z) \<longleftrightarrow> m_asset x = m_asset y \<and> m_decimals x = m_decimals y"
    by (simp add: result_simps same_asset_def)
qed (erule money_ops.split_rejoins, erule money_ops.plus_commutes, rule money_ops.plus_assoc)

text \<open>The share of an amount in basis points, rounded down, is between nothing and the whole
  and at most one unit below the exact share; for every mode the private division helpers of the
  amount class compute what the shared rounding divisions compute.\<close>

lemma percentageBps_bounds:
  assumes "0 \<le> m_units x" "0 \<le> bps" "bps \<le> 10000"
  shows "\<exists>share. percentageBps x bps Floor = Inr share \<and> same_asset x share
      \<and> 0 \<le> m_units share \<and> m_units share \<le> m_units x
      \<and> m_units share * 10000 \<le> m_units x * bps \<and> m_units x * bps < (m_units share + 1) * 10000
      \<and> (\<forall>mode. percentageBps x bps mode =
            bind_result (divide_mode (m_units x * bps) 10000 mode) (\<lambda>u. Inr (mk_money u (m_asset x) (m_decimals x))))"
  using bps_share_bounds [OF assms] divFloor_le [of "m_units x * bps" 10000 "m_units x * bps div 10000"]
  by (auto simp: percentageBps_floor same_asset_def divFloor_eq)
    (simp add: percentageBps_def multiplyRatio_divide)

text \<open>C21: pricing an invoice never undercharges: the amount of crypto computed for a fiat amount
  is the smallest number of units whose value at the frozen rate covers it, and valuing that
  crypto back at the same rate, rounded down, gives at least the invoiced amount.\<close>

theorem convertQuoteToBase_never_undercharges:
  assumes "m_asset amount = er_quote r" "0 < er_numerator r"
    and "0 \<le> bd" "bd \<le> 72" "0 \<le> m_decimals amount" "m_decimals amount \<le> 72"
  shows "\<exists>crypto. convertQuoteToBase r amount bd Ceil = Inr crypto
      \<and> m_asset crypto = er_base r \<and> m_decimals crypto = bd
      \<and> m_units amount * 10 ^ nat bd * 10 ^ 18 \<le> m_units crypto * (10 ^ nat (m_decimals amount) * er_numerator r)
      \<and> (m_units crypto - 1) * (10 ^ nat (m_decimals amount) * er_numerator r) < m_units amount * 10 ^ nat bd * 10 ^ 18
      \<and> (\<exists>back. convertBaseToQuote r crypto (m_decimals amount) Floor = Inr back \<and> m_units amount \<le> m_units back)"
proof -
  let ?n = "m_units amount * 10 ^ nat bd * 10 ^ 18" and ?d = "10 ^ nat (m_decimals amount) * er_numerator r"
  have d: "0 < ?d" using assms(2) by simp
  then obtain u where u: "divCeil ?n ?d = Inr u" using ceil_div.rdiv_total [of ?d ?n] by (metis order_less_irrefl)
  from divCeil_ge [OF u d] have le: "?n \<le> u * ?d" and lt: "(u - 1) * ?d < ?n" by blast+
  have conv: "convertQuoteToBase r amount bd Ceil = Inr (mk_money u (er_base r) bd)"
    using assms u by (simp add: convertQuoteToBase_def RATE_SCALE_def fromUnits_def)
  have "m_units amount * (10 ^ 18 * 10 ^ nat bd) \<le> u * er_numerator r * 10 ^ nat (m_decimals amount)"
    using le by (simp add: ac_simps)
  then have "m_units amount \<le> u * er_numerator r * 10 ^ nat (m_decimals amount) div (10 ^ 18 * 10 ^ nat bd)"
    by (intro le_div_of_mult_le) simp_all
  then have "\<exists>back. convertBaseToQuote r (mk_money u (er_base r) bd) (m_decimals amount) Floor = Inr back
      \<and> m_units amount \<le> m_units back"
    using assms by (simp add: convertBaseToQuote_def RATE_SCALE_def fromUnits_def divFloor_eq)
  with conv le lt show ?thesis by auto
qed

theorem convertQuoteToBase_never_undercharges_witness:
  "\<exists>r crypto. rate_fromDecimal ''ETH'' ''USD'' ''3000.55'' ''coingecko'' 0 = Inr r
     \<and> convertQuoteToBase r (fromUnits 10000 ''USD'' 2) 18 Ceil = Inr crypto
     \<and> (\<exists>back. convertBaseToQuote r crypto 2 Floor = Inr back \<and> 10000 \<le> m_units back)"
proof -
  let ?r = "\<lparr>er_base = ''ETH'', er_quote = ''USD'', er_numerator = 3000550000000000000000,
     er_provider = ''coingecko'', er_observedAt = 0\<rparr>"
  have "rate_fromDecimal ''ETH'' ''USD'' ''3000.55'' ''coingecko'' 0 = Inr ?r" by code_simp
  then show ?thesis
    using convertQuoteToBase_never_undercharges [of "fromUnits 10000 ''USD'' 2" ?r 18]
    by (auto simp: fromUnits_def)
qed

end
