(* ===== verification/Errors.thy ===== *)
theory Errors
  imports Prelude
begin

text \<open>
  The public error vocabulary (\<open>packages/shared/src/errors/app-error.ts\<close>) and the prefixed
  identifiers (\<open>packages/shared/src/ids/id.ts\<close>). The ULID generator is a package outside the
  repository: it is a parameter of \<open>newId\<close>.
\<close>

section \<open>JSON values\<close>

datatype json =
    JNull
  | JBool bool
  | JNum int
  | JStr string
  | JArr "json list"
  | JObj "(string \<times> json) list"

text \<open>\<open>JSON.stringify\<close> on strings.\<close>

definition json_escape :: "char \<Rightarrow> string" where
  "json_escape c = (let n = (of_char c :: nat) in
     if n = 34 then [CHR 0x5C, CHR 0x22] else if n = 92 then [CHR 0x5C, CHR 0x5C]
     else if n = 8 then [CHR 0x5C, CHR ''b''] else if n = 9 then [CHR 0x5C, CHR ''t''] else if n = 10 then [CHR 0x5C, CHR ''n'']
     else if n = 12 then [CHR 0x5C, CHR ''f''] else if n = 13 then [CHR 0x5C, CHR ''r'']
     else if n < 32 then [CHR 0x5C, CHR ''u'', CHR ''0'', CHR ''0'', hex_digit (n div 16), hex_digit (n mod 16)]
     else [c])"

definition json_quote :: "string \<Rightarrow> string" where
  "json_quote s = CHR 0x22 # concat (map json_escape s) @ [CHR 0x22]"

text \<open>\<open>JSON.stringify\<close> on values.\<close>

fun json_stringify :: "json \<Rightarrow> string" where
  "json_stringify JNull = ''null''"
| "json_stringify (JBool b) = (if b then ''true'' else ''false'')"
| "json_stringify (JNum n) = show_int n"
| "json_stringify (JStr s) = json_quote s"
| "json_stringify (JArr xs) = ''['' @ join_with (CHR '','') (map json_stringify xs) @ '']''"
| "json_stringify (JObj fs) = ''{'' @ join_with (CHR '','') (map (\<lambda>(k, v). json_quote k @ '':'' @ json_stringify v) fs) @ ''}''"

section \<open>Application errors\<close>

datatype error_code =
    VALIDATION_FAILED | INVALID_AMOUNT | INVALID_ADDRESS | UNSUPPORTED_ASSET_CODE | UNSUPPORTED_NETWORK
  | NETWORK_LIVEMODE_MISMATCH | INVALID_STATE_TRANSITION
  | UNAUTHENTICATED | INVALID_CREDENTIALS | API_KEY_REVOKED | API_KEY_EXPIRED | FORBIDDEN | IP_NOT_ALLOWED
  | NOT_FOUND
  | CONFLICT | DUPLICATE_ORDER_ID | IDEMPOTENCY_KEY_REUSED | IDEMPOTENT_REQUEST_IN_FLIGHT
  | INVOICE_NOT_CANCELLABLE
  | RATE_UNAVAILABLE | RATE_STALE | ADDRESS_POOL_EXHAUSTED | COMPLIANCE_REVIEW_REQUIRED_CODE
  | SIGNING_CEILING_EXCEEDED | SIGNING_NOT_CONFIGURED
  | RATE_LIMITED
  | INTERNAL_ERROR | UPSTREAM_UNAVAILABLE | LEDGER_IMBALANCE_CODE

fun ErrorCode :: "error_code \<Rightarrow> string" where
  "ErrorCode VALIDATION_FAILED = ''validation_failed''"
| "ErrorCode INVALID_AMOUNT = ''invalid_amount''"
| "ErrorCode INVALID_ADDRESS = ''invalid_address''"
| "ErrorCode UNSUPPORTED_ASSET_CODE = ''unsupported_asset''"
| "ErrorCode UNSUPPORTED_NETWORK = ''unsupported_network''"
| "ErrorCode NETWORK_LIVEMODE_MISMATCH = ''network_livemode_mismatch''"
| "ErrorCode INVALID_STATE_TRANSITION = ''invalid_state_transition''"
| "ErrorCode UNAUTHENTICATED = ''unauthenticated''"
| "ErrorCode INVALID_CREDENTIALS = ''invalid_credentials''"
| "ErrorCode API_KEY_REVOKED = ''api_key_revoked''"
| "ErrorCode API_KEY_EXPIRED = ''api_key_expired''"
| "ErrorCode FORBIDDEN = ''forbidden''"
| "ErrorCode IP_NOT_ALLOWED = ''ip_not_allowed''"
| "ErrorCode NOT_FOUND = ''not_found''"
| "ErrorCode CONFLICT = ''conflict''"
| "ErrorCode DUPLICATE_ORDER_ID = ''duplicate_order_id''"
| "ErrorCode IDEMPOTENCY_KEY_REUSED = ''idempotency_key_reused''"
| "ErrorCode IDEMPOTENT_REQUEST_IN_FLIGHT = ''idempotent_request_in_flight''"
| "ErrorCode INVOICE_NOT_CANCELLABLE = ''invoice_not_cancellable''"
| "ErrorCode RATE_UNAVAILABLE = ''rate_unavailable''"
| "ErrorCode RATE_STALE = ''rate_stale''"
| "ErrorCode ADDRESS_POOL_EXHAUSTED = ''address_pool_exhausted''"
| "ErrorCode COMPLIANCE_REVIEW_REQUIRED_CODE = ''compliance_review_required''"
| "ErrorCode SIGNING_CEILING_EXCEEDED = ''signing_ceiling_exceeded''"
| "ErrorCode SIGNING_NOT_CONFIGURED = ''signing_not_configured''"
| "ErrorCode RATE_LIMITED = ''rate_limited''"
| "ErrorCode INTERNAL_ERROR = ''internal_error''"
| "ErrorCode UPSTREAM_UNAVAILABLE = ''upstream_unavailable''"
| "ErrorCode LEDGER_IMBALANCE_CODE = ''ledger_imbalance''"

record app_error =
  ae_code :: error_code
  ae_httpStatus :: int
  ae_message :: string
  ae_details :: "(string \<times> json) list option"
  ae_operational :: bool
  ae_cause :: "json option"

record app_error_options =
  opt_details :: "(string \<times> json) list option"
  opt_cause :: "json option"
  opt_operational :: "bool option"

definition AppError_new :: "error_code \<Rightarrow> int \<Rightarrow> string \<Rightarrow> app_error_options \<Rightarrow> app_error" where
  "AppError_new code status message options =
     \<lparr>ae_code = code, ae_httpStatus = status, ae_message = message, ae_details = opt_details options,
      ae_operational = (case opt_operational options of None \<Rightarrow> True | Some b \<Rightarrow> b),
      ae_cause = opt_cause options\<rparr>"

text \<open>The constructor called with at most the \<open>details\<close> option.\<close>

definition AppError :: "error_code \<Rightarrow> int \<Rightarrow> string \<Rightarrow> (string \<times> json) list option \<Rightarrow> app_error" where
  "AppError code status message details =
     AppError_new code status message \<lparr>opt_details = details, opt_cause = None, opt_operational = None\<rparr>"

definition toPublicJSON :: "app_error \<Rightarrow> string option \<Rightarrow> json" where
  "toPublicJSON e requestId =
     JObj [(''error'', JObj
       ([(''code'', JStr (ErrorCode (ae_code e))), (''message'', JStr (ae_message e))]
        @ (case ae_details e of None \<Rightarrow> [] | Some d \<Rightarrow> [(''details'', JObj d)])
        @ (case requestId of None \<Rightarrow> [] | Some r \<Rightarrow> if r = [] then [] else [(''request_id'', JStr r)])))]"

definition ValidationError :: "string \<Rightarrow> (string \<times> json) list option \<Rightarrow> app_error" where
  "ValidationError message details = AppError VALIDATION_FAILED 400 message details"

definition UnauthenticatedError :: "string \<Rightarrow> error_code \<Rightarrow> app_error" where
  "UnauthenticatedError message code = AppError code 401 message None"

definition ForbiddenError :: "string \<Rightarrow> (string \<times> json) list option \<Rightarrow> app_error" where
  "ForbiddenError message details = AppError FORBIDDEN 403 message details"

definition NotFoundError :: "string \<Rightarrow> string option \<Rightarrow> app_error" where
  "NotFoundError resource rid = AppError NOT_FOUND 404 (resource @ '' not found'')
     (case rid of None \<Rightarrow> None | Some i \<Rightarrow> if i = [] then None else Some [(''id'', JStr i)])"

definition ConflictError :: "string \<Rightarrow> error_code \<Rightarrow> (string \<times> json) list option \<Rightarrow> app_error" where
  "ConflictError message code details = AppError code 409 message details"

definition UnprocessableError :: "error_code \<Rightarrow> string \<Rightarrow> (string \<times> json) list option \<Rightarrow> app_error" where
  "UnprocessableError code message details = AppError code 422 message details"

definition RateLimitError :: "int \<Rightarrow> string \<Rightarrow> app_error" where
  "RateLimitError retryAfterSeconds message =
     AppError RATE_LIMITED 429 message (Some [(''retry_after'', JNum retryAfterSeconds)])"

definition InternalError :: "string \<Rightarrow> json option \<Rightarrow> app_error" where
  "InternalError message cause =
     AppError_new INTERNAL_ERROR 500 message
       \<lparr>opt_details = None, opt_cause = cause, opt_operational = Some False\<rparr>"

section \<open>Identifiers\<close>

datatype id_kind =
    UserId | MerchantId | MerchantMemberId | ApiKeyId | WebhookEndpointId | InvoiceId | PaymentAddressId
  | BlockchainTransactionId | TokenTransferId | PaymentEventId | WebhookEventId | WebhookDeliveryId
  | WalletId | WalletAccountId | SettlementId | RefundId | LedgerTransactionId | LedgerEntryId
  | LedgerAccountId | AuditLogId | IdempotencyId | ReconciliationId | SessionId | SigningRequestId
  | SigningSpendEntryId

definition ID_PREFIXES :: "(id_kind \<times> string) list" where
  "ID_PREFIXES = [(UserId, ''usr''), (MerchantId, ''mch''), (MerchantMemberId, ''mm''),
     (ApiKeyId, ''ak''), (WebhookEndpointId, ''whe''), (InvoiceId, ''inv''), (PaymentAddressId, ''addr''),
     (BlockchainTransactionId, ''btx''), (TokenTransferId, ''ttr''), (PaymentEventId, ''pev''),
     (WebhookEventId, ''evt''), (WebhookDeliveryId, ''whd''), (WalletId, ''wlt''),
     (WalletAccountId, ''wac''), (SettlementId, ''stl''), (RefundId, ''rfd''),
     (LedgerTransactionId, ''ltx''), (LedgerEntryId, ''lent''), (LedgerAccountId, ''lacc''),
     (AuditLogId, ''aud''), (IdempotencyId, ''idem''), (ReconciliationId, ''rec''), (SessionId, ''ses''),
     (SigningRequestId, ''sgr''), (SigningSpendEntryId, ''sse'')]"

definition id_prefix :: "id_kind \<Rightarrow> string" where
  "id_prefix k = (case map_of ID_PREFIXES k of Some p \<Rightarrow> p | None \<Rightarrow> [])"

text \<open>The identifier made from the ULID the generator returned.\<close>

definition newId :: "string \<Rightarrow> id_kind \<Rightarrow> string" where
  "newId ulid kind = id_prefix kind @ ''_'' @ ulid"

text \<open>\<open>/^[0-9A-HJKMNP-TV-Z]{26}$/\<close>: 26 characters of Crockford's alphabet.\<close>

definition ulid_char :: "char \<Rightarrow> bool" where
  "ulid_char c \<longleftrightarrow> c \<in> set ''0123456789ABCDEFGHJKMNPQRSTVWXYZ''"

definition is_ulid :: "string \<Rightarrow> bool" where
  "is_ulid s \<longleftrightarrow> length s = 26 \<and> list_all ulid_char s"

definition isId :: "id_kind \<Rightarrow> string \<Rightarrow> bool" where
  "isId kind v = (let prefix = id_prefix kind @ ''_'' in
     if \<not> startsWith v prefix then False else is_ulid (drop (length prefix) v))"

definition parseIdKind :: "string \<Rightarrow> id_kind option" where
  "parseIdKind v = (let prefix = (case split_on (CHR ''_'') v of [] \<Rightarrow> [] | p # _ \<Rightarrow> p) in
     if prefix = [] then None
     else (case find (\<lambda>(_, p). p = prefix) ID_PREFIXES of None \<Rightarrow> None | Some e \<Rightarrow> Some (fst e)))"

lemma id_prefix_no_underscore: "CHR ''_'' \<notin> set (id_prefix k)"
  by (cases k) (simp_all add: id_prefix_def ID_PREFIXES_def)

lemma id_prefix_nonempty: "id_prefix k \<noteq> []"
  by (cases k) (simp_all add: id_prefix_def ID_PREFIXES_def)

lemma find_id_prefix: "find (\<lambda>(_, p). p = id_prefix k) ID_PREFIXES = Some (k, id_prefix k)"
  by (cases k) (simp_all add: id_prefix_def ID_PREFIXES_def)

lemma id_prefix_inj: "id_prefix k = id_prefix k' \<longleftrightarrow> k = k'"
  using find_id_prefix [of k] find_id_prefix [of k'] by (metis Pair_inject option.inject)

lemma split_prefixed: "split_on (CHR ''_'') (id_prefix k @ ''_'' @ s) = id_prefix k # split_on (CHR ''_'') s"
  using split_on_append [OF id_prefix_no_underscore, of k s] by simp

text \<open>An identifier names its kind: for every kind and every ULID, the identifier built from
  them is recognised as an identifier of that kind, of no other kind, and its kind is read back
  from its prefix.\<close>

lemma newId_self_describing:
  assumes "is_ulid u"
  shows "parseIdKind (newId u kind) = Some kind \<and> (isId kind' (newId u kind) \<longleftrightarrow> kind' = kind)"
proof -
  have "kind' = kind" if "isId kind' (newId u kind)"
  proof -
    from that obtain rest where "newId u kind = id_prefix kind' @ ''_'' @ rest"
      by (auto simp: isId_def Let_def startsWith_def split: if_splits) (metis append_take_drop_id append_assoc append_Cons append_Nil)
    then have "split_on (CHR ''_'') (newId u kind) = id_prefix kind' # split_on (CHR ''_'') rest"
      using split_prefixed by simp
    then show ?thesis using split_prefixed [of kind u] id_prefix_inj by (simp add: newId_def)
  qed
  moreover have "isId kind (newId u kind)"
    using assms by (simp add: isId_def newId_def Let_def startsWith_def)
  moreover have "parseIdKind (newId u kind) = Some kind"
    using id_prefix_nonempty find_id_prefix [of kind]
    by (simp add: parseIdKind_def newId_def split_prefixed Let_def del: append.simps)
  ultimately show ?thesis by blast
qed

end
