(* ===== verification/Registry.thy ===== *)
theory Registry
  imports Money Errors
begin

text \<open>
  The registries (\<open>packages/shared/src/domain/network.ts\<close>, \<open>asset.ts\<close>, \<open>fiat.ts\<close>,
  \<open>payment-uri.ts\<close>): networks, the asset allowlist with its lookups, fiat currencies, and the
  payment URI of a deposit address. A network is its enum member; \<open>network_name\<close> is the string
  the source uses for it.
\<close>

section \<open>Networks\<close>

datatype network =
    BITCOIN | BITCOIN_TESTNET | ETHEREUM | ETHEREUM_SEPOLIA | POLYGON | POLYGON_AMOY | BSC | BSC_TESTNET

fun network_name :: "network \<Rightarrow> string" where
  "network_name BITCOIN = ''BITCOIN''"
| "network_name BITCOIN_TESTNET = ''BITCOIN_TESTNET''"
| "network_name ETHEREUM = ''ETHEREUM''"
| "network_name ETHEREUM_SEPOLIA = ''ETHEREUM_SEPOLIA''"
| "network_name POLYGON = ''POLYGON''"
| "network_name POLYGON_AMOY = ''POLYGON_AMOY''"
| "network_name BSC = ''BSC''"
| "network_name BSC_TESTNET = ''BSC_TESTNET''"

definition all_networks :: "network list" where
  "all_networks = [BITCOIN, BITCOIN_TESTNET, ETHEREUM, ETHEREUM_SEPOLIA, POLYGON, POLYGON_AMOY, BSC, BSC_TESTNET]"

datatype network_family = BitcoinFamily | EvmFamily

datatype address_model = Utxo | Account

record network_config =
  nc_network :: network
  nc_displayName :: string
  nc_family :: network_family
  nc_addressModel :: address_model
  nc_isTestnet :: bool
  nc_chainId :: "int option"
  nc_nativeAsset :: string
  nc_nativeDecimals :: int
  nc_averageBlockSeconds :: int
  nc_reorgDepth :: int
  nc_explorerTxUrl :: "string \<Rightarrow> string"
  nc_explorerAddressUrl :: "string \<Rightarrow> string"

fun NETWORKS :: "network \<Rightarrow> network_config" where
  "NETWORKS BITCOIN = \<lparr>nc_network = BITCOIN, nc_displayName = ''Bitcoin'',
     nc_family = BitcoinFamily, nc_addressModel = Utxo, nc_isTestnet = False, nc_chainId = None,
     nc_nativeAsset = ''BTC'', nc_nativeDecimals = 8, nc_averageBlockSeconds = 600, nc_reorgDepth = 6,
     nc_explorerTxUrl = (\<lambda>h. ''https://mempool.space/tx/'' @ h),
     nc_explorerAddressUrl = (\<lambda>a. ''https://mempool.space/address/'' @ a)\<rparr>"
| "NETWORKS BITCOIN_TESTNET = \<lparr>nc_network = BITCOIN_TESTNET, nc_displayName = ''Bitcoin Testnet'',
     nc_family = BitcoinFamily, nc_addressModel = Utxo, nc_isTestnet = True, nc_chainId = None,
     nc_nativeAsset = ''BTC'', nc_nativeDecimals = 8, nc_averageBlockSeconds = 600, nc_reorgDepth = 10,
     nc_explorerTxUrl = (\<lambda>h. ''https://mempool.space/testnet/tx/'' @ h),
     nc_explorerAddressUrl = (\<lambda>a. ''https://mempool.space/testnet/address/'' @ a)\<rparr>"
| "NETWORKS ETHEREUM = \<lparr>nc_network = ETHEREUM, nc_displayName = ''Ethereum'',
     nc_family = EvmFamily, nc_addressModel = Account, nc_isTestnet = False, nc_chainId = Some 1,
     nc_nativeAsset = ''ETH'', nc_nativeDecimals = 18, nc_averageBlockSeconds = 12, nc_reorgDepth = 12,
     nc_explorerTxUrl = (\<lambda>h. ''https://etherscan.io/tx/'' @ h),
     nc_explorerAddressUrl = (\<lambda>a. ''https://etherscan.io/address/'' @ a)\<rparr>"
| "NETWORKS ETHEREUM_SEPOLIA = \<lparr>nc_network = ETHEREUM_SEPOLIA, nc_displayName = ''Ethereum Sepolia'',
     nc_family = EvmFamily, nc_addressModel = Account, nc_isTestnet = True, nc_chainId = Some 11155111,
     nc_nativeAsset = ''ETH'', nc_nativeDecimals = 18, nc_averageBlockSeconds = 12, nc_reorgDepth = 12,
     nc_explorerTxUrl = (\<lambda>h. ''https://sepolia.etherscan.io/tx/'' @ h),
     nc_explorerAddressUrl = (\<lambda>a. ''https://sepolia.etherscan.io/address/'' @ a)\<rparr>"
| "NETWORKS POLYGON = \<lparr>nc_network = POLYGON, nc_displayName = ''Polygon'',
     nc_family = EvmFamily, nc_addressModel = Account, nc_isTestnet = False, nc_chainId = Some 137,
     nc_nativeAsset = ''POL'', nc_nativeDecimals = 18, nc_averageBlockSeconds = 2, nc_reorgDepth = 128,
     nc_explorerTxUrl = (\<lambda>h. ''https://polygonscan.com/tx/'' @ h),
     nc_explorerAddressUrl = (\<lambda>a. ''https://polygonscan.com/address/'' @ a)\<rparr>"
| "NETWORKS POLYGON_AMOY = \<lparr>nc_network = POLYGON_AMOY, nc_displayName = ''Polygon Amoy'',
     nc_family = EvmFamily, nc_addressModel = Account, nc_isTestnet = True, nc_chainId = Some 80002,
     nc_nativeAsset = ''POL'', nc_nativeDecimals = 18, nc_averageBlockSeconds = 2, nc_reorgDepth = 128,
     nc_explorerTxUrl = (\<lambda>h. ''https://amoy.polygonscan.com/tx/'' @ h),
     nc_explorerAddressUrl = (\<lambda>a. ''https://amoy.polygonscan.com/address/'' @ a)\<rparr>"
| "NETWORKS BSC = \<lparr>nc_network = BSC, nc_displayName = ''BNB Smart Chain'',
     nc_family = EvmFamily, nc_addressModel = Account, nc_isTestnet = False, nc_chainId = Some 56,
     nc_nativeAsset = ''BNB'', nc_nativeDecimals = 18, nc_averageBlockSeconds = 3, nc_reorgDepth = 15,
     nc_explorerTxUrl = (\<lambda>h. ''https://bscscan.com/tx/'' @ h),
     nc_explorerAddressUrl = (\<lambda>a. ''https://bscscan.com/address/'' @ a)\<rparr>"
| "NETWORKS BSC_TESTNET = \<lparr>nc_network = BSC_TESTNET, nc_displayName = ''BNB Smart Chain Testnet'',
     nc_family = EvmFamily, nc_addressModel = Account, nc_isTestnet = True, nc_chainId = Some 97,
     nc_nativeAsset = ''BNB'', nc_nativeDecimals = 18, nc_averageBlockSeconds = 3, nc_reorgDepth = 15,
     nc_explorerTxUrl = (\<lambda>h. ''https://testnet.bscscan.com/tx/'' @ h),
     nc_explorerAddressUrl = (\<lambda>a. ''https://testnet.bscscan.com/address/'' @ a)\<rparr>"

definition getNetworkConfig :: "network \<Rightarrow> network_config" where
  "getNetworkConfig n = NETWORKS n"

text \<open>The network a string names; \<open>isNetwork\<close> is membership in the keys of the table.\<close>

definition network_of_name :: "string \<Rightarrow> network option" where
  "network_of_name s = find (\<lambda>n. network_name n = s) all_networks"

definition isNetwork :: "string \<Rightarrow> bool" where
  "isNetwork s \<longleftrightarrow> network_of_name s \<noteq> None"

definition assertNetworkMatchesLivemode :: "bool \<Rightarrow> network_config \<Rightarrow> app_error + unit" where
  "assertNetworkMatchesLivemode livemode config =
     (if livemode = nc_isTestnet config then
        Inl (AppError NETWORK_LIVEMODE_MISMATCH 403
          (if livemode
           then ''this is a live API key; '' @ nc_displayName config @ '' is a testnet and cannot be used in live mode''
           else ''this is a test API key; '' @ nc_displayName config @ '' is a mainnet and cannot be used in test mode'')
          None)
      else Inr ())"

section \<open>Assets\<close>

datatype transfer_semantics = Standard | FeeOnTransfer | Rebasing

record asset_config =
  ac_id :: string
  ac_symbol :: string
  ac_displayName :: string
  ac_network :: network
  ac_contractAddress :: "string option"
  ac_decimals :: int
  ac_requiredConfirmations :: int
  ac_minDepositUnits :: int
  ac_transferSemantics :: transfer_semantics
  ac_priceFeedSymbols :: "string list"
  ac_enabled :: bool

definition asset_entry ::
  "string \<Rightarrow> string \<Rightarrow> network \<Rightarrow> string option \<Rightarrow> int \<Rightarrow> int \<Rightarrow> int \<Rightarrow> transfer_semantics \<Rightarrow> string list \<Rightarrow> bool \<Rightarrow> asset_config"
where
  "asset_entry symbol displayName network contract decimals confirmations minDeposit semantics feeds enabled =
     \<lparr>ac_id = network_name network @ '':'' @ symbol, ac_symbol = symbol, ac_displayName = displayName,
      ac_network = network,
      ac_contractAddress = (case contract of None \<Rightarrow> None | Some c \<Rightarrow> if c = [] then None else Some (toLowerCase c)),
      ac_decimals = decimals, ac_requiredConfirmations = confirmations, ac_minDepositUnits = minDeposit,
      ac_transferSemantics = semantics, ac_priceFeedSymbols = feeds, ac_enabled = enabled\<rparr>"

definition ASSET_LIST :: "asset_config list" where
  "ASSET_LIST =
    [asset_entry ''BTC'' ''Bitcoin'' BITCOIN None 8 2 10000 Standard [''BTC''] True,
     asset_entry ''ETH'' ''Ether'' ETHEREUM None 18 12 1000000000000000 Standard [''ETH''] True,
     asset_entry ''USDT'' ''Tether USD'' ETHEREUM (Some ''0xdAC17F958D2ee523a2206206994597C13D831ec7'') 6 12 1000000 Standard [''USDT''] True,
     asset_entry ''USDC'' ''USD Coin'' ETHEREUM (Some ''0xA0b86991c6218b36c1d19D4a2e9Eb0cE3606eB48'') 6 12 1000000 Standard [''USDC''] True,
     asset_entry ''POL'' ''Polygon Ecosystem Token'' POLYGON None 18 128 1000000000000000000 Standard [''POL'', ''MATIC''] True,
     asset_entry ''USDT'' ''Tether USD (Polygon)'' POLYGON (Some ''0xc2132D05D31c914a87C6611C10748AEb04B58e8F'') 6 128 1000000 Standard [''USDT''] True,
     asset_entry ''USDC'' ''USD Coin (Polygon native)'' POLYGON (Some ''0x3c499c542cEF5E3811e1192ce70d8cC03d5c3359'') 6 128 1000000 Standard [''USDC''] True,
     asset_entry ''BNB'' ''BNB'' BSC None 18 15 1000000000000000 Standard [''BNB''] True,
     asset_entry ''USDT'' ''Tether USD (BSC)'' BSC (Some ''0x55d398326f99059fF775485246999027B3197955'') 18 15 1000000000000000000 Standard [''USDT''] True,
     asset_entry ''USDC'' ''USD Coin (BSC)'' BSC (Some ''0x8AC76a51cc950d9822D68b83fE1Ad97B32Cd580d'') 18 15 1000000000000000000 Standard [''USDC''] True,
     asset_entry ''ETH'' ''Sepolia Ether'' ETHEREUM_SEPOLIA None 18 3 1000000000000 Standard [''ETH''] True,
     asset_entry ''BTC'' ''Testnet Bitcoin'' BITCOIN_TESTNET None 8 1 1000 Standard [''BTC''] True]"

text \<open>\<open>new Map(entries).get(k)\<close>: a later entry for the same key replaces an earlier one.\<close>

definition js_map_get :: "('k \<times> 'v) list \<Rightarrow> 'k \<Rightarrow> 'v option" where
  "js_map_get entries k = map_of (rev entries) k"

definition BY_ID :: "(string \<times> asset_config) list" where
  "BY_ID = map (\<lambda>a. (ac_id a, a)) ASSET_LIST"

definition BY_CONTRACT :: "(string \<times> asset_config) list" where
  "BY_CONTRACT = map (\<lambda>a. (network_name (ac_network a) @ '':'' @ (case ac_contractAddress a of Some c \<Rightarrow> c | None \<Rightarrow> []), a))
     (filter (\<lambda>a. ac_contractAddress a \<noteq> None) ASSET_LIST)"

definition assetId :: "network \<Rightarrow> string \<Rightarrow> string" where
  "assetId network symbol = network_name network @ '':'' @ symbol"

definition if_enabled :: "asset_config option \<Rightarrow> asset_config option" where
  "if_enabled found = (case found of None \<Rightarrow> None | Some a \<Rightarrow> if ac_enabled a then Some a else None)"

definition findAsset :: "network \<Rightarrow> string \<Rightarrow> asset_config option" where
  "findAsset network symbol = if_enabled (js_map_get BY_ID (assetId network symbol))"

definition requireAsset :: "network \<Rightarrow> string \<Rightarrow> (string \<times> network) + asset_config" where
  "requireAsset network symbol = of_option (symbol, network) (findAsset network symbol)"

definition findAssetByContract :: "network \<Rightarrow> string \<Rightarrow> asset_config option" where
  "findAssetByContract network contractAddress =
     if_enabled (js_map_get BY_CONTRACT (network_name network @ '':'' @ toLowerCase contractAddress))"

definition findNativeAsset :: "network \<Rightarrow> asset_config option" where
  "findNativeAsset network =
     if_enabled (find (\<lambda>a. ac_network a = network \<and> ac_contractAddress a = None) ASSET_LIST)"

definition listAssets :: "network option \<Rightarrow> bool option \<Rightarrow> asset_config list" where
  "listAssets network enabledOnly =
     (let eo = (case enabledOnly of None \<Rightarrow> True | Some b \<Rightarrow> b) in
      filter (\<lambda>a. (case network of None \<Rightarrow> True | Some n \<Rightarrow> ac_network a = n) \<and> (\<not> eo \<or> ac_enabled a)) ASSET_LIST)"

definition isPriceable :: "asset_config \<Rightarrow> bool" where
  "isPriceable config \<longleftrightarrow> ac_priceFeedSymbols config \<noteq> []"

section \<open>Fiat currencies\<close>

record fiat_currency =
  fc_code :: string
  fc_displayName :: string
  fc_decimals :: int

definition fiat_entry :: "string \<Rightarrow> string \<Rightarrow> int \<Rightarrow> string \<times> fiat_currency" where
  "fiat_entry code displayName decimals =
     (code, \<lparr>fc_code = code, fc_displayName = displayName, fc_decimals = decimals\<rparr>)"

definition FIAT_CURRENCIES :: "(string \<times> fiat_currency) list" where
  "FIAT_CURRENCIES =
     [fiat_entry ''USD'' ''US Dollar'' 2, fiat_entry ''EUR'' ''Euro'' 2,
      fiat_entry ''GBP'' ''Pound Sterling'' 2, fiat_entry ''SGD'' ''Singapore Dollar'' 2,
      fiat_entry ''IDR'' ''Indonesian Rupiah'' 2, fiat_entry ''JPY'' ''Japanese Yen'' 0]"

definition findFiatCurrency :: "string \<Rightarrow> fiat_currency option" where
  "findFiatCurrency code = map_of FIAT_CURRENCIES (toUpperCase code)"

definition requireFiatCurrency :: "string \<Rightarrow> string + fiat_currency" where
  "requireFiatCurrency code = of_option code (findFiatCurrency code)"

definition isFiatCurrency :: "string \<Rightarrow> bool" where
  "isFiatCurrency code \<longleftrightarrow> findFiatCurrency code \<noteq> None"

section \<open>Payment URIs\<close>

definition buildPaymentUri :: "network \<Rightarrow> string \<Rightarrow> string \<Rightarrow> string \<Rightarrow> money_error + string option" where
  "buildPaymentUri network assetSymbol address amountDecimal =
     (let config = getNetworkConfig network in
      case nc_family config of
        BitcoinFamily \<Rightarrow> Inr (Some (''bitcoin:'' @ address @ ''?amount='' @ amountDecimal))
      | EvmFamily \<Rightarrow>
          (case nc_chainId config of None \<Rightarrow> Inr None
           | Some chainId \<Rightarrow>
             (case findAsset network assetSymbol of None \<Rightarrow> Inr None
              | Some a \<Rightarrow>
                bind_result (fromDecimal amountDecimal (ac_symbol a) (ac_decimals a)) (\<lambda>m.
                  case ac_contractAddress a of
                    None \<Rightarrow> Inr (Some (''ethereum:'' @ address @ ''@'' @ show_int chainId @ ''?value='' @ show_int (m_units m)))
                  | Some c \<Rightarrow> Inr (Some (''ethereum:'' @ c @ ''@'' @ show_int chainId @ ''/transfer?address='' @ address
                                @ ''&uint256='' @ show_int (m_units m)))))))"

section \<open>Lookups agree with the allowlist\<close>

lemma before_separator: "c \<notin> set a \<Longrightarrow> c \<notin> set b \<Longrightarrow> a @ c # x = b @ c # y \<longleftrightarrow> a = b \<and> x = y"
proof (induction a arbitrary: b)
  case Nil then show ?case by (cases b) auto
next
  case (Cons d a) then show ?case by (cases b) auto
qed

lemma network_name_no_colon: "CHR '':'' \<notin> set (network_name n)"
  by (cases n) simp_all

lemma network_name_inj: "network_name n = network_name m \<longleftrightarrow> n = m"
  by (cases n; cases m) simp_all

lemma network_key_inj: "network_name n @ '':'' @ x = network_name m @ '':'' @ y \<longleftrightarrow> n = m \<and> x = y"
  using before_separator [OF network_name_no_colon network_name_no_colon] network_name_inj by simp

lemma js_map_get_distinct: "distinct (map fst es) \<Longrightarrow> js_map_get es k = Some v \<longleftrightarrow> (k, v) \<in> set es"
  by (simp add: js_map_get_def rev_map distinct_map)

lemma if_enabled_Some: "if_enabled m = Some a \<longleftrightarrow> m = Some a \<and> ac_enabled a"
  by (auto simp: if_enabled_def split: option.splits)

lemma BY_ID_keys: "distinct (map fst BY_ID)"
  by code_simp

lemma BY_CONTRACT_keys: "distinct (map fst BY_CONTRACT)"
  by code_simp

lemma ASSET_LIST_entries:
  "list_all (\<lambda>a. ac_id a = network_name (ac_network a) @ '':'' @ ac_symbol a \<and> ac_enabled a \<and>
     0 \<le> ac_decimals a \<and> ac_decimals a \<le> MAX_DECIMALS \<and> 0 < ac_requiredConfirmations a \<and> 0 < ac_minDepositUnits a) ASSET_LIST"
  by code_simp

lemma findAsset_iff:
  "findAsset n s = Some a \<longleftrightarrow> a \<in> set ASSET_LIST \<and> ac_enabled a \<and> ac_network a = n \<and> ac_symbol a = s"
proof -
  have "js_map_get BY_ID (assetId n s) = Some a \<longleftrightarrow> (assetId n s, a) \<in> set BY_ID"
    by (rule js_map_get_distinct [OF BY_ID_keys])
  also have "\<dots> \<longleftrightarrow> a \<in> set ASSET_LIST \<and> ac_id a = assetId n s" by (auto simp: BY_ID_def image_iff)
  also have "\<dots> \<longleftrightarrow> a \<in> set ASSET_LIST \<and> ac_network a = n \<and> ac_symbol a = s"
    using ASSET_LIST_entries network_key_inj [of "ac_network a" "ac_symbol a" n s]
    by (auto simp: list_all_iff assetId_def)
  finally show ?thesis by (auto simp: findAsset_def if_enabled_Some)
qed

lemma findAssetByContract_iff:
  "findAssetByContract n c = Some a \<longleftrightarrow>
     a \<in> set ASSET_LIST \<and> ac_enabled a \<and> ac_network a = n \<and> ac_contractAddress a = Some (toLowerCase c)"
proof -
  let ?k = "network_name n @ '':'' @ toLowerCase c"
  have "js_map_get BY_CONTRACT ?k = Some a \<longleftrightarrow> (?k, a) \<in> set BY_CONTRACT"
    by (rule js_map_get_distinct [OF BY_CONTRACT_keys])
  also have "\<dots> \<longleftrightarrow> (\<exists>d. a \<in> set ASSET_LIST \<and> ac_contractAddress a = Some d \<and>
      network_name n @ '':'' @ toLowerCase c = network_name (ac_network a) @ '':'' @ d)"
    by (auto simp: BY_CONTRACT_def image_iff)
  also have "\<dots> \<longleftrightarrow> a \<in> set ASSET_LIST \<and> ac_network a = n \<and> ac_contractAddress a = Some (toLowerCase c)"
    unfolding network_key_inj by auto
  finally show ?thesis by (auto simp: findAssetByContract_def if_enabled_Some)
qed

text \<open>The allowlist lookups find exactly the enabled entries of the list: by symbol, the entry
  of that network and symbol; by token contract, the entry of that network whose contract address
  is the queried one in lower case. The symbol a contract reports has no influence, so a contract
  that is not in the list is never resolved to an asset.\<close>

lemma asset_lookups_are_the_allowlist:
  "(findAsset n s = Some a \<longleftrightarrow> a \<in> set ASSET_LIST \<and> ac_enabled a \<and> ac_network a = n \<and> ac_symbol a = s) \<and>
   (findAssetByContract n c = Some b \<longleftrightarrow>
      b \<in> set ASSET_LIST \<and> ac_enabled b \<and> ac_network b = n \<and> ac_contractAddress b = Some (toLowerCase c)) \<and>
   (requireAsset n s = Inr a \<longleftrightarrow> findAsset n s = Some a)"
  using findAsset_iff findAssetByContract_iff by (simp add: requireAsset_def result_simps)

text \<open>The tables agree with each other: the native entry of a network has the symbol and the
  decimals its network configuration says, and exactly the EVM networks have a chain id.\<close>

lemma native_asset_matches_network:
  assumes "findNativeAsset n = Some a"
  shows "ac_network a = n \<and> ac_symbol a = nc_nativeAsset (getNetworkConfig n) \<and>
    ac_decimals a = nc_nativeDecimals (getNetworkConfig n) \<and>
    (nc_chainId (getNetworkConfig n) \<noteq> None \<longleftrightarrow> nc_family (getNetworkConfig n) = EvmFamily) \<and>
    nc_network (getNetworkConfig n) = n"
proof -
  have *: "list_all (\<lambda>a. ac_contractAddress a = None \<longrightarrow>
      ac_symbol a = nc_nativeAsset (getNetworkConfig (ac_network a)) \<and>
      ac_decimals a = nc_nativeDecimals (getNetworkConfig (ac_network a))) ASSET_LIST" by code_simp
  from assms have "a \<in> set ASSET_LIST" "ac_network a = n" "ac_contractAddress a = None"
    using find_Some_set by (fastforce simp: findNativeAsset_def if_enabled_Some)+
  moreover have "nc_network (getNetworkConfig n) = n \<and>
     (nc_chainId (getNetworkConfig n) \<noteq> None \<longleftrightarrow> nc_family (getNetworkConfig n) = EvmFamily)"
    by (cases n) (simp_all add: getNetworkConfig_def)
  ultimately show ?thesis using * by (auto simp: list_all_iff)
qed

text \<open>A key and a network are accepted together exactly when the mode agrees: a live key only
  reaches mainnets and a test key only testnets, and every refusal is the 403 mismatch error.\<close>

lemma livemode_gate:
  "(assertNetworkMatchesLivemode livemode (getNetworkConfig n) = Inr () \<longleftrightarrow>
      livemode \<noteq> nc_isTestnet (getNetworkConfig n)) \<and>
   (case assertNetworkMatchesLivemode livemode (getNetworkConfig n) of Inr _ \<Rightarrow> True
    | Inl e \<Rightarrow> ae_code e = NETWORK_LIVEMODE_MISMATCH \<and> ae_httpStatus e = 403 \<and> ae_operational e)"
  by (auto simp: assertNetworkMatchesLivemode_def AppError_def AppError_new_def)

section \<open>Transfer match statuses\<close>

datatype match_status =
    CREDITED | PENDING_CONFIRMATION | LATE_PAYMENT_REVIEW_MATCH | UNSUPPORTED_ASSET | BELOW_MINIMUM
  | UNMATCHED | COMPLIANCE_HOLD | ORPHANED

end
