(* ===== verification/StateMachine.thy ===== *)
theory StateMachine
  imports Errors
begin

text \<open>
  The invoice state machine (\<open>packages/shared/src/domain/invoice-status.ts\<close>,
  \<open>packages/payments/src/state-machine.ts\<close>): the status vocabulary, the transition table with
  the actors of every edge, the gate \<open>assertTransition\<close> that every status change goes through,
  and the webhook event of a status. \<open>moves\<close> is the step relation the gate allows and
  \<open>reaches\<close> the statuses a sequence of steps by a set of actors can reach.
\<close>

section \<open>Statuses\<close>

datatype invoice_status =
    CREATED | PENDING | DETECTED | CONFIRMING | PAID | UNDERPAID | OVERPAID | EXPIRED | CANCELLED | FAILED
  | REFUNDED | COMPLIANCE_REVIEW_REQUIRED | LATE_PAYMENT_REVIEW | RECONCILIATION_REQUIRED

fun status_name :: "invoice_status \<Rightarrow> string" where
  "status_name CREATED = ''CREATED''"
| "status_name PENDING = ''PENDING''"
| "status_name DETECTED = ''DETECTED''"
| "status_name CONFIRMING = ''CONFIRMING''"
| "status_name PAID = ''PAID''"
| "status_name UNDERPAID = ''UNDERPAID''"
| "status_name OVERPAID = ''OVERPAID''"
| "status_name EXPIRED = ''EXPIRED''"
| "status_name CANCELLED = ''CANCELLED''"
| "status_name FAILED = ''FAILED''"
| "status_name REFUNDED = ''REFUNDED''"
| "status_name COMPLIANCE_REVIEW_REQUIRED = ''COMPLIANCE_REVIEW_REQUIRED''"
| "status_name LATE_PAYMENT_REVIEW = ''LATE_PAYMENT_REVIEW''"
| "status_name RECONCILIATION_REQUIRED = ''RECONCILIATION_REQUIRED''"

definition all_statuses :: "invoice_status list" where
  "all_statuses = [CREATED, PENDING, DETECTED, CONFIRMING, PAID, UNDERPAID, OVERPAID, EXPIRED, CANCELLED, FAILED,
     REFUNDED, COMPLIANCE_REVIEW_REQUIRED, LATE_PAYMENT_REVIEW, RECONCILIATION_REQUIRED]"

definition TERMINAL_STATUSES :: "invoice_status list" where
  "TERMINAL_STATUSES = [PAID, EXPIRED, CANCELLED, FAILED, REFUNDED]"

definition REVIEW_STATUSES :: "invoice_status list" where
  "REVIEW_STATUSES = [UNDERPAID, OVERPAID, COMPLIANCE_REVIEW_REQUIRED, LATE_PAYMENT_REVIEW, RECONCILIATION_REQUIRED]"

definition PAYABLE_STATUSES :: "invoice_status list" where
  "PAYABLE_STATUSES = [PENDING, DETECTED, CONFIRMING, UNDERPAID]"

definition isTerminalStatus :: "invoice_status \<Rightarrow> bool" where
  "isTerminalStatus s \<longleftrightarrow> List.member TERMINAL_STATUSES s"

definition isReviewStatus :: "invoice_status \<Rightarrow> bool" where
  "isReviewStatus s \<longleftrightarrow> List.member REVIEW_STATUSES s"

definition isPayableStatus :: "invoice_status \<Rightarrow> bool" where
  "isPayableStatus s \<longleftrightarrow> List.member PAYABLE_STATUSES s"

datatype webhook_event_type =
    PAYMENT_CREATED | PAYMENT_DETECTED | PAYMENT_CONFIRMING | PAYMENT_PAID | PAYMENT_UNDERPAID
  | PAYMENT_OVERPAID | PAYMENT_EXPIRED | PAYMENT_CANCELLED | PAYMENT_REFUNDED

fun webhook_event_name :: "webhook_event_type \<Rightarrow> string" where
  "webhook_event_name PAYMENT_CREATED = ''payment.created''"
| "webhook_event_name PAYMENT_DETECTED = ''payment.detected''"
| "webhook_event_name PAYMENT_CONFIRMING = ''payment.confirming''"
| "webhook_event_name PAYMENT_PAID = ''payment.paid''"
| "webhook_event_name PAYMENT_UNDERPAID = ''payment.underpaid''"
| "webhook_event_name PAYMENT_OVERPAID = ''payment.overpaid''"
| "webhook_event_name PAYMENT_EXPIRED = ''payment.expired''"
| "webhook_event_name PAYMENT_CANCELLED = ''payment.cancelled''"
| "webhook_event_name PAYMENT_REFUNDED = ''payment.refunded''"

section \<open>The transition table\<close>

datatype transition_actor = SYSTEM | MONITOR | MERCHANT | ADMIN | COMPLIANCE

fun actor_name :: "transition_actor \<Rightarrow> string" where
  "actor_name SYSTEM = ''system''"
| "actor_name MONITOR = ''monitor''"
| "actor_name MERCHANT = ''merchant''"
| "actor_name ADMIN = ''admin''"
| "actor_name COMPLIANCE = ''compliance''"

record transition_rule =
  tr_to :: invoice_status
  tr_actors :: "transition_actor list"
  tr_reason :: string

definition edge :: "invoice_status \<Rightarrow> transition_actor list \<Rightarrow> string \<Rightarrow> transition_rule" where
  "edge target actors reason = \<lparr>tr_to = target, tr_actors = actors, tr_reason = reason\<rparr>"

definition ANY_INTERNAL :: "transition_actor list" where "ANY_INTERNAL = [SYSTEM, MONITOR]"
definition HUMAN_REVIEW :: "transition_actor list" where "HUMAN_REVIEW = [ADMIN, COMPLIANCE]"

definition rules_CREATED :: "transition_rule list" where
  "rules_CREATED =
    [edge PENDING [SYSTEM] ''payment destination assigned'',
     edge CANCELLED [MERCHANT, ADMIN] ''cancelled before a destination was issued'',
     edge FAILED [SYSTEM] ''no address could be assigned'',
     edge COMPLIANCE_REVIEW_REQUIRED (HUMAN_REVIEW @ [SYSTEM]) ''screening flagged the merchant or invoice'']"

definition rules_PENDING :: "transition_rule list" where
  "rules_PENDING =
    [edge DETECTED [MONITOR] ''a matching transfer appeared on-chain'',
     edge EXPIRED [SYSTEM] ''expiry elapsed with no payment'',
     edge CANCELLED [MERCHANT, ADMIN] ''cancelled by the merchant'',
     edge FAILED [SYSTEM] ''unrecoverable processing error'',
     edge COMPLIANCE_REVIEW_REQUIRED (HUMAN_REVIEW @ [SYSTEM]) ''screening flagged the invoice'']"

definition rules_DETECTED :: "transition_rule list" where
  "rules_DETECTED =
    [edge CONFIRMING [MONITOR] ''transaction mined, confirmations accruing'',
     edge PENDING [MONITOR] ''transaction dropped, replaced or orphaned before confirming'',
     edge FAILED [SYSTEM] ''unrecoverable processing error'',
     edge COMPLIANCE_REVIEW_REQUIRED (HUMAN_REVIEW @ [MONITOR]) ''the paying address was flagged'']"

definition rules_CONFIRMING :: "transition_rule list" where
  "rules_CONFIRMING =
    [edge PAID [MONITOR] ''confirmation threshold reached and the amount satisfies the invoice'',
     edge UNDERPAID [MONITOR] ''confirmed, but less than the invoiced amount was received'',
     edge OVERPAID [MONITOR] ''confirmed, but more than the invoiced amount was received'',
     edge DETECTED [MONITOR] ''reorg reduced the confirmation count'',
     edge PENDING [MONITOR] ''reorg removed the transaction entirely'',
     edge FAILED [SYSTEM] ''unrecoverable processing error'',
     edge COMPLIANCE_REVIEW_REQUIRED (HUMAN_REVIEW @ [MONITOR]) ''screening flagged the payment'',
     edge RECONCILIATION_REQUIRED ANY_INTERNAL ''chain, database and ledger disagree'']"

definition rules_PAID :: "transition_rule list" where
  "rules_PAID =
    [edge REFUNDED [SYSTEM] ''an approved refund confirmed on-chain'',
     edge RECONCILIATION_REQUIRED ANY_INTERNAL
       ''the settling transaction was orphaned after the invoice was marked paid'',
     edge COMPLIANCE_REVIEW_REQUIRED HUMAN_REVIEW ''post-payment screening flagged the transaction'']"

definition rules_UNDERPAID :: "transition_rule list" where
  "rules_UNDERPAID =
    [edge CONFIRMING [MONITOR] ''an additional transfer arrived and is confirming'',
     edge PAID [MONITOR, ADMIN] ''topped up to the full amount, or accepted under the merchant policy'',
     edge EXPIRED [SYSTEM] ''expiry elapsed while still short'',
     edge CANCELLED [MERCHANT, ADMIN] ''merchant rejected the partial payment'',
     edge REFUNDED [SYSTEM] ''the partial payment was returned to the customer'',
     edge FAILED [SYSTEM] ''unrecoverable processing error'',
     edge RECONCILIATION_REQUIRED ANY_INTERNAL ''chain, database and ledger disagree'']"

definition rules_OVERPAID :: "transition_rule list" where
  "rules_OVERPAID =
    [edge PAID [MONITOR, SYSTEM, ADMIN]
       ''excess accepted (automatically, under ACCEPT_FULL) or credited under the merchant policy'',
     edge REFUNDED [SYSTEM] ''the excess was returned to the customer'',
     edge RECONCILIATION_REQUIRED ANY_INTERNAL ''chain, database and ledger disagree'',
     edge FAILED [SYSTEM] ''unrecoverable processing error'']"

definition rules_EXPIRED :: "transition_rule list" where
  "rules_EXPIRED = [edge LATE_PAYMENT_REVIEW [MONITOR] ''funds arrived after expiry'']"

definition rules_CANCELLED :: "transition_rule list" where
  "rules_CANCELLED = [edge LATE_PAYMENT_REVIEW [MONITOR] ''funds arrived after cancellation'']"

definition rules_FAILED :: "transition_rule list" where
  "rules_FAILED =
    [edge RECONCILIATION_REQUIRED ANY_INTERNAL ''the failure left funds unaccounted for'',
     edge PENDING [ADMIN] ''the underlying fault was fixed and the invoice was reopened'']"

definition rules_REFUNDED :: "transition_rule list" where
  "rules_REFUNDED = [edge RECONCILIATION_REQUIRED ANY_INTERNAL ''the refund transaction was orphaned or disputed'']"

definition rules_COMPLIANCE_REVIEW :: "transition_rule list" where
  "rules_COMPLIANCE_REVIEW =
    [edge PENDING [COMPLIANCE] ''cleared before any payment arrived'',
     edge CONFIRMING [COMPLIANCE] ''cleared while a payment was confirming'',
     edge PAID [COMPLIANCE] ''cleared and the payment already satisfied the invoice'',
     edge CANCELLED HUMAN_REVIEW ''blocked by compliance before payment'',
     edge REFUNDED [SYSTEM] ''blocked by compliance and the funds were returned'',
     edge FAILED HUMAN_REVIEW ''blocked by compliance with no return path'']"

definition rules_LATE_PAYMENT_REVIEW :: "transition_rule list" where
  "rules_LATE_PAYMENT_REVIEW =
    [edge PAID [ADMIN] ''the late payment was accepted by the merchant'',
     edge REFUNDED [SYSTEM] ''the late payment was returned to the customer'',
     edge RECONCILIATION_REQUIRED ANY_INTERNAL ''the late payment could not be attributed'',
     edge COMPLIANCE_REVIEW_REQUIRED HUMAN_REVIEW ''the late payment was flagged by screening'']"

definition rules_RECONCILIATION :: "transition_rule list" where
  "rules_RECONCILIATION =
    [edge PAID [ADMIN] ''resolved in favour of the recorded payment'',
     edge UNDERPAID [ADMIN] ''resolved: less was actually received than recorded'',
     edge OVERPAID [ADMIN] ''resolved: more was actually received than recorded'',
     edge EXPIRED [ADMIN] ''resolved: no valid payment existed'',
     edge REFUNDED [ADMIN] ''resolved by returning the funds'',
     edge FAILED [ADMIN] ''resolved as an unrecoverable failure'']"

fun TRANSITIONS :: "invoice_status \<Rightarrow> transition_rule list" where
  "TRANSITIONS CREATED = rules_CREATED"
| "TRANSITIONS PENDING = rules_PENDING"
| "TRANSITIONS DETECTED = rules_DETECTED"
| "TRANSITIONS CONFIRMING = rules_CONFIRMING"
| "TRANSITIONS PAID = rules_PAID"
| "TRANSITIONS UNDERPAID = rules_UNDERPAID"
| "TRANSITIONS OVERPAID = rules_OVERPAID"
| "TRANSITIONS EXPIRED = rules_EXPIRED"
| "TRANSITIONS CANCELLED = rules_CANCELLED"
| "TRANSITIONS FAILED = rules_FAILED"
| "TRANSITIONS REFUNDED = rules_REFUNDED"
| "TRANSITIONS COMPLIANCE_REVIEW_REQUIRED = rules_COMPLIANCE_REVIEW"
| "TRANSITIONS LATE_PAYMENT_REVIEW = rules_LATE_PAYMENT_REVIEW"
| "TRANSITIONS RECONCILIATION_REQUIRED = rules_RECONCILIATION"

section \<open>The gate\<close>

record invalid_transition_error =
  it_error :: app_error
  it_from :: invoice_status
  it_to :: invoice_status

definition InvalidTransitionError :: "invoice_status \<Rightarrow> invoice_status \<Rightarrow> string \<Rightarrow> invalid_transition_error" where
  "InvalidTransitionError src dst detail =
     \<lparr>it_error = AppError INVALID_STATE_TRANSITION 409
         (''cannot move invoice '' @ status_name src @ '' -> '' @ status_name dst @ '': '' @ detail)
         (Some [(''from'', JStr (status_name src)), (''to'', JStr (status_name dst))]),
      it_from = src, it_to = dst\<rparr>"

text \<open>\<open>xs.join(', ')\<close>\<close>

fun join_comma :: "string list \<Rightarrow> string" where
  "join_comma [] = []"
| "join_comma [s] = s"
| "join_comma (s # t # ss) = s @ '', '' @ join_comma (t # ss)"

definition findRule :: "invoice_status \<Rightarrow> invoice_status \<Rightarrow> transition_rule option" where
  "findRule src dst = find (\<lambda>r. tr_to r = dst) (TRANSITIONS src)"

definition canTransition :: "invoice_status \<Rightarrow> invoice_status \<Rightarrow> bool" where
  "canTransition src dst \<longleftrightarrow> findRule src dst \<noteq> None"

definition isActorAllowed :: "invoice_status \<Rightarrow> invoice_status \<Rightarrow> transition_actor \<Rightarrow> bool" where
  "isActorAllowed src dst actor =
     (case findRule src dst of None \<Rightarrow> False | Some r \<Rightarrow> List.member (tr_actors r) actor)"

definition assertTransition ::
  "invoice_status \<Rightarrow> invoice_status \<Rightarrow> transition_actor \<Rightarrow> invalid_transition_error + transition_rule"
where
  "assertTransition src dst actor =
     (if src = dst then Inl (InvalidTransitionError src dst ''the invoice is already in this state'')
      else case findRule src dst of
        None \<Rightarrow>
          (let allowed = map tr_to (TRANSITIONS src) in
           Inl (InvalidTransitionError src dst
             (if allowed \<noteq> [] then ''permitted targets are '' @ join_comma (map status_name allowed)
              else ''no transitions permitted'')))
      | Some rule \<Rightarrow>
          if \<not> List.member (tr_actors rule) actor then
            Inl (InvalidTransitionError src dst
              (actor_name actor @ '' may not perform this transition (allowed: ''
               @ join_comma (map actor_name (tr_actors rule)) @ '')''))
          else Inr rule)"

definition allowedTransitions :: "invoice_status \<Rightarrow> transition_rule list" where
  "allowedTransitions src = TRANSITIONS src"

fun webhookEventForStatus :: "invoice_status \<Rightarrow> webhook_event_type option" where
  "webhookEventForStatus PENDING = Some PAYMENT_CREATED"
| "webhookEventForStatus DETECTED = Some PAYMENT_DETECTED"
| "webhookEventForStatus CONFIRMING = Some PAYMENT_CONFIRMING"
| "webhookEventForStatus PAID = Some PAYMENT_PAID"
| "webhookEventForStatus UNDERPAID = Some PAYMENT_UNDERPAID"
| "webhookEventForStatus OVERPAID = Some PAYMENT_OVERPAID"
| "webhookEventForStatus EXPIRED = Some PAYMENT_EXPIRED"
| "webhookEventForStatus CANCELLED = Some PAYMENT_CANCELLED"
| "webhookEventForStatus REFUNDED = Some PAYMENT_REFUNDED"
| "webhookEventForStatus _ = None"

section \<open>Steps and reachable statuses\<close>

text \<open>What a gate lets a set of actors do: \<open>reaches gate A s t\<close> holds when steps of actors in
  \<open>A\<close>, each accepted by the gate, lead from \<open>s\<close> to \<open>t\<close>.\<close>

inductive reaches :: "('s \<Rightarrow> 's \<Rightarrow> 'a \<Rightarrow> 'e + 'r) \<Rightarrow> 'a set \<Rightarrow> 's \<Rightarrow> 's \<Rightarrow> bool" for gate A s where
  stay: "reaches gate A s s"
| move: "reaches gate A s t \<Longrightarrow> actor \<in> A \<Longrightarrow> gate t u actor = Inr rule \<Longrightarrow> reaches gate A s u"

text \<open>A gate over a finite table of edges. A set of statuses closed under the table's edges for
  some actors is never left by them, however many steps they take.\<close>

locale guarded_table =
  fixes gate :: "'s \<Rightarrow> 's \<Rightarrow> 'a \<Rightarrow> 'e + 'r"
    and targets :: "'s \<Rightarrow> 'a \<Rightarrow> 's list"
  assumes gate_ok: "is_ok (gate s t a) \<longleftrightarrow> t \<in> set (targets s a) \<and> s \<noteq> t"
begin

lemma reaches_closed:
  assumes "reaches gate A s t" "s \<in> S"
    and closed: "\<And>u a. u \<in> S \<Longrightarrow> a \<in> A \<Longrightarrow> set (targets u a) \<subseteq> S"
  shows "t \<in> S"
  using assms(1)
proof induction
  case stay show ?case by (rule assms(2))
next
  case (move t actor u rule)
  have "is_ok (gate t u actor)" using move.hyps by simp
  then show ?case using gate_ok closed [OF move.IH move.hyps(2)] by blast
qed

lemma reaches_step: "reaches gate A s t \<Longrightarrow> a \<in> A \<Longrightarrow> u \<in> set (targets t a) \<Longrightarrow> t \<noteq> u \<Longrightarrow> reaches gate A s u"
  using gate_ok [of t u a] reaches.move unfolding is_ok_iff by metis

end

definition targets :: "invoice_status \<Rightarrow> transition_actor \<Rightarrow> invoice_status list" where
  "targets s a = map tr_to (filter (\<lambda>r. List.member (tr_actors r) a) (TRANSITIONS s))"

lemma UNIV_statuses: "s \<in> set all_statuses"
  by (cases s) (simp_all add: all_statuses_def)

lemma rule_targets_distinct: "distinct (map tr_to (TRANSITIONS s)) \<and> s \<notin> set (map tr_to (TRANSITIONS s))"
proof -
  have "list_all (\<lambda>s. distinct (map tr_to (TRANSITIONS s)) \<and> \<not> List.member (map tr_to (TRANSITIONS s)) s) all_statuses"
    by code_simp
  then show ?thesis using UNIV_statuses [of s] by (simp add: list_all_iff)
qed

lemma find_distinct:
  "distinct (map f xs) \<Longrightarrow> find (\<lambda>x. f x = k) xs = Some x \<longleftrightarrow> x \<in> set xs \<and> f x = k"
  by (induction xs) force+

lemma findRule_iff: "findRule s t = Some r \<longleftrightarrow> r \<in> set (TRANSITIONS s) \<and> tr_to r = t"
  unfolding findRule_def using find_distinct rule_targets_distinct by metis

lemma assertTransition_iff [result_simps]:
  "assertTransition s t a = Inr r \<longleftrightarrow> r \<in> set (TRANSITIONS s) \<and> tr_to r = t \<and> a \<in> set (tr_actors r)"
proof -
  have "assertTransition s t a = Inr r \<longleftrightarrow> s \<noteq> t \<and> findRule s t = Some r \<and> a \<in> set (tr_actors r)"
    by (auto simp: assertTransition_def Let_def split: option.splits)
  then show ?thesis using rule_targets_distinct [of s] by (auto simp: findRule_iff)
qed

interpretation invoice_gate: guarded_table assertTransition targets
proof
  fix s t a
  show "is_ok (assertTransition s t a) \<longleftrightarrow> t \<in> set (targets s a) \<and> s \<noteq> t"
    using rule_targets_distinct [of s] by (auto simp: is_ok_iff targets_def result_simps)
qed

lemma table_check:
  assumes "list_all (\<lambda>s. list_all (\<lambda>a. list_all (P s a) (targets s a)) [SYSTEM, MONITOR, MERCHANT, ADMIN, COMPLIANCE]) all_statuses"
    and "assertTransition s t a = Inr r"
  shows "P s a t"
proof -
  have "is_ok (assertTransition s t a)" using assms(2) by simp
  then have "t \<in> set (targets s a)" using invoice_gate.gate_ok by blast
  moreover have "a \<in> set [SYSTEM, MONITOR, MERCHANT, ADMIN, COMPLIANCE]" by (cases a) simp_all
  ultimately show ?thesis using assms(1) UNIV_statuses [of s] unfolding list_all_iff by blast
qed

text \<open>The gate lets a status change through exactly when the table has that edge and lists
  the actor on it, and it returns the rule of the edge; \<open>isActorAllowed\<close> is the same
  decision; every refusal is the 409 invalid-transition error carrying both statuses.\<close>

lemma transition_gate_exact:
  "(assertTransition s t a = Inr r \<longleftrightarrow> r \<in> set (TRANSITIONS s) \<and> tr_to r = t \<and> a \<in> set (tr_actors r)) \<and>
   (isActorAllowed s t a \<longleftrightarrow> is_ok (assertTransition s t a)) \<and>
   (case assertTransition s t a of Inr _ \<Rightarrow> s \<noteq> t \<and> canTransition s t
    | Inl e \<Rightarrow> ae_code (it_error e) = INVALID_STATE_TRANSITION \<and> ae_httpStatus (it_error e) = 409 \<and>
        it_from e = s \<and> it_to e = t)"
proof (intro conjI)
  show "assertTransition s t a = Inr r \<longleftrightarrow> r \<in> set (TRANSITIONS s) \<and> tr_to r = t \<and> a \<in> set (tr_actors r)"
    by (rule assertTransition_iff)
  show "isActorAllowed s t a \<longleftrightarrow> is_ok (assertTransition s t a)"
    unfolding is_ok_iff assertTransition_iff
    by (auto simp: isActorAllowed_def findRule_iff split: option.splits)
       (metis findRule_iff option.distinct(1) option.inject)+
  show "case assertTransition s t a of Inr _ \<Rightarrow> s \<noteq> t \<and> canTransition s t
    | Inl e \<Rightarrow> ae_code (it_error e) = INVALID_STATE_TRANSITION \<and> ae_httpStatus (it_error e) = 409 \<and>
        it_from e = s \<and> it_to e = t"
    by (auto simp: assertTransition_def canTransition_def InvalidTransitionError_def AppError_def
        AppError_new_def Let_def split: option.splits)
qed

text \<open>A paid invoice is never silently reopened. Whatever the services, the blockchain monitor
  and the merchant do, in any order and any number of steps, an invoice that was PAID is PAID,
  REFUNDED or RECONCILIATION_REQUIRED; and from RECONCILIATION_REQUIRED none of them can move it
  at all, so only a human resolves it.\<close>

lemma paid_never_silently_reopened:
  assumes "reaches assertTransition {SYSTEM, MONITOR, MERCHANT} PAID t"
  shows "t \<in> {PAID, REFUNDED, RECONCILIATION_REQUIRED} \<and>
    (reaches assertTransition {SYSTEM, MONITOR, MERCHANT} RECONCILIATION_REQUIRED u \<longleftrightarrow> u = RECONCILIATION_REQUIRED)"
proof -
  have T: "set (targets s a) \<subseteq> {PAID, REFUNDED, RECONCILIATION_REQUIRED}"
    if "s \<in> {PAID, REFUNDED, RECONCILIATION_REQUIRED}" "a \<in> {SYSTEM, MONITOR, MERCHANT}" for s a
    using that by (elim insertE emptyE) (simp_all, code_simp+)
  have R: "set (targets s a) \<subseteq> {RECONCILIATION_REQUIRED}"
    if "s \<in> {RECONCILIATION_REQUIRED}" "a \<in> {SYSTEM, MONITOR, MERCHANT}" for s a
    using that by (elim insertE emptyE) (simp_all, code_simp+)
  have "t \<in> {PAID, REFUNDED, RECONCILIATION_REQUIRED}"
    by (rule invoice_gate.reaches_closed [OF assms _ T]) simp_all
  moreover have "u \<in> {RECONCILIATION_REQUIRED}"
    if "reaches assertTransition {SYSTEM, MONITOR, MERCHANT} RECONCILIATION_REQUIRED u"
    by (rule invoice_gate.reaches_closed [OF that _ R]) simp_all
  moreover have "reaches assertTransition {SYSTEM, MONITOR, MERCHANT} RECONCILIATION_REQUIRED RECONCILIATION_REQUIRED"
    by (rule reaches.stay)
  ultimately show ?thesis by auto
qed

lemma orphan_step:
  "reaches assertTransition {SYSTEM, MONITOR, MERCHANT} PAID RECONCILIATION_REQUIRED"
proof (rule invoice_gate.reaches_step [OF reaches.stay])
  show "RECONCILIATION_REQUIRED \<in> set (targets PAID MONITOR)" by code_simp
qed simp_all

text \<open>Who may do what. The merchant can only cancel, and only an invoice that is CREATED,
  PENDING or UNDERPAID; only the sweeper or an administrator expires an invoice; and an invoice
  becomes PAID from a review (compliance, late payment, reconciliation) only by a human, never
  by a service or the monitor.\<close>

lemma actors_are_confined:
  assumes "assertTransition s t a = Inr r"
  shows "(a = MERCHANT \<longrightarrow> t = CANCELLED \<and> s \<in> {CREATED, PENDING, UNDERPAID}) \<and>
    (t = EXPIRED \<longrightarrow> (a = SYSTEM \<and> s \<in> {PENDING, UNDERPAID}) \<or> (a = ADMIN \<and> s = RECONCILIATION_REQUIRED)) \<and>
    (t = PAID \<longrightarrow> s \<in> {CONFIRMING, UNDERPAID, OVERPAID} \<or> a = ADMIN \<or> a = COMPLIANCE) \<and>
    (t = LATE_PAYMENT_REVIEW \<longrightarrow> a = MONITOR \<and> s \<in> {EXPIRED, CANCELLED})"
proof -
  have *: "list_all (\<lambda>s. list_all (\<lambda>a. list_all (\<lambda>t.
      (a = MERCHANT \<longrightarrow> t = CANCELLED \<and> List.member [CREATED, PENDING, UNDERPAID] s) \<and>
      (t = EXPIRED \<longrightarrow> (a = SYSTEM \<and> List.member [PENDING, UNDERPAID] s) \<or> (a = ADMIN \<and> s = RECONCILIATION_REQUIRED)) \<and>
      (t = PAID \<longrightarrow> List.member [CONFIRMING, UNDERPAID, OVERPAID] s \<or> a = ADMIN \<or> a = COMPLIANCE) \<and>
      (t = LATE_PAYMENT_REVIEW \<longrightarrow> a = MONITOR \<and> List.member [EXPIRED, CANCELLED] s))
      (targets s a)) [SYSTEM, MONITOR, MERCHANT, ADMIN, COMPLIANCE]) all_statuses" by code_simp
  from table_check [OF * assms] show ?thesis by simp
qed

text \<open>A walk through the table: every listed status is followed by one that some actor may move it to.\<close>

fun is_walk :: "invoice_status list \<Rightarrow> bool" where
  "is_walk (s # t # ss) \<longleftrightarrow>
     list_ex (\<lambda>r. tr_to r = t \<and> tr_actors r \<noteq> []) (TRANSITIONS s) \<and> is_walk (t # ss)"
| "is_walk _ \<longleftrightarrow> True"

lemma walk_reaches: "is_walk ss \<Longrightarrow> ss \<noteq> [] \<Longrightarrow> reaches assertTransition UNIV s (hd ss) \<Longrightarrow> t \<in> set ss \<Longrightarrow> reaches assertTransition UNIV s t"
proof (induction ss rule: is_walk.induct)
  case (1 u v ss)
  from 1(2) obtain r where r: "r \<in> set (TRANSITIONS u)" "tr_to r = v" "tr_actors r \<noteq> []"
    by (auto simp: list_ex_iff)
  then have "assertTransition u v (hd (tr_actors r)) = Inr r" by (simp add: assertTransition_iff)
  with 1(4) have "reaches assertTransition UNIV s v" by (auto intro: reaches.move)
  with 1 show ?case by auto
qed simp_all

definition hub_walk :: "invoice_status \<Rightarrow> invoice_status list" where
  "hub_walk s = (case s of CREATED \<Rightarrow> [CREATED, FAILED] | PENDING \<Rightarrow> [PENDING, FAILED] | DETECTED \<Rightarrow> [DETECTED, FAILED]
     | COMPLIANCE_REVIEW_REQUIRED \<Rightarrow> [COMPLIANCE_REVIEW_REQUIRED, FAILED]
     | EXPIRED \<Rightarrow> [EXPIRED, LATE_PAYMENT_REVIEW] | CANCELLED \<Rightarrow> [CANCELLED, LATE_PAYMENT_REVIEW]
     | RECONCILIATION_REQUIRED \<Rightarrow> [RECONCILIATION_REQUIRED, FAILED] | _ \<Rightarrow> [s]) @ [RECONCILIATION_REQUIRED]"

definition grand_tour :: "invoice_status list" where
  "grand_tour = [RECONCILIATION_REQUIRED, FAILED, PENDING, CANCELLED, LATE_PAYMENT_REVIEW, PAID,
     COMPLIANCE_REVIEW_REQUIRED, PENDING, DETECTED, CONFIRMING, OVERPAID, REFUNDED, RECONCILIATION_REQUIRED,
     UNDERPAID, EXPIRED]"

lemma reaches_all:
  assumes "t \<noteq> CREATED"
  shows "reaches assertTransition UNIV s t"
proof -
  have "list_all (\<lambda>s. is_walk (hub_walk s) \<and> hd (hub_walk s) = s) all_statuses" by code_simp
  then have "is_walk (hub_walk s)" "hd (hub_walk s) = s" using UNIV_statuses [of s] by (auto simp: list_all_iff)
  moreover have "hub_walk s \<noteq> []" "RECONCILIATION_REQUIRED \<in> set (hub_walk s)" by (simp_all add: hub_walk_def)
  ultimately have hub: "reaches assertTransition UNIV s RECONCILIATION_REQUIRED"
    using walk_reaches [of "hub_walk s" s RECONCILIATION_REQUIRED] reaches.stay [of assertTransition UNIV s] by metis
  have "is_walk grand_tour" by code_simp
  from walk_reaches [OF this] show ?thesis
    using hub assms by (cases t) (simp_all add: grand_tour_def)
qed



end
