(* ===== verification/Payments.thy ===== *)
theory Payments
  imports Registry StateMachine
begin

text \<open>
  The payment decisions (\<open>packages/payments/src/payment-evaluation.ts\<close>, \<open>confirmations.ts\<close>,
  \<open>matcher.ts\<close>): whether a received amount settles an invoice, expiry and grace, counting
  confirmations and detecting reorganisations, and what to do with a detected transfer. Times are
  milliseconds. \<open>confirmationProgress\<close>, a display helper in floating point, is not modelled.
\<close>

section \<open>Evaluating a received amount\<close>

datatype payment_outcome = NONE | EXACT | UNDERPAID_OUTCOME | OVERPAID_OUTCOME

record payment_evaluation =
  pe_outcome :: payment_outcome
  pe_shortfall :: money
  pe_excess :: money
  pe_minimumAccepted :: money
  pe_maximumAccepted :: money
  pe_satisfiesInvoice :: bool

datatype payment_error =
    NotComparable money money
  | InvoiceAmountNotPositive
  | BpsOutOfRange string int
  | MoneyError money_error
  | NegativeGrace
  | BlockNumberNotPositive
  | RequiredConfirmationsInvalid int
  | OverrideInvalid int
  | NegativeReorgDepth

definition assertComparable :: "money \<Rightarrow> money \<Rightarrow> payment_error + unit" where
  "assertComparable required received =
     (if m_asset required \<noteq> m_asset received \<or> m_decimals required \<noteq> m_decimals received
      then Inl (NotComparable required received) else Inr ())"

definition validateBps :: "int \<Rightarrow> string \<Rightarrow> payment_error + int" where
  "validateBps v label = (if v < 0 \<or> v > 10000 then Inl (BpsOutOfRange label v) else Inr v)"

definition evaluatePayment ::
  "money \<Rightarrow> money \<Rightarrow> int option \<Rightarrow> int option \<Rightarrow> payment_error + payment_evaluation"
where
  "evaluatePayment required received underpaymentToleranceBps overpaymentToleranceBps =
     bind_result (assertComparable required received) (\<lambda>_.
     if \<not> isPositive required then Inl InvoiceAmountNotPositive else
     bind_result (validateBps (case underpaymentToleranceBps of None \<Rightarrow> 0 | Some b \<Rightarrow> b) ''underpaymentToleranceBps'') (\<lambda>underBps.
     bind_result (validateBps (case overpaymentToleranceBps of None \<Rightarrow> 0 | Some b \<Rightarrow> b) ''overpaymentToleranceBps'') (\<lambda>overBps.
     map_error MoneyError (
       bind_result (percentageBps required underBps Floor) (\<lambda>underAllowance.
       bind_result (percentageBps required overBps Floor) (\<lambda>overAllowance.
       bind_result (money_subtract required underAllowance) (\<lambda>minimumAccepted.
       bind_result (money_add required overAllowance) (\<lambda>maximumAccepted.
       let zero = zero_money (m_asset required) (m_decimals required) in
       bind_result (lessThan received required) (\<lambda>short.
       bind_result (if short then money_subtract required received else Inr zero) (\<lambda>shortfall.
       bind_result (greaterThan received required) (\<lambda>over.
       bind_result (if over then money_subtract received required else Inr zero) (\<lambda>excess.
       bind_result
         (if isZero received then Inr NONE else
          bind_result (lessThan received minimumAccepted) (\<lambda>b1.
          if b1 then Inr UNDERPAID_OUTCOME else
          bind_result (greaterThan received maximumAccepted) (\<lambda>b2.
          if b2 then Inr OVERPAID_OUTCOME else Inr EXACT))) (\<lambda>outcome.
       Inr \<lparr>pe_outcome = outcome, pe_shortfall = shortfall, pe_excess = excess,
            pe_minimumAccepted = minimumAccepted, pe_maximumAccepted = maximumAccepted,
            pe_satisfiesInvoice = (outcome = EXACT)\<rparr>)))))))))))))"

fun statusForOutcome :: "payment_outcome \<Rightarrow> invoice_status option" where
  "statusForOutcome EXACT = Some PAID"
| "statusForOutcome UNDERPAID_OUTCOME = Some UNDERPAID"
| "statusForOutcome OVERPAID_OUTCOME = Some OVERPAID"
| "statusForOutcome NONE = None"

section \<open>Expiry\<close>

record expiry_decision =
  ed_expired :: bool
  ed_remainingMs :: int
  ed_lateArrival :: bool

definition evaluateExpiry :: "int \<Rightarrow> int \<Rightarrow> expiry_decision" where
  "evaluateExpiry expiresAt now =
     (let remainingMs = expiresAt - now; expired = (remainingMs \<le> 0) in
      \<lparr>ed_expired = expired, ed_remainingMs = remainingMs, ed_lateArrival = expired\<rparr>)"

definition isWithinGrace :: "int \<Rightarrow> int \<Rightarrow> int \<Rightarrow> payment_error + bool" where
  "isWithinGrace expiresAt observedAt graceSeconds =
     (if graceSeconds < 0 then Inl NegativeGrace
      else Inr (observedAt \<le> expiresAt + graceSeconds * 1000))"

section \<open>Confirmations and reorganisations\<close>

definition MAX_SAFE_INTEGER :: int where "MAX_SAFE_INTEGER = 9007199254740991"

definition countConfirmations :: "int \<Rightarrow> int \<Rightarrow> payment_error + int" where
  "countConfirmations blockNumber chainTip =
     (if blockNumber \<le> 0 then Inl BlockNumberNotPositive
      else if chainTip < blockNumber then Inr 0
      else let confirmations = chainTip - blockNumber + 1 in
        Inr (if confirmations > MAX_SAFE_INTEGER then MAX_SAFE_INTEGER else confirmations))"

definition isConfirmed :: "int \<Rightarrow> int \<Rightarrow> payment_error + bool" where
  "isConfirmed confirmations required =
     (if required < 1 then Inl (RequiredConfirmationsInvalid required) else Inr (confirmations \<ge> required))"

definition effectiveConfirmations :: "int \<Rightarrow> int option \<Rightarrow> payment_error + int" where
  "effectiveConfirmations assetDefault merchantOverride =
     (case merchantOverride of None \<Rightarrow> Inr assetDefault
      | Some ov \<Rightarrow> if ov < 1 then Inl (OverrideInvalid ov) else Inr (max assetDefault ov))"

datatype reorg_verdict = INTACT | REORGED | MISSING

definition detectReorg :: "string \<Rightarrow> string option \<Rightarrow> reorg_verdict" where
  "detectReorg storedBlockHash currentBlockHash =
     (case currentBlockHash of None \<Rightarrow> MISSING
      | Some h \<Rightarrow> if toLowerCase storedBlockHash = toLowerCase h then INTACT else REORGED)"

definition isWithinReorgWindow :: "int \<Rightarrow> int \<Rightarrow> int \<Rightarrow> payment_error + bool" where
  "isWithinReorgWindow blockNumber chainTip reorgDepth =
     (if reorgDepth < 0 then Inl NegativeReorgDepth else Inr (chainTip - blockNumber < reorgDepth))"

definition reorgRewindTarget :: "int \<Rightarrow> int \<Rightarrow> int \<Rightarrow> int" where
  "reorgRewindTarget lastProcessed chainTip reorgDepth =
     (let target = chainTip - reorgDepth; floor = (if target < 1 then 1 else target) in
      if floor < lastProcessed then floor else lastProcessed)"

section \<open>Matching a detected transfer\<close>

datatype tx_status = TxPending | TxSuccess | TxReverted

record match_input =
  mi_assetRecognized :: bool
  mi_meetsMinimum :: bool
  mi_txStatus :: tx_status
  mi_invoiceStatus :: "invoice_status option"
  mi_invoiceExpired :: bool
  mi_alreadyCredited :: bool
  mi_complianceHold :: bool

record match_decision =
  md_status :: match_status
  md_reason :: string

definition decision :: "match_status \<Rightarrow> string \<Rightarrow> match_decision" where
  "decision s reason = \<lparr>md_status = s, md_reason = reason\<rparr>"

definition evaluateTransferMatch :: "match_input \<Rightarrow> match_decision" where
  "evaluateTransferMatch input =
     (if mi_alreadyCredited input then decision CREDITED ''already credited; idempotent replay''
      else if mi_txStatus input = TxReverted then decision UNMATCHED ''transaction reverted on-chain''
      else if \<not> mi_assetRecognized input then
        decision UNSUPPORTED_ASSET ''destination is ours but the asset is not allowlisted''
      else if \<not> mi_meetsMinimum input then decision BELOW_MINIMUM ''amount is below the asset dust threshold''
      else if mi_complianceHold input then decision COMPLIANCE_HOLD ''held pending compliance review''
      else case mi_invoiceStatus input of
        None \<Rightarrow> decision UNMATCHED ''destination is ours but no invoice claims it''
      | Some s \<Rightarrow>
          if mi_invoiceExpired input \<or> \<not> isPayableStatus s then
            decision LATE_PAYMENT_REVIEW_MATCH (''invoice is '' @ status_name s @ '', not payable'')
          else decision PENDING_CONFIRMATION ''matched an open invoice, awaiting confirmations'')"

section \<open>What the decisions guarantee\<close>

definition tolerance :: "int option \<Rightarrow> int" where
  "tolerance bps = (case bps of None \<Rightarrow> 0 | Some b \<Rightarrow> b)"

definition band_outcome :: "int \<Rightarrow> int \<Rightarrow> int \<Rightarrow> int \<Rightarrow> payment_outcome" where
  "band_outcome required received underBps overBps =
     (if received = 0 then NONE
      else if received < required - required * underBps div 10000 then UNDERPAID_OUTCOME
      else if received > required + required * overBps div 10000 then OVERPAID_OUTCOME else EXACT)"

lemma assertComparable_Inr_iff [result_simps]: "assertComparable x y = Inr u \<longleftrightarrow> same_asset x y"
  by (auto simp: assertComparable_def same_asset_def)

lemma validateBps_Inr_iff [result_simps]: "validateBps v l = Inr w \<longleftrightarrow> 0 \<le> v \<and> v \<le> 10000 \<and> w = v"
  by (auto simp: validateBps_def)

lemma money_add_same: "same_asset x y \<Longrightarrow> money_add x y = Inr (mk_money (m_units x + m_units y) (m_asset x) (m_decimals x))"
  by (simp add: result_simps)

lemma money_subtract_same:
  "same_asset x y \<Longrightarrow> money_subtract x y = Inr (mk_money (m_units x - m_units y) (m_asset x) (m_decimals x))"
  by (simp add: result_simps)

lemma same_asset_simps [simp]:
  "same_asset x (mk_money u (m_asset x) (m_decimals x))"
  "same_asset x y \<Longrightarrow> same_asset y (mk_money u (m_asset x) (m_decimals x))"
  by (simp_all add: same_asset_def)

lemma same_asset_sym: "same_asset x y \<Longrightarrow> same_asset y x"
  by (simp add: same_asset_def)

text \<open>The evaluation in closed form, and the exact condition under which it is produced.\<close>

lemma evaluatePayment_Inr_iff [result_simps]:
  "evaluatePayment required received ub ob = Inr ev \<longleftrightarrow>
     same_asset required received \<and> 0 < m_units required \<and>
     0 \<le> tolerance ub \<and> tolerance ub \<le> 10000 \<and> 0 \<le> tolerance ob \<and> tolerance ob \<le> 10000 \<and>
     ev = (let R = m_units required; X = m_units received; a = m_asset required; d = m_decimals required;
               out = band_outcome R X (tolerance ub) (tolerance ob) in
       \<lparr>pe_outcome = out, pe_shortfall = mk_money (max 0 (R - X)) a d, pe_excess = mk_money (max 0 (X - R)) a d,
        pe_minimumAccepted = mk_money (R - R * tolerance ub div 10000) a d,
        pe_maximumAccepted = mk_money (R + R * tolerance ob div 10000) a d,
        pe_satisfiesInvoice = (out = EXACT)\<rparr>)" (is "?L \<longleftrightarrow> ?R")
proof (cases "same_asset required received \<and> 0 < m_units required \<and>
     0 \<le> tolerance ub \<and> tolerance ub \<le> 10000 \<and> 0 \<le> tolerance ob \<and> tolerance ob \<le> 10000")
  case True
  then have S: "same_asset required received" "same_asset received required"
    and "m_asset received = m_asset required" "m_decimals received = m_decimals required"
    by (auto simp: same_asset_def)
  moreover have "validateBps (tolerance ub) l = Inr (tolerance ub)" "validateBps (tolerance ob) l = Inr (tolerance ob)" for l
    using True by (simp_all add: result_simps)
  moreover have "assertComparable required received = Inr ()" using True by (simp add: result_simps)
  ultimately show ?thesis using True
    unfolding evaluatePayment_def tolerance_def [symmetric] Let_def zero_money_def fromUnits_def
    by (auto simp: percentageBps_floor money_subtract_same money_add_same comparison_same isPositive_def isZero_def
        band_outcome_def max_def)
next
  case False
  then show ?thesis
    by (auto simp: evaluatePayment_def tolerance_def result_simps isPositive_def split: if_splits)
qed

text \<open>C13: the evaluation is total on every comparable pair with a positive invoice amount and
  tolerances of at most 100%, and its outcome is the position of the received amount relative to
  the accepted band: nothing, below, above, or inside it. Shortfall and excess account for the
  whole difference: received plus shortfall minus excess is the invoiced amount, and one is zero.\<close>

theorem evaluatePayment_bands:
  assumes "same_asset required received" "0 < m_units required"
    "0 \<le> tolerance ub" "tolerance ub \<le> 10000" "0 \<le> tolerance ob" "tolerance ob \<le> 10000"
  shows "\<exists>ev. evaluatePayment required received ub ob = Inr ev \<and>
    pe_outcome ev = band_outcome (m_units required) (m_units received) (tolerance ub) (tolerance ob) \<and>
    (pe_satisfiesInvoice ev \<longleftrightarrow> m_units received \<noteq> 0 \<and>
       m_units (pe_minimumAccepted ev) \<le> m_units received \<and> m_units received \<le> m_units (pe_maximumAccepted ev)) \<and>
    m_units received + m_units (pe_shortfall ev) - m_units (pe_excess ev) = m_units required \<and>
    0 \<le> m_units (pe_shortfall ev) \<and> 0 \<le> m_units (pe_excess ev) \<and>
    (m_units (pe_shortfall ev) = 0 \<or> m_units (pe_excess ev) = 0)"
  using assms by (auto simp: result_simps Let_def band_outcome_def max_def)

theorem evaluatePayment_bands_witness:
  "\<exists>ev. evaluatePayment (mk_money 100 ''USDT'' 6) (mk_money 99 ''USDT'' 6) (Some 100) None = Inr ev \<and>
     pe_outcome ev = EXACT"
proof -
  have "tolerance (Some 100) = 100" "tolerance None = 0" by (simp_all add: tolerance_def)
  then show ?thesis
    using evaluatePayment_bands [of "mk_money 100 ''USDT'' 6" "mk_money 99 ''USDT'' 6" "Some 100" None]
    by (auto simp: band_outcome_def)
qed

text \<open>Rounding never widens a tolerance. When an amount counts as settling the invoice, the
  shortfall is at most the configured basis points of the invoiced amount, the excess likewise,
  and without tolerances the amount is exactly the invoiced one. Amounts in another asset or other
  decimals are refused.\<close>

lemma tolerance_never_widened:
  assumes "evaluatePayment required received ub ob = Inr ev" "pe_satisfiesInvoice ev"
  shows "same_asset required received \<and>
    10000 * m_units (pe_shortfall ev) \<le> tolerance ub * m_units required \<and>
    10000 * m_units (pe_excess ev) \<le> tolerance ob * m_units required \<and>
    (tolerance ub = 0 \<longrightarrow> tolerance ob = 0 \<longrightarrow> received = required)"
proof -
  let ?R = "m_units required" and ?X = "m_units received"
  have r: "?R - ?R * tolerance ub div 10000 \<le> ?X" "?X \<le> ?R + ?R * tolerance ob div 10000"
    "same_asset required received" "0 \<le> tolerance ub" "0 \<le> tolerance ob" "0 < ?R"
    and s: "m_units (pe_shortfall ev) = max 0 (?R - ?X)" "m_units (pe_excess ev) = max 0 (?X - ?R)"
    using assms by (auto simp: result_simps Let_def band_outcome_def split: if_splits)
  have "10000 * (?R * b div 10000) \<le> b * ?R" for b
    using div_mult_mod_eq [of "?R * b" 10000] pos_mod_sign [of 10000 "?R * b"]
    by (simp add: mult.commute)
  from this [of "tolerance ub"] this [of "tolerance ob"] have
    "10000 * m_units (pe_shortfall ev) \<le> tolerance ub * ?R" "10000 * m_units (pe_excess ev) \<le> tolerance ob * ?R"
    using r s by (auto simp: max_def)
  moreover have "received = required" if "tolerance ub = 0" "tolerance ob = 0"
    using r that by (intro money.equality) (auto simp: same_asset_def)
  ultimately show ?thesis using r by blast
qed

text \<open>Confirmations are never over-counted. A transaction counts as confirmed exactly when the
  tip is at least \<open>required - 1\<close> blocks beyond its block (the block itself is the first
  confirmation; thresholds are below the largest safe integer), so a stale tip behind the block
  never confirms; a longer chain never lowers the count; and the effective threshold is at least
  the asset's own whatever a merchant asks.\<close>

lemma confirmations_never_overcounted:
  assumes "0 < blockNumber" "1 \<le> required" "required \<le> MAX_SAFE_INTEGER"
    "effectiveConfirmations assetDefault ov = Inr threshold"
  shows "\<exists>c. countConfirmations blockNumber chainTip = Inr c \<and> 0 \<le> c \<and>
     isConfirmed c required = Inr (blockNumber + required - 1 \<le> chainTip) \<and>
     (\<exists>c'. countConfirmations blockNumber (chainTip + 1) = Inr c' \<and> c \<le> c') \<and> assetDefault \<le> threshold"
  using assms
  by (auto simp: countConfirmations_def isConfirmed_def effectiveConfirmations_def MAX_SAFE_INTEGER_def Let_def
      split: option.splits if_splits)

text \<open>Rewinding after a reorganisation is safe. The resume point is never ahead of the last
  processed block, never below block 1 when that block was not, and never skips a processed block
  that a reorganisation of the configured depth can still reach; and two hashes that differ only in
  letter case are never taken for a reorganisation.\<close>

lemma rewind_covers_reorg_window:
  assumes "1 \<le> b" "b \<le> lastProcessed" "isWithinReorgWindow b chainTip reorgDepth = Inr True"
  shows "reorgRewindTarget lastProcessed chainTip reorgDepth \<le> b \<and>
    1 \<le> reorgRewindTarget lastProcessed chainTip reorgDepth \<and>
    reorgRewindTarget lastProcessed chainTip reorgDepth \<le> lastProcessed \<and>
    (detectReorg h (Some h') = INTACT \<longleftrightarrow> toLowerCase h = toLowerCase h') \<and> detectReorg h None = MISSING"
  using assms
  by (auto simp: reorgRewindTarget_def isWithinReorgWindow_def detectReorg_def Let_def split: if_splits)

text \<open>Which transfers may be credited. A transfer waits for confirmations exactly when it has not
  been credited, its transaction did not revert, the asset is allowlisted, the amount is not dust,
  no compliance rule holds it, and an invoice that is payable and unexpired claims its address; a
  transfer already credited keeps that verdict whatever else changed; and funds for an invoice that
  is no longer payable go to review, never to a credit.\<close>

lemma transfer_match_exact:
  "(md_status (evaluateTransferMatch i) = PENDING_CONFIRMATION \<longleftrightarrow>
      \<not> mi_alreadyCredited i \<and> mi_txStatus i \<noteq> TxReverted \<and> mi_assetRecognized i \<and> mi_meetsMinimum i \<and>
      \<not> mi_complianceHold i \<and> (\<exists>s. mi_invoiceStatus i = Some s \<and> isPayableStatus s) \<and> \<not> mi_invoiceExpired i) \<and>
   (md_status (evaluateTransferMatch i) = CREDITED \<longleftrightarrow> mi_alreadyCredited i) \<and>
   (md_status (evaluateTransferMatch i) = LATE_PAYMENT_REVIEW_MATCH \<longleftrightarrow>
      \<not> mi_alreadyCredited i \<and> mi_txStatus i \<noteq> TxReverted \<and> mi_assetRecognized i \<and> mi_meetsMinimum i \<and>
      \<not> mi_complianceHold i \<and> (\<exists>s. mi_invoiceStatus i = Some s \<and> \<not> (isPayableStatus s \<and> \<not> mi_invoiceExpired i)))"
  by (auto simp: evaluateTransferMatch_def decision_def split: option.splits)

text \<open>Expiry and grace agree: an invoice is past expiry exactly when no time remains, an arrival
  before expiry is always within grace, grace only extends the window by its seconds, and every
  outcome of an evaluation names a status the monitor may give a confirming invoice.\<close>

lemma expiry_and_outcomes:
  assumes "0 \<le> graceSeconds"
  shows "(ed_expired (evaluateExpiry expiresAt now) \<longleftrightarrow> expiresAt \<le> now) \<and>
    (\<exists>b. isWithinGrace expiresAt now graceSeconds = Inr b \<and>
       (b \<longleftrightarrow> ed_remainingMs (evaluateExpiry expiresAt now) + 1000 * graceSeconds \<ge> 0) \<and>
       (\<not> ed_lateArrival (evaluateExpiry expiresAt now) \<longrightarrow> b)) \<and>
    (statusForOutcome out = Some s \<longrightarrow> is_ok (assertTransition CONFIRMING s MONITOR))"
proof -
  have "is_ok (assertTransition CONFIRMING PAID MONITOR)" "is_ok (assertTransition CONFIRMING UNDERPAID MONITOR)"
    "is_ok (assertTransition CONFIRMING OVERPAID MONITOR)" by code_simp+
  then have "statusForOutcome out = Some s \<longrightarrow> is_ok (assertTransition CONFIRMING s MONITOR)"
    by (cases out) auto
  with assms show ?thesis by (auto simp: evaluateExpiry_def isWithinGrace_def Let_def)
qed

end
