(* ===== verification/Effects.thy ===== *)
theory Effects
  imports Prelude
begin

text \<open>
  Stateful code. An \<open>op\<close> is the body of a database transaction: it maps the state to an error
  (the transaction is rolled back, no state is returned) or to a value and the new state. A
  \<open>proc\<close> is code outside a transaction: it always returns a state, since what was committed
  before an error stays committed; \<open>atomically\<close> runs an \<open>op\<close> as one transaction.
  The locale \<open>step_relation\<close> proves once that a reflexive transitive relation between states is
  kept by every combination of operations that keep it.
\<close>

type_synonym ('s, 'e, 'a) op = "'s \<Rightarrow> 'e + 'a \<times> 's"
type_synonym ('s, 'e, 'a) proc = "'s \<Rightarrow> ('e + 'a) \<times> 's"

section \<open>Transaction bodies\<close>

definition ret :: "'a \<Rightarrow> ('s, 'e, 'a) op" where "ret a = (\<lambda>s. Inr (a, s))"
definition throw :: "'e \<Rightarrow> ('s, 'e, 'a) op" where "throw e = (\<lambda>s. Inl e)"
definition reads :: "('s \<Rightarrow> 'a) \<Rightarrow> ('s, 'e, 'a) op" where "reads f = (\<lambda>s. Inr (f s, s))"
definition modify :: "('s \<Rightarrow> 's) \<Rightarrow> ('s, 'e, unit) op" where "modify f = (\<lambda>s. Inr ((), f s))"

definition from_result :: "'e + 'a \<Rightarrow> ('s, 'e, 'a) op" where
  "from_result r = (\<lambda>s. case r of Inl e \<Rightarrow> Inl e | Inr a \<Rightarrow> Inr (a, s))"

definition bind_op :: "('s, 'e, 'a) op \<Rightarrow> ('a \<Rightarrow> ('s, 'e, 'b) op) \<Rightarrow> ('s, 'e, 'b) op" where
  "bind_op m f = (\<lambda>s. case m s of Inl e \<Rightarrow> Inl e | Inr (a, s') \<Rightarrow> f a s')"

definition seq_op :: "('s, 'e, unit) op \<Rightarrow> ('s, 'e, 'b) op \<Rightarrow> ('s, 'e, 'b) op" where
  "seq_op m n = bind_op m (\<lambda>_. n)"

fun for_each :: "('x \<Rightarrow> ('s, 'e, unit) op) \<Rightarrow> 'x list \<Rightarrow> ('s, 'e, unit) op" where
  "for_each f [] = ret ()"
| "for_each f (x # xs) = seq_op (f x) (for_each f xs)"

text \<open>\<open>findUniqueOrThrow\<close>: the row, or the not-found error.\<close>

definition find_or_throw :: "'e \<Rightarrow> ('s \<Rightarrow> 'a option) \<Rightarrow> ('s, 'e, 'a) op" where
  "find_or_throw e f = (\<lambda>s. case f s of None \<Rightarrow> Inl e | Some a \<Rightarrow> Inr (a, s))"

lemma op_simps [simp]:
  "ret a s = Inr (a, s)" "throw e s = Inl e" "reads f s = Inr (f s, s)" "modify g s = Inr ((), g s)"
  by (simp_all add: ret_def throw_def reads_def modify_def)

lemma bind_op_Inr_iff [result_simps]:
  "bind_op m f s = Inr (b, t) \<longleftrightarrow> (\<exists>a s'. m s = Inr (a, s') \<and> f a s' = Inr (b, t))"
  by (auto simp: bind_op_def split: sum.splits)

lemma bind_op_Inl_iff [result_simps]:
  "bind_op m f s = Inl e \<longleftrightarrow> m s = Inl e \<or> (\<exists>a s'. m s = Inr (a, s') \<and> f a s' = Inl e)"
  by (auto simp: bind_op_def split: sum.splits)

lemma bind_op_ok [simp]: "m s = Inr (a, s') \<Longrightarrow> bind_op m f s = f a s'"
  by (simp add: bind_op_def)

lemma seq_op_Inr_iff [result_simps]:
  "seq_op m n s = Inr (b, t) \<longleftrightarrow> (\<exists>s'. m s = Inr ((), s') \<and> n s' = Inr (b, t))"
  by (auto simp: seq_op_def result_simps)

lemma seq_op_Inl_iff [result_simps]:
  "seq_op m n s = Inl e \<longleftrightarrow> m s = Inl e \<or> (\<exists>s'. m s = Inr ((), s') \<and> n s' = Inl e)"
  by (auto simp: seq_op_def result_simps)

lemma seq_op_ok [simp]: "m s = Inr ((), s') \<Longrightarrow> seq_op m n s = n s'"
  by (simp add: seq_op_def)

lemma from_result_Inr_iff [result_simps]: "from_result r s = Inr (a, t) \<longleftrightarrow> r = Inr a \<and> t = s"
  by (auto simp: from_result_def split: sum.splits)

lemma from_result_Inl_iff [result_simps]: "from_result r s = Inl e \<longleftrightarrow> r = Inl e"
  by (auto simp: from_result_def split: sum.splits)

lemma from_result_simps [simp]: "from_result (Inr a) s = Inr (a, s)" "from_result (Inl e) s = Inl e"
  by (simp_all add: from_result_def)

lemma find_or_throw_Inr_iff [result_simps]: "find_or_throw e f s = Inr (a, t) \<longleftrightarrow> f s = Some a \<and> t = s"
  by (auto simp: find_or_throw_def split: option.splits)

lemma find_or_throw_Inl_iff [result_simps]: "find_or_throw e f s = Inl e' \<longleftrightarrow> f s = None \<and> e' = e"
  by (auto simp: find_or_throw_def split: option.splits)

lemma find_or_throw_Some [simp]: "f s = Some a \<Longrightarrow> find_or_throw e f s = Inr (a, s)"
  by (simp add: find_or_throw_def)

lemma bind_op_reads [simp]: "bind_op (reads f) k s = k (f s) s"
  by (simp add: bind_op_def)

lemma seq_op_modify [simp]: "seq_op (modify g) n s = n (g s)"
  by (simp add: seq_op_def bind_op_def)

section \<open>Code outside a transaction\<close>

definition pret :: "'a \<Rightarrow> ('s, 'e, 'a) proc" where "pret a = (\<lambda>s. (Inr a, s))"
definition pthrow :: "'e \<Rightarrow> ('s, 'e, 'a) proc" where "pthrow e = (\<lambda>s. (Inl e, s))"
definition preads :: "('s \<Rightarrow> 'a) \<Rightarrow> ('s, 'e, 'a) proc" where "preads f = (\<lambda>s. (Inr (f s), s))"
definition pmodify :: "('s \<Rightarrow> 's) \<Rightarrow> ('s, 'e, unit) proc" where "pmodify f = (\<lambda>s. (Inr (), f s))"

definition pfrom_result :: "'e + 'a \<Rightarrow> ('s, 'e, 'a) proc" where "pfrom_result r = (\<lambda>s. (r, s))"

definition pbind :: "('s, 'e, 'a) proc \<Rightarrow> ('a \<Rightarrow> ('s, 'e, 'b) proc) \<Rightarrow> ('s, 'e, 'b) proc" where
  "pbind p f = (\<lambda>s. case p s of (Inl e, s') \<Rightarrow> (Inl e, s') | (Inr a, s') \<Rightarrow> f a s')"

definition atomically :: "('s, 'e, 'a) op \<Rightarrow> ('s, 'e, 'a) proc" where
  "atomically m = (\<lambda>s. case m s of Inl e \<Rightarrow> (Inl e, s) | Inr (a, s') \<Rightarrow> (Inr a, s'))"

text \<open>A \<open>catch\<close> that rethrows another error.\<close>

definition pmap_error :: "('e \<Rightarrow> 'e) \<Rightarrow> ('s, 'e, 'a) proc \<Rightarrow> ('s, 'e, 'a) proc" where
  "pmap_error f p = (\<lambda>s. case p s of (Inl e, s') \<Rightarrow> (Inl (f e), s') | (Inr a, s') \<Rightarrow> (Inr a, s'))"

text \<open>\<open>try\<close> and \<open>catch\<close>: what was written before the error stays written.\<close>

definition pcatch :: "('s, 'e, 'a) proc \<Rightarrow> ('e \<Rightarrow> ('s, 'e, 'a) proc) \<Rightarrow> ('s, 'e, 'a) proc" where
  "pcatch p h = (\<lambda>s. case p s of (Inl e, s') \<Rightarrow> h e s' | (Inr a, s') \<Rightarrow> (Inr a, s'))"

fun pfor_each :: "('x \<Rightarrow> ('s, 'e, unit) proc) \<Rightarrow> 'x list \<Rightarrow> ('s, 'e, unit) proc" where
  "pfor_each f [] = pret ()"
| "pfor_each f (x # xs) = pbind (f x) (\<lambda>_. pfor_each f xs)"

text \<open>A loop that threads a value through its body.\<close>

fun pfold :: "('x \<Rightarrow> 'a \<Rightarrow> ('s, 'e, 'a) proc) \<Rightarrow> 'x list \<Rightarrow> 'a \<Rightarrow> ('s, 'e, 'a) proc" where
  "pfold f [] a = pret a"
| "pfold f (x # xs) a = pbind (f x a) (\<lambda>b. pfold f xs b)"

lemma proc_simps [simp]:
  "pret a s = (Inr a, s)" "pthrow e s = (Inl e, s)" "preads f s = (Inr (f s), s)" "pmodify g s = (Inr (), g s)"
  "pfrom_result r s = (r, s)"
  by (simp_all add: pret_def pthrow_def preads_def pmodify_def pfrom_result_def)

lemma pbind_simps [simp]:
  "pbind (pret a) f = f a" "pbind (pthrow e) f = pthrow e"
  "pbind (preads g) f s = f (g s) s" "pbind (pmodify h) k s = k () (h s)"
  by (simp_all add: pbind_def pret_def pthrow_def preads_def pmodify_def)

lemma pbind_ok: "p s = (Inr a, s') \<Longrightarrow> pbind p f s = f a s'"
  by (simp add: pbind_def)

lemma pbind_error: "p s = (Inl e, s') \<Longrightarrow> pbind p f s = (Inl e, s')"
  by (simp add: pbind_def)

lemma atomically_ok: "m s = Inr (a, s') \<Longrightarrow> atomically m s = (Inr a, s')"
  by (simp add: atomically_def)

lemma atomically_rollback: "m s = Inl e \<Longrightarrow> atomically m s = (Inl e, s)"
  by (simp add: atomically_def)

lemma pbind_Inr_iff: "pbind p f s = (Inr b, t) \<longleftrightarrow> (\<exists>a s'. p s = (Inr a, s') \<and> f a s' = (Inr b, t))"
  by (cases "p s") (auto simp: pbind_def split: sum.splits)

lemma atomically_Inr_iff: "atomically m s = (Inr a, t) \<longleftrightarrow> m s = Inr (a, t)"
  by (auto simp: atomically_def split: sum.splits prod.splits)

lemma pmap_error_Inr_iff: "pmap_error f p s = (Inr a, t) \<longleftrightarrow> p s = (Inr a, t)"
  by (cases "p s") (auto simp: pmap_error_def split: sum.splits)

lemmas proc_Inr_iff = pbind_Inr_iff atomically_Inr_iff pmap_error_Inr_iff

section \<open>Relations between the states before and after\<close>

definition steps :: "('s \<Rightarrow> 's \<Rightarrow> bool) \<Rightarrow> ('s, 'e, 'a) op \<Rightarrow> bool" where
  "steps R m \<longleftrightarrow> (\<forall>s a t. m s = Inr (a, t) \<longrightarrow> R s t)"

definition psteps :: "('s \<Rightarrow> 's \<Rightarrow> bool) \<Rightarrow> ('s, 'e, 'a) proc \<Rightarrow> bool" where
  "psteps R p \<longleftrightarrow> (\<forall>s. R s (snd (p s)))"

lemma stepsD: "steps R m \<Longrightarrow> m s = Inr (a, t) \<Longrightarrow> R s t"
  by (simp add: steps_def)

lemma psteps_D: "psteps R p \<Longrightarrow> R s (snd (p s))"
  by (simp add: psteps_def)

locale step_relation =
  fixes R :: "'s \<Rightarrow> 's \<Rightarrow> bool"
  assumes R_refl: "R s s"
    and R_trans: "R s t \<Longrightarrow> R t u \<Longrightarrow> R s u"
begin

lemma steps_pure: "steps R (ret a)" "steps R (throw e)" "steps R (reads f)" "steps R (from_result r)"
  "steps R (find_or_throw e' g)"
  by (auto simp: steps_def result_simps R_refl)

lemma steps_modify: "(\<And>s. R s (g s)) \<Longrightarrow> steps R (modify g)"
  by (auto simp: steps_def)

lemma steps_bind: "steps R m \<Longrightarrow> (\<And>a. steps R (f a)) \<Longrightarrow> steps R (bind_op m f)"
  unfolding steps_def bind_op_Inr_iff by (blast intro: R_trans)

lemma steps_seq: "steps R m \<Longrightarrow> steps R n \<Longrightarrow> steps R (seq_op m n)"
  unfolding seq_op_def by (rule steps_bind)

lemma steps_if: "(b \<Longrightarrow> steps R m) \<Longrightarrow> (\<not> b \<Longrightarrow> steps R n) \<Longrightarrow> steps R (if b then m else n)"
  by simp

lemma steps_option: "steps R m \<Longrightarrow> (\<And>a. steps R (f a)) \<Longrightarrow> steps R (case x of None \<Rightarrow> m | Some a \<Rightarrow> f a)"
  by (cases x) simp_all

lemma steps_for_each: "(\<And>x. steps R (f x)) \<Longrightarrow> steps R (for_each f xs)"
  by (induction xs) (simp_all add: steps_pure steps_seq)

lemma psteps_pure: "psteps R (pret a)" "psteps R (pthrow e)" "psteps R (preads f)" "psteps R (pfrom_result r)"
  by (simp_all add: psteps_def R_refl)

lemma psteps_modify: "(\<And>s. R s (g s)) \<Longrightarrow> psteps R (pmodify g)"
  by (simp add: psteps_def)

lemma psteps_atomically: "steps R m \<Longrightarrow> psteps R (atomically m)"
  by (auto simp: psteps_def steps_def atomically_def R_refl split: sum.splits)

lemma psteps_bind: "psteps R p \<Longrightarrow> (\<And>a. psteps R (f a)) \<Longrightarrow> psteps R (pbind p f)"
  unfolding psteps_def
proof (intro allI)
  fix s
  assume p: "\<forall>s. R s (snd (p s))" and f: "\<And>a. \<forall>s. R s (snd (f a s))"
  obtain r s' where ps: "p s = (r, s')" by fastforce
  with p have "R s s'" by (metis snd_conv)
  then show "R s (snd (pbind p f s))"
    using f R_trans by (cases r) (auto simp: pbind_def ps)
qed

lemma psteps_option: "psteps R m \<Longrightarrow> (\<And>a. psteps R (f a)) \<Longrightarrow> psteps R (case x of None \<Rightarrow> m | Some a \<Rightarrow> f a)"
  by (cases x) simp_all

lemma psteps_if: "(b \<Longrightarrow> psteps R m) \<Longrightarrow> (\<not> b \<Longrightarrow> psteps R n) \<Longrightarrow> psteps R (if b then m else n)"
  by simp

lemma psteps_map_error: "psteps R p \<Longrightarrow> psteps R (pmap_error f p)"
  by (auto simp: psteps_def pmap_error_def split: prod.splits sum.splits) (metis snd_conv)+

lemma psteps_for_each: "(\<And>x. psteps R (f x)) \<Longrightarrow> psteps R (pfor_each f xs)"
  by (induction xs) (simp_all add: psteps_pure psteps_bind)

lemma psteps_fold: "(\<And>x a. psteps R (f x a)) \<Longrightarrow> psteps R (pfold f xs a)"
  by (induction xs arbitrary: a) (simp_all add: psteps_pure psteps_bind)

lemmas steps_rules = steps_pure steps_bind steps_seq steps_if steps_option steps_for_each
lemmas psteps_rules = psteps_pure psteps_bind psteps_if psteps_option psteps_for_each psteps_atomically psteps_map_error

end

text \<open>An invariant is such a relation: what held before holds after.\<close>

definition keeps :: "('s \<Rightarrow> bool) \<Rightarrow> 's \<Rightarrow> 's \<Rightarrow> bool" where
  "keeps P s t \<longleftrightarrow> (P s \<longrightarrow> P t)"

lemma step_relation_keeps: "step_relation (keeps P)"
  by unfold_locales (auto simp: keeps_def)

end
