(* ===== verification/Store.thy ===== *)
theory Store
  imports Payments Effects
begin

text \<open>
  The database the services share. Each table is a list of rows in an arbitrary order; a row is a
  record with the columns the modelled code reads or writes. Monetary columns (NUMERIC(78,0)) are
  integers; timestamps are milliseconds. \<open>findUnique\<close> is \<open>find\<close>, \<open>findMany\<close> is
  \<open>filter\<close>, \<open>create\<close> appends and \<open>update\<close> rewrites the rows with the given key.
  Identifiers come from a ULID generator \<open>gen\<close>, a parameter: \<open>db_ulids\<close> counts the ULIDs
  drawn so far. \<open>db_sequence\<close> is the autoincrement sequence of the ledger entries.
\<close>

section \<open>Rows\<close>

datatype underpayment_policy = REJECT | ACCEPT_PARTIAL | REQUEST_ADDITIONAL | UNDER_MANUAL_REVIEW
datatype overpayment_policy = ACCEPT_FULL | CREDIT_DIFFERENCE | REFUND_DIFFERENCE | OVER_MANUAL_REVIEW
datatype address_status = AVAILABLE | ASSIGNED | RETIRED | BLOCKED
datatype chain_tx_status = MEMPOOL | MINED | CONFIRMED | REVERTED | TX_ORPHANED | REPLACED | DROPPED
datatype ledger_account_type = ASSET | LIABILITY | EQUITY | REVENUE | EXPENSE
datatype ledger_direction = DEBIT | CREDIT
datatype reconciliation_status = RUNNING | CLEAN | DISCREPANCIES_FOUND | RUN_FAILED
datatype discrepancy_kind =
    MISSING_TRANSACTION | DUPLICATE_TRANSACTION | AMOUNT_MISMATCH | DESTINATION_MISMATCH | ASSET_MISMATCH
  | LEDGER_IMBALANCE | SETTLEMENT_MISMATCH | ORPHANED_CREDIT
datatype discrepancy_severity = INFO | WARNING | CRITICAL

record merchant =
  mer_id :: string
  mer_name :: string
  mer_underpaymentPolicy :: underpayment_policy
  mer_overpaymentPolicy :: overpayment_policy
  mer_underpaymentToleranceBps :: int
  mer_overpaymentToleranceBps :: int
  mer_invoiceExpirySeconds :: int
  mer_feeBps :: int
  mer_confirmationOverrides :: "(string \<times> int) list"

record invoice =
  inv_id :: string
  inv_merchantId :: string
  inv_orderId :: string
  inv_externalReference :: "string option"
  inv_description :: "string option"
  inv_requestedCurrency :: string
  inv_requestedDecimals :: int
  inv_requestedAmount :: int
  inv_paymentAsset :: string
  inv_paymentDecimals :: int
  inv_network :: network
  inv_tokenContract :: "string option"
  inv_cryptoAmount :: int
  inv_exchangeRate :: "int option"
  inv_exchangeRateProvider :: "string option"
  inv_exchangeRateAt :: "int option"
  inv_underpaymentPolicy :: underpayment_policy
  inv_overpaymentPolicy :: overpayment_policy
  inv_underpaymentToleranceBps :: int
  inv_overpaymentToleranceBps :: int
  inv_requiredConfirmations :: int
  inv_status :: invoice_status
  inv_receivedAmount :: int
  inv_confirmedAmount :: int
  inv_confirmationCount :: int
  inv_callbackUrl :: "string option"
  inv_redirectUrl :: "string option"
  inv_metadata :: "(string \<times> json) list"
  inv_expiresAt :: int
  inv_detectedAt :: "int option"
  inv_paidAt :: "int option"
  inv_cancelledAt :: "int option"
  inv_expiredAt :: "int option"
  inv_version :: int
  inv_createdAt :: int

record payment_address =
  pa_id :: string
  pa_merchantId :: string
  pa_network :: network
  pa_address :: string
  pa_addressNormalized :: string
  pa_assetSymbol :: "string option"
  pa_status :: address_status
  pa_invoiceId :: "string option"
  pa_assignedAt :: "int option"
  pa_retiredAt :: "int option"
  pa_createdAt :: int

record chain_tx =
  ct_id :: string
  ct_network :: network
  ct_txHash :: string
  ct_status :: chain_tx_status
  ct_blockNumber :: "int option"
  ct_blockHash :: "string option"
  ct_fromAddress :: "string option"
  ct_toAddress :: "string option"
  ct_feeAmount :: "int option"
  ct_confirmations :: int
  ct_minedAt :: "int option"
  ct_orphanedAt :: "int option"

record token_transfer =
  tt_id :: string
  tt_transactionId :: string
  tt_network :: network
  tt_txHash :: string
  tt_transferIndex :: int
  tt_tokenContract :: "string option"
  tt_assetSymbol :: string
  tt_assetDecimals :: int
  tt_amount :: int
  tt_fromAddress :: "string option"
  tt_toAddress :: string
  tt_toAddressNormalized :: string
  tt_paymentAddressId :: "string option"
  tt_invoiceId :: "string option"
  tt_matchStatus :: match_status
  tt_matchReason :: string
  tt_confirmations :: int
  tt_creditedAt :: "int option"
  tt_detectedAt :: int

record payment_event =
  ev_id :: string
  ev_invoiceId :: string
  ev_type :: string
  ev_fromStatus :: "invoice_status option"
  ev_toStatus :: "invoice_status option"
  ev_sequence :: int
  ev_actor :: string
  ev_payload :: "(string \<times> json) list"

record webhook_event =
  we_id :: string
  we_merchantId :: string
  we_invoiceId :: "string option"
  we_type :: string
  we_idempotencyKey :: string
  we_payload :: json

record ledger_account =
  la_id :: string
  la_code :: string
  la_name :: string
  la_type :: ledger_account_type
  la_merchantId :: "string option"
  la_assetSymbol :: string
  la_assetDecimals :: int
  la_network :: network
  la_cachedBalance :: int
  la_cachedBalanceAt :: "int option"
  la_cachedThroughSeq :: "int option"
  la_isActive :: bool

record ledger_transaction =
  lt_id :: string
  lt_type :: string
  lt_description :: string
  lt_invoiceId :: string
  lt_tokenTransferId :: string
  lt_idempotencyKey :: string

record ledger_entry =
  le_id :: string
  le_sequence :: int
  le_ledgerTransactionId :: string
  le_accountId :: string
  le_direction :: ledger_direction
  le_amount :: int
  le_assetSymbol :: string
  le_assetDecimals :: int
  le_metadata :: "(string \<times> json) list"

record reconciliation_run =
  rr_id :: string
  rr_scope :: string
  rr_status :: reconciliation_status
  rr_periodStart :: int
  rr_periodEnd :: int
  rr_checkedCount :: int
  rr_discrepancyCount :: int
  rr_completedAt :: "int option"

record reconciliation_discrepancy =
  rd_id :: string
  rd_runId :: string
  rd_kind :: discrepancy_kind
  rd_severity :: discrepancy_severity
  rd_subjectType :: string
  rd_subjectId :: string
  rd_expectedValue :: "string option"
  rd_actualValue :: "string option"
  rd_details :: "(string \<times> json) list"

record chain_cursor =
  cc_network :: network
  cc_lastProcessedBlock :: int
  cc_lastProcessedHash :: "string option"
  cc_chainTipBlock :: "int option"
  cc_lastReorgAt :: "int option"
  cc_lastReorgDepth :: "int option"

record idempotency_key =
  ik_id :: string
  ik_merchantId :: string
  ik_endpoint :: string
  ik_key :: string
  ik_requestHash :: string
  ik_lockedAt :: "int option"
  ik_responseStatus :: "int option"
  ik_responseBody :: "json option"
  ik_completedAt :: "int option"
  ik_expiresAt :: int

record db =
  merchants :: "merchant list"
  invoices :: "invoice list"
  payment_addresses :: "payment_address list"
  chain_txs :: "chain_tx list"
  token_transfers :: "token_transfer list"
  payment_events :: "payment_event list"
  webhook_events :: "webhook_event list"
  ledger_accounts :: "ledger_account list"
  ledger_transactions :: "ledger_transaction list"
  ledger_entries :: "ledger_entry list"
  reconciliation_runs :: "reconciliation_run list"
  reconciliation_discrepancies :: "reconciliation_discrepancy list"
  chain_cursors :: "chain_cursor list"
  idempotency_keys :: "idempotency_key list"
  db_ulids :: nat
  db_sequence :: int

section \<open>Failures\<close>

datatype posting_error = GrossNotPositive | FeeBpsOutOfRange int
datatype account_code_error = MerchantIdRequired string | MerchantIdForbidden string
  | UnrecognisedCode string | MalformedMerchantScoped string | MalformedCode string

datatype failure =
    RecordNotFound string string
  | UniqueViolation string
  | CheckViolation string
  | InvalidTransition invalid_transition_error
  | PaymentFailure payment_error
  | MoneyFailure money_error
  | PostingFailure posting_error
  | AccountCodeFailure account_code_error
  | RequestError app_error
  | AdapterFailure string

type_synonym 'a tx = "(db, failure, 'a) op"
type_synonym 'a service = "(db, failure, 'a) proc"

section \<open>Queries and identifiers\<close>

definition fresh_id :: "(nat \<Rightarrow> string) \<Rightarrow> id_kind \<Rightarrow> string tx" where
  "fresh_id gen kind = (\<lambda>s. Inr (newId (gen (db_ulids s)) kind, s\<lparr>db_ulids := Suc (db_ulids s)\<rparr>))"

definition find_invoice :: "string \<Rightarrow> db \<Rightarrow> invoice option" where
  "find_invoice i s = find (\<lambda>r. inv_id r = i) (invoices s)"

definition invoice_or_throw :: "string \<Rightarrow> invoice tx" where
  "invoice_or_throw i = find_or_throw (RecordNotFound ''Invoice'' i) (find_invoice i)"

definition find_merchant :: "string \<Rightarrow> db \<Rightarrow> merchant option" where
  "find_merchant i s = find (\<lambda>r. mer_id r = i) (merchants s)"

definition merchant_or_throw :: "string \<Rightarrow> merchant tx" where
  "merchant_or_throw i = find_or_throw (RecordNotFound ''Merchant'' i) (find_merchant i)"

text \<open>\<open>update\<close> by primary key: Prisma raises when no row has it.\<close>

definition update_invoice :: "string \<Rightarrow> (invoice \<Rightarrow> invoice) \<Rightarrow> unit tx" where
  "update_invoice i f = bind_op (invoice_or_throw i) (\<lambda>_.
     modify (\<lambda>s. s\<lparr>invoices := update_rows (\<lambda>r. inv_id r = i) f (invoices s)\<rparr>))"

definition update_transfer :: "string \<Rightarrow> (token_transfer \<Rightarrow> token_transfer) \<Rightarrow> unit tx" where
  "update_transfer i f = bind_op
     (find_or_throw (RecordNotFound ''TokenTransfer'' i) (\<lambda>s. find (\<lambda>r. tt_id r = i) (token_transfers s))) (\<lambda>_.
     modify (\<lambda>s. s\<lparr>token_transfers := update_rows (\<lambda>r. tt_id r = i) f (token_transfers s)\<rparr>))"

definition update_chain_tx :: "string \<Rightarrow> (chain_tx \<Rightarrow> chain_tx) \<Rightarrow> unit tx" where
  "update_chain_tx i f = bind_op
     (find_or_throw (RecordNotFound ''BlockchainTransaction'' i) (\<lambda>s. find (\<lambda>r. ct_id r = i) (chain_txs s))) (\<lambda>_.
     modify (\<lambda>s. s\<lparr>chain_txs := update_rows (\<lambda>r. ct_id r = i) f (chain_txs s)\<rparr>))"

definition transition_result :: "invalid_transition_error + 'a \<Rightarrow> 'a tx" where
  "transition_result r = from_result (map_error InvalidTransition r)"

definition payment_result :: "payment_error + 'a \<Rightarrow> 'a tx" where
  "payment_result r = from_result (map_error PaymentFailure r)"

definition money_result :: "money_error + 'a \<Rightarrow> 'a tx" where
  "money_result r = from_result (map_error MoneyFailure r)"

lemma lifted_result_Inr [result_simps]:
  "transition_result r s = Inr (a, t) \<longleftrightarrow> r = Inr a \<and> t = s"
  "payment_result r' s = Inr (a', t) \<longleftrightarrow> r' = Inr a' \<and> t = s"
  "money_result r'' s = Inr (a'', t) \<longleftrightarrow> r'' = Inr a'' \<and> t = s"
  by (auto simp: transition_result_def payment_result_def money_result_def result_simps)

lemma lifted_result_ok [simp]:
  "r = Inr a \<Longrightarrow> transition_result r s = Inr (a, s)"
  "r' = Inr a' \<Longrightarrow> payment_result r' s = Inr (a', s)"
  "r'' = Inr a'' \<Longrightarrow> money_result r'' s = Inr (a'', s)"
  by (simp_all add: result_simps)

text \<open>The key columns of a table stay what they were under an update that does not touch them.\<close>

lemma find_update_rows:
  assumes "\<And>r. key (f r) = key r"
  shows "find (\<lambda>r. key r = k) (update_rows p f rs) =
    map_option (\<lambda>r. if p r then f r else r) (find (\<lambda>r. key r = k) rs)"
  using assms by (induction rs) (auto simp: update_rows_def)

lemma find_append: "find p (xs @ ys) = (case find p xs of None \<Rightarrow> find p ys | Some x \<Rightarrow> Some x)"
  by (induction xs) auto

lemma update_invoice_Inr [result_simps]:
  "update_invoice i f s = Inr (u, t) \<longleftrightarrow> find_invoice i s \<noteq> None \<and>
     t = s\<lparr>invoices := update_rows (\<lambda>r. inv_id r = i) f (invoices s)\<rparr>"
  by (auto simp: update_invoice_def invoice_or_throw_def result_simps)

lemma update_transfer_Inr [result_simps]:
  "update_transfer i f s = Inr (u, t) \<longleftrightarrow> find (\<lambda>r. tt_id r = i) (token_transfers s) \<noteq> None \<and>
     t = s\<lparr>token_transfers := update_rows (\<lambda>r. tt_id r = i) f (token_transfers s)\<rparr>"
  by (auto simp: update_transfer_def result_simps)

lemma update_chain_tx_Inr [result_simps]:
  "update_chain_tx i f s = Inr (u, t) \<longleftrightarrow> find (\<lambda>r. ct_id r = i) (chain_txs s) \<noteq> None \<and>
     t = s\<lparr>chain_txs := update_rows (\<lambda>r. ct_id r = i) f (chain_txs s)\<rparr>"
  by (auto simp: update_chain_tx_def result_simps)

lemma fresh_id_Inr [result_simps]:
  "fresh_id gen kind s = Inr (i, t) \<longleftrightarrow> i = newId (gen (db_ulids s)) kind \<and> t = s\<lparr>db_ulids := Suc (db_ulids s)\<rparr>"
  by (auto simp: fresh_id_def)

text \<open>The database after the migrations, before any request.\<close>

definition empty_db :: db where
  "empty_db = \<lparr>merchants = [], invoices = [], payment_addresses = [], chain_txs = [], token_transfers = [],
     payment_events = [], webhook_events = [], ledger_accounts = [], ledger_transactions = [], ledger_entries = [],
     reconciliation_runs = [], reconciliation_discrepancies = [], chain_cursors = [], idempotency_keys = [],
     db_ulids = 0, db_sequence = 1\<rparr>"

definition counting_gen :: "nat \<Rightarrow> string" where
  "counting_gen n = show_int (int n)"

lemma counting_gen_inj: "inj counting_gen"
  by (auto simp: inj_def counting_gen_def show_int_inj)

end
