(* ===== verification/Database.thy ===== *)
theory Database
  imports Store
begin

text \<open>
  The database package (\<open>packages/database/src\<close>): the chart of accounts with its deterministic
  codes (\<open>ledger-accounts.ts\<close>), the exact-integer boundary of the monetary columns
  (\<open>money-mapper.ts\<close>) and the retry loop around a serializable transaction (\<open>client.ts\<close>).
  Prisma's decimal type and the transaction executor are outside the repository: the decimal's
  constructor and \<open>toFixed\<close>, and the outcome of each attempt, are parameters.
\<close>

section \<open>Chart of accounts\<close>

datatype account_kind =
    GATEWAY_HOLDINGS | MERCHANT_HOLDINGS | MERCHANT_PAYABLE | CUSTOMER_INFLOW | CUSTOMER_REFUND
  | FEE_REVENUE | NETWORK_FEE_EXPENSE | SUSPENSE

fun LedgerAccountKind :: "account_kind \<Rightarrow> string" where
  "LedgerAccountKind GATEWAY_HOLDINGS = ''gateway_holdings''"
| "LedgerAccountKind MERCHANT_HOLDINGS = ''merchant_holdings''"
| "LedgerAccountKind MERCHANT_PAYABLE = ''merchant_payable''"
| "LedgerAccountKind CUSTOMER_INFLOW = ''customer_inflow''"
| "LedgerAccountKind CUSTOMER_REFUND = ''customer_refund''"
| "LedgerAccountKind FEE_REVENUE = ''fee_revenue''"
| "LedgerAccountKind NETWORK_FEE_EXPENSE = ''network_fee_expense''"
| "LedgerAccountKind SUSPENSE = ''suspense''"

definition all_account_kinds :: "account_kind list" where
  "all_account_kinds = [GATEWAY_HOLDINGS, MERCHANT_HOLDINGS, MERCHANT_PAYABLE, CUSTOMER_INFLOW, CUSTOMER_REFUND,
     FEE_REVENUE, NETWORK_FEE_EXPENSE, SUSPENSE]"

fun ledgerAccountType :: "account_kind \<Rightarrow> ledger_account_type" where
  "ledgerAccountType GATEWAY_HOLDINGS = ASSET"
| "ledgerAccountType MERCHANT_HOLDINGS = ASSET"
| "ledgerAccountType MERCHANT_PAYABLE = LIABILITY"
| "ledgerAccountType CUSTOMER_INFLOW = EQUITY"
| "ledgerAccountType CUSTOMER_REFUND = EQUITY"
| "ledgerAccountType FEE_REVENUE = REVENUE"
| "ledgerAccountType NETWORK_FEE_EXPENSE = EXPENSE"
| "ledgerAccountType SUSPENSE = LIABILITY"

definition debitIncreases :: "ledger_account_type \<Rightarrow> bool" where
  "debitIncreases t \<longleftrightarrow> t = ASSET \<or> t = EXPENSE"

definition isMerchantScoped :: "account_kind \<Rightarrow> bool" where
  "isMerchantScoped k \<longleftrightarrow> k = MERCHANT_HOLDINGS \<or> k = MERCHANT_PAYABLE"

text \<open>A string parameter that is absent or empty is falsy.\<close>

definition truthy :: "string option \<Rightarrow> bool" where
  "truthy s \<longleftrightarrow> (case s of None \<Rightarrow> False | Some x \<Rightarrow> x \<noteq> [])"

definition ledgerAccountCode ::
  "account_kind \<Rightarrow> string \<Rightarrow> string \<Rightarrow> string option \<Rightarrow> account_code_error + string"
where
  "ledgerAccountCode kind network assetSymbol merchantId =
     (if isMerchantScoped kind then
        (if \<not> truthy merchantId then Inl (MerchantIdRequired (LedgerAccountKind kind))
         else Inr (LedgerAccountKind kind @ '':'' @ the merchantId @ '':'' @ network @ '':'' @ assetSymbol))
      else if truthy merchantId then Inl (MerchantIdForbidden (LedgerAccountKind kind))
      else Inr (LedgerAccountKind kind @ '':'' @ network @ '':'' @ assetSymbol))"

record parsed_account_code =
  pc_kind :: string
  pc_merchantId :: "string option"
  pc_network :: string
  pc_assetSymbol :: string

text \<open>\<open>kind in ACCOUNT_TYPES\<close> also holds for the properties every object inherits.\<close>

definition object_prototype_keys :: "string list" where
  "object_prototype_keys = [''constructor'', ''toString'', ''toLocaleString'', ''valueOf'', ''hasOwnProperty'',
     ''isPrototypeOf'', ''propertyIsEnumerable'', ''__proto__'', ''__defineGetter__'', ''__defineSetter__'',
     ''__lookupGetter__'', ''__lookupSetter__'']"

definition in_ACCOUNT_TYPES :: "string \<Rightarrow> bool" where
  "in_ACCOUNT_TYPES k \<longleftrightarrow>
     List.member (map LedgerAccountKind all_account_kinds) k \<or> List.member object_prototype_keys k"

definition parseLedgerAccountCode :: "string \<Rightarrow> account_code_error + parsed_account_code" where
  "parseLedgerAccountCode code =
     (let parts = split_on (CHR '':'') code; kind = hd parts in
      if kind = [] \<or> \<not> in_ACCOUNT_TYPES kind then Inl (UnrecognisedCode code)
      else if kind = LedgerAccountKind MERCHANT_HOLDINGS \<or> kind = LedgerAccountKind MERCHANT_PAYABLE then
        (case parts of
           [_, m, n, a] \<Rightarrow> Inr \<lparr>pc_kind = kind, pc_merchantId = Some m, pc_network = n, pc_assetSymbol = a\<rparr>
         | _ \<Rightarrow> Inl (MalformedMerchantScoped code))
      else (case parts of
           [_, n, a] \<Rightarrow> Inr \<lparr>pc_kind = kind, pc_merchantId = None, pc_network = n, pc_assetSymbol = a\<rparr>
         | _ \<Rightarrow> Inl (MalformedCode code)))"

fun account_label :: "account_kind \<Rightarrow> string" where
  "account_label GATEWAY_HOLDINGS = ''Gateway holdings''"
| "account_label MERCHANT_HOLDINGS = ''Merchant wallet holdings''"
| "account_label MERCHANT_PAYABLE = ''Merchant payable''"
| "account_label CUSTOMER_INFLOW = ''Customer inflow''"
| "account_label CUSTOMER_REFUND = ''Customer refund''"
| "account_label FEE_REVENUE = ''Gateway fee revenue''"
| "account_label NETWORK_FEE_EXPENSE = ''Network fee expense''"
| "account_label SUSPENSE = ''Suspense (uncredited receipts)''"

definition ledgerAccountName :: "account_kind \<Rightarrow> string \<Rightarrow> string \<Rightarrow> string option \<Rightarrow> string" where
  "ledgerAccountName kind network assetSymbol merchantId =
     account_label kind @ (if truthy merchantId then '' ('' @ the merchantId @ '')'' else [])
       @ '' - '' @ assetSymbol @ '' on '' @ network"

section \<open>The exact-integer boundary\<close>

datatype mapping_error = NullAmount | NonIntegerAmount string

text \<open>\<open>/^-?\d+$/\<close> on the decimal's plain notation, and the \<open>BigInt\<close> it denotes.\<close>

definition is_integer_text :: "string \<Rightarrow> bool" where
  "is_integer_text t =
     (let d = (case t of c # cs \<Rightarrow> if c = CHR ''-'' then cs else t | [] \<Rightarrow> t) in d \<noteq> [] \<and> list_all is_digit d)"

definition bigint_of_text :: "string \<Rightarrow> int" where
  "bigint_of_text t =
     (case t of [] \<Rightarrow> 0 | c # cs \<Rightarrow> if c = CHR ''-'' then - digits_value cs else digits_value t)"

definition decimalToUnits :: "('d \<Rightarrow> string) \<Rightarrow> 'd option \<Rightarrow> mapping_error + int" where
  "decimalToUnits toFixed v =
     (case v of None \<Rightarrow> Inl NullAmount
      | Some d \<Rightarrow> let t = toFixed d in
          if \<not> is_integer_text t then Inl (NonIntegerAmount t) else Inr (bigint_of_text t))"

definition decimalToUnitsOrNull :: "('d \<Rightarrow> string) \<Rightarrow> 'd option \<Rightarrow> mapping_error + int option" where
  "decimalToUnitsOrNull toFixed v =
     (case v of None \<Rightarrow> Inr None | Some d \<Rightarrow> bind_result (decimalToUnits toFixed v) (\<lambda>u. Inr (Some u)))"

definition unitsToDecimal :: "(string \<Rightarrow> 'd) \<Rightarrow> int \<Rightarrow> 'd" where
  "unitsToDecimal mkDecimal units = mkDecimal (show_int units)"

definition unitsToDecimalOrNull :: "(string \<Rightarrow> 'd) \<Rightarrow> int option \<Rightarrow> 'd option" where
  "unitsToDecimalOrNull mkDecimal units = (case units of None \<Rightarrow> None | Some u \<Rightarrow> Some (unitsToDecimal mkDecimal u))"

definition toMoney :: "('d \<Rightarrow> string) \<Rightarrow> 'd option \<Rightarrow> string \<Rightarrow> int \<Rightarrow> mapping_error + money" where
  "toMoney toFixed v asset decimals =
     bind_result (decimalToUnits toFixed v) (\<lambda>u. Inr (fromUnits u asset decimals))"

definition toMoneyOrNull :: "('d \<Rightarrow> string) \<Rightarrow> 'd option \<Rightarrow> string \<Rightarrow> int \<Rightarrow> mapping_error + money option" where
  "toMoneyOrNull toFixed v asset decimals =
     bind_result (decimalToUnitsOrNull toFixed v) (\<lambda>u. Inr (map_option (\<lambda>x. fromUnits x asset decimals) u))"

definition fromMoney :: "(string \<Rightarrow> 'd) \<Rightarrow> money \<Rightarrow> 'd" where
  "fromMoney mkDecimal m = unitsToDecimal mkDecimal (m_units m)"

section \<open>Retrying a transaction\<close>

text \<open>An error as the retry test sees it: a known request error with its code and the Postgres
  code in its metadata, or anything else.\<close>

datatype prisma_error = KnownRequestError string "string option" | OtherError string

definition RETRYABLE_CODES :: "string list" where
  "RETRYABLE_CODES = [''P2034'', ''40001'', ''40P01'']"

fun isRetryableTransactionError :: "prisma_error \<Rightarrow> bool" where
  "isRetryableTransactionError (KnownRequestError code pgCode) =
     (if List.member RETRYABLE_CODES code then True
      else case pgCode of None \<Rightarrow> False | Some c \<Rightarrow> c \<noteq> [] \<and> List.member RETRYABLE_CODES c)"
| "isRetryableTransactionError (OtherError _) = False"

text \<open>\<open>exec k\<close> is the outcome of the \<open>k\<close>-th call of \<open>$transaction\<close>. The result carries
  the attempts reported to \<open>onRetry\<close>, each with the lower bound of its backoff in milliseconds.\<close>

function retry_loop ::
  "(nat \<Rightarrow> prisma_error + 'a) \<Rightarrow> nat \<Rightarrow> nat \<Rightarrow> (nat \<times> int) list \<Rightarrow> (prisma_error + 'a) \<times> (nat \<times> int) list"
where
  "retry_loop exec maxRetries attempt log =
     (case exec attempt of
        Inr a \<Rightarrow> (Inr a, log)
      | Inl e \<Rightarrow>
          if \<not> isRetryableTransactionError e \<or> maxRetries \<le> attempt then (Inl e, log)
          else retry_loop exec maxRetries (Suc attempt) (log @ [(Suc attempt, min (2 ^ attempt * 25) 500)]))"
  by pat_completeness auto
termination by (relation "measure (\<lambda>(exec, maxRetries, attempt, log). maxRetries - attempt)") auto

declare retry_loop.simps [simp del]

definition runInTransaction ::
  "(nat \<Rightarrow> prisma_error + 'a) \<Rightarrow> nat option \<Rightarrow> (prisma_error + 'a) \<times> (nat \<times> int) list"
where
  "runInTransaction exec maxRetries =
     retry_loop exec (case maxRetries of None \<Rightarrow> 8 | Some n \<Rightarrow> n) 0 []"

section \<open>Lemmas and properties\<close>

lemma kind_name_clean: "CHR '':'' \<notin> set (LedgerAccountKind k) \<and> LedgerAccountKind k \<noteq> []"
  by (cases k) simp_all

lemma kind_name_inj: "LedgerAccountKind k = LedgerAccountKind k' \<longleftrightarrow> k = k'"
  by (cases k; cases k') simp_all

lemma kind_in_types: "in_ACCOUNT_TYPES (LedgerAccountKind k)"
  by (cases k) (simp_all add: in_ACCOUNT_TYPES_def all_account_kinds_def)

text \<open>Account codes are a faithful key. For colon-free merchant ids, networks and asset symbols
  (identifiers, network names and allowlisted symbols are), the code of an account parses back to
  exactly the kind, merchant, network and asset it was built from, so two accounts with the same
  code are the same account.\<close>

lemma account_code_roundtrip:
  assumes "ledgerAccountCode kind network asset merchantId = Inr code"
    and "CHR '':'' \<notin> set network" "CHR '':'' \<notin> set asset" "\<forall>m. merchantId = Some m \<longrightarrow> CHR '':'' \<notin> set m"
  shows "parseLedgerAccountCode code =
    Inr \<lparr>pc_kind = LedgerAccountKind kind, pc_merchantId = (if isMerchantScoped kind then merchantId else None),
         pc_network = network, pc_assetSymbol = asset\<rparr>"
proof -
  note [simp] = split_on_append split_on_none
  show ?thesis
  proof (cases "isMerchantScoped kind")
    case True
    with assms(1) obtain m where m: "merchantId = Some m" "m \<noteq> []"
      and code: "code = LedgerAccountKind kind @ '':'' @ m @ '':'' @ network @ '':'' @ asset"
      by (auto simp: ledgerAccountCode_def truthy_def split: if_splits option.splits)
    have "split_on (CHR '':'') code = [LedgerAccountKind kind, m, network, asset]"
      using assms m kind_name_clean [of kind] unfolding code by simp
    then show ?thesis
      using True m kind_name_clean [of kind] kind_in_types [of kind]
      unfolding parseLedgerAccountCode_def Let_def isMerchantScoped_def by (elim disjE) simp_all
  next
    case False
    with assms(1) have code: "code = LedgerAccountKind kind @ '':'' @ network @ '':'' @ asset"
      by (auto simp: ledgerAccountCode_def split: if_splits)
    have "split_on (CHR '':'') code = [LedgerAccountKind kind, network, asset]"
      using assms kind_name_clean [of kind] unfolding code by simp
    then show ?thesis
      using False kind_name_clean [of kind] kind_in_types [of kind] kind_name_inj
      unfolding parseLedgerAccountCode_def Let_def isMerchantScoped_def by (simp del: LedgerAccountKind.simps)
  qed
qed

text \<open>A code nobody issues is accepted: the name of an inherited property passes the test of the kind.\<close>

lemma parse_accepts_inherited_name:
  "is_ok (parseLedgerAccountCode ''constructor:ETHEREUM:USDT'')"
  by code_simp

lemma is_integer_text_show_int: "is_integer_text (show_int u) \<and> bigint_of_text (show_int u) = u"
proof (cases "u < 0")
  case True
  then have "show_int u = CHR ''-'' # show_digits (- u)" by (simp add: show_int_def)
  then show ?thesis using True show_digits_digits [of "- u"] by (simp add: is_integer_text_def bigint_of_text_def)
next
  case False
  then obtain c cs where c: "show_int u = c # cs" "show_digits u = c # cs"
    by (cases "show_digits u") (simp_all add: show_int_nonneg)
  with False have "c \<noteq> CHR ''-''" using show_digits_not_minus [of u] by auto
  moreover have "digits_value (c # cs) = u" "list_all is_digit (c # cs)"
    using False c digits_value_show_digits [of u] show_digits_digits [of u] by auto
  ultimately show ?thesis using c by (simp add: is_integer_text_def bigint_of_text_def)
qed

text \<open>Amounts cross the database boundary exactly. Given that Prisma's decimal prints an integer
  it was built from in plain notation unchanged (the documented behaviour of \<open>toFixed()\<close>),
  every amount of smallest units that is written is read back as the same integer, whatever its size
  or sign; a null column is an error and not a zero.\<close>

lemma units_roundtrip:
  assumes plain_notation: "\<And>n. toFixed (mkDecimal (show_int n)) = show_int n"
  shows "decimalToUnits toFixed (Some (unitsToDecimal mkDecimal u)) = Inr u \<and>
    toMoney toFixed (Some (fromMoney mkDecimal m)) (m_asset m) (m_decimals m) = Inr m \<and>
    decimalToUnitsOrNull toFixed (unitsToDecimalOrNull mkDecimal ou) = Inr ou \<and>
    decimalToUnits toFixed None = Inl NullAmount"
  using is_integer_text_show_int
  by (cases ou) (simp_all add: decimalToUnits_def unitsToDecimal_def toMoney_def fromMoney_def fromUnits_def
      decimalToUnitsOrNull_def unitsToDecimalOrNull_def plain_notation)

lemma retry_loop_spec:
  assumes "retry_loop exec n a log = (r, log')" "a \<le> n"
  shows "\<exists>k. a \<le> k \<and> k \<le> n \<and> r = exec k \<and> length log' = length log + (k - a) \<and>
     (\<forall>j. a \<le> j \<and> j < k \<longrightarrow> (\<exists>e. exec j = Inl e \<and> isRetryableTransactionError e)) \<and>
     (\<forall>e. r = Inl e \<longrightarrow> \<not> isRetryableTransactionError e \<or> k = n) \<and>
     (list_all (\<lambda>(_, b). b \<le> 500) log \<longrightarrow> list_all (\<lambda>(_, b). b \<le> 500) log')"
  using assms
proof (induction exec n a log arbitrary: r log' rule: retry_loop.induct)
  case (1 exec n a log)
  show ?case
  proof (cases "\<exists>e. exec a = Inl e \<and> isRetryableTransactionError e \<and> a < n")
    case False
    then have "r = exec a \<and> log' = log" using 1(2)
      by (subst (asm) retry_loop.simps) (auto split: sum.splits if_splits)
    with False 1(3) show ?thesis by (intro exI [of _ a]) auto
  next
    case True
    then obtain e where e: "exec a = Inl e" "isRetryableTransactionError e" "a < n" by blast
    then have "retry_loop exec n (Suc a) (log @ [(Suc a, min (2 ^ a * 25) 500)]) = (r, log')"
      using 1(2) by (subst (asm) retry_loop.simps) simp
    with e 1(1) [OF e(1)] obtain k where k: "Suc a \<le> k" "k \<le> n" "r = exec k" "length log' = Suc (length log) + (k - Suc a)"
      "\<forall>j. Suc a \<le> j \<and> j < k \<longrightarrow> (\<exists>e. exec j = Inl e \<and> isRetryableTransactionError e)"
      "\<forall>e. r = Inl e \<longrightarrow> \<not> isRetryableTransactionError e \<or> k = n"
      "list_all (\<lambda>(_, b). b \<le> 500) log \<longrightarrow> list_all (\<lambda>(_, b). b \<le> 500) log'"
      by (auto simp: Suc_le_eq)
    have "\<exists>e. exec j = Inl e \<and> isRetryableTransactionError e" if "a \<le> j \<and> j < k" for j
      using that e k(5) by (cases "j = a") auto
    with k show ?thesis by (intro exI [of _ k]) auto
  qed
qed

text \<open>C23: the retry loop is bounded and transparent. It makes at most one call more than the
  retries allowed (nine by default), returns exactly what its last call returned, retried only
  serialization failures, stops at the first success or other error, and waits no longer than the
  500 ms cap (plus jitter) between calls.\<close>

theorem runInTransaction_bounded:
  "\<exists>k \<le> (case maxRetries of None \<Rightarrow> 8 | Some n \<Rightarrow> n).
     fst (runInTransaction exec maxRetries) = exec k \<and>
     length (snd (runInTransaction exec maxRetries)) = k \<and>
     list_all (\<lambda>(_, b). b \<le> 500) (snd (runInTransaction exec maxRetries)) \<and>
     (\<forall>j < k. \<exists>e. exec j = Inl e \<and> isRetryableTransactionError e) \<and>
     (case exec k of Inr _ \<Rightarrow> True | Inl e \<Rightarrow> \<not> isRetryableTransactionError e \<or>
        k = (case maxRetries of None \<Rightarrow> 8 | Some n \<Rightarrow> n))"
proof -
  let ?n = "case maxRetries of None \<Rightarrow> 8 | Some n \<Rightarrow> n"
  obtain r log where "retry_loop exec ?n 0 [] = (r, log)" by fastforce
  from retry_loop_spec [OF this] this show ?thesis
    unfolding runInTransaction_def by (auto split: sum.splits)
qed

theorem runInTransaction_bounded_witness:
  "\<exists>k \<le> (8::nat). fst (runInTransaction (\<lambda>k. if k < 2 then Inl (KnownRequestError ''P2034'' None) else Inr (7::int)) None) =
     (if k < 2 then Inl (KnownRequestError ''P2034'' None) else Inr 7)"
  using runInTransaction_bounded [of None "\<lambda>k. if k < 2 then Inl (KnownRequestError ''P2034'' None) else Inr (7::int)"]
  unfolding option.case by blast

end
