(* ===== verification/Ledger.thy ===== *)
theory Ledger
  imports Database "HOL-Library.Multiset"
begin

text \<open>
  The double-entry ledger (\<open>packages/ledger/src\<close>): posting a payment credit (\<open>posting.ts\<close>),
  balances summed from the entries (\<open>balances.ts\<close>) and the reconciliation of the cached balances
  (\<open>reconciliation.ts\<close>). The constraint of the schema that an entry's amount is positive is part
  of \<open>create_entries\<close>; that the postings balance, which the schema checks at commit, is proved.
\<close>

section \<open>Posting\<close>

record account_ref =
  ar_network :: network
  ar_assetSymbol :: string
  ar_assetDecimals :: int

definition new_account :: "account_kind \<Rightarrow> account_ref \<Rightarrow> string option \<Rightarrow> string \<Rightarrow> string \<Rightarrow> ledger_account" where
  "new_account kind ref merchant i code =
     \<lparr>la_id = i, la_code = code,
      la_name = ledgerAccountName kind (network_name (ar_network ref)) (ar_assetSymbol ref) merchant,
      la_type = ledgerAccountType kind, la_merchantId = merchant, la_assetSymbol = ar_assetSymbol ref,
      la_assetDecimals = ar_assetDecimals ref, la_network = ar_network ref, la_cachedBalance = 0,
      la_cachedBalanceAt = None, la_cachedThroughSeq = None, la_isActive = True\<rparr>"

definition ensureAccount ::
  "(nat \<Rightarrow> string) \<Rightarrow> account_kind \<Rightarrow> account_ref \<Rightarrow> string option \<Rightarrow> string tx"
where
  "ensureAccount gen kind ref merchantId =
     (let merchant = (if truthy merchantId then merchantId else None) in
      bind_op (from_result (map_error AccountCodeFailure
        (ledgerAccountCode kind (network_name (ar_network ref)) (ar_assetSymbol ref) merchant))) (\<lambda>code.
      bind_op (reads (\<lambda>s. find (\<lambda>a. la_code a = code) (ledger_accounts s))) (\<lambda>existing.
      case existing of Some a \<Rightarrow> ret (la_id a)
      | None \<Rightarrow>
          bind_op (fresh_id gen LedgerAccountId) (\<lambda>i.
          seq_op (modify (\<lambda>s. s\<lparr>ledger_accounts := ledger_accounts s @ [new_account kind ref merchant i code]\<rparr>))
          (ret i)))))"

record posting_params =
  pp_merchantId :: string
  pp_invoiceId :: string
  pp_tokenTransferId :: string
  pp_network :: network
  pp_assetSymbol :: string
  pp_assetDecimals :: int
  pp_grossAmount :: money
  pp_feeBps :: int
  pp_idempotencyKey :: string

record posting_result =
  pr_ledgerTransactionId :: string
  pr_alreadyPosted :: bool
  pr_grossAmount :: money
  pr_feeAmount :: money
  pr_netAmount :: money

text \<open>\<open>createMany\<close> on the entries: the sequence column is numbered in order, and the check
  constraint on the amount refuses the whole statement.\<close>

fun number_from :: "int \<Rightarrow> ledger_entry list \<Rightarrow> ledger_entry list" where
  "number_from n [] = []"
| "number_from n (e # es) = e\<lparr>le_sequence := n\<rparr> # number_from (n + 1) es"

definition create_entries :: "ledger_entry list \<Rightarrow> unit tx" where
  "create_entries es = (\<lambda>s.
     if list_all (\<lambda>e. 0 < le_amount e) es
     then Inr ((), s\<lparr>ledger_entries := ledger_entries s @ number_from (db_sequence s) es,
                     db_sequence := db_sequence s + int (length es)\<rparr>)
     else Inl (CheckViolation ''ledger_entries_amount_positive''))"

definition posting_entry ::
  "posting_params \<Rightarrow> string \<Rightarrow> string \<Rightarrow> string \<Rightarrow> ledger_direction \<Rightarrow> int \<Rightarrow> ledger_entry"
where
  "posting_entry p i ltx account direction amount =
     \<lparr>le_id = i, le_sequence = 0, le_ledgerTransactionId = ltx, le_accountId = account, le_direction = direction,
      le_amount = amount, le_assetSymbol = pp_assetSymbol p, le_assetDecimals = pp_assetDecimals p,
      le_metadata = [(''invoiceId'', JStr (pp_invoiceId p)), (''tokenTransferId'', JStr (pp_tokenTransferId p))]\<rparr>"

definition split_fee :: "posting_params \<Rightarrow> (money \<times> money) tx" where
  "split_fee p =
     bind_op (money_result (percentageBps (pp_grossAmount p) (pp_feeBps p) Floor)) (\<lambda>fee.
     bind_op (money_result (money_subtract (pp_grossAmount p) fee)) (\<lambda>net. ret (fee, net)))"

definition credit_transaction :: "posting_params \<Rightarrow> string \<Rightarrow> ledger_transaction" where
  "credit_transaction p ltx =
     \<lparr>lt_id = ltx, lt_type = ''payment.credit'', lt_description = ''Payment credited for invoice '' @ pp_invoiceId p,
      lt_invoiceId = pp_invoiceId p, lt_tokenTransferId = pp_tokenTransferId p,
      lt_idempotencyKey = pp_idempotencyKey p\<rparr>"

text \<open>The legs: the gross debit, the net credit, and the fee credit unless the fee is zero.\<close>

definition posting_legs ::
  "(nat \<Rightarrow> string) \<Rightarrow> posting_params \<Rightarrow> account_ref \<Rightarrow> string \<Rightarrow> string \<Rightarrow> string \<Rightarrow> money \<Rightarrow> money \<Rightarrow> ledger_entry list tx"
where
  "posting_legs gen p ref holdings payable ltx fee net =
     bind_op (fresh_id gen LedgerEntryId) (\<lambda>e1.
     bind_op (fresh_id gen LedgerEntryId) (\<lambda>e2.
     let entries = [posting_entry p e1 ltx holdings DEBIT (m_units (pp_grossAmount p)),
                    posting_entry p e2 ltx payable CREDIT (m_units net)] in
     if isPositive fee then
       bind_op (ensureAccount gen FEE_REVENUE ref None) (\<lambda>feeAccount.
       bind_op (fresh_id gen LedgerEntryId) (\<lambda>e3.
       ret (entries @ [posting_entry p e3 ltx feeAccount CREDIT (m_units fee)])))
     else ret entries))"

definition write_posting :: "(nat \<Rightarrow> string) \<Rightarrow> posting_params \<Rightarrow> money \<Rightarrow> money \<Rightarrow> string tx" where
  "write_posting gen p fee net =
     (let ref = \<lparr>ar_network = pp_network p, ar_assetSymbol = pp_assetSymbol p, ar_assetDecimals = pp_assetDecimals p\<rparr> in
      bind_op (ensureAccount gen MERCHANT_HOLDINGS ref (Some (pp_merchantId p))) (\<lambda>holdings.
      bind_op (ensureAccount gen MERCHANT_PAYABLE ref (Some (pp_merchantId p))) (\<lambda>payable.
      bind_op (fresh_id gen LedgerTransactionId) (\<lambda>ltx.
      seq_op (modify (\<lambda>s. s\<lparr>ledger_transactions := ledger_transactions s @ [credit_transaction p ltx]\<rparr>))
      (bind_op (posting_legs gen p ref holdings payable ltx fee net) (\<lambda>entries.
      seq_op (create_entries entries) (ret ltx)))))))"

definition postPaymentCredit :: "(nat \<Rightarrow> string) \<Rightarrow> posting_params \<Rightarrow> posting_result tx" where
  "postPaymentCredit gen p =
     (if \<not> isPositive (pp_grossAmount p) then throw (PostingFailure GrossNotPositive)
      else if pp_feeBps p < 0 \<or> pp_feeBps p > 10000 then throw (PostingFailure (FeeBpsOutOfRange (pp_feeBps p)))
      else
        bind_op (reads (\<lambda>s. find (\<lambda>t. lt_idempotencyKey t = pp_idempotencyKey p) (ledger_transactions s))) (\<lambda>existing.
        bind_op (split_fee p) (\<lambda>(fee, net).
        case existing of
          Some t \<Rightarrow> ret \<lparr>pr_ledgerTransactionId = lt_id t, pr_alreadyPosted = True,
                        pr_grossAmount = pp_grossAmount p, pr_feeAmount = fee, pr_netAmount = net\<rparr>
        | None \<Rightarrow>
            bind_op (write_posting gen p fee net) (\<lambda>ltx.
            ret \<lparr>pr_ledgerTransactionId = ltx, pr_alreadyPosted = False,
                 pr_grossAmount = pp_grossAmount p, pr_feeAmount = fee, pr_netAmount = net\<rparr>))))"

section \<open>Balances\<close>

record computed_balance =
  cb_accountId :: string
  cb_units :: int
  cb_assetSymbol :: string
  cb_assetDecimals :: int
  cb_throughSequence :: "int option"
  cb_entryCount :: int

definition account_or_throw :: "string \<Rightarrow> ledger_account tx" where
  "account_or_throw i =
     find_or_throw (RecordNotFound ''LedgerAccount'' i) (\<lambda>s. find (\<lambda>a. la_id a = i) (ledger_accounts s))"

definition signed_amount :: "bool \<Rightarrow> ledger_entry \<Rightarrow> int" where
  "signed_amount normalIsDebit e = (if (le_direction e = DEBIT) = normalIsDebit then le_amount e else - le_amount e)"

text \<open>The loop over the entries, carrying the sum and the last sequence number seen.\<close>

definition sum_entries :: "bool \<Rightarrow> ledger_entry list \<Rightarrow> int \<times> int option \<Rightarrow> int \<times> int option" where
  "sum_entries normalIsDebit es acc =
     fold (\<lambda>e (units, through). (units + signed_amount normalIsDebit e, Some (le_sequence e))) es acc"

definition account_entries :: "string \<Rightarrow> int option \<Rightarrow> db \<Rightarrow> ledger_entry list" where
  "account_entries accountId since s =
     sort_key le_sequence (filter (\<lambda>e. le_accountId e = accountId \<and>
       (case since of None \<Rightarrow> True | Some n \<Rightarrow> n < le_sequence e)) (ledger_entries s))"

definition computeAccountBalance :: "string \<Rightarrow> computed_balance tx" where
  "computeAccountBalance accountId =
     bind_op (account_or_throw accountId) (\<lambda>account.
     bind_op (reads (account_entries accountId None)) (\<lambda>entries.
     let (units, through) = sum_entries (debitIncreases (la_type account)) entries (0, None) in
     ret \<lparr>cb_accountId = accountId, cb_units = units, cb_assetSymbol = la_assetSymbol account,
          cb_assetDecimals = la_assetDecimals account, cb_throughSequence = through,
          cb_entryCount = int (length entries)\<rparr>))"

definition balance_toMoney :: "computed_balance \<Rightarrow> money" where
  "balance_toMoney b = fromUnits (cb_units b) (cb_assetSymbol b) (cb_assetDecimals b)"

definition computeBalanceDelta :: "string \<Rightarrow> int option \<Rightarrow> (int \<times> int option) tx" where
  "computeBalanceDelta accountId sinceSequence =
     bind_op (account_or_throw accountId) (\<lambda>account.
     bind_op (reads (account_entries accountId sinceSequence)) (\<lambda>entries.
     ret (sum_entries (debitIncreases (la_type account)) entries (0, sinceSequence))))"

section \<open>Reconciliation\<close>

record account_reconciliation =
  arc_accountId :: string
  arc_matched :: bool
  arc_refreshedUnits :: int
  arc_computedUnits :: int

definition reconcileAccount :: "int \<Rightarrow> string \<Rightarrow> account_reconciliation tx" where
  "reconcileAccount now accountId =
     bind_op (account_or_throw accountId) (\<lambda>account.
     bind_op (computeBalanceDelta accountId (la_cachedThroughSeq account)) (\<lambda>(delta, through).
     let refreshed = la_cachedBalance account + delta in
     bind_op (computeAccountBalance accountId) (\<lambda>computed.
     let matched = (refreshed = cb_units computed) in
     seq_op
       (if matched then
          modify (\<lambda>s. s\<lparr>ledger_accounts := update_rows (\<lambda>a. la_id a = accountId)
            (\<lambda>a. a\<lparr>la_cachedBalance := refreshed, la_cachedBalanceAt := Some now, la_cachedThroughSeq := through\<rparr>)
            (ledger_accounts s)\<rparr>)
        else ret ())
       (ret \<lparr>arc_accountId = accountId, arc_matched = matched, arc_refreshedUnits = refreshed,
             arc_computedUnits = cb_units computed\<rparr>))))"

record reconciliation_summary =
  rs_runId :: string
  rs_status :: reconciliation_status
  rs_checkedCount :: int
  rs_discrepancyCount :: int

definition record_imbalance :: "(nat \<Rightarrow> string) \<Rightarrow> string \<Rightarrow> account_reconciliation \<Rightarrow> unit tx" where
  "record_imbalance gen runId r =
     bind_op (fresh_id gen ReconciliationId) (\<lambda>i.
     modify (\<lambda>s. s\<lparr>reconciliation_discrepancies := reconciliation_discrepancies s @
       [\<lparr>rd_id = i, rd_runId = runId, rd_kind = LEDGER_IMBALANCE, rd_severity = CRITICAL,
         rd_subjectType = ''ledger_account'', rd_subjectId = arc_accountId r,
         rd_expectedValue = Some (show_int (arc_refreshedUnits r)),
         rd_actualValue = Some (show_int (arc_computedUnits r)),
         rd_details = [(''refreshedUnits'', JStr (show_int (arc_refreshedUnits r))),
                       (''computedUnits'', JStr (show_int (arc_computedUnits r)))]\<rparr>]\<rparr>))"

definition reconcile_one :: "(nat \<Rightarrow> string) \<Rightarrow> int \<Rightarrow> string \<Rightarrow> string \<Rightarrow> int \<Rightarrow> int service" where
  "reconcile_one gen now runId accountId discrepancyCount =
     pbind (atomically (reconcileAccount now accountId)) (\<lambda>result.
     if \<not> arc_matched result then
       pbind (atomically (record_imbalance gen runId result)) (\<lambda>_. pret (discrepancyCount + 1))
     else pret discrepancyCount)"

definition runLedgerReconciliation ::
  "(nat \<Rightarrow> string) \<Rightarrow> int \<Rightarrow> string option \<Rightarrow> reconciliation_summary service"
where
  "runLedgerReconciliation gen now merchantId =
     pbind (atomically (fresh_id gen ReconciliationId)) (\<lambda>runId.
     pbind (pmodify (\<lambda>s. s\<lparr>reconciliation_runs := reconciliation_runs s @
       [\<lparr>rr_id = runId, rr_scope = ''ledger_balance'', rr_status = RUNNING, rr_periodStart = now, rr_periodEnd = now,
         rr_checkedCount = 0, rr_discrepancyCount = 0, rr_completedAt = None\<rparr>]\<rparr>)) (\<lambda>_.
     pbind (preads (\<lambda>s. map la_id (filter (\<lambda>a. la_isActive a \<and>
       (\<not> truthy merchantId \<or> la_merchantId a = merchantId)) (ledger_accounts s)))) (\<lambda>accounts.
     pbind (pfold (reconcile_one gen now runId) accounts 0) (\<lambda>discrepancyCount.
     let status = (if discrepancyCount = 0 then CLEAN else DISCREPANCIES_FOUND) in
     pbind (pmodify (\<lambda>s. s\<lparr>reconciliation_runs := update_rows (\<lambda>r. rr_id r = runId)
       (\<lambda>r. r\<lparr>rr_status := status, rr_checkedCount := int (length accounts),
              rr_discrepancyCount := discrepancyCount, rr_periodEnd := now, rr_completedAt := Some now\<rparr>)
       (reconciliation_runs s)\<rparr>)) (\<lambda>_.
     pret \<lparr>rs_runId = runId, rs_status = status, rs_checkedCount = int (length accounts),
           rs_discrepancyCount = discrepancyCount\<rparr>)))))"

section \<open>What a posting writes\<close>

definition total :: "ledger_direction \<Rightarrow> ledger_entry list \<Rightarrow> int" where
  "total d es = sum_list (map le_amount (filter (\<lambda>e. le_direction e = d) es))"

lemma total_simps [simp]:
  "total d [] = 0"
  "total d (e # es) = (if le_direction e = d then le_amount e else 0) + total d es"
  "total d (xs @ ys) = total d xs + total d ys"
  by (simp_all add: total_def)

lemma number_from_fields [simp]:
  "length (number_from n es) = length es" "total d (number_from n es) = total d es"
  "map le_amount (number_from n es) = map le_amount es"
  "map le_ledgerTransactionId (number_from n es) = map le_ledgerTransactionId es"
  "map le_accountId (number_from n es) = map le_accountId es"
  "map le_assetSymbol (number_from n es) = map le_assetSymbol es"
  by (induction n es rule: number_from.induct) simp_all

lemma number_from_sequences: "map le_sequence (number_from n es) = map (\<lambda>i. n + int i) [0..<length es]"
proof (induction n es rule: number_from.induct)
  case (2 n e es)
  have "map (\<lambda>i. n + 1 + int i) [0..<length es] = map (\<lambda>i. n + int i) [Suc 0..<Suc (length es)]"
    by (subst map_Suc_upt [symmetric]) simp
  with 2 show ?case by (simp add: upt_rec [of 0] del: upt_Suc)
qed simp

definition fresh_cache :: "ledger_account \<Rightarrow> bool" where
  "fresh_cache a \<longleftrightarrow> la_cachedBalance a = 0 \<and> la_cachedThroughSeq a = None"

text \<open>The account a reference stands for: the row with the derived code, created when missing.\<close>

lemma ensureAccount_Inr:
  assumes "ensureAccount gen kind ref m s = Inr (i, t)"
  shows "\<exists>as n. t = s\<lparr>ledger_accounts := ledger_accounts s @ as, db_ulids := db_ulids s + n\<rparr> \<and>
     list_all fresh_cache as \<and> (\<exists>a \<in> set (ledger_accounts t). la_id a = i)"
proof -
  define mm where "mm = (if truthy m then m else None)"
  from assms obtain code where code: "bind_op (reads (\<lambda>s. find (\<lambda>a. la_code a = code) (ledger_accounts s))) (\<lambda>existing.
      case existing of Some a \<Rightarrow> ret (la_id a)
      | None \<Rightarrow> bind_op (fresh_id gen LedgerAccountId) (\<lambda>i.
          seq_op (modify (\<lambda>s. s\<lparr>ledger_accounts := ledger_accounts s @ [new_account kind ref mm i code]\<rparr>)) (ret i))) s = Inr (i, t)"
    unfolding ensureAccount_def Let_def mm_def [symmetric] bind_op_Inr_iff [of "from_result _"] from_result_Inr_iff by blast
  show ?thesis
  proof (cases "find (\<lambda>a. la_code a = code) (ledger_accounts s)")
    case None
    with code have "i = newId (gen (db_ulids s)) LedgerAccountId"
      "t = s\<lparr>db_ulids := Suc (db_ulids s), ledger_accounts := ledger_accounts s @ [new_account kind ref mm i code]\<rparr>"
      by (auto simp: result_simps)
    then show ?thesis by (intro exI [of _ "[new_account kind ref mm i code]"] exI [of _ 1]) (simp add: new_account_def fresh_cache_def)
  next
    case (Some a)
    with code have "i = la_id a" "t = s" by simp_all
    then show ?thesis using find_Some_set [OF Some] by (intro exI [of _ "[]"] exI [of _ 0]) auto
  qed
qed

lemma ensureAccount_ok:
  assumes "is_ok (ledgerAccountCode kind (network_name (ar_network ref)) (ar_assetSymbol ref) (if truthy m then m else None))"
  shows "\<exists>i t. ensureAccount gen kind ref m s = Inr (i, t)"
proof -
  from assms obtain code where
    "ledgerAccountCode kind (network_name (ar_network ref)) (ar_assetSymbol ref) (if truthy m then m else None) = Inr code"
    unfolding is_ok_iff by blast
  then show ?thesis
    unfolding ensureAccount_def Let_def
    by (cases "find (\<lambda>a. la_code a = code) (ledger_accounts s)") (simp_all add: fresh_id_def bind_op_def)
qed

definition posted_entries :: "posting_params \<Rightarrow> money \<Rightarrow> money \<Rightarrow> string \<Rightarrow> ledger_entry list \<Rightarrow> bool" where
  "posted_entries p fee net ltx es \<longleftrightarrow>
     total DEBIT es = m_units (pp_grossAmount p) \<and> total CREDIT es = m_units net + m_units fee \<and> 2 \<le> length es \<and>
     list_all (\<lambda>e. 0 < le_amount e \<and> le_ledgerTransactionId e = ltx \<and> le_assetSymbol e = pp_assetSymbol p \<and>
                  le_assetDecimals e = pp_assetDecimals p) es"

lemma posted_entries_number [simp]: "posted_entries p fee net ltx (number_from n es) \<longleftrightarrow> posted_entries p fee net ltx es"
proof -
  have "list_all (\<lambda>e. 0 < le_amount e \<and> le_ledgerTransactionId e = ltx \<and> le_assetSymbol e = pp_assetSymbol p \<and>
      le_assetDecimals e = pp_assetDecimals p) (number_from n es) \<longleftrightarrow>
    list_all (\<lambda>e. 0 < le_amount e \<and> le_ledgerTransactionId e = ltx \<and> le_assetSymbol e = pp_assetSymbol p \<and>
      le_assetDecimals e = pp_assetDecimals p) es"
    by (induction n es rule: number_from.induct) simp_all
  then show ?thesis by (simp add: posted_entries_def)
qed

lemma create_entries_Inr [result_simps]:
  "create_entries es s = Inr (u, t) \<longleftrightarrow> list_all (\<lambda>e. 0 < le_amount e) es \<and>
     t = s\<lparr>ledger_entries := ledger_entries s @ number_from (db_sequence s) es,
           db_sequence := db_sequence s + int (length es)\<rparr>"
  by (auto simp: create_entries_def)

definition legs_ok :: "posting_params \<Rightarrow> money \<Rightarrow> money \<Rightarrow> string \<Rightarrow> ledger_entry list \<Rightarrow> bool" where
  "legs_ok p fee net ltx es \<longleftrightarrow>
     total DEBIT es = m_units (pp_grossAmount p) \<and> total CREDIT es = m_units net + m_units fee \<and> 2 \<le> length es \<and>
     list_all (\<lambda>e. le_ledgerTransactionId e = ltx \<and> le_assetSymbol e = pp_assetSymbol p \<and>
                  le_assetDecimals e = pp_assetDecimals p) es"

lemma legs_ok_posted: "posted_entries p fee net ltx es \<longleftrightarrow> legs_ok p fee net ltx es \<and> list_all (\<lambda>e. 0 < le_amount e) es"
  by (auto simp: posted_entries_def legs_ok_def list_all_iff)

lemma posting_legs_Inr:
  assumes "posting_legs gen p ref holdings payable ltx fee net s = Inr (es, t)" "0 \<le> m_units fee"
  shows "\<exists>as n. t = s\<lparr>ledger_accounts := ledger_accounts s @ as, db_ulids := db_ulids s + n\<rparr> \<and> list_all fresh_cache as \<and> legs_ok p fee net ltx es \<and>
     set (map le_amount es) \<subseteq> {m_units (pp_grossAmount p), m_units net} \<union> {x. x = m_units fee \<and> 0 < x}"
proof (cases "isPositive fee")
  case False
  with assms(2) have "m_units fee = 0" by (simp add: isPositive_def)
  with assms(1) False show ?thesis
    by (intro exI [of _ "[]"] exI [of _ 2])
       (auto simp: posting_legs_def result_simps legs_ok_def posting_entry_def)
next
  case True
  with assms(1) obtain acct s1 e1 e2 e3 where
    a: "ensureAccount gen FEE_REVENUE ref None (s\<lparr>db_ulids := db_ulids s + 2\<rparr>) = Inr (acct, s1)"
    and t: "t = s1\<lparr>db_ulids := Suc (db_ulids s1)\<rparr>"
    and es: "es = [posting_entry p e1 ltx holdings DEBIT (m_units (pp_grossAmount p)),
       posting_entry p e2 ltx payable CREDIT (m_units net), posting_entry p e3 ltx acct CREDIT (m_units fee)]"
    by (auto simp: posting_legs_def result_simps)
  from ensureAccount_Inr [OF a] obtain as n where
    "s1 = s\<lparr>ledger_accounts := ledger_accounts s @ as, db_ulids := db_ulids s + 2 + n\<rparr>" "list_all fresh_cache as" by auto
  then show ?thesis using t es True
    by (intro exI [of _ as] exI [of _ "Suc (2 + n)"]) (simp add: legs_ok_def posting_entry_def isPositive_def)
qed

lemma write_posting_Inr:
  assumes "write_posting gen p fee net s = Inr (ltx, t)" "0 \<le> m_units fee"
  shows "\<exists>as es lt k n. t = s\<lparr>ledger_accounts := ledger_accounts s @ as, ledger_transactions := ledger_transactions s @ [lt],
        ledger_entries := ledger_entries s @ es, db_sequence := db_sequence s + int (length es),
        db_ulids := db_ulids s + n\<rparr> \<and>
      lt_id lt = ltx \<and> lt_idempotencyKey lt = pp_idempotencyKey p \<and> ltx = newId (gen k) LedgerTransactionId \<and>
      db_ulids s \<le> k \<and> k < db_ulids s + n \<and> posted_entries p fee net ltx es \<and> list_all fresh_cache as \<and>
      map le_sequence es = map (\<lambda>i. db_sequence s + int i) [0..<length es]"
proof -
  let ?ref = "\<lparr>ar_network = pp_network p, ar_assetSymbol = pp_assetSymbol p, ar_assetDecimals = pp_assetDecimals p\<rparr>"
  from assms(1) obtain holdings s1 payable s2 entries s3 where
    h: "ensureAccount gen MERCHANT_HOLDINGS ?ref (Some (pp_merchantId p)) s = Inr (holdings, s1)"
    and pay: "ensureAccount gen MERCHANT_PAYABLE ?ref (Some (pp_merchantId p)) s1 = Inr (payable, s2)"
    and ltx: "ltx = newId (gen (db_ulids s2)) LedgerTransactionId"
    and f: "posting_legs gen p ?ref holdings payable ltx fee net
       (s2\<lparr>db_ulids := Suc (db_ulids s2), ledger_transactions := ledger_transactions s2 @ [credit_transaction p ltx]\<rparr>) = Inr (entries, s3)"
    and c: "create_entries entries s3 = Inr ((), t)"
    unfolding write_posting_def Let_def bind_op_Inr_iff seq_op_Inr_iff fresh_id_Inr op_simps by auto
  obtain as1 n1 where s1: "s1 = s\<lparr>ledger_accounts := ledger_accounts s @ as1, db_ulids := db_ulids s + n1\<rparr>" "list_all fresh_cache as1"
    using ensureAccount_Inr [OF h] by blast
  obtain as2 n2 where s2: "s2 = s\<lparr>ledger_accounts := ledger_accounts s @ as1 @ as2, db_ulids := db_ulids s + n1 + n2\<rparr>" "list_all fresh_cache as2"
    using ensureAccount_Inr [OF pay] s1 by auto
  obtain as3 n3 where s3: "s3 = s\<lparr>ledger_transactions := ledger_transactions s @ [credit_transaction p ltx],
      ledger_accounts := ledger_accounts s @ as1 @ as2 @ as3, db_ulids := Suc (db_ulids s + n1 + n2) + n3\<rparr>" and as3: "list_all fresh_cache as3" and legs: "legs_ok p fee net ltx entries"
    using posting_legs_Inr [OF f assms(2)] s2 by auto
  from c have t: "list_all (\<lambda>e. 0 < le_amount e) entries" "t = s3\<lparr>ledger_entries := ledger_entries s3 @ number_from (db_sequence s3) entries,
           db_sequence := db_sequence s3 + int (length entries)\<rparr>" by (simp_all add: result_simps)
  have "posted_entries p fee net ltx entries" using legs t(1) by (simp add: legs_ok_posted)
  then show ?thesis unfolding t(2) s3
    by (intro exI [of _ "as1 @ as2 @ as3"] exI [of _ "number_from (db_sequence s) entries"] exI [of _ "credit_transaction p ltx"]
        exI [of _ "db_ulids s + n1 + n2"] exI [of _ "n1 + n2 + 1 + n3"]) (use s1(2) s2(2) as3 in \<open>simp add: credit_transaction_def ltx s2(1) number_from_sequences\<close>)
qed

definition fee_units :: "posting_params \<Rightarrow> int" where
  "fee_units p = m_units (pp_grossAmount p) * pp_feeBps p div 10000"

definition with_units :: "posting_params \<Rightarrow> int \<Rightarrow> money" where
  "with_units p u = mk_money u (m_asset (pp_grossAmount p)) (m_decimals (pp_grossAmount p))"

lemma with_units_sel [simp]: "m_units (with_units p u) = u"
  by (simp add: with_units_def)

definition posted :: "db \<Rightarrow> string \<Rightarrow> bool" where
  "posted s k \<longleftrightarrow> (\<exists>t \<in> set (ledger_transactions s). lt_idempotencyKey t = k)"

lemma find_posted: "find (\<lambda>t. lt_idempotencyKey t = k) (ledger_transactions s) = None \<longleftrightarrow> \<not> posted s k"
  by (auto simp: find_None_iff posted_def)

lemma split_fee_eq:
  "split_fee p s = Inr ((with_units p (fee_units p), with_units p (m_units (pp_grossAmount p) - fee_units p)), s)"
  by (simp add: split_fee_def percentageBps_floor money_subtract_same fee_units_def with_units_def)

lemma fee_bounds:
  assumes "0 < m_units (pp_grossAmount p)" "0 \<le> pp_feeBps p" "pp_feeBps p \<le> 10000"
  shows "0 \<le> fee_units p" "fee_units p \<le> m_units (pp_grossAmount p)"
  using bps_share_bounds [of "m_units (pp_grossAmount p)" "pp_feeBps p"] assms by (simp_all add: fee_units_def)

lemma fee_below_gross:
  assumes "0 < m_units (pp_grossAmount p)" "0 \<le> pp_feeBps p" "pp_feeBps p < 10000"
  shows "fee_units p < m_units (pp_grossAmount p)"
proof -
  have "m_units (pp_grossAmount p) * pp_feeBps p < m_units (pp_grossAmount p) * 10000" using assms by simp
  then show ?thesis unfolding fee_units_def by (simp add: div_less_iff_less_mult)
qed

definition valid_posting :: "posting_params \<Rightarrow> bool" where
  "valid_posting p \<longleftrightarrow> 0 < m_units (pp_grossAmount p) \<and> 0 \<le> pp_feeBps p \<and> pp_feeBps p \<le> 10000"

definition posting_outcome :: "posting_params \<Rightarrow> string \<Rightarrow> bool \<Rightarrow> posting_result" where
  "posting_outcome p ltx already =
     \<lparr>pr_ledgerTransactionId = ltx, pr_alreadyPosted = already, pr_grossAmount = pp_grossAmount p,
      pr_feeAmount = with_units p (fee_units p),
      pr_netAmount = with_units p (m_units (pp_grossAmount p) - fee_units p)\<rparr>"

lemma postPaymentCredit_Inr [result_simps]:
  "postPaymentCredit gen p s = Inr (r, t) \<longleftrightarrow> valid_posting p \<and>
     (if posted s (pp_idempotencyKey p)
      then \<exists>lt. find (\<lambda>t. lt_idempotencyKey t = pp_idempotencyKey p) (ledger_transactions s) = Some lt \<and>
             r = posting_outcome p (lt_id lt) True \<and> t = s
      else \<exists>ltx. write_posting gen p (with_units p (fee_units p)) (with_units p (m_units (pp_grossAmount p) - fee_units p)) s = Inr (ltx, t)
             \<and> r = posting_outcome p ltx False)"
proof (cases "find (\<lambda>t. lt_idempotencyKey t = pp_idempotencyKey p) (ledger_transactions s)")
  case None
  then have "\<not> posted s (pp_idempotencyKey p)" by (simp add: find_posted)
  with None show ?thesis
    by (auto simp: postPaymentCredit_def valid_posting_def isPositive_def posting_outcome_def split_fee_eq bind_op_Inr_iff)
next
  case (Some lt)
  then have "posted s (pp_idempotencyKey p)" using find_posted [of "pp_idempotencyKey p" s] by auto
  with Some show ?thesis
    by (auto simp: postPaymentCredit_def valid_posting_def isPositive_def posting_outcome_def split_fee_eq bind_op_Inr_iff)
qed

text \<open>What one new posting adds to the state.\<close>

lemma postPaymentCredit_new:
  assumes "postPaymentCredit gen p s = Inr (r, t)" "\<not> posted s (pp_idempotencyKey p)"
  shows "\<exists>as es lt k n. t = s\<lparr>ledger_accounts := ledger_accounts s @ as, ledger_transactions := ledger_transactions s @ [lt],
        ledger_entries := ledger_entries s @ es, db_sequence := db_sequence s + int (length es),
        db_ulids := db_ulids s + n\<rparr> \<and>
      lt_id lt = pr_ledgerTransactionId r \<and> lt_idempotencyKey lt = pp_idempotencyKey p \<and>
      lt_id lt = newId (gen k) LedgerTransactionId \<and> db_ulids s \<le> k \<and> k < db_ulids s + n \<and>
      posted_entries p (pr_feeAmount r) (pr_netAmount r) (lt_id lt) es \<and> list_all fresh_cache as \<and>
      map le_sequence es = map (\<lambda>i. db_sequence s + int i) [0..<length es] \<and> r = posting_outcome p (lt_id lt) False"
proof -
  let ?fee = "with_units p (fee_units p)"
  let ?net = "with_units p (m_units (pp_grossAmount p) - fee_units p)"
  from assms obtain ltx where w: "write_posting gen p ?fee ?net s = Inr (ltx, t)" and v: "valid_posting p"
    and r: "r = posting_outcome p ltx False" by (auto simp: postPaymentCredit_Inr)
  have "0 \<le> m_units ?fee" using v fee_bounds by (simp add: valid_posting_def)
  from write_posting_Inr [OF w this] obtain as es lt k n where
    t: "t = s\<lparr>ledger_accounts := ledger_accounts s @ as, ledger_transactions := ledger_transactions s @ [lt],
        ledger_entries := ledger_entries s @ es, db_sequence := db_sequence s + int (length es),
        db_ulids := db_ulids s + n\<rparr>"
    and rest: "lt_id lt = ltx" "lt_idempotencyKey lt = pp_idempotencyKey p" "ltx = newId (gen k) LedgerTransactionId"
      "db_ulids s \<le> k" "k < db_ulids s + n" "posted_entries p ?fee ?net ltx es" "list_all fresh_cache as"
      "map le_sequence es = map (\<lambda>i. db_sequence s + int i) [0..<length es]" by blast
  show ?thesis unfolding t
    by (rule exI [of _ as], rule exI [of _ es], rule exI [of _ lt], rule exI [of _ k], rule exI [of _ n])
       (use rest r in \<open>simp add: posting_outcome_def\<close>)
qed

text \<open>An operation that takes effect once per key: what a client that retries relies on.\<close>

definition post_all :: "('p \<Rightarrow> ('s, 'e, 'r) op) \<Rightarrow> 'p list \<Rightarrow> ('s, 'e, unit) op" where
  "post_all post = for_each (\<lambda>p. bind_op (post p) (\<lambda>_. ret ()))"

locale exactly_once =
  fixes post :: "'p \<Rightarrow> ('s, 'e, 'r) op"
    and key_of :: "'p \<Rightarrow> 'k"
    and did :: "'s \<Rightarrow> 'k \<Rightarrow> bool"
  assumes marks: "post p s = Inr (r, t) \<Longrightarrow> did t k \<longleftrightarrow> did s k \<or> k = key_of p"
    and again: "did s (key_of p) \<Longrightarrow> post p s = Inr (r, t) \<Longrightarrow> t = s"
begin

lemma post_all_marks: "post_all post ps s = Inr (u, t) \<Longrightarrow> did t k \<longleftrightarrow> did s k \<or> k \<in> key_of ` set ps"
proof (induction ps arbitrary: s)
  case Nil then show ?case by (simp add: post_all_def)
next
  case (Cons p ps)
  from Cons.prems obtain r s' where "post p s = Inr (r, s')" "post_all post ps s' = Inr (u, t)"
    by (auto simp: post_all_def result_simps)
  with Cons.IH [of s'] marks [of p s r s'] show ?case by auto
qed

lemma post_all_nothing_left:
  "(\<forall>p \<in> set ps. did s (key_of p)) \<Longrightarrow> post_all post ps s = Inr (u, t) \<Longrightarrow> t = s"
proof (induction ps arbitrary: s)
  case Nil then show ?case by (simp add: post_all_def)
next
  case (Cons p ps)
  from Cons.prems obtain r s' where "post p s = Inr (r, s')" "post_all post ps s' = Inr (u, t)"
    by (auto simp: post_all_def result_simps)
  with Cons again [of s p r s'] show ?case by auto
qed

lemma post_all_replay: "post_all post ps s = Inr (u, t) \<Longrightarrow> post_all post ps t = Inr (u', t') \<Longrightarrow> t' = t"
  using post_all_marks [of ps s u t] post_all_nothing_left [of ps t u' t'] by simp

end

interpretation credit: exactly_once "postPaymentCredit gen" pp_idempotencyKey posted
proof
  fix p s r t k
  assume *: "postPaymentCredit gen p s = Inr (r, t)"
  show "posted t k \<longleftrightarrow> posted s k \<or> k = pp_idempotencyKey p"
  proof (cases "posted s (pp_idempotencyKey p)")
    case True with * have "t = s" by (auto simp: postPaymentCredit_Inr)
    with True show ?thesis by auto
  next
    case False
    from postPaymentCredit_new [OF * False] obtain lt where
      "ledger_transactions t = ledger_transactions s @ [lt]" "lt_idempotencyKey lt = pp_idempotencyKey p" by auto
    then show ?thesis by (auto simp: posted_def)
  qed
next
  fix s p r t
  assume "posted s (pp_idempotencyKey p)" "postPaymentCredit gen p s = Inr (r, t)"
  then show "t = s" by (auto simp: postPaymentCredit_Inr)
qed

section \<open>Properties of the posting\<close>

text \<open>Every posting is balanced double entry. A call that posts appends one ledger transaction
  under its key and at least two entries, all of that transaction, of the invoice's asset and with
  positive amounts; the debits are the gross amount received and the credits are net plus fee, which
  is the same amount; the fee is the floor of the basis-point share, so no unit is lost or created.
  Nothing already in the ledger changes.\<close>

lemma posting_is_balanced:
  assumes "postPaymentCredit gen p s = Inr (r, t)" "\<not> pr_alreadyPosted r"
  shows "\<exists>es lt. ledger_entries t = ledger_entries s @ es \<and> ledger_transactions t = ledger_transactions s @ [lt] \<and>
    lt_id lt = pr_ledgerTransactionId r \<and> lt_idempotencyKey lt = pp_idempotencyKey p \<and> 2 \<le> length es \<and>
    total DEBIT es = m_units (pp_grossAmount p) \<and> total CREDIT es = m_units (pp_grossAmount p) \<and>
    list_all (\<lambda>e. 0 < le_amount e \<and> le_ledgerTransactionId e = lt_id lt \<and> le_assetSymbol e = pp_assetSymbol p) es \<and>
    m_units (pr_netAmount r) + m_units (pr_feeAmount r) = m_units (pp_grossAmount p) \<and>
    0 \<le> m_units (pr_feeAmount r) \<and> 10000 * m_units (pr_feeAmount r) \<le> m_units (pp_grossAmount p) * pp_feeBps p"
proof -
  have new: "\<not> posted s (pp_idempotencyKey p)" and v: "valid_posting p"
    using assms by (auto simp: postPaymentCredit_Inr posting_outcome_def split: if_splits)
  from postPaymentCredit_new [OF assms(1) new] obtain es lt where
    e: "ledger_entries t = ledger_entries s @ es" "ledger_transactions t = ledger_transactions s @ [lt]"
      "lt_id lt = pr_ledgerTransactionId r" "lt_idempotencyKey lt = pp_idempotencyKey p"
      "posted_entries p (pr_feeAmount r) (pr_netAmount r) (lt_id lt) es" "r = posting_outcome p (lt_id lt) False"
    by auto
  have "10000 * fee_units p \<le> m_units (pp_grossAmount p) * pp_feeBps p"
    unfolding fee_units_def
    using div_mult_mod_eq [of "m_units (pp_grossAmount p) * pp_feeBps p" 10000]
      pos_mod_sign [of 10000 "m_units (pp_grossAmount p) * pp_feeBps p"] by linarith
  moreover have "0 \<le> fee_units p" using v fee_bounds by (simp add: valid_posting_def)
  moreover have "m_units (pr_feeAmount r) = fee_units p" "m_units (pr_netAmount r) = m_units (pp_grossAmount p) - fee_units p"
    by (subst e(6), simp add: posting_outcome_def)+
  ultimately show ?thesis using e(1-5)
    by (intro exI [of _ es] exI [of _ lt]) (auto simp: posted_entries_def list_all_iff)
qed


lemma zero_net_refused:
  assumes "m_units (pp_grossAmount p) - fee_units p = 0"
    "write_posting gen p (with_units p (fee_units p)) (with_units p (m_units (pp_grossAmount p) - fee_units p)) s = Inr (ltx, t)"
  shows False
proof -
  let ?ref = "\<lparr>ar_network = pp_network p, ar_assetSymbol = pp_assetSymbol p, ar_assetDecimals = pp_assetDecimals p\<rparr>"
  from assms obtain h y l s1 s2 es u where
    legs: "posting_legs gen p ?ref h y l (with_units p (fee_units p)) (with_units p 0) s1 = Inr (es, s2)"
    and c: "create_entries es s2 = Inr ((), u)"
    unfolding write_posting_def Let_def bind_op_Inr_iff seq_op_Inr_iff by auto
  from legs have "0 \<in> set (map le_amount es)"
    unfolding posting_legs_def Let_def bind_op_Inr_iff fresh_id_Inr
    by (auto split: if_splits simp: result_simps posting_entry_def)
  with c show False by (auto simp: result_simps list_all_iff)
qed

lemma write_posting_ok:
  assumes "pp_merchantId p \<noteq> []" "0 \<le> m_units fee" "0 < m_units (pp_grossAmount p)" "0 < m_units net"
  shows "\<exists>ltx t. write_posting gen p fee net s = Inr (ltx, t)"
proof -
  let ?ref = "\<lparr>ar_network = pp_network p, ar_assetSymbol = pp_assetSymbol p, ar_assetDecimals = pp_assetDecimals p\<rparr>"
  have acct: "\<exists>i t. ensureAccount gen k ?ref m s = Inr (i, t)"
    if "(isMerchantScoped k \<and> m = Some (pp_merchantId p)) \<or> (k = FEE_REVENUE \<and> m = None)" for k m s
    by (rule ensureAccount_ok) (use that assms(1) in \<open>auto simp: ledgerAccountCode_def truthy_def isMerchantScoped_def\<close>)
  obtain h s1 where h: "ensureAccount gen MERCHANT_HOLDINGS ?ref (Some (pp_merchantId p)) s = Inr (h, s1)"
    using acct [of MERCHANT_HOLDINGS "Some (pp_merchantId p)" s] by (auto simp: isMerchantScoped_def)
  obtain y s2 where y: "ensureAccount gen MERCHANT_PAYABLE ?ref (Some (pp_merchantId p)) s1 = Inr (y, s2)"
    using acct [of MERCHANT_PAYABLE "Some (pp_merchantId p)" s1] by (auto simp: isMerchantScoped_def)
  define ltx where "ltx = newId (gen (db_ulids s2)) LedgerTransactionId"
  define s3 where "s3 = s2\<lparr>db_ulids := Suc (db_ulids s2), ledger_transactions := ledger_transactions s2 @ [credit_transaction p ltx]\<rparr>"
  have "\<exists>es s4. posting_legs gen p ?ref h y ltx fee net s3 = Inr (es, s4)"
  proof (cases "isPositive fee")
    case True
    obtain i s5 where "ensureAccount gen FEE_REVENUE ?ref None (s3\<lparr>db_ulids := Suc (Suc (db_ulids s3))\<rparr>) = Inr (i, s5)"
      using acct [of FEE_REVENUE None] by blast
    with True show ?thesis by (simp add: posting_legs_def fresh_id_def bind_op_def)
  next
    case False then show ?thesis by (simp add: posting_legs_def fresh_id_def bind_op_def)
  qed
  then obtain es s4 where es: "posting_legs gen p ?ref h y ltx fee net s3 = Inr (es, s4)" by blast
  from posting_legs_Inr [OF es assms(2)] assms(3,4) have "list_all (\<lambda>e. 0 < le_amount e) es"
    by (auto simp: list_all_iff)
  then have "\<exists>t. create_entries es s4 = Inr ((), t)" by (simp add: create_entries_def)
  then obtain t where "create_entries es s4 = Inr ((), t)" ..
  then show ?thesis
    using h y es by (auto simp: write_posting_def Let_def fresh_id_def ltx_def [symmetric] s3_def)
qed

lemma postPaymentCredit_ok:
  assumes "0 < m_units (pp_grossAmount p)" "pp_merchantId p \<noteq> []" "0 \<le> pp_feeBps p" "pp_feeBps p < 10000"
  shows "\<exists>r t. postPaymentCredit gen p s = Inr (r, t)"
proof (cases "posted s (pp_idempotencyKey p)")
  case True
  then obtain lt where "find (\<lambda>t. lt_idempotencyKey t = pp_idempotencyKey p) (ledger_transactions s) = Some lt"
    using find_posted [of "pp_idempotencyKey p" s] by blast
  with True assms show ?thesis by (auto simp: postPaymentCredit_Inr valid_posting_def)
next
  case False
  have "\<exists>ltx t. write_posting gen p (with_units p (fee_units p)) (with_units p (m_units (pp_grossAmount p) - fee_units p)) s = Inr (ltx, t)"
    using assms fee_bounds [of p] fee_below_gross [of p] by (intro write_posting_ok) auto
  with False assms show ?thesis by (auto simp: postPaymentCredit_Inr valid_posting_def)
qed


text \<open>A concrete posting: 10 USDT at 1% for one merchant.\<close>

definition sample_posting :: "string \<Rightarrow> posting_params" where
  "sample_posting key = \<lparr>pp_merchantId = ''mch_1'', pp_invoiceId = ''inv_1'', pp_tokenTransferId = ''ttr_1'',
     pp_network = ETHEREUM, pp_assetSymbol = ''USDT'', pp_assetDecimals = 6,
     pp_grossAmount = mk_money 10000000 ''USDT'' 6, pp_feeBps = 100, pp_idempotencyKey = key\<rparr>"

lemma sample_posting_ok: "\<exists>r t. postPaymentCredit gen (sample_posting k) s = Inr (r, t)"
  by (rule postPaymentCredit_ok) (simp_all add: sample_posting_def)

lemma sample_posting_new:
  assumes "postPaymentCredit gen (sample_posting k) empty_db = Inr (r, t)"
  shows "\<not> pr_alreadyPosted r"
proof -
  have "\<not> posted empty_db (pp_idempotencyKey (sample_posting k))" by (simp add: posted_def empty_db_def)
  with assms show ?thesis by (auto simp: postPaymentCredit_Inr posting_outcome_def)
qed



section \<open>The ledger invariant\<close>

definition entries_of :: "string \<Rightarrow> db \<Rightarrow> ledger_entry list" where
  "entries_of ltx s = filter (\<lambda>e. le_ledgerTransactionId e = ltx) (ledger_entries s)"

definition ledger_ok :: "(nat \<Rightarrow> string) \<Rightarrow> db \<Rightarrow> bool" where
  "ledger_ok gen s \<longleftrightarrow>
     distinct (map lt_idempotencyKey (ledger_transactions s)) \<and>
     distinct (map lt_id (ledger_transactions s)) \<and>
     lt_id ` set (ledger_transactions s) \<subseteq> (\<lambda>k. newId (gen k) LedgerTransactionId) ` {..<db_ulids s} \<and>
     le_ledgerTransactionId ` set (ledger_entries s) \<subseteq> lt_id ` set (ledger_transactions s) \<and>
     (\<forall>lt \<in> set (ledger_transactions s). 2 \<le> length (entries_of (lt_id lt) s) \<and>
        total DEBIT (entries_of (lt_id lt) s) = total CREDIT (entries_of (lt_id lt) s)) \<and>
     total DEBIT (ledger_entries s) = total CREDIT (ledger_entries s) \<and>
     (\<forall>e \<in> set (ledger_entries s). 0 < le_amount e) \<and>
     sorted_wrt (<) (map le_sequence (ledger_entries s)) \<and>
     (\<forall>e \<in> set (ledger_entries s). le_sequence e < db_sequence s)"

lemma newId_inj: "newId u k = newId v k \<longleftrightarrow> u = v"
  by (simp add: newId_def)

lemma empty_ledger_ok: "ledger_ok gen empty_db"
  by (simp add: ledger_ok_def empty_db_def)

lemma appended_sequences:
  assumes "sorted_wrt (<) (map le_sequence xs)" "\<forall>e \<in> set xs. le_sequence e < n"
    "map le_sequence es = map (\<lambda>i. n + int i) [0..<length es]"
  shows "sorted_wrt (<) (map le_sequence (xs @ es)) \<and> (\<forall>e \<in> set (xs @ es). le_sequence e < n + int (length es))"
proof -
  have es: "n \<le> le_sequence e \<and> le_sequence e < n + int (length es)" if "e \<in> set es" for e
  proof -
    have "le_sequence e \<in> set (map (\<lambda>i. n + int i) [0..<length es])"
      using that unfolding assms(3) [symmetric] by simp
    then show ?thesis by auto
  qed
  have "sorted_wrt (<) (map le_sequence es)" unfolding assms(3) by (simp add: sorted_wrt_map)
  then show ?thesis using assms es by (fastforce simp: sorted_wrt_append)
qed

lemma posting_keeps_ledger_ok:
  assumes "postPaymentCredit gen p s = Inr (r, t)" "ledger_ok gen s" "inj gen"
  shows "ledger_ok gen t"
proof (cases "posted s (pp_idempotencyKey p)")
  case True with assms(1) have "t = s" by (auto simp: postPaymentCredit_Inr)
  with assms(2) show ?thesis by simp
next
  case False
  from postPaymentCredit_new [OF assms(1) False] obtain es lt k n where
    t: "ledger_transactions t = ledger_transactions s @ [lt]" "ledger_entries t = ledger_entries s @ es"
      "db_sequence t = db_sequence s + int (length es)" "db_ulids t = db_ulids s + n"
    and lt: "lt_idempotencyKey lt = pp_idempotencyKey p" "lt_id lt = newId (gen k) LedgerTransactionId"
      "db_ulids s \<le> k" "k < db_ulids s + n" "r = posting_outcome p (lt_id lt) False"
    and es: "posted_entries p (pr_feeAmount r) (pr_netAmount r) (lt_id lt) es"
      "map le_sequence es = map (\<lambda>i. db_sequence s + int i) [0..<length es]" by auto
  have bal: "total DEBIT es = total CREDIT es" "2 \<le> length es" "\<forall>e \<in> set es. 0 < le_amount e \<and> le_ledgerTransactionId e = lt_id lt"
    using es(1) by (auto simp: posted_entries_def lt(5) posting_outcome_def list_all_iff)
  have ok: "distinct (map lt_idempotencyKey (ledger_transactions s))" "distinct (map lt_id (ledger_transactions s))"
    "lt_id ` set (ledger_transactions s) \<subseteq> (\<lambda>k. newId (gen k) LedgerTransactionId) ` {..<db_ulids s}"
    "le_ledgerTransactionId ` set (ledger_entries s) \<subseteq> lt_id ` set (ledger_transactions s)"
    "\<forall>lt \<in> set (ledger_transactions s). 2 \<le> length (entries_of (lt_id lt) s) \<and>
        total DEBIT (entries_of (lt_id lt) s) = total CREDIT (entries_of (lt_id lt) s)"
    "total DEBIT (ledger_entries s) = total CREDIT (ledger_entries s)" "\<forall>e \<in> set (ledger_entries s). 0 < le_amount e"
    "sorted_wrt (<) (map le_sequence (ledger_entries s))" "\<forall>e \<in> set (ledger_entries s). le_sequence e < db_sequence s"
    using assms(2) unfolding ledger_ok_def by simp_all
  have fresh: "lt_id lt \<notin> lt_id ` set (ledger_transactions s)"
  proof
    assume "lt_id lt \<in> lt_id ` set (ledger_transactions s)"
    then obtain j where "j < db_ulids s" "newId (gen k) LedgerTransactionId = newId (gen j) LedgerTransactionId"
      using ok(3) lt(2) by auto
    then show False using assms(3) lt(3) by (simp add: newId_inj inj_eq)
  qed
  have old: "entries_of (lt_id l) t = entries_of (lt_id l) s" if "l \<in> set (ledger_transactions s)" for l
  proof -
    have "lt_id lt \<noteq> lt_id l" using that fresh by auto
    then have "filter (\<lambda>e. le_ledgerTransactionId e = lt_id l) es = []" using bal(3) by (auto simp: filter_empty_conv)
    then show ?thesis by (simp add: entries_of_def t)
  qed
  have "filter (\<lambda>e. le_ledgerTransactionId e = lt_id lt) (ledger_entries s) = []"
    unfolding filter_empty_conv using subsetD [OF ok(4) imageI] fresh by metis
  then have new: "entries_of (lt_id lt) t = es" using bal(3) by (auto simp: entries_of_def t filter_id_conv)
  show ?thesis unfolding ledger_ok_def t
  proof (intro conjI)
    show "distinct (map lt_idempotencyKey (ledger_transactions s @ [lt]))"
      using ok(1) False lt(1) by (auto simp: posted_def)
    show "distinct (map lt_id (ledger_transactions s @ [lt]))" using ok(2) fresh by simp
    have "(\<lambda>k. newId (gen k) LedgerTransactionId) ` {..<db_ulids s} \<subseteq> (\<lambda>k. newId (gen k) LedgerTransactionId) ` {..<db_ulids s + n}"
      by (rule image_mono) simp
    with ok(3) have "lt_id ` set (ledger_transactions s) \<subseteq> (\<lambda>k. newId (gen k) LedgerTransactionId) ` {..<db_ulids s + n}"
      by (rule order_trans)
    then show "lt_id ` set (ledger_transactions s @ [lt]) \<subseteq> (\<lambda>k. newId (gen k) LedgerTransactionId) ` {..<db_ulids s + n}"
      using lt(2,4) by simp
    have "le_ledgerTransactionId ` set es \<subseteq> {lt_id lt}" using bal(3) by auto
    then show "le_ledgerTransactionId ` set (ledger_entries s @ es) \<subseteq> lt_id ` set (ledger_transactions s @ [lt])"
      using ok(4) by auto
    show "\<forall>l \<in> set (ledger_transactions s @ [lt]). 2 \<le> length (entries_of (lt_id l) t) \<and>
        total DEBIT (entries_of (lt_id l) t) = total CREDIT (entries_of (lt_id l) t)"
      using ok(5) old new bal(1,2) by simp
    show "total DEBIT (ledger_entries s @ es) = total CREDIT (ledger_entries s @ es)" using ok(6) bal(1) by simp
    show "\<forall>e \<in> set (ledger_entries s @ es). 0 < le_amount e" using ok(7) bal(3) by auto
    show "sorted_wrt (<) (map le_sequence (ledger_entries s @ es))"
      "\<forall>e \<in> set (ledger_entries s @ es). le_sequence e < db_sequence s + int (length es)"
      using appended_sequences [OF ok(8,9) es(2)] by simp_all
  qed
qed

text \<open>The books are always balanced. With a generator that never repeats a ULID, every
  sequence of postings from a database whose ledger is in order leaves it in order: idempotency keys
  and transaction ids are unique, every ledger transaction has at least two entries whose debits
  equal their credits, so do the totals over the whole ledger, every amount is positive, and the
  sequence numbers increase along the table.\<close>

lemma ledger_invariant:
  assumes "inj gen" "ledger_ok gen s" "post_all (postPaymentCredit gen) ps s = Inr ((), t)"
  shows "ledger_ok gen t \<and> total DEBIT (ledger_entries t) = total CREDIT (ledger_entries t)"
proof -
  have "ledger_ok gen t" using assms(2,3)
  proof (induction ps arbitrary: s)
    case Nil then show ?case by (simp add: post_all_def)
  next
    case (Cons p ps)
    from Cons.prems(2) obtain r s' where "postPaymentCredit gen p s = Inr (r, s')"
      "post_all (postPaymentCredit gen) ps s' = Inr ((), t)" by (auto simp: post_all_def result_simps)
    with Cons posting_keeps_ledger_ok [OF _ Cons.prems(1) assms(1)] show ?case by blast
  qed
  then show ?thesis by (simp add: ledger_ok_def)
qed

section \<open>Balances and reconciliation\<close>

text \<open>The specification of a balance: the signed sum over the entries of the account.\<close>

definition balance_of :: "bool \<Rightarrow> string \<Rightarrow> ledger_entry list \<Rightarrow> int" where
  "balance_of normalIsDebit accountId es =
     sum_list (map (signed_amount normalIsDebit) (filter (\<lambda>e. le_accountId e = accountId) es))"

lemma sum_entries_fst: "fst (sum_entries d es (u, q)) = u + sum_list (map (signed_amount d) es)"
  unfolding sum_entries_def by (induction es arbitrary: u q) (simp_all add: add.assoc)

lemma sum_entries_snd: "snd (sum_entries d es (u, q)) = (if es = [] then q else Some (le_sequence (last es)))"
  unfolding sum_entries_def by (induction es arbitrary: u q) auto

lemma sum_list_sort_key: "sum_list (map f (sort_key k xs)) = sum_list (map f xs)"
  for f :: "'a \<Rightarrow> int" and k :: "'a \<Rightarrow> int"
proof -
  have "mset (map f (sort_key k xs)) = mset (map f xs)" by simp
  then show ?thesis by (metis sum_mset_sum_list)
qed

lemma sum_list_filter_split:
  "sum_list (map f (filter P xs)) + sum_list (map f (filter (\<lambda>x. \<not> P x) xs)) = (sum_list (map f xs) :: int)"
  by (induction xs) auto

lemma entries_total: "sum_list (map f (account_entries a None s)) = (sum_list (map f (filter (\<lambda>e. le_accountId e = a) (ledger_entries s))) :: int)"
  by (simp add: account_entries_def sum_list_sort_key)

definition balance_through :: "bool \<Rightarrow> string \<Rightarrow> int option \<Rightarrow> ledger_entry list \<Rightarrow> int" where
  "balance_through d a since es =
     (case since of None \<Rightarrow> 0 | Some n \<Rightarrow> balance_of d a (filter (\<lambda>e. le_sequence e \<le> n) es))"

lemma delta_total:
  "sum_list (map (signed_amount d) (account_entries a since s)) =
     balance_of d a (ledger_entries s) - balance_through d a since (ledger_entries s)"
proof (cases since)
  case None then show ?thesis by (simp add: entries_total balance_of_def balance_through_def)
next
  case (Some n)
  let ?xs = "filter (\<lambda>e. le_accountId e = a) (ledger_entries s)"
  have *: "filter (\<lambda>e. le_accountId e = a \<and> n < le_sequence e) (ledger_entries s) = filter (\<lambda>e. \<not> le_sequence e \<le> n) ?xs"
    "filter (\<lambda>e. le_accountId e = a) (filter (\<lambda>e. le_sequence e \<le> n) (ledger_entries s)) = filter (\<lambda>e. le_sequence e \<le> n) ?xs"
    by (auto simp: not_le intro: filter_cong)
  show ?thesis
    using sum_list_filter_split [of "signed_amount d" "\<lambda>e. le_sequence e \<le> n" ?xs]
    unfolding Some account_entries_def option.case sum_list_sort_key balance_of_def balance_through_def * by simp
qed

definition find_account :: "string \<Rightarrow> db \<Rightarrow> ledger_account option" where
  "find_account i s = find (\<lambda>a. la_id a = i) (ledger_accounts s)"

text \<open>What the cached balance of an account should be, and whether it is.\<close>

definition true_balance :: "ledger_account \<Rightarrow> db \<Rightarrow> int" where
  "true_balance acc s = balance_of (debitIncreases (la_type acc)) (la_id acc) (ledger_entries s)"

definition drifted :: "ledger_account \<Rightarrow> db \<Rightarrow> bool" where
  "drifted acc s \<longleftrightarrow> la_cachedBalance acc \<noteq>
     balance_through (debitIncreases (la_type acc)) (la_id acc) (la_cachedThroughSeq acc) (ledger_entries s)"

definition delta_through :: "ledger_account \<Rightarrow> db \<Rightarrow> int option" where
  "delta_through acc s = snd (sum_entries (debitIncreases (la_type acc))
     (account_entries (la_id acc) (la_cachedThroughSeq acc) s) (0, la_cachedThroughSeq acc))"

lemma account_or_throw_ok:
  "find_account i s = Some acc \<Longrightarrow> account_or_throw i s = Inr (acc, s)"
  by (simp add: account_or_throw_def find_account_def)

lemma find_account_id: "find_account i s = Some acc \<Longrightarrow> la_id acc = i"
  using find_Some_set by (fastforce simp: find_account_def)

lemma computeAccountBalance_ok:
  assumes "find_account i s = Some acc"
  shows "\<exists>b. computeAccountBalance i s = Inr (b, s) \<and> cb_units b = true_balance acc s \<and>
     cb_assetSymbol b = la_assetSymbol acc \<and> cb_assetDecimals b = la_assetDecimals acc"
proof -
  let ?r = "sum_entries (debitIncreases (la_type acc)) (account_entries i None s) (0, None)"
  have "fst ?r = true_balance acc s"
    using find_account_id [OF assms] by (simp add: sum_entries_fst entries_total true_balance_def balance_of_def)
  then show ?thesis
    by (cases ?r) (simp add: computeAccountBalance_def account_or_throw_ok [OF assms])
qed

lemma computeBalanceDelta_ok:
  assumes "find_account i s = Some acc"
  shows "computeBalanceDelta i since s = Inr ((true_balance acc s -
      balance_through (debitIncreases (la_type acc)) i since (ledger_entries s),
      snd (sum_entries (debitIncreases (la_type acc)) (account_entries i since s) (0, since))), s)"
proof -
  let ?r = "sum_entries (debitIncreases (la_type acc)) (account_entries i since s) (0, since)"
  have "fst ?r = true_balance acc s - balance_through (debitIncreases (la_type acc)) i since (ledger_entries s)"
    using find_account_id [OF assms] by (simp add: sum_entries_fst delta_total true_balance_def)
  then show ?thesis
    by (cases ?r) (simp add: computeBalanceDelta_def account_or_throw_ok [OF assms])
qed

definition refreshed :: "int \<Rightarrow> ledger_account \<Rightarrow> db \<Rightarrow> ledger_account \<Rightarrow> ledger_account" where
  "refreshed now acc s a = a\<lparr>la_cachedBalance := true_balance acc s, la_cachedBalanceAt := Some now,
     la_cachedThroughSeq := delta_through acc s\<rparr>"

lemma reconcileAccount_ok:
  assumes "find_account i s = Some acc"
  shows "\<exists>r. reconcileAccount now i s =
      Inr (r, if drifted acc s then s
              else s\<lparr>ledger_accounts := update_rows (\<lambda>a. la_id a = i) (refreshed now acc s) (ledger_accounts s)\<rparr>) \<and>
    arc_accountId r = i \<and> (arc_matched r \<longleftrightarrow> \<not> drifted acc s) \<and> arc_computedUnits r = true_balance acc s \<and>
    arc_refreshedUnits r - arc_computedUnits r =
      la_cachedBalance acc - balance_through (debitIncreases (la_type acc)) i (la_cachedThroughSeq acc) (ledger_entries s)"
proof -
  obtain b where b: "computeAccountBalance i s = Inr (b, s)" "cb_units b = true_balance acc s"
    using computeAccountBalance_ok [OF assms] by blast
  have m: "la_cachedBalance acc + (true_balance acc s -
      balance_through (debitIncreases (la_type acc)) i (la_cachedThroughSeq acc) (ledger_entries s)) = true_balance acc s
      \<longleftrightarrow> \<not> drifted acc s"
    using find_account_id [OF assms] by (auto simp: drifted_def)
  show ?thesis
  proof (cases "drifted acc s")
    case True
    then show ?thesis using m unfolding reconcileAccount_def
      by (simp add: account_or_throw_ok [OF assms] computeBalanceDelta_ok [OF assms] b Let_def)
  next
    case False
    then have "la_cachedBalance acc + (true_balance acc s -
      balance_through (debitIncreases (la_type acc)) i (la_cachedThroughSeq acc) (ledger_entries s)) = true_balance acc s"
      using m by simp
    with False show ?thesis using find_account_id [OF assms] unfolding reconcileAccount_def
      by (simp add: account_or_throw_ok [OF assms] computeBalanceDelta_ok [OF assms] b Let_def refreshed_def [abs_def] delta_through_def
          seq_op_def bind_op_def)
  qed
qed

text \<open>A balance is the sum of its entries, and the incremental computation agrees with it:
  for every account and every starting sequence, the full recomputation is the balance through that
  sequence plus the delta after it. Neither reads the cached balance and neither changes anything.\<close>

lemma balance_is_sum_of_entries:
  assumes "find_account i s = Some acc"
  shows "\<exists>b delta through. computeAccountBalance i s = Inr (b, s) \<and>
    computeBalanceDelta i since s = Inr ((delta, through), s) \<and>
    cb_units b = balance_of (debitIncreases (la_type acc)) i (ledger_entries s) \<and>
    cb_units b = balance_through (debitIncreases (la_type acc)) i since (ledger_entries s) + delta"
  using computeAccountBalance_ok [OF assms] computeBalanceDelta_ok [OF assms, of since] find_account_id [OF assms]
  by (auto simp: true_balance_def)


text \<open>A database with one account holding one entry, cached correctly or not.\<close>

definition sample_account_db :: "int \<Rightarrow> db" where
  "sample_account_db cached = empty_db\<lparr>
     ledger_accounts := [(new_account MERCHANT_HOLDINGS \<lparr>ar_network = ETHEREUM, ar_assetSymbol = ''USDT'', ar_assetDecimals = 6\<rparr>
        (Some ''m'') ''lacc_1'' ''c'')\<lparr>la_cachedBalance := cached, la_cachedThroughSeq := Some 1\<rparr>],
     ledger_entries := [\<lparr>le_id = ''e'', le_sequence = 1, le_ledgerTransactionId = ''t'', le_accountId = ''lacc_1'',
        le_direction = DEBIT, le_amount = 7, le_assetSymbol = ''USDT'', le_assetDecimals = 6, le_metadata = []\<rparr>]\<rparr>"

lemma sample_account_found: "\<exists>acc. find_account ''lacc_1'' (sample_account_db c) = Some acc \<and> (drifted acc (sample_account_db c) \<longleftrightarrow> c \<noteq> 7) \<and>
    balance_of (debitIncreases (la_type acc)) ''lacc_1'' (ledger_entries (sample_account_db c)) = 7"
  by (simp add: find_account_def sample_account_db_def new_account_def drifted_def balance_through_def balance_of_def
      signed_amount_def debitIncreases_def)


section \<open>A reconciliation run\<close>

lemma reconcile_one_ok:
  assumes "find_account i s = Some acc"
  shows "\<exists>t. reconcile_one gen now run i c s = (Inr (c + of_bool (drifted acc s)), t) \<and>
     ledger_entries t = ledger_entries s \<and> ledger_transactions t = ledger_transactions s \<and>
     (\<forall>j. j \<noteq> i \<longrightarrow> find_account j t = find_account j s) \<and>
     length (reconciliation_discrepancies t) = length (reconciliation_discrepancies s) + of_bool (drifted acc s)"
proof -
  obtain r where r: "reconcileAccount now i s = Inr (r, if drifted acc s then s
      else s\<lparr>ledger_accounts := update_rows (\<lambda>a. la_id a = i) (refreshed now acc s) (ledger_accounts s)\<rparr>)"
      "arc_matched r \<longleftrightarrow> \<not> drifted acc s"
    using reconcileAccount_ok [OF assms, of now] by blast
  have f: "find_account j (s\<lparr>ledger_accounts := update_rows (\<lambda>a. la_id a = i) (refreshed now acc s) (ledger_accounts s)\<rparr>) =
      find_account j s" if "j \<noteq> i" for j
    using that find_account_id [of j s] unfolding find_account_def
    by (cases "find (\<lambda>a. la_id a = j) (ledger_accounts s)") (auto simp: find_update_rows refreshed_def find_account_def)
  show ?thesis
  proof (cases "drifted acc s")
    case True
    with r show ?thesis
      by (simp add: reconcile_one_def pbind_def atomically_def record_imbalance_def fresh_id_def bind_op_def find_account_def)
  next
    case False
    with r f show ?thesis by (simp add: reconcile_one_def pbind_def atomically_def)
  qed
qed

definition drift_count :: "db \<Rightarrow> string list \<Rightarrow> int" where
  "drift_count s ids = sum_list (map (\<lambda>i. case find_account i s of None \<Rightarrow> 0 | Some acc \<Rightarrow> of_bool (drifted acc s)) ids)"

lemma drift_count_cong:
  assumes "\<forall>i \<in> set ids. find_account i t = find_account i s" "ledger_entries t = ledger_entries s"
  shows "drift_count t ids = drift_count s ids"
  unfolding drift_count_def using assms
  by (intro arg_cong [where f = sum_list] map_cong) (auto simp: drifted_def split: option.splits)

lemma reconcile_fold:
  assumes "distinct ids" "\<forall>i \<in> set ids. find_account i s \<noteq> None"
  shows "\<exists>t. pfold (reconcile_one gen now run) ids c s = (Inr (c + drift_count s ids), t) \<and>
     ledger_entries t = ledger_entries s \<and> ledger_transactions t = ledger_transactions s \<and>
     int (length (reconciliation_discrepancies t)) = int (length (reconciliation_discrepancies s)) + drift_count s ids"
  using assms
proof (induction ids arbitrary: c s)
  case Nil then show ?case by (simp add: drift_count_def)
next
  case (Cons i ids)
  then obtain acc where acc: "find_account i s = Some acc" by auto
  from reconcile_one_ok [OF this, of gen now run c] obtain t where
    t: "reconcile_one gen now run i c s = (Inr (c + of_bool (drifted acc s)), t)"
      "ledger_entries t = ledger_entries s" "ledger_transactions t = ledger_transactions s"
      "\<forall>j. j \<noteq> i \<longrightarrow> find_account j t = find_account j s"
      "length (reconciliation_discrepancies t) = length (reconciliation_discrepancies s) + of_bool (drifted acc s)" by blast
  have same: "\<forall>j \<in> set ids. find_account j t = find_account j s" using Cons.prems(1) t(4) by auto
  then have "\<forall>j \<in> set ids. find_account j t \<noteq> None" using Cons.prems(2) by auto
  with Cons.IH [of t "c + of_bool (drifted acc s)"] Cons.prems(1) obtain u where
    u: "pfold (reconcile_one gen now run) ids (c + of_bool (drifted acc s)) t = (Inr (c + of_bool (drifted acc s) + drift_count t ids), u)"
      "ledger_entries u = ledger_entries t" "ledger_transactions u = ledger_transactions t"
      "int (length (reconciliation_discrepancies u)) = int (length (reconciliation_discrepancies t)) + drift_count t ids" by auto
  have "drift_count s (i # ids) = of_bool (drifted acc s) + drift_count t ids"
    using drift_count_cong [OF same t(2)] acc by (simp add: drift_count_def)
  with t u show ?case by (auto simp: pbind_def)
qed

definition run_scope :: "string option \<Rightarrow> db \<Rightarrow> string list" where
  "run_scope merchantId s = map la_id (filter (\<lambda>a. la_isActive a \<and>
     (\<not> truthy merchantId \<or> la_merchantId a = merchantId)) (ledger_accounts s))"

text \<open>A reconciliation run always completes, checks every active account in scope, reports as
  many discrepancies as there are accounts whose cache has drifted and records one row for each; its
  status is CLEAN exactly when there is none; and no ledger entry or transaction changes.\<close>

lemma reconciliation_run_complete:
  assumes "distinct (map la_id (ledger_accounts s))"
  shows "\<exists>summary t. runLedgerReconciliation gen now merchantId s = (Inr summary, t) \<and>
    rs_checkedCount summary = int (length (run_scope merchantId s)) \<and>
    rs_discrepancyCount summary = drift_count s (run_scope merchantId s) \<and>
    (rs_status summary = CLEAN \<longleftrightarrow> drift_count s (run_scope merchantId s) = 0) \<and>
    int (length (reconciliation_discrepancies t)) =
      int (length (reconciliation_discrepancies s)) + drift_count s (run_scope merchantId s) \<and>
    ledger_entries t = ledger_entries s \<and> ledger_transactions t = ledger_transactions s"
proof -
  define run where "run = newId (gen (db_ulids s)) ReconciliationId"
  define s1 where "s1 = s\<lparr>db_ulids := Suc (db_ulids s), reconciliation_runs := reconciliation_runs s @
       [\<lparr>rr_id = run, rr_scope = ''ledger_balance'', rr_status = RUNNING, rr_periodStart = now, rr_periodEnd = now,
         rr_checkedCount = 0, rr_discrepancyCount = 0, rr_completedAt = None\<rparr>]\<rparr>"
  have scope: "distinct (run_scope merchantId s)" using assms by (simp add: run_scope_def distinct_map_filter)
  have same: "find_account i s1 = find_account i s" "ledger_entries s1 = ledger_entries s"
    "reconciliation_discrepancies s1 = reconciliation_discrepancies s" "ledger_transactions s1 = ledger_transactions s"
    "ledger_accounts s1 = ledger_accounts s" for i
    by (simp_all add: s1_def find_account_def)
  have "\<forall>i \<in> set (run_scope merchantId s). find_account i s1 \<noteq> None"
    unfolding same by (auto simp: run_scope_def find_account_def find_None_iff)
  from reconcile_fold [OF scope this, of gen now run 0] obtain t where
    t: "pfold (reconcile_one gen now run) (run_scope merchantId s) 0 s1 = (Inr (drift_count s1 (run_scope merchantId s)), t)"
      "ledger_entries t = ledger_entries s" "ledger_transactions t = ledger_transactions s"
      "int (length (reconciliation_discrepancies t)) = int (length (reconciliation_discrepancies s)) + drift_count s1 (run_scope merchantId s)"
    unfolding same by auto
  have d: "drift_count s1 (run_scope merchantId s) = drift_count s (run_scope merchantId s)"
    by (rule drift_count_cong) (simp_all add: same)
  have st: "pbind (atomically (fresh_id gen ReconciliationId)) k s = k run (s\<lparr>db_ulids := Suc (db_ulids s)\<rparr>)"
    for k :: "string \<Rightarrow> reconciliation_summary service"
    by (simp add: pbind_def atomically_def fresh_id_def run_def)
  have ft: "pbind (pfold (reconcile_one gen now run) (run_scope merchantId s) 0) k s1 = k (drift_count s (run_scope merchantId s)) t"
    for k :: "int \<Rightarrow> reconciliation_summary service" using t(1) d by (simp add: pbind_def)
  have sc: "run_scope merchantId s1 = run_scope merchantId s" by (simp add: run_scope_def same(5))
  show ?thesis
    unfolding runLedgerReconciliation_def Let_def st run_scope_def [symmetric] pbind_simps
    unfolding s1_def [symmetric] using t d
    by (simp add: s1_def [symmetric] sc ft)
qed

text \<open>The cache invariant: no account has drifted, and no cache is ahead of the sequence.\<close>

definition caches_ok :: "db \<Rightarrow> bool" where
  "caches_ok s \<longleftrightarrow> (\<forall>acc \<in> set (ledger_accounts s). \<not> drifted acc s \<and>
     (case la_cachedThroughSeq acc of None \<Rightarrow> True | Some n \<Rightarrow> n < db_sequence s))"

lemma drifted_append:
  assumes "case la_cachedThroughSeq acc of None \<Rightarrow> True | Some n \<Rightarrow> n < q"
    "\<forall>e \<in> set es. q \<le> le_sequence e" "ledger_entries t = ledger_entries s @ es"
  shows "drifted acc t \<longleftrightarrow> drifted acc s"
proof (cases "la_cachedThroughSeq acc")
  case (Some n)
  then have "filter (\<lambda>e. le_sequence e \<le> n) es = []" using assms by (fastforce simp: filter_empty_conv)
  then show ?thesis using assms(3) Some by (simp add: drifted_def balance_through_def)
qed (simp add: drifted_def balance_through_def)

lemma posting_keeps_caches:
  assumes "postPaymentCredit gen p s = Inr (r, t)" "caches_ok s"
  shows "caches_ok t"
proof (cases "posted s (pp_idempotencyKey p)")
  case True with assms show ?thesis by (auto simp: postPaymentCredit_Inr)
next
  case False
  from postPaymentCredit_new [OF assms(1) False] obtain as es where
    t: "ledger_accounts t = ledger_accounts s @ as" "ledger_entries t = ledger_entries s @ es"
      "db_sequence t = db_sequence s + int (length es)" "list_all fresh_cache as"
      "map le_sequence es = map (\<lambda>i. db_sequence s + int i) [0..<length es]" by auto
  have es: "\<forall>e \<in> set es. db_sequence s \<le> le_sequence e"
  proof
    fix e assume "e \<in> set es"
    then have "le_sequence e \<in> set (map (\<lambda>i. db_sequence s + int i) [0..<length es])" unfolding t(5) [symmetric] by simp
    then show "db_sequence s \<le> le_sequence e" by auto
  qed
  show ?thesis unfolding caches_ok_def t(1)
  proof
    fix acc assume "acc \<in> set (ledger_accounts s @ as)"
    then consider "acc \<in> set (ledger_accounts s)" | "fresh_cache acc" using t(4) by (auto simp: list_all_iff)
    then show "\<not> drifted acc t \<and> (case la_cachedThroughSeq acc of None \<Rightarrow> True | Some n \<Rightarrow> n < db_sequence t)"
    proof cases
      case 1
      with assms(2) have a: "\<not> drifted acc s" "case la_cachedThroughSeq acc of None \<Rightarrow> True | Some n \<Rightarrow> n < db_sequence s"
        by (auto simp: caches_ok_def)
      then show ?thesis using drifted_append [OF a(2) es t(2)] t(3) by (auto split: option.splits)
    next
      case 2 then show ?thesis by (simp add: fresh_cache_def drifted_def balance_through_def)
    qed
  qed
qed

lemma find_account_set: "find_account i s = Some acc \<Longrightarrow> acc \<in> set (ledger_accounts s)"
  using find_Some_set by (fastforce simp: find_account_def)

text \<open>Routine activity never raises an alarm. If every cached balance is right, it stays right
  through any sequence of postings, which also create accounts, so a reconciliation afterwards finds
  every account matched and reports CLEAN: a discrepancy always means that something other than a
  posting changed a cache or an entry.\<close>

lemma postings_never_drift:
  assumes "caches_ok s" "post_all (postPaymentCredit gen) ps s = Inr ((), t)"
  shows "caches_ok t \<and> drift_count t (run_scope merchantId t) = 0 \<and>
    (\<forall>acc \<in> set (ledger_accounts t). la_cachedThroughSeq acc = None \<longrightarrow> la_cachedBalance acc = 0)"
proof -
  have ok: "caches_ok t" using assms
  proof (induction ps arbitrary: s)
    case Nil then show ?case by (simp add: post_all_def)
  next
    case (Cons p ps)
    from Cons.prems(2) obtain r s' where "postPaymentCredit gen p s = Inr (r, s')"
      "post_all (postPaymentCredit gen) ps s' = Inr ((), t)" by (auto simp: post_all_def result_simps)
    with Cons posting_keeps_caches [OF _ Cons.prems(1)] show ?case by blast
  qed
  then have "drift_count t ids = 0" for ids
    by (induction ids) (auto simp: drift_count_def caches_ok_def dest!: find_account_set split: option.splits)
  with ok show ?thesis by (force simp: caches_ok_def drifted_def balance_through_def split: option.splits)
qed

end
