(* ===== verification/Monitor.thy ===== *)
theory Monitor
  imports Ledger
begin

text \<open>
  The payment pipeline of the blockchain monitor
  (\<open>apps/blockchain-monitor/src/monitor.service.ts\<close>): recording the transfers of a transaction
  and matching them to invoices, counting confirmations, settling an invoice and crediting the
  ledger, and handling reorganisations. Each database transaction is an \<open>op\<close>; the loops that run
  one transaction per row are \<open>proc\<close>s, so what was committed before a failing transaction stays.
  The blockchain adapter talks to a node and is a parameter; metrics are not modelled. The check
  constraints on the token transfers, with the transfer index constraint as the migration
  \<open>20260908000200_native_transfer_index\<close> relaxes it, are part of the writes.
\<close>

section \<open>The adapter\<close>

record chain_transaction =
  cx_hash :: string
  cx_blockNumber :: "int option"
  cx_blockHash :: "string option"
  cx_transactionIndex :: "int option"
  cx_status :: tx_status
  cx_fromAddress :: "string option"
  cx_toAddress :: "string option"
  cx_value :: int
  cx_feeAmount :: "int option"
  cx_confirmations :: int

record parsed_transfer =
  px_transferIndex :: int
  px_tokenContract :: "string option"
  px_fromAddress :: "string option"
  px_toAddress :: string
  px_amount :: int

record confirmation_info =
  ci_confirmations :: int
  ci_blockNumber :: "int option"
  ci_chainTip :: int

record adapter =
  ad_getTransaction :: "string \<Rightarrow> failure + chain_transaction option"
  ad_getTransfers :: "string \<Rightarrow> failure + parsed_transfer list"
  ad_getConfirmations :: "string \<Rightarrow> failure + confirmation_info"

definition resolveTransferAsset :: "network \<Rightarrow> string option \<Rightarrow> asset_config option" where
  "resolveTransferAsset network tokenContract =
     (case tokenContract of None \<Rightarrow> findNativeAsset network | Some c \<Rightarrow> findAssetByContract network c)"

section \<open>Events and webhooks\<close>

definition recordEvent ::
  "(nat \<Rightarrow> string) \<Rightarrow> string \<Rightarrow> string \<Rightarrow> invoice_status \<Rightarrow> invoice_status \<Rightarrow> string \<Rightarrow> (string \<times> json) list \<Rightarrow> unit tx"
where
  "recordEvent gen invoiceId type fromStatus toStatus actor payload =
     bind_op (reads (\<lambda>s. int (length (filter (\<lambda>e. ev_invoiceId e = invoiceId) (payment_events s))) + 1)) (\<lambda>nextSequence.
     bind_op (fresh_id gen PaymentEventId) (\<lambda>i.
     modify (\<lambda>s. s\<lparr>payment_events := payment_events s @
       [\<lparr>ev_id = i, ev_invoiceId = invoiceId, ev_type = type, ev_fromStatus = Some fromStatus,
         ev_toStatus = Some toStatus, ev_sequence = nextSequence, ev_actor = actor, ev_payload = payload\<rparr>]\<rparr>)))"

definition webhook_payload :: "webhook_event_type \<Rightarrow> invoice \<Rightarrow> json" where
  "webhook_payload eventType invoice =
     JObj [(''event'', JStr (webhook_event_name eventType)),
           (''data'', JObj [(''invoice_id'', JStr (inv_id invoice)), (''order_id'', JStr (inv_orderId invoice))])]"

definition webhook_key :: "webhook_event_type \<Rightarrow> string \<Rightarrow> string" where
  "webhook_key eventType invoiceId = webhook_event_name eventType @ '':'' @ invoiceId"

text \<open>\<open>upsert\<close> with an empty update: the row is created unless its key exists. The arguments of
  \<open>create\<close> are evaluated in either case, so a ULID is drawn.\<close>

definition upsert_webhook :: "(nat \<Rightarrow> string) \<Rightarrow> webhook_event_type \<Rightarrow> invoice \<Rightarrow> unit tx" where
  "upsert_webhook gen eventType invoice =
     bind_op (fresh_id gen WebhookEventId) (\<lambda>i.
     modify (\<lambda>s. if list_ex (\<lambda>w. we_idempotencyKey w = webhook_key eventType (inv_id invoice)) (webhook_events s) then s
       else s\<lparr>webhook_events := webhook_events s @
         [\<lparr>we_id = i, we_merchantId = inv_merchantId invoice, we_invoiceId = Some (inv_id invoice),
           we_type = webhook_event_name eventType, we_idempotencyKey = webhook_key eventType (inv_id invoice),
           we_payload = webhook_payload eventType invoice\<rparr>]\<rparr>))"

definition emitWebhook :: "(nat \<Rightarrow> string) \<Rightarrow> string \<Rightarrow> invoice_status \<Rightarrow> unit tx" where
  "emitWebhook gen invoiceId status =
     (case webhookEventForStatus status of None \<Rightarrow> ret ()
      | Some eventType \<Rightarrow> bind_op (invoice_or_throw invoiceId) (\<lambda>invoice. upsert_webhook gen eventType invoice))"

section \<open>Detection and matching\<close>

definition recordChainTransaction :: "(nat \<Rightarrow> string) \<Rightarrow> int \<Rightarrow> network \<Rightarrow> chain_transaction \<Rightarrow> string tx" where
  "recordChainTransaction gen now network chainTx =
     (let status = (if cx_status chainTx = TxReverted then REVERTED
                    else if cx_blockNumber chainTx = None then MEMPOOL else MINED) in
      bind_op (reads (\<lambda>s. find (\<lambda>t. ct_network t = network \<and> ct_txHash t = cx_hash chainTx) (chain_txs s))) (\<lambda>existing.
      case existing of
        Some e \<Rightarrow>
          seq_op (update_chain_tx (ct_id e) (\<lambda>t. t\<lparr>ct_status := status, ct_blockNumber := cx_blockNumber chainTx,
            ct_blockHash := cx_blockHash chainTx, ct_confirmations := cx_confirmations chainTx,
            ct_minedAt := (if cx_blockNumber chainTx \<noteq> None
                           then (case ct_minedAt e of None \<Rightarrow> Some now | Some m \<Rightarrow> Some m) else None)\<rparr>))
          (ret (ct_id e))
      | None \<Rightarrow>
          bind_op (fresh_id gen BlockchainTransactionId) (\<lambda>i.
          seq_op (modify (\<lambda>s. s\<lparr>chain_txs := chain_txs s @
            [\<lparr>ct_id = i, ct_network = network, ct_txHash = cx_hash chainTx, ct_status = status,
              ct_blockNumber = cx_blockNumber chainTx, ct_blockHash = cx_blockHash chainTx,
              ct_fromAddress = cx_fromAddress chainTx, ct_toAddress = cx_toAddress chainTx,
              ct_feeAmount = cx_feeAmount chainTx, ct_confirmations = cx_confirmations chainTx,
              ct_minedAt = (if cx_blockNumber chainTx \<noteq> None then Some now else None), ct_orphanedAt = None\<rparr>]\<rparr>))
          (ret i))))"

text \<open>PENDING to DETECTED the first time a matching transfer appears.\<close>

definition advanceOnFirstSighting :: "(nat \<Rightarrow> string) \<Rightarrow> int \<Rightarrow> string \<Rightarrow> invoice_status \<Rightarrow> unit tx" where
  "advanceOnFirstSighting gen now invoiceId currentStatus =
     (if \<not> canTransition currentStatus DETECTED then ret ()
      else
        bind_op (transition_result (assertTransition currentStatus DETECTED MONITOR)) (\<lambda>_.
        seq_op (update_invoice invoiceId (\<lambda>i. i\<lparr>inv_status := DETECTED, inv_detectedAt := Some now, inv_version := inv_version i + 1\<rparr>))
        (seq_op (recordEvent gen invoiceId ''transfer.detected'' currentStatus DETECTED ''monitor'' [])
        (emitWebhook gen invoiceId DETECTED))))"

definition moveToLatePaymentReview :: "(nat \<Rightarrow> string) \<Rightarrow> string \<Rightarrow> invoice_status \<Rightarrow> unit tx" where
  "moveToLatePaymentReview gen invoiceId currentStatus =
     (if \<not> canTransition currentStatus LATE_PAYMENT_REVIEW then ret ()
      else
        bind_op (transition_result (assertTransition currentStatus LATE_PAYMENT_REVIEW MONITOR)) (\<lambda>_.
        seq_op (update_invoice invoiceId (\<lambda>i. i\<lparr>inv_status := LATE_PAYMENT_REVIEW, inv_version := inv_version i + 1\<rparr>))
        (recordEvent gen invoiceId ''payment.late_arrival'' currentStatus LATE_PAYMENT_REVIEW ''monitor'' [])))"

text \<open>The columns a transfer row takes from the chain and from the decision.\<close>

definition transfer_data ::
  "network \<Rightarrow> chain_transaction \<Rightarrow> parsed_transfer \<Rightarrow> asset_config option \<Rightarrow> payment_address option \<Rightarrow> invoice option \<Rightarrow>
   match_decision \<Rightarrow> token_transfer \<Rightarrow> token_transfer"
where
  "transfer_data network chainTx transfer asset address invoice d row = row\<lparr>
     tt_network := network, tt_txHash := cx_hash chainTx, tt_transferIndex := px_transferIndex transfer,
     tt_tokenContract := px_tokenContract transfer,
     tt_assetSymbol := (case asset of None \<Rightarrow> ''UNKNOWN'' | Some a \<Rightarrow> ac_symbol a),
     tt_assetDecimals := (case asset of None \<Rightarrow> 0 | Some a \<Rightarrow> ac_decimals a),
     tt_amount := px_amount transfer, tt_fromAddress := px_fromAddress transfer,
     tt_toAddress := px_toAddress transfer, tt_toAddressNormalized := px_toAddress transfer,
     tt_paymentAddressId := map_option pa_id address, tt_invoiceId := map_option inv_id invoice,
     tt_matchStatus := md_status d, tt_matchReason := md_reason d,
     tt_confirmations := cx_confirmations chainTx\<rparr>"

definition blank_transfer :: "int \<Rightarrow> string \<Rightarrow> string \<Rightarrow> token_transfer" where
  "blank_transfer now i transactionId =
     \<lparr>tt_id = i, tt_transactionId = transactionId, tt_network = BITCOIN, tt_txHash = [], tt_transferIndex = 0,
      tt_tokenContract = None, tt_assetSymbol = [], tt_assetDecimals = 0, tt_amount = 0, tt_fromAddress = None,
      tt_toAddress = [], tt_toAddressNormalized = [], tt_paymentAddressId = None, tt_invoiceId = None,
      tt_matchStatus = UNMATCHED, tt_matchReason = [], tt_confirmations = 0, tt_creditedAt = None,
      tt_detectedAt = now\<rparr>"

definition check_transfer :: "parsed_transfer \<Rightarrow> chain_transaction \<Rightarrow> unit tx" where
  "check_transfer transfer chainTx =
     (if px_amount transfer \<le> 0 then throw (CheckViolation ''token_transfers_amount_positive'')
      else if px_transferIndex transfer < -1 then throw (CheckViolation ''token_transfers_index_valid'')
      else if cx_confirmations chainTx < 0 then throw (CheckViolation ''token_transfers_confirmations_non_negative'')
      else ret ())"

definition match_facts ::
  "int \<Rightarrow> int \<Rightarrow> network \<Rightarrow> chain_transaction \<Rightarrow> parsed_transfer \<Rightarrow> asset_config option \<Rightarrow> invoice option \<Rightarrow> payment_error + match_input"
where
  "match_facts grace now network chainTx transfer asset invoice =
     bind_result (case invoice of None \<Rightarrow> Inr False
       | Some i \<Rightarrow> bind_result (isWithinGrace (inv_expiresAt i) now grace) (\<lambda>w. Inr (\<not> w))) (\<lambda>invoiceExpired.
     Inr \<lparr>mi_assetRecognized = (asset \<noteq> None),
          mi_meetsMinimum = (case asset of None \<Rightarrow> False | Some a \<Rightarrow> px_amount transfer \<ge> ac_minDepositUnits a),
          mi_txStatus = cx_status chainTx, mi_invoiceStatus = map_option inv_status invoice,
          mi_invoiceExpired = invoiceExpired, mi_alreadyCredited = False, mi_complianceHold = False\<rparr>)"

definition find_transfer :: "network \<Rightarrow> string \<Rightarrow> int \<Rightarrow> db \<Rightarrow> token_transfer option" where
  "find_transfer network txHash transferIndex s =
     find (\<lambda>t. tt_network t = network \<and> tt_txHash t = txHash \<and> tt_transferIndex t = transferIndex) (token_transfers s)"

definition address_invoice :: "payment_address option \<Rightarrow> db \<Rightarrow> invoice option" where
  "address_invoice address s =
     (case address of None \<Rightarrow> None
      | Some a \<Rightarrow> if truthy (pa_invoiceId a) then find_invoice (the (pa_invoiceId a)) s else None)"

text \<open>Create or update the row, then move the invoice the decision is about.\<close>

definition write_transfer ::
  "(nat \<Rightarrow> string) \<Rightarrow> int \<Rightarrow> network \<Rightarrow> string \<Rightarrow> chain_transaction \<Rightarrow> parsed_transfer \<Rightarrow> token_transfer option \<Rightarrow>
   asset_config option \<Rightarrow> payment_address option \<Rightarrow> invoice option \<Rightarrow> match_decision \<Rightarrow> unit tx"
where
  "write_transfer gen now network txId chainTx transfer existing asset address invoice d =
     seq_op (check_transfer transfer chainTx)
     (case existing of
        Some e \<Rightarrow> update_transfer (tt_id e) (transfer_data network chainTx transfer asset address invoice d)
      | None \<Rightarrow>
          bind_op (fresh_id gen TokenTransferId) (\<lambda>i.
          modify (\<lambda>s. s\<lparr>token_transfers := token_transfers s @
            [transfer_data network chainTx transfer asset address invoice d (blank_transfer now i txId)]\<rparr>)))"

definition recordTransfer ::
  "(nat \<Rightarrow> string) \<Rightarrow> int \<Rightarrow> int \<Rightarrow> network \<Rightarrow> string \<Rightarrow> chain_transaction \<Rightarrow> parsed_transfer \<Rightarrow> unit tx"
where
  "recordTransfer gen grace now network blockchainTransactionId chainTx transfer =
     bind_op (reads (find_transfer network (cx_hash chainTx) (px_transferIndex transfer))) (\<lambda>existing.
     if (case existing of None \<Rightarrow> False | Some e \<Rightarrow> tt_creditedAt e \<noteq> None) then ret ()
     else
       let asset = resolveTransferAsset network (px_tokenContract transfer) in
       bind_op (reads (\<lambda>s. find (\<lambda>a. pa_network a = network \<and> pa_addressNormalized a = px_toAddress transfer)
         (payment_addresses s))) (\<lambda>address.
       bind_op (reads (address_invoice address)) (\<lambda>invoice.
       bind_op (payment_result (match_facts grace now network chainTx transfer asset invoice)) (\<lambda>facts.
       let d = evaluateTransferMatch facts in
       seq_op (write_transfer gen now network blockchainTransactionId chainTx transfer existing asset address invoice d)
       (case invoice of None \<Rightarrow> ret ()
        | Some i \<Rightarrow>
            seq_op (if md_status d = PENDING_CONFIRMATION then advanceOnFirstSighting gen now (inv_id i) (inv_status i) else ret ())
            (if md_status d = LATE_PAYMENT_REVIEW_MATCH then moveToLatePaymentReview gen (inv_id i) (inv_status i) else ret ()))))))"

definition processTransaction :: "(nat \<Rightarrow> string) \<Rightarrow> int \<Rightarrow> int \<Rightarrow> adapter \<Rightarrow> network \<Rightarrow> string \<Rightarrow> unit service" where
  "processTransaction gen grace now adapter network txHash =
     pbind (pfrom_result (ad_getTransaction adapter txHash)) (\<lambda>found.
     case found of None \<Rightarrow> pret ()
     | Some chainTx \<Rightarrow>
         pbind (pfrom_result (ad_getTransfers adapter txHash)) (\<lambda>transfers.
         if transfers = [] then pret ()
         else atomically (
           bind_op (recordChainTransaction gen now network chainTx) (\<lambda>i.
           for_each (recordTransfer gen grace now network i chainTx) transfers))))"

section \<open>Confirmation engine\<close>

definition advanceConfirming :: "(nat \<Rightarrow> string) \<Rightarrow> invoice \<Rightarrow> int \<Rightarrow> unit tx" where
  "advanceConfirming gen invoice confirmations =
     (if confirmations < 1 then ret ()
      else
        let status = inv_status invoice in
        if \<not> canTransition status CONFIRMING then ret ()
        else
          bind_op (transition_result (assertTransition status CONFIRMING MONITOR)) (\<lambda>_.
          seq_op (update_invoice (inv_id invoice) (\<lambda>i. i\<lparr>inv_status := CONFIRMING, inv_version := inv_version i + 1\<rparr>))
          (seq_op (recordEvent gen (inv_id invoice) ''confirmation.started'' status CONFIRMING ''monitor'' [])
          (emitWebhook gen (inv_id invoice) CONFIRMING))))"

definition credit_key :: "token_transfer \<Rightarrow> string" where
  "credit_key t = ''credit:'' @ network_name (tt_network t) @ '':'' @ tt_txHash t @ '':'' @ show_int (tt_transferIndex t)"

definition credit_params :: "invoice \<Rightarrow> merchant \<Rightarrow> token_transfer \<Rightarrow> posting_params" where
  "credit_params invoice merchant t =
     \<lparr>pp_merchantId = inv_merchantId invoice, pp_invoiceId = inv_id invoice, pp_tokenTransferId = tt_id t,
      pp_network = inv_network invoice, pp_assetSymbol = inv_paymentAsset invoice,
      pp_assetDecimals = inv_paymentDecimals invoice,
      pp_grossAmount = fromUnits (tt_amount t) (inv_paymentAsset invoice) (inv_paymentDecimals invoice),
      pp_feeBps = mer_feeBps merchant, pp_idempotencyKey = credit_key t\<rparr>"

definition credit_transfer :: "(nat \<Rightarrow> string) \<Rightarrow> int \<Rightarrow> invoice \<Rightarrow> merchant \<Rightarrow> token_transfer \<Rightarrow> unit tx" where
  "credit_transfer gen now invoice merchant t =
     bind_op (postPaymentCredit gen (credit_params invoice merchant t)) (\<lambda>result.
     if \<not> pr_alreadyPosted result
     then update_transfer (tt_id t) (\<lambda>r. r\<lparr>tt_matchStatus := CREDITED, tt_creditedAt := Some now\<rparr>)
     else ret ())"

definition countable_transfers :: "string \<Rightarrow> db \<Rightarrow> token_transfer list" where
  "countable_transfers invoiceId s = filter (\<lambda>t. tt_invoiceId t = Some invoiceId \<and>
     (tt_matchStatus t = CREDITED \<or> tt_matchStatus t = PENDING_CONFIRMATION)) (token_transfers s)"

definition confirmed_of :: "invoice \<Rightarrow> token_transfer list \<Rightarrow> token_transfer list" where
  "confirmed_of invoice ts = filter (\<lambda>t. tt_confirmations t \<ge> inv_requiredConfirmations invoice) ts"

definition confirmed_total :: "invoice \<Rightarrow> token_transfer list \<Rightarrow> int" where
  "confirmed_total invoice ts = sum_list (map tt_amount (confirmed_of invoice ts))"

definition auto_accept :: "merchant \<Rightarrow> invoice_status \<Rightarrow> bool" where
  "auto_accept merchant target \<longleftrightarrow> target = PAID \<or>
     (target = OVERPAID \<and> mer_overpaymentPolicy merchant = ACCEPT_FULL) \<or>
     (target = UNDERPAID \<and> mer_underpaymentPolicy merchant = ACCEPT_PARTIAL)"

text \<open>What happens once the status has moved to the evaluated target and the amount is accepted:
  the invoice lands on PAID and every confirmed transfer is credited.\<close>

definition settle :: "(nat \<Rightarrow> string) \<Rightarrow> int \<Rightarrow> invoice \<Rightarrow> merchant \<Rightarrow> invoice_status \<Rightarrow> token_transfer list \<Rightarrow> unit tx" where
  "settle gen now invoice merchant target confirmedTransfers =
     seq_op
       (if target \<noteq> PAID then
          bind_op (transition_result (assertTransition target PAID MONITOR)) (\<lambda>_.
          seq_op (update_invoice (inv_id invoice) (\<lambda>i. i\<lparr>inv_status := PAID, inv_paidAt := Some now\<rparr>))
          (seq_op (recordEvent gen (inv_id invoice) ''payment.paid'' target PAID ''monitor''
             [(''acceptedVia'', JStr (if target = OVERPAID then ''overpayment_policy:ACCEPT_FULL''
                                      else ''underpayment_policy:ACCEPT_PARTIAL''))])
          (emitWebhook gen (inv_id invoice) PAID)))
        else update_invoice (inv_id invoice) (\<lambda>i. i\<lparr>inv_paidAt := Some now\<rparr>))
       (for_each (credit_transfer gen now invoice merchant) (confirmed_of invoice confirmedTransfers))"

definition apply_outcome ::
  "(nat \<Rightarrow> string) \<Rightarrow> int \<Rightarrow> invoice \<Rightarrow> merchant \<Rightarrow> invoice_status \<Rightarrow> token_transfer list \<Rightarrow> unit tx"
where
  "apply_outcome gen now invoice merchant target confirmedTransfers =
     (let fromStatus = inv_status invoice; total = confirmed_total invoice confirmedTransfers in
      if \<not> canTransition fromStatus target then ret ()
      else
        bind_op (transition_result (assertTransition fromStatus target MONITOR)) (\<lambda>_.
        seq_op (update_invoice (inv_id invoice) (\<lambda>i. i\<lparr>inv_status := target, inv_receivedAmount := total,
          inv_confirmedAmount := total, inv_confirmationCount := Max (set (map tt_confirmations confirmedTransfers))\<rparr>))
        (seq_op (recordEvent gen (inv_id invoice) (''payment.'' @ toLowerCase (status_name target)) fromStatus target ''monitor'' [])
        (seq_op (emitWebhook gen (inv_id invoice) target)
        (if \<not> auto_accept merchant target then ret ()
         else settle gen now invoice merchant target confirmedTransfers)))))"

definition finalizeInvoice :: "(nat \<Rightarrow> string) \<Rightarrow> int \<Rightarrow> string \<Rightarrow> unit tx" where
  "finalizeInvoice gen now invoiceId =
     bind_op (invoice_or_throw invoiceId) (\<lambda>invoice.
     if \<not> canTransition (inv_status invoice) PAID \<and> \<not> canTransition (inv_status invoice) UNDERPAID \<and>
        \<not> canTransition (inv_status invoice) OVERPAID then ret ()
     else
       bind_op (reads (countable_transfers invoiceId)) (\<lambda>confirmedTransfers.
       if confirmed_total invoice confirmedTransfers = 0 then ret ()
       else
         bind_op (merchant_or_throw (inv_merchantId invoice)) (\<lambda>merchant.
         bind_op (payment_result (evaluatePayment
           (fromUnits (inv_cryptoAmount invoice) (inv_paymentAsset invoice) (inv_paymentDecimals invoice))
           (fromUnits (confirmed_total invoice confirmedTransfers) (inv_paymentAsset invoice) (inv_paymentDecimals invoice))
           (Some (inv_underpaymentToleranceBps invoice)) (Some (inv_overpaymentToleranceBps invoice)))) (\<lambda>evaluation.
         case statusForOutcome (pe_outcome evaluation) of None \<Rightarrow> ret ()
         | Some target \<Rightarrow> apply_outcome gen now invoice merchant target confirmedTransfers))))"

definition confirm_transfer :: "(nat \<Rightarrow> string) \<Rightarrow> int \<Rightarrow> token_transfer \<Rightarrow> int \<Rightarrow> unit tx" where
  "confirm_transfer gen now transfer confirmations =
     seq_op (if confirmations < 0 then throw (CheckViolation ''token_transfers_confirmations_non_negative'') else ret ())
     (seq_op (update_transfer (tt_id transfer) (\<lambda>t. t\<lparr>tt_confirmations := confirmations\<rparr>))
     (if \<not> truthy (tt_invoiceId transfer) then ret ()
      else
        bind_op (invoice_or_throw (the (tt_invoiceId transfer))) (\<lambda>invoice.
        seq_op (advanceConfirming gen invoice confirmations)
        (bind_op (payment_result (bind_result (effectiveConfirmations (inv_requiredConfirmations invoice) None)
           (isConfirmed confirmations))) (\<lambda>ready.
        if ready then finalizeInvoice gen now (inv_id invoice) else ret ())))))"

definition updateConfirmations :: "(nat \<Rightarrow> string) \<Rightarrow> int \<Rightarrow> adapter \<Rightarrow> network \<Rightarrow> unit service" where
  "updateConfirmations gen now adapter network =
     pbind (preads (\<lambda>s. filter (\<lambda>t. tt_network t = network \<and> tt_matchStatus t = PENDING_CONFIRMATION \<and> tt_creditedAt t = None)
       (token_transfers s))) (\<lambda>pending.
     pfor_each (\<lambda>transfer.
       pbind (pfrom_result (ad_getConfirmations adapter (tt_txHash transfer))) (\<lambda>info.
       atomically (confirm_transfer gen now transfer (ci_confirmations info)))) pending)"

section \<open>Reorganisations\<close>

definition revertInvoiceAfterOrphan :: "(nat \<Rightarrow> string) \<Rightarrow> string \<Rightarrow> unit tx" where
  "revertInvoiceAfterOrphan gen invoiceId =
     bind_op (invoice_or_throw invoiceId) (\<lambda>invoice.
     bind_op (reads (\<lambda>s. length (filter (\<lambda>t. tt_invoiceId t = Some invoiceId \<and> tt_matchStatus t = PENDING_CONFIRMATION)
       (token_transfers s)))) (\<lambda>remaining.
     let status = inv_status invoice; target = (if remaining > 0 then DETECTED else PENDING) in
     if \<not> canTransition status target then ret ()
     else
       bind_op (transition_result (assertTransition status target MONITOR)) (\<lambda>_.
       seq_op (update_invoice invoiceId (\<lambda>i. i\<lparr>inv_status := target, inv_version := inv_version i + 1\<rparr>))
       (recordEvent gen invoiceId ''reorg.reverted'' status target ''monitor'' []))))"

definition record_orphaned_credit :: "(nat \<Rightarrow> string) \<Rightarrow> int \<Rightarrow> string \<Rightarrow> string \<Rightarrow> unit tx" where
  "record_orphaned_credit gen now transferId invoiceId =
     bind_op (fresh_id gen ReconciliationId) (\<lambda>runId.
     seq_op (modify (\<lambda>s. s\<lparr>reconciliation_runs := reconciliation_runs s @
       [\<lparr>rr_id = runId, rr_scope = ''chain_vs_db'', rr_status = DISCREPANCIES_FOUND, rr_periodStart = now,
         rr_periodEnd = now, rr_checkedCount = 1, rr_discrepancyCount = 1, rr_completedAt = Some now\<rparr>]\<rparr>))
     (bind_op (fresh_id gen ReconciliationId) (\<lambda>i.
     modify (\<lambda>s. s\<lparr>reconciliation_discrepancies := reconciliation_discrepancies s @
       [\<lparr>rd_id = i, rd_runId = runId, rd_kind = ORPHANED_CREDIT, rd_severity = CRITICAL,
         rd_subjectType = ''token_transfer'', rd_subjectId = transferId, rd_expectedValue = None, rd_actualValue = None,
         rd_details = [(''invoiceId'', JStr invoiceId),
           (''reason'', JStr ''crediting transaction was orphaned by a chain reorganisation'')]\<rparr>]\<rparr>))))"

definition flagOrphanedCredit :: "(nat \<Rightarrow> string) \<Rightarrow> int \<Rightarrow> string \<Rightarrow> string option \<Rightarrow> unit tx" where
  "flagOrphanedCredit gen now transferId invoiceId =
     (if \<not> truthy invoiceId then ret ()
      else
        bind_op (invoice_or_throw (the invoiceId)) (\<lambda>invoice.
        let status = inv_status invoice in
        if \<not> canTransition status RECONCILIATION_REQUIRED then ret ()
        else
          bind_op (transition_result (assertTransition status RECONCILIATION_REQUIRED MONITOR)) (\<lambda>_.
          seq_op (update_invoice (the invoiceId) (\<lambda>i. i\<lparr>inv_status := RECONCILIATION_REQUIRED, inv_version := inv_version i + 1\<rparr>))
          (seq_op (recordEvent gen (the invoiceId) ''reorg.orphaned_credit'' status RECONCILIATION_REQUIRED ''monitor'' [])
          (record_orphaned_credit gen now transferId (the invoiceId))))))"

definition orphan_transfer :: "(nat \<Rightarrow> string) \<Rightarrow> int \<Rightarrow> token_transfer \<Rightarrow> unit tx" where
  "orphan_transfer gen now transfer =
     (if tt_creditedAt transfer \<noteq> None then flagOrphanedCredit gen now (tt_id transfer) (tt_invoiceId transfer)
      else
        seq_op (update_transfer (tt_id transfer) (\<lambda>t. t\<lparr>tt_matchStatus := ORPHANED\<rparr>))
        (if truthy (tt_invoiceId transfer) then revertInvoiceAfterOrphan gen (the (tt_invoiceId transfer)) else ret ()))"

definition orphan_transaction :: "(nat \<Rightarrow> string) \<Rightarrow> int \<Rightarrow> chain_tx \<Rightarrow> unit tx" where
  "orphan_transaction gen now chainTx =
     seq_op (update_chain_tx (ct_id chainTx) (\<lambda>t. t\<lparr>ct_status := TX_ORPHANED, ct_orphanedAt := Some now\<rparr>))
     (bind_op (reads (\<lambda>s. filter (\<lambda>t. tt_transactionId t = ct_id chainTx) (token_transfers s))) (\<lambda>transfers.
     for_each (orphan_transfer gen now) transfers))"

definition handleReorg :: "(nat \<Rightarrow> string) \<Rightarrow> int \<Rightarrow> network \<Rightarrow> int \<Rightarrow> unit service" where
  "handleReorg gen now network fromBlock =
     pbind (preads (\<lambda>s. filter (\<lambda>t. ct_network t = network \<and>
         (case ct_blockNumber t of None \<Rightarrow> False | Some b \<Rightarrow> b \<ge> fromBlock) \<and>
         (ct_status t = MINED \<or> ct_status t = CONFIRMED)) (chain_txs s))) (\<lambda>orphanedTxs.
     pfor_each (\<lambda>chainTx. atomically (orphan_transaction gen now chainTx)) orphanedTxs)"

section \<open>What each step may change\<close>

lemma recordEvent_Inr [result_simps]:
  "recordEvent gen i ty a b actor pl s = Inr (u, t) \<longleftrightarrow>
     t = s\<lparr>db_ulids := Suc (db_ulids s), payment_events := payment_events s @
       [\<lparr>ev_id = newId (gen (db_ulids s)) PaymentEventId, ev_invoiceId = i, ev_type = ty, ev_fromStatus = Some a,
         ev_toStatus = Some b, ev_sequence = int (length (filter (\<lambda>e. ev_invoiceId e = i) (payment_events s))) + 1,
         ev_actor = actor, ev_payload = pl\<rparr>]\<rparr>"
  by (auto simp: recordEvent_def result_simps)

lemma emitWebhook_invoices: "emitWebhook gen i st s = Inr (u, t) \<Longrightarrow> invoices t = invoices s"
  by (auto simp: emitWebhook_def upsert_webhook_def invoice_or_throw_def result_simps split: option.splits if_splits)

lemma recordEvent_invoices: "recordEvent gen i ty a b actor pl s = Inr (u, t) \<Longrightarrow> invoices t = invoices s"
  by (simp add: recordEvent_Inr)

lemma write_transfer_invoices:
  "write_transfer gen now n x cx px e a ad iv d s = Inr (u, t) \<Longrightarrow> invoices t = invoices s"
  by (auto simp: write_transfer_def check_transfer_def result_simps split: option.splits if_splits)

lemma find_invoice_cong: "invoices t = invoices s \<Longrightarrow> find_invoice i t = find_invoice i s"
  by (simp add: find_invoice_def)

lemma find_invoice_update:
  assumes "\<And>x. inv_id (f x) = inv_id x"
  shows "find_invoice j (s\<lparr>invoices := update_rows (\<lambda>r. inv_id r = i) f (invoices s)\<rparr>) =
    map_option (\<lambda>r. if inv_id r = i then f r else r) (find_invoice j s)"
  using assms by (simp add: find_invoice_def find_update_rows)

lemma find_invoice_id: "find_invoice i s = Some row \<Longrightarrow> inv_id row = i"
  using find_Some_set by (fastforce simp: find_invoice_def)

text \<open>The discipline of the pipeline: a relation kept by every write the pipeline is allowed to
  make (rows of transfers and chain transactions, an event with the next sequence number, a webhook
  under a new key, reconciliation rows, a posting, and an invoice update that either keeps the
  status or moves it along an edge the gate grants the monitor) is kept by the whole pipeline.\<close>

locale pipeline_relation = step_relation R for R :: "db \<Rightarrow> db \<Rightarrow> bool" +
  fixes gen :: "nat \<Rightarrow> string"
  assumes R_ulid: "R s (s\<lparr>db_ulids := Suc (db_ulids s)\<rparr>)"
    and R_transfers: "R s (s\<lparr>token_transfers := x\<rparr>)"
    and R_chain: "R s (s\<lparr>chain_txs := y\<rparr>)"
    and R_event: "ev_sequence e = int (length (filter (\<lambda>x. ev_invoiceId x = ev_invoiceId e) (payment_events s))) + 1 \<Longrightarrow>
        R s (s\<lparr>payment_events := payment_events s @ [e]\<rparr>)"
    and R_webhook: "\<not> list_ex (\<lambda>x. we_idempotencyKey x = we_idempotencyKey w) (webhook_events s) \<Longrightarrow>
        R s (s\<lparr>webhook_events := webhook_events s @ [w]\<rparr>)"
    and R_run: "R s (s\<lparr>reconciliation_runs := reconciliation_runs s @ [r]\<rparr>)"
    and R_discrepancy: "R s (s\<lparr>reconciliation_discrepancies := reconciliation_discrepancies s @ [d]\<rparr>)"
    and R_post: "steps R (postPaymentCredit gen p)"
    and R_same_status: "(\<And>x. inv_id (f x) = inv_id x \<and> inv_status (f x) = inv_status x) \<Longrightarrow>
        R s (s\<lparr>invoices := update_rows (\<lambda>x. inv_id x = i) f (invoices s)\<rparr>)"
    and R_gated: "find_invoice i s = Some row \<Longrightarrow> assertTransition (inv_status row) st MONITOR = Inr rule \<Longrightarrow>
        (\<And>x. inv_id (f x) = inv_id x \<and> inv_status (f x) = st) \<Longrightarrow>
        R s (s\<lparr>invoices := update_rows (\<lambda>x. inv_id x = i) f (invoices s)\<rparr>)"
begin

lemma steps_fresh: "steps R (fresh_id gen k)"
  unfolding steps_def fresh_id_Inr using R_ulid by blast

lemma steps_event: "steps R (recordEvent gen i ty a b actor pl)"
  unfolding steps_def
proof (intro allI impI)
  fix s u t assume "recordEvent gen i ty a b actor pl s = Inr (u, t)"
  then show "R s t" unfolding recordEvent_Inr
    using R_trans [OF R_ulid [of s] R_event [of "\<lparr>ev_id = newId (gen (db_ulids s)) PaymentEventId, ev_invoiceId = i, ev_type = ty, ev_fromStatus = Some a,
         ev_toStatus = Some b, ev_sequence = int (length (filter (\<lambda>e. ev_invoiceId e = i) (payment_events s))) + 1,
         ev_actor = actor, ev_payload = pl\<rparr>" "s\<lparr>db_ulids := Suc (db_ulids s)\<rparr>"]] by simp
qed

lemma steps_webhook: "steps R (emitWebhook gen i st)"
  unfolding emitWebhook_def upsert_webhook_def invoice_or_throw_def
  by (intro steps_rules steps_fresh steps_modify) (auto intro!: R_webhook simp: R_refl)

lemma steps_update_transfer: "steps R (update_transfer i f)"
  unfolding update_transfer_def by (intro steps_rules steps_modify R_transfers)

lemma steps_update_chain_tx: "steps R (update_chain_tx i f)"
  unfolding update_chain_tx_def by (intro steps_rules steps_modify R_chain)

lemma steps_update_same: "(\<And>x. inv_id (f x) = inv_id x \<and> inv_status (f x) = inv_status x) \<Longrightarrow> steps R (update_invoice i f)"
  unfolding update_invoice_def invoice_or_throw_def by (intro steps_rules steps_modify R_same_status)

lemma steps_transition: "steps R (transition_result r)" "steps R (payment_result r')"
  unfolding transition_result_def payment_result_def by (rule steps_pure)+

text \<open>A gated status change followed by steps of the relation.\<close>

lemma gated_move:
  assumes "bind_op (transition_result (assertTransition cur st MONITOR)) (\<lambda>_. seq_op (update_invoice i f) rest) s = Inr (u, t)"
    and "find_invoice i s = Some row" "inv_status row = cur"
    and "\<And>x. inv_id (f x) = inv_id x \<and> inv_status (f x) = st"
    and rest: "\<And>s' t'. invoices s' = update_rows (\<lambda>x. inv_id x = i) f (invoices s) \<Longrightarrow> rest s' = Inr (u, t') \<Longrightarrow> R s' t'"
  shows "R s t"
proof -
  from assms(1) obtain rule where r: "assertTransition cur st MONITOR = Inr rule"
    and *: "rest (s\<lparr>invoices := update_rows (\<lambda>x. inv_id x = i) f (invoices s)\<rparr>) = Inr (u, t)"
    by (auto simp: result_simps)
  have "R s (s\<lparr>invoices := update_rows (\<lambda>x. inv_id x = i) f (invoices s)\<rparr>)"
    using R_gated [OF assms(2), of st rule f] r assms(3,4) by simp
  then show ?thesis using rest [OF _ *] R_trans by simp
qed

lemma first_sighting:
  assumes "advanceOnFirstSighting gen now i cur s = Inr (u, t)" "find_invoice i s = Some row" "inv_status row = cur"
  shows "R s t"
proof (cases "canTransition cur DETECTED")
  case False with assms(1) show ?thesis by (simp add: advanceOnFirstSighting_def R_refl)
next
  case True
  with assms(1) have "bind_op (transition_result (assertTransition cur DETECTED MONITOR)) (\<lambda>_.
        seq_op (update_invoice i (\<lambda>i. i\<lparr>inv_status := DETECTED, inv_detectedAt := Some now, inv_version := inv_version i + 1\<rparr>))
        (seq_op (recordEvent gen i ''transfer.detected'' cur DETECTED ''monitor'' []) (emitWebhook gen i DETECTED))) s = Inr (u, t)"
    by (simp add: advanceOnFirstSighting_def)
  from gated_move [OF this assms(2,3)] show ?thesis
    using stepsD [OF steps_seq [OF steps_event steps_webhook]] by fastforce
qed

lemma late_review:
  assumes "moveToLatePaymentReview gen i cur s = Inr (u, t)" "find_invoice i s = Some row" "inv_status row = cur"
  shows "R s t"
proof (cases "canTransition cur LATE_PAYMENT_REVIEW")
  case False with assms(1) show ?thesis by (simp add: moveToLatePaymentReview_def R_refl)
next
  case True
  with assms(1) have "bind_op (transition_result (assertTransition cur LATE_PAYMENT_REVIEW MONITOR)) (\<lambda>_.
        seq_op (update_invoice i (\<lambda>i. i\<lparr>inv_status := LATE_PAYMENT_REVIEW, inv_version := inv_version i + 1\<rparr>))
        (recordEvent gen i ''payment.late_arrival'' cur LATE_PAYMENT_REVIEW ''monitor'' [])) s = Inr (u, t)"
    by (simp add: moveToLatePaymentReview_def)
  from gated_move [OF this assms(2,3)] show ?thesis using stepsD [OF steps_event] by fastforce
qed

lemma steps_chain: "steps R (recordChainTransaction gen now n cx)"
  unfolding recordChainTransaction_def Let_def
  by (intro steps_rules steps_fresh steps_modify R_chain steps_update_chain_tx)

lemma steps_write_transfer: "steps R (write_transfer gen now n x cx px e a ad iv d)"
  unfolding write_transfer_def check_transfer_def
  by (intro steps_rules steps_fresh steps_modify R_transfers steps_update_transfer)

lemma steps_recordTransfer: "steps R (recordTransfer gen grace now n x cx px)"
  unfolding steps_def
proof (intro allI impI)
  fix s u t
  assume run: "recordTransfer gen grace now n x cx px s = Inr (u, t)"
  define ex where "ex = find_transfer n (cx_hash cx) (px_transferIndex px) s"
  show "R s t"
  proof (cases "case ex of None \<Rightarrow> False | Some e \<Rightarrow> tt_creditedAt e \<noteq> None")
    case True with run show ?thesis by (simp add: recordTransfer_def ex_def [symmetric] R_refl)
  next
    case False
    define ad where "ad = find (\<lambda>a. pa_network a = n \<and> pa_addressNormalized a = px_toAddress px) (payment_addresses s)"
    define io where "io = address_invoice ad s"
    from run False obtain d s1 where
      w: "write_transfer gen now n x cx px ex (resolveTransferAsset n (px_tokenContract px)) ad io d s = Inr ((), s1)"
      and rest: "(case io of None \<Rightarrow> ret ()
        | Some i \<Rightarrow>
            seq_op (if md_status d = PENDING_CONFIRMATION then advanceOnFirstSighting gen now (inv_id i) (inv_status i) else ret ())
            (if md_status d = LATE_PAYMENT_REVIEW_MATCH then moveToLatePaymentReview gen (inv_id i) (inv_status i) else ret ())) s1 = Inr (u, t)"
      by (auto simp: recordTransfer_def Let_def ex_def [symmetric] ad_def [symmetric] io_def [symmetric] bind_op_Inr_iff
          seq_op_Inr_iff lifted_result_Inr)
    have R1: "R s s1" by (rule stepsD [OF steps_write_transfer w])
    have "R s1 t"
    proof (cases io)
      case None with rest show ?thesis by (simp add: R_refl)
    next
      case (Some i)
      then have "find_invoice (inv_id i) s = Some i"
        using find_invoice_id by (auto simp: io_def address_invoice_def split: option.splits if_splits)
      then have f: "find_invoice (inv_id i) s1 = Some i"
        using find_invoice_cong [OF write_transfer_invoices [OF w]] by simp
      consider "md_status d = PENDING_CONFIRMATION" | "md_status d = LATE_PAYMENT_REVIEW_MATCH"
        | "md_status d \<noteq> PENDING_CONFIRMATION" "md_status d \<noteq> LATE_PAYMENT_REVIEW_MATCH" by blast
      then show ?thesis
      proof cases
        case 1 with rest Some show ?thesis using first_sighting [OF _ f] by (auto simp: seq_op_Inr_iff)
      next
        case 2 with rest Some show ?thesis using late_review [OF _ f] by (auto simp: seq_op_Inr_iff)
      next
        case 3 with rest Some show ?thesis by (simp add: seq_op_Inr_iff R_refl)
      qed
    qed
    with R1 show ?thesis by (rule R_trans)
  qed
qed

lemma process_transaction: "psteps R (processTransaction gen grace now ad n h)"
  unfolding processTransaction_def by (intro psteps_rules steps_rules steps_chain steps_recordTransfer)

lemma confirming:
  assumes "advanceConfirming gen row c s = Inr (u, t)" "find_invoice (inv_id row) s = Some row"
  shows "R s t"
proof (cases "c < 1 \<or> \<not> canTransition (inv_status row) CONFIRMING")
  case True with assms(1) show ?thesis by (auto simp: advanceConfirming_def Let_def R_refl split: if_splits)
next
  case False
  with assms(1) have "bind_op (transition_result (assertTransition (inv_status row) CONFIRMING MONITOR)) (\<lambda>_.
        seq_op (update_invoice (inv_id row) (\<lambda>i. i\<lparr>inv_status := CONFIRMING, inv_version := inv_version i + 1\<rparr>))
        (seq_op (recordEvent gen (inv_id row) ''confirmation.started'' (inv_status row) CONFIRMING ''monitor'' [])
          (emitWebhook gen (inv_id row) CONFIRMING))) s = Inr (u, t)"
    by (simp add: advanceConfirming_def Let_def)
  from gated_move [OF this assms(2) refl] show ?thesis
    using stepsD [OF steps_seq [OF steps_event steps_webhook]] by fastforce
qed

lemma steps_credit: "steps R (credit_transfer gen now row m tr)"
  unfolding credit_transfer_def by (intro steps_rules R_post steps_update_transfer)

lemma settled:
  assumes "settle gen now row m target ts s = Inr (u, t)" "find_invoice (inv_id row) s = Some r" "inv_status r = target"
  shows "R s t"
proof -
  let ?first = "if target \<noteq> PAID then
          bind_op (transition_result (assertTransition target PAID MONITOR)) (\<lambda>_.
          seq_op (update_invoice (inv_id row) (\<lambda>i. i\<lparr>inv_status := PAID, inv_paidAt := Some now\<rparr>))
          (seq_op (recordEvent gen (inv_id row) ''payment.paid'' target PAID ''monitor''
             [(''acceptedVia'', JStr (if target = OVERPAID then ''overpayment_policy:ACCEPT_FULL''
                                      else ''underpayment_policy:ACCEPT_PARTIAL''))])
          (emitWebhook gen (inv_id row) PAID)))
        else update_invoice (inv_id row) (\<lambda>i. i\<lparr>inv_paidAt := Some now\<rparr>)"
  from assms(1) obtain s1 where 1: "?first s = Inr ((), s1)"
    and 2: "for_each (credit_transfer gen now row m) (confirmed_of row ts) s1 = Inr (u, t)"
    unfolding settle_def seq_op_Inr_iff by blast
  have "R s s1"
  proof (cases "target = PAID")
    case True
    with 1 have "update_invoice (inv_id row) (\<lambda>i. i\<lparr>inv_paidAt := Some now\<rparr>) s = Inr ((), s1)" by simp
    moreover have "steps R (update_invoice (inv_id row) (\<lambda>i. i\<lparr>inv_paidAt := Some now\<rparr>))" by (rule steps_update_same) simp
    ultimately show ?thesis by (auto dest: stepsD)
  next
    case False
    then have "?first = bind_op (transition_result (assertTransition target PAID MONITOR)) (\<lambda>_.
          seq_op (update_invoice (inv_id row) (\<lambda>i. i\<lparr>inv_status := PAID, inv_paidAt := Some now\<rparr>))
          (seq_op (recordEvent gen (inv_id row) ''payment.paid'' target PAID ''monitor''
             [(''acceptedVia'', JStr (if target = OVERPAID then ''overpayment_policy:ACCEPT_FULL''
                                      else ''underpayment_policy:ACCEPT_PARTIAL''))])
          (emitWebhook gen (inv_id row) PAID)))" by (rule if_P)
    from gated_move [OF 1 [unfolded this] assms(2,3)] show ?thesis
      using stepsD [OF steps_seq [OF steps_event steps_webhook]] by fastforce
  qed
  then show ?thesis using stepsD [OF steps_for_each [OF steps_credit] 2] by (rule R_trans)
qed

lemma outcome_applied:
  assumes "apply_outcome gen now row m target ts s = Inr (u, t)" "find_invoice (inv_id row) s = Some row"
  shows "R s t"
proof (cases "canTransition (inv_status row) target")
  case False with assms(1) show ?thesis by (simp add: apply_outcome_def Let_def R_refl)
next
  case True
  let ?f = "\<lambda>i. i\<lparr>inv_status := target, inv_receivedAmount := confirmed_total row ts,
          inv_confirmedAmount := confirmed_total row ts, inv_confirmationCount := Max (set (map tt_confirmations ts))\<rparr>"
  let ?rest = "seq_op (recordEvent gen (inv_id row) (''payment.'' @ toLowerCase (status_name target)) (inv_status row) target ''monitor'' [])
        (seq_op (emitWebhook gen (inv_id row) target)
        (if \<not> auto_accept m target then ret () else settle gen now row m target ts))"
  from assms(1) True have run: "bind_op (transition_result (assertTransition (inv_status row) target MONITOR)) (\<lambda>_.
        seq_op (update_invoice (inv_id row) ?f) ?rest) s = Inr (u, t)" by (simp add: apply_outcome_def Let_def)
  show ?thesis
  proof (rule gated_move [OF run assms(2) refl])
    fix s' t' assume up: "invoices s' = update_rows (\<lambda>x. inv_id x = inv_id row) ?f (invoices s)" and r: "?rest s' = Inr (u, t')"
    from r obtain s1 s2 where 1: "recordEvent gen (inv_id row) (''payment.'' @ toLowerCase (status_name target)) (inv_status row) target ''monitor'' [] s' = Inr ((), s1)"
      and 2: "emitWebhook gen (inv_id row) target s1 = Inr ((), s2)"
      and 3: "(if \<not> auto_accept m target then ret () else settle gen now row m target ts) s2 = Inr (u, t')"
      unfolding seq_op_Inr_iff by blast
    have "invoices s2 = update_rows (\<lambda>x. inv_id x = inv_id row) ?f (invoices s)"
      using up recordEvent_invoices [OF 1] emitWebhook_invoices [OF 2] by simp
    then have f: "find_invoice (inv_id row) s2 = Some (?f row)"
      using assms(2) find_update_rows [where key = inv_id and f = ?f and k = "inv_id row" and rs = "invoices s" and p = "\<lambda>x. inv_id x = inv_id row"]
      by (simp add: find_invoice_def)
    have "R s2 t'"
    proof (cases "auto_accept m target")
      case True with 3 show ?thesis using settled [OF _ f] by simp
    next
      case False with 3 show ?thesis by (simp add: R_refl)
    qed
    then show "R s' t'" using stepsD [OF steps_event 1] stepsD [OF steps_webhook 2] R_trans by blast
  qed simp
qed

lemma steps_finalize: "steps R (finalizeInvoice gen now i)"
  unfolding steps_def
proof (intro allI impI)
  fix s u t assume run: "finalizeInvoice gen now i s = Inr (u, t)"
  then obtain row where f: "find_invoice i s = Some row"
    by (auto simp: finalizeInvoice_def invoice_or_throw_def result_simps)
  then have id: "inv_id row = i" by (rule find_invoice_id)
  from run f consider "t = s" | m target where "apply_outcome gen now row m target (countable_transfers i s) s = Inr (u, t)"
    by (auto simp: finalizeInvoice_def invoice_or_throw_def merchant_or_throw_def bind_op_Inr_iff find_or_throw_Inr_iff
        lifted_result_Inr split: if_splits option.splits)
  then show "R s t" using outcome_applied f id R_refl by cases auto
qed

lemma steps_confirm: "steps R (confirm_transfer gen now tr c)"
  unfolding steps_def
proof (intro allI impI)
  fix s u t assume run: "confirm_transfer gen now tr c s = Inr (u, t)"
  let ?rest = "if \<not> truthy (tt_invoiceId tr) then ret ()
      else bind_op (invoice_or_throw (the (tt_invoiceId tr))) (\<lambda>invoice.
        seq_op (advanceConfirming gen invoice c)
        (bind_op (payment_result (bind_result (effectiveConfirmations (inv_requiredConfirmations invoice) None) (isConfirmed c))) (\<lambda>ready.
        if ready then finalizeInvoice gen now (inv_id invoice) else ret ())))"
  from run obtain s1 where 1: "update_transfer (tt_id tr) (\<lambda>t. t\<lparr>tt_confirmations := c\<rparr>) s = Inr ((), s1)"
    and 2: "?rest s1 = Inr (u, t)" unfolding confirm_transfer_def by (auto simp: seq_op_Inr_iff split: if_splits)
  have "R s1 t"
  proof (cases "truthy (tt_invoiceId tr)")
    case False with 2 show ?thesis by (simp add: R_refl)
  next
    case True
    with 2 obtain row s2 where row: "find_invoice (the (tt_invoiceId tr)) s1 = Some row"
      and a: "advanceConfirming gen row c s1 = Inr ((), s2)"
      and b: "bind_op (payment_result (bind_result (effectiveConfirmations (inv_requiredConfirmations row) None) (isConfirmed c))) (\<lambda>ready.
        if ready then finalizeInvoice gen now (inv_id row) else ret ()) s2 = Inr (u, t)"
      by (auto simp: invoice_or_throw_def bind_op_Inr_iff [of "find_or_throw _ _"] seq_op_Inr_iff find_or_throw_Inr_iff)
    have "find_invoice (inv_id row) s1 = Some row" using row find_invoice_id by fastforce
    then have "R s1 s2" using a by (rule confirming [rotated])
    moreover have "steps R (bind_op (payment_result (bind_result (effectiveConfirmations (inv_requiredConfirmations row) None) (isConfirmed c))) (\<lambda>ready.
        if ready then finalizeInvoice gen now (inv_id row) else ret ()))"
      by (intro steps_rules steps_transition steps_finalize)
    ultimately show ?thesis using b R_trans unfolding steps_def by blast
  qed
  with stepsD [OF steps_update_transfer 1] show "R s t" by (rule R_trans)
qed

lemma update_confirmations: "psteps R (updateConfirmations gen now ad n)"
  unfolding updateConfirmations_def by (intro psteps_rules steps_confirm)

lemma steps_revert: "steps R (revertInvoiceAfterOrphan gen i)"
  unfolding steps_def
proof (intro allI impI)
  fix s u t assume run: "revertInvoiceAfterOrphan gen i s = Inr (u, t)"
  define target where "target = (if length (filter (\<lambda>t. tt_invoiceId t = Some i \<and> tt_matchStatus t = PENDING_CONFIRMATION)
       (token_transfers s)) > 0 then DETECTED else PENDING)"
  from run obtain row where f: "find_invoice i s = Some row"
    and rest: "(if \<not> canTransition (inv_status row) target then ret ()
     else bind_op (transition_result (assertTransition (inv_status row) target MONITOR)) (\<lambda>_.
       seq_op (update_invoice i (\<lambda>i. i\<lparr>inv_status := target, inv_version := inv_version i + 1\<rparr>))
       (recordEvent gen i ''reorg.reverted'' (inv_status row) target ''monitor'' []))) s = Inr (u, t)"
    unfolding revertInvoiceAfterOrphan_def invoice_or_throw_def Let_def bind_op_Inr_iff [of "find_or_throw _ _"]
      find_or_throw_Inr_iff bind_op_reads target_def by blast
  show "R s t"
  proof (cases "canTransition (inv_status row) target")
    case False with rest show ?thesis by (simp add: R_refl)
  next
    case True
    with rest have "bind_op (transition_result (assertTransition (inv_status row) target MONITOR)) (\<lambda>_.
       seq_op (update_invoice i (\<lambda>i. i\<lparr>inv_status := target, inv_version := inv_version i + 1\<rparr>))
       (recordEvent gen i ''reorg.reverted'' (inv_status row) target ''monitor'' [])) s = Inr (u, t)" by simp
    from gated_move [OF this f refl] show ?thesis using stepsD [OF steps_event] by fastforce
  qed
qed

lemma steps_orphaned_credit: "steps R (record_orphaned_credit gen now tr i)"
  unfolding record_orphaned_credit_def by (intro steps_rules steps_fresh steps_modify R_run R_discrepancy)

lemma steps_flag: "steps R (flagOrphanedCredit gen now tr io)"
  unfolding steps_def
proof (intro allI impI)
  fix s u t assume run: "flagOrphanedCredit gen now tr io s = Inr (u, t)"
  let ?i = "the io"
  show "R s t"
  proof (cases "truthy io")
    case False with run show ?thesis by (simp add: flagOrphanedCredit_def R_refl)
  next
    case True
    with run obtain row where f: "find_invoice ?i s = Some row"
      and rest: "(if \<not> canTransition (inv_status row) RECONCILIATION_REQUIRED then ret ()
        else bind_op (transition_result (assertTransition (inv_status row) RECONCILIATION_REQUIRED MONITOR)) (\<lambda>_.
          seq_op (update_invoice ?i (\<lambda>i. i\<lparr>inv_status := RECONCILIATION_REQUIRED, inv_version := inv_version i + 1\<rparr>))
          (seq_op (recordEvent gen ?i ''reorg.orphaned_credit'' (inv_status row) RECONCILIATION_REQUIRED ''monitor'' [])
          (record_orphaned_credit gen now tr ?i)))) s = Inr (u, t)"
      by (auto simp: flagOrphanedCredit_def invoice_or_throw_def Let_def bind_op_Inr_iff [of "find_or_throw _ _"] find_or_throw_Inr_iff)
    show ?thesis
    proof (cases "canTransition (inv_status row) RECONCILIATION_REQUIRED")
      case False with rest show ?thesis by (simp add: R_refl)
    next
      case True
      with rest have "bind_op (transition_result (assertTransition (inv_status row) RECONCILIATION_REQUIRED MONITOR)) (\<lambda>_.
          seq_op (update_invoice ?i (\<lambda>i. i\<lparr>inv_status := RECONCILIATION_REQUIRED, inv_version := inv_version i + 1\<rparr>))
          (seq_op (recordEvent gen ?i ''reorg.orphaned_credit'' (inv_status row) RECONCILIATION_REQUIRED ''monitor'' [])
          (record_orphaned_credit gen now tr ?i))) s = Inr (u, t)" by simp
      from gated_move [OF this f refl] show ?thesis
        using stepsD [OF steps_seq [OF steps_event steps_orphaned_credit]] by fastforce
    qed
  qed
qed

lemma handle_reorg: "psteps R (handleReorg gen now n b)"
  unfolding handleReorg_def orphan_transaction_def orphan_transfer_def
  by (intro psteps_rules steps_rules steps_update_chain_tx steps_update_transfer steps_flag steps_revert)

lemmas pipeline = process_transaction update_confirmations handle_reorg

end

section \<open>Properties of the pipeline\<close>

text \<open>One call of the monitor by the scanner.\<close>

datatype monitor_call =
    ProcessTransaction adapter network string
  | UpdateConfirmations adapter network
  | HandleReorg network int

fun run_monitor :: "(nat \<Rightarrow> string) \<Rightarrow> int \<Rightarrow> int \<times> monitor_call \<Rightarrow> db \<Rightarrow> db" where
  "run_monitor gen grace (now, ProcessTransaction ad n h) s = snd (processTransaction gen grace now ad n h s)"
| "run_monitor gen grace (now, UpdateConfirmations ad n) s = snd (updateConfirmations gen now ad n s)"
| "run_monitor gen grace (now, HandleReorg n b) s = snd (handleReorg gen now n b s)"

text \<open>Any sequence of calls, whatever the adapter answers and whichever of them fail.\<close>

definition run_calls :: "(nat \<Rightarrow> string) \<Rightarrow> int \<Rightarrow> (int \<times> monitor_call) list \<Rightarrow> db \<Rightarrow> db" where
  "run_calls gen grace calls s = fold (run_monitor gen grace) calls s"

context pipeline_relation
begin

lemma R_run_calls: "R s (run_calls gen grace calls s)"
proof -
  have step: "R s (run_monitor gen grace c s)" for s c
    by (cases "(gen, grace, c, s)" rule: run_monitor.cases) (auto intro: psteps_D pipeline)
  show ?thesis unfolding run_calls_def
  proof (induction calls arbitrary: s)
    case Nil show ?case by (simp add: R_refl)
  next
    case (Cons c calls) show ?case using R_trans [OF step Cons.IH] by simp
  qed
qed

end

text \<open>History is only ever extended.\<close>

definition extends :: "'a list \<Rightarrow> 'a list \<Rightarrow> bool" where
  "extends xs ys \<longleftrightarrow> (\<exists>zs. ys = xs @ zs)"

lemma extends_simps [simp]: "extends xs xs" "extends xs (xs @ zs)"
  by (auto simp: extends_def)

lemma extends_trans: "extends xs ys \<Longrightarrow> extends ys zs \<Longrightarrow> extends xs zs"
  by (auto simp: extends_def)

definition history_kept :: "db \<Rightarrow> db \<Rightarrow> bool" where
  "history_kept s t \<longleftrightarrow> extends (ledger_entries s) (ledger_entries t) \<and>
     extends (ledger_transactions s) (ledger_transactions t) \<and> extends (payment_events s) (payment_events t) \<and>
     extends (webhook_events s) (webhook_events t) \<and>
     extends (reconciliation_discrepancies s) (reconciliation_discrepancies t) \<and>
     extends (map inv_id (invoices s)) (map inv_id (invoices t))"

lemma posting_state:
  assumes "postPaymentCredit gen p s = Inr (r, t)"
  shows "\<exists>as lts es q n. t = s\<lparr>ledger_accounts := ledger_accounts s @ as, ledger_transactions := ledger_transactions s @ lts,
        ledger_entries := ledger_entries s @ es, db_sequence := q, db_ulids := n\<rparr>"
proof (cases "posted s (pp_idempotencyKey p)")
  case True
  with assms have "t = s" by (auto simp: postPaymentCredit_Inr)
  then show ?thesis
    by (intro exI [of _ "[]"] exI [of _ "db_sequence s"] exI [of _ "db_ulids s"]) simp
next
  case False from postPaymentCredit_new [OF assms this] show ?thesis by blast
qed

lemma update_rows_ids: "(\<And>x. key (f x) = key x) \<Longrightarrow> map key (update_rows p f rs) = map key rs"
  by (induction rs) (auto simp: update_rows_def)

interpretation history: pipeline_relation history_kept gen for gen
proof
  fix s t u assume "history_kept s t" "history_kept t u"
  then show "history_kept s u" by (auto simp: history_kept_def intro: extends_trans)
next
  fix p show "steps history_kept (postPaymentCredit gen p)"
    unfolding steps_def
  proof (intro allI impI)
    fix s r t assume "postPaymentCredit gen p s = Inr (r, t)"
    from posting_state [OF this] show "history_kept s t" by (auto simp: history_kept_def)
  qed
qed (auto simp: history_kept_def update_rows_ids)

text \<open>The books and the caches.\<close>

definition books_kept :: "(nat \<Rightarrow> string) \<Rightarrow> db \<Rightarrow> db \<Rightarrow> bool" where
  "books_kept gen s t \<longleftrightarrow> (inj gen \<and> ledger_ok gen s \<longrightarrow> ledger_ok gen t) \<and> (caches_ok s \<longrightarrow> caches_ok t)"

lemma ledger_ok_frame:
  assumes "ledger_ok gen s" "ledger_transactions t = ledger_transactions s" "ledger_entries t = ledger_entries s"
    "db_sequence t = db_sequence s" "db_ulids s \<le> db_ulids t"
  shows "ledger_ok gen t"
proof -
  have "(\<lambda>k. newId (gen k) LedgerTransactionId) ` {..<db_ulids s} \<subseteq> (\<lambda>k. newId (gen k) LedgerTransactionId) ` {..<db_ulids t}"
    using assms(5) by (intro image_mono) auto
  then have "lt_id ` set (ledger_transactions s) \<subseteq> (\<lambda>k. newId (gen k) LedgerTransactionId) ` {..<db_ulids t}"
    using assms(1) unfolding ledger_ok_def by (blast intro: order_trans)
  then show ?thesis using assms unfolding ledger_ok_def entries_of_def by simp
qed

lemma caches_ok_frame:
  assumes "caches_ok s" "ledger_accounts t = ledger_accounts s" "ledger_entries t = ledger_entries s" "db_sequence t = db_sequence s"
  shows "caches_ok t"
  using assms by (auto simp: caches_ok_def drifted_def split: option.splits)

lemma books_kept_frame:
  assumes "ledger_transactions t = ledger_transactions s" "ledger_entries t = ledger_entries s"
    "ledger_accounts t = ledger_accounts s" "db_sequence t = db_sequence s" "db_ulids s \<le> db_ulids t"
  shows "books_kept gen s t"
  using assms ledger_ok_frame [of gen s t] caches_ok_frame [of s t] by (auto simp: books_kept_def)

interpretation books: pipeline_relation "books_kept gen" gen for gen
proof
  fix s t u assume "books_kept gen s t" "books_kept gen t u"
  then show "books_kept gen s u" by (auto simp: books_kept_def)
next
  fix p show "steps (books_kept gen) (postPaymentCredit gen p)"
    unfolding steps_def books_kept_def using posting_keeps_ledger_ok posting_keeps_caches by blast
qed (rule books_kept_frame; simp)+

text \<open>The journals: events numbered without gaps per invoice, and one webhook per key.\<close>

definition journals_ok :: "db \<Rightarrow> bool" where
  "journals_ok s \<longleftrightarrow>
     (\<forall>i. let es = filter (\<lambda>e. ev_invoiceId e = i) (payment_events s) in
        map ev_sequence es = map (\<lambda>k. int k + 1) [0..<length es]) \<and>
     distinct (map we_idempotencyKey (webhook_events s))"

lemma journals_frame: "payment_events t = payment_events s \<Longrightarrow> webhook_events t = webhook_events s \<Longrightarrow> keeps journals_ok s t"
  by (simp add: keeps_def journals_ok_def)

interpretation journals: pipeline_relation "keeps journals_ok" gen for gen
proof
  fix s t u assume "keeps journals_ok s t" "keeps journals_ok t u"
  then show "keeps journals_ok s u" by (auto simp: keeps_def)
next
  fix s :: db and e :: payment_event
  assume "ev_sequence e = int (length (filter (\<lambda>x. ev_invoiceId x = ev_invoiceId e) (payment_events s))) + 1"
  then show "keeps journals_ok s (s\<lparr>payment_events := payment_events s @ [e]\<rparr>)"
    by (auto simp: keeps_def journals_ok_def Let_def)
next
  fix s :: db and w :: webhook_event
  assume "\<not> list_ex (\<lambda>x. we_idempotencyKey x = we_idempotencyKey w) (webhook_events s)"
  then show "keeps journals_ok s (s\<lparr>webhook_events := webhook_events s @ [w]\<rparr>)"
    by (auto simp: keeps_def journals_ok_def list_ex_iff)
next
  fix p show "steps (keeps journals_ok) (postPaymentCredit gen p)"
    unfolding steps_def
  proof (intro allI impI)
    fix s r t assume "postPaymentCredit gen p s = Inr (r, t)"
    from posting_state [OF this] show "keeps journals_ok s t" by (intro journals_frame) auto
  qed
qed (rule journals_frame; simp)+

text \<open>The status of every invoice moves only along the edges the gate grants the monitor.\<close>

definition status_of :: "string \<Rightarrow> db \<Rightarrow> invoice_status option" where
  "status_of i s = map_option inv_status (find_invoice i s)"

definition gate_respected :: "transition_actor set \<Rightarrow> db \<Rightarrow> db \<Rightarrow> bool" where
  "gate_respected A s t \<longleftrightarrow> (\<forall>i a. status_of i s = Some a \<longrightarrow>
     (\<exists>b. status_of i t = Some b \<and> reaches assertTransition A a b))"

lemma reaches_trans: "reaches gate A s t \<Longrightarrow> reaches gate A t u \<Longrightarrow> reaches gate A s u"
  by (rotate_tac, induction rule: reaches.induct) (auto intro: reaches.move)

lemma gate_respected_same: "(\<And>i. status_of i t = status_of i s) \<Longrightarrow> gate_respected A s t"
  by (auto simp: gate_respected_def intro: reaches.stay)

lemma gate_respected_trans: "gate_respected A s t \<Longrightarrow> gate_respected A t u \<Longrightarrow> gate_respected A s u"
  unfolding gate_respected_def by (meson reaches_trans)

lemma status_of_frame: "invoices t = invoices s \<Longrightarrow> status_of i t = status_of i s"
  by (simp add: status_of_def find_invoice_def)

lemma status_of_update:
  assumes "\<And>x. inv_id (f x) = inv_id x"
  shows "status_of j (s\<lparr>invoices := update_rows (\<lambda>x. inv_id x = i) f (invoices s)\<rparr>) =
    map_option (\<lambda>r. inv_status (if inv_id r = i then f r else r)) (find_invoice j s)"
  using find_invoice_update [of f j i s] assms by (simp add: status_of_def option.map_comp o_def)

text \<open>A gated change of one invoice, by any of the actors.\<close>

lemma gate_respected_move:
  assumes row: "find_invoice i s = Some row" "assertTransition (inv_status row) st actor = Inr rule" and "actor \<in> A"
    and f: "\<And>x. inv_id (f x) = inv_id x \<and> inv_status (f x) = st"
  shows "gate_respected A s (s\<lparr>invoices := update_rows (\<lambda>x. inv_id x = i) f (invoices s)\<rparr>)" (is "gate_respected A s ?t")
proof -
  have "reaches assertTransition A (inv_status row) st"
    by (rule reaches.move [where actor = actor and rule = rule, OF reaches.stay]) (use row(2) assms(3) in simp_all)
  moreover have "status_of i ?t = Some st" using row(1) f find_invoice_id [OF row(1)] by (simp add: status_of_update)
  moreover have "status_of j ?t = status_of j s" if "j \<noteq> i" for j
    using that f find_invoice_id [of j s] by (cases "find_invoice j s") (auto simp: status_of_update, auto simp: status_of_def)
  moreover have "status_of i s = Some (inv_status row)" using row(1) by (simp add: status_of_def)
  ultimately have "\<exists>b. status_of j ?t = Some b \<and> reaches assertTransition A a b" if "status_of j s = Some a" for j a
    using that reaches.stay [of assertTransition A] by (cases "j = i") auto
  then show ?thesis unfolding gate_respected_def by blast
qed

interpretation gate: pipeline_relation "gate_respected (insert MONITOR A)" gen for A gen
proof
  fix s t u assume "gate_respected (insert MONITOR A) s t" "gate_respected (insert MONITOR A) t u"
  then show "gate_respected (insert MONITOR A) s u" by (rule gate_respected_trans)
next
  fix p show "steps (gate_respected (insert MONITOR A)) (postPaymentCredit gen p)"
    unfolding steps_def
  proof (intro allI impI)
    fix s r t assume "postPaymentCredit gen p s = Inr (r, t)"
    from posting_state [OF this] have "invoices t = invoices s" by auto
    then show "gate_respected (insert MONITOR A) s t" by (intro gate_respected_same status_of_frame)
  qed
next
  fix f :: "invoice \<Rightarrow> invoice" and s i
  assume f: "\<And>x. inv_id (f x) = inv_id x \<and> inv_status (f x) = inv_status x"
  have "status_of j (s\<lparr>invoices := update_rows (\<lambda>x. inv_id x = i) f (invoices s)\<rparr>) = status_of j s" for j
    using f by (cases "find_invoice j s") (auto simp: status_of_update, auto simp: status_of_def)
  then show "gate_respected (insert MONITOR A) s (s\<lparr>invoices := update_rows (\<lambda>x. inv_id x = i) f (invoices s)\<rparr>)"
    by (rule gate_respected_same)
next
  fix i s row st rule and f :: "invoice \<Rightarrow> invoice"
  assume "find_invoice i s = Some row" "assertTransition (inv_status row) st MONITOR = Inr rule"
    "\<And>x. inv_id (f x) = inv_id x \<and> inv_status (f x) = st"
  then show "gate_respected (insert MONITOR A) s (s\<lparr>invoices := update_rows (\<lambda>x. inv_id x = i) f (invoices s)\<rparr>)"
    by (rule gate_respected_move [OF _ _ insertI1])
qed (rule gate_respected_same, rule status_of_frame, simp)+

end
