(* ===== verification/Settlement.thy ===== *)
theory Settlement
  imports Monitor
begin

text \<open>
  What the payment pipeline guarantees: the effect of finalising an invoice on the invoice and on
  the ledger for every outcome of the evaluation, that money is credited only when the invoice
  lands on PAID and once per on-chain transfer, and a few behaviours of the code on examples.
\<close>

section \<open>Settling\<close>

lemma find_id_iff: "find (\<lambda>r. key r = i) rs \<noteq> None \<longleftrightarrow> i \<in> set (map key rs)"
  by (auto simp: find_None_iff)

lemma credit_params_sel [simp]:
  "pp_merchantId (credit_params row m tr) = inv_merchantId row" "pp_feeBps (credit_params row m tr) = mer_feeBps m"
  "pp_idempotencyKey (credit_params row m tr) = credit_key tr" "m_units (pp_grossAmount (credit_params row m tr)) = tt_amount tr"
  by (simp_all add: credit_params_def fromUnits_def)

lemma posting_totals:
  assumes "postPaymentCredit gen p s = Inr (r, t)"
  shows "total DEBIT (ledger_entries t) = total DEBIT (ledger_entries s) +
      (if posted s (pp_idempotencyKey p) then 0 else m_units (pp_grossAmount p))"
proof (cases "posted s (pp_idempotencyKey p)")
  case True with assms show ?thesis by (auto simp: postPaymentCredit_Inr)
next
  case False
  from postPaymentCredit_new [OF assms False] obtain es ltx where
    "ledger_entries t = ledger_entries s @ es" "posted_entries p (pr_feeAmount r) (pr_netAmount r) ltx es" by auto
  with False show ?thesis by (simp add: posted_entries_def)
qed

text \<open>What crediting one confirmed transfer does, and that it cannot fail for a sane merchant.\<close>

lemma credit_transfer_Inr:
  assumes "credit_transfer gen now row m tr s = Inr (u, t)"
  shows "invoices t = invoices s \<and> map tt_id (token_transfers t) = map tt_id (token_transfers s) \<and>
    (\<forall>k. posted t k \<longleftrightarrow> posted s k \<or> k = credit_key tr) \<and>
    total DEBIT (ledger_entries t) = total DEBIT (ledger_entries s) + (if posted s (credit_key tr) then 0 else tt_amount tr)"
proof -
  from assms obtain r s1 where p: "postPaymentCredit gen (credit_params row m tr) s = Inr (r, s1)"
    and t: "(if \<not> pr_alreadyPosted r then update_transfer (tt_id tr) (\<lambda>r. r\<lparr>tt_matchStatus := CREDITED, tt_creditedAt := Some now\<rparr>)
       else ret ()) s1 = Inr (u, t)" by (auto simp: credit_transfer_def bind_op_Inr_iff)
  have s1: "invoices s1 = invoices s" "token_transfers s1 = token_transfers s" using posting_state [OF p] by auto
  have t1: "invoices t = invoices s1" "map tt_id (token_transfers t) = map tt_id (token_transfers s1)"
    "ledger_transactions t = ledger_transactions s1" "ledger_entries t = ledger_entries s1"
    using t by (auto simp: result_simps update_rows_ids split: if_splits)
  have "posted t k \<longleftrightarrow> posted s k \<or> k = credit_key tr" for k
    using credit.marks [OF p, of k] t1(3) by (simp add: posted_def)
  then show ?thesis using s1 t1 posting_totals [OF p] by simp
qed

lemma credit_transfer_ok:
  assumes "0 < tt_amount tr" "inv_merchantId row \<noteq> []" "0 \<le> mer_feeBps m" "mer_feeBps m < 10000"
    "tt_id tr \<in> set (map tt_id (token_transfers s))"
  shows "\<exists>t. credit_transfer gen now row m tr s = Inr ((), t)"
proof -
  obtain r s1 where p: "postPaymentCredit gen (credit_params row m tr) s = Inr (r, s1)"
    using postPaymentCredit_ok [of "credit_params row m tr"] assms by fastforce
  have "token_transfers s1 = token_transfers s" using posting_state [OF p] by auto
  with assms(5) have "find (\<lambda>r. tt_id r = tt_id tr) (token_transfers s1) \<noteq> None" by (simp only: find_id_iff)
  with p show ?thesis by (cases "pr_alreadyPosted r") (auto simp: credit_transfer_def update_transfer_def)
qed

lemma credit_loop:
  assumes "\<forall>tr \<in> set ts. 0 < tt_amount tr \<and> tt_id tr \<in> set (map tt_id (token_transfers s))"
    "inv_merchantId row \<noteq> []" "0 \<le> mer_feeBps m" "mer_feeBps m < 10000" "distinct (map credit_key ts)"
  shows "\<exists>t. for_each (credit_transfer gen now row m) ts s = Inr ((), t) \<and> invoices t = invoices s \<and>
    (\<forall>tr \<in> set ts. posted t (credit_key tr)) \<and>
    total DEBIT (ledger_entries t) = total DEBIT (ledger_entries s) +
      sum_list (map tt_amount (filter (\<lambda>tr. \<not> posted s (credit_key tr)) ts))"
  using assms
proof (induction ts arbitrary: s)
  case Nil then show ?case by simp
next
  case (Cons tr ts)
  obtain s1 where 1: "credit_transfer gen now row m tr s = Inr ((), s1)"
    using credit_transfer_ok [of tr row m s gen now] Cons.prems by auto
  note s1 = credit_transfer_Inr [OF 1]
  have "\<forall>tr \<in> set ts. 0 < tt_amount tr \<and> tt_id tr \<in> set (map tt_id (token_transfers s1))"
    using Cons.prems(1) s1 by (metis list.set_intros(2))
  with Cons.IH [of s1] Cons.prems obtain t where
    t: "for_each (credit_transfer gen now row m) ts s1 = Inr ((), t)" "invoices t = invoices s1"
      "\<forall>tr \<in> set ts. posted t (credit_key tr)"
      "total DEBIT (ledger_entries t) = total DEBIT (ledger_entries s1) +
         sum_list (map tt_amount (filter (\<lambda>tr. \<not> posted s1 (credit_key tr)) ts))" by auto
  have "filter (\<lambda>x. \<not> posted s1 (credit_key x)) ts = filter (\<lambda>x. \<not> posted s (credit_key x)) ts"
    using s1 Cons.prems(5) by (intro filter_cong) (auto simp: image_iff)
  moreover have "posted t (credit_key tr)"
  proof -
    have "extends (ledger_transactions s1) (ledger_transactions t)"
      using stepsD [OF history.steps_for_each [OF history.steps_credit] t(1)] by (simp add: history_kept_def)
    moreover have "posted s1 (credit_key tr)" using s1 by blast
    ultimately show ?thesis by (auto simp: posted_def extends_def list_ex_iff)
  qed
  ultimately show ?case using 1 t s1 by (intro exI [of _ t]) simp
qed

text \<open>The writes around the crediting: they leave transfers and ledger alone.\<close>

definition same_core :: "db \<Rightarrow> db \<Rightarrow> bool" where
  "same_core s t \<longleftrightarrow> invoices t = invoices s \<and> token_transfers t = token_transfers s \<and>
     ledger_transactions t = ledger_transactions s \<and> ledger_entries t = ledger_entries s"

lemma same_core_simps: assumes "same_core s t" shows
  "find_invoice i t = find_invoice i s" "posted t k = posted s k" "token_transfers t = token_transfers s"
  "ledger_entries t = ledger_entries s" "invoices t = invoices s"
  using assms by (simp_all add: same_core_def find_invoice_def posted_def)

lemma same_core_trans: "same_core s t \<Longrightarrow> same_core t u \<Longrightarrow> same_core s u"
  by (simp add: same_core_def)

lemma event_ok: "\<exists>t. recordEvent gen i ty a b actor pl s = Inr ((), t) \<and> same_core s t"
  by (simp add: recordEvent_Inr same_core_def)

lemma webhook_ok:
  assumes "find_invoice i s = Some row"
  shows "\<exists>t. emitWebhook gen i st s = Inr ((), t) \<and> same_core s t"
proof (cases "webhookEventForStatus st")
  case None then show ?thesis by (simp add: emitWebhook_def same_core_def)
next
  case (Some ev)
  then show ?thesis using assms
    by (auto simp: emitWebhook_def invoice_or_throw_def upsert_webhook_def fresh_id_def same_core_def)
qed

text \<open>A status change with its event and its webhook.\<close>

definition move_to :: "(nat \<Rightarrow> string) \<Rightarrow> string \<Rightarrow> (invoice \<Rightarrow> invoice) \<Rightarrow> string \<Rightarrow> invoice_status \<Rightarrow> invoice_status \<Rightarrow>
  (string \<times> json) list \<Rightarrow> unit tx \<Rightarrow> unit tx" where
  "move_to gen i f ty a b pl rest =
     bind_op (transition_result (assertTransition a b MONITOR)) (\<lambda>_.
     seq_op (update_invoice i f) (seq_op (recordEvent gen i ty a b ''monitor'' pl) (seq_op (emitWebhook gen i b) rest)))"

lemma move_to_ok:
  assumes "find_invoice i s = Some r" "\<And>x. inv_id (f x) = inv_id x" "is_ok (assertTransition a b MONITOR)"
  shows "\<exists>s1. move_to gen i f ty a b pl rest s = rest s1 \<and> find_invoice i s1 = Some (f r) \<and>
    token_transfers s1 = token_transfers s \<and> ledger_transactions s1 = ledger_transactions s \<and> ledger_entries s1 = ledger_entries s"
proof -
  let ?s = "s\<lparr>invoices := update_rows (\<lambda>x. inv_id x = i) f (invoices s)\<rparr>"
  obtain rule where rule: "assertTransition a b MONITOR = Inr rule" using assms(3) by (auto simp: is_ok_def split: sum.splits)
  have up: "update_invoice i f s = Inr ((), ?s)" using assms(1) by (simp add: update_invoice_Inr)
  have f: "find_invoice i ?s = Some (f r)"
    using assms(1) find_invoice_id [OF assms(1)] find_invoice_update [of f i i s] assms(2) by simp
  obtain s1 where 1: "recordEvent gen i ty a b ''monitor'' pl ?s = Inr ((), s1)" "same_core ?s s1" using event_ok by blast
  have f1: "find_invoice i s1 = Some (f r)" using f same_core_simps [OF 1(2)] by simp
  obtain s2 where 2: "emitWebhook gen i b s1 = Inr ((), s2)" "same_core s1 s2" using webhook_ok [OF f1] by blast
  have "move_to gen i f ty a b pl rest s = rest s2" using rule up 1(1) 2(1) by (simp add: move_to_def)
  moreover have "find_invoice i s2 = Some (f r)" using f1 same_core_simps [OF 2(2)] by simp
  moreover have "same_core ?s s2" using 1(2) 2(2) by (rule same_core_trans)
  ultimately show ?thesis by (intro exI [of _ s2]) (simp add: same_core_def)
qed

lemma move_to_gate: "move_to gen i f ty a b pl rest s = Inr r \<Longrightarrow> is_ok (assertTransition a b MONITOR)"
  by (cases r) (auto simp: move_to_def bind_op_Inr_iff lifted_result_Inr is_ok_def)

lemma move_to_Inr:
  assumes "move_to gen i f ty a b pl rest s = Inr (u, t)" "find_invoice i s = Some r" "\<And>x. inv_id (f x) = inv_id x"
  shows "\<exists>s1. rest s1 = Inr (u, t) \<and> find_invoice i s1 = Some (f r) \<and> ledger_entries s1 = ledger_entries s"
proof -
  obtain s1 where "move_to gen i f ty a b pl rest s = rest s1" "find_invoice i s1 = Some (f r)" "ledger_entries s1 = ledger_entries s"
    using move_to_ok [of i s r f a b gen ty pl rest] assms(2,3) move_to_gate [OF assms(1)] by blast
  with assms(1) show ?thesis by auto
qed

lemma apply_outcome_move:
  "canTransition (inv_status row) target \<Longrightarrow> apply_outcome gen now row m target ts =
     move_to gen (inv_id row) (\<lambda>i. i\<lparr>inv_status := target, inv_receivedAmount := confirmed_total row ts,
          inv_confirmedAmount := confirmed_total row ts, inv_confirmationCount := Max (set (map tt_confirmations ts))\<rparr>)
       (''payment.'' @ toLowerCase (status_name target)) (inv_status row) target []
       (if \<not> auto_accept m target then ret () else settle gen now row m target ts)"
  by (simp add: apply_outcome_def move_to_def Let_def)

lemma settle_PAID: "settle gen now row m PAID ts =
  seq_op (update_invoice (inv_id row) (\<lambda>i. i\<lparr>inv_paidAt := Some now\<rparr>)) (for_each (credit_transfer gen now row m) (confirmed_of row ts))"
  by (simp add: settle_def)

lemma seq_op_ret [simp]: "seq_op m (ret ()) = m"
  by (rule ext) (simp add: seq_op_def bind_op_def split: sum.splits prod.splits)

lemma seq_op_assoc: "seq_op (seq_op a b) c = seq_op a (seq_op b c)" "seq_op (bind_op x f) c = bind_op x (\<lambda>y. seq_op (f y) c)"
  by (auto simp: fun_eq_iff seq_op_def bind_op_def split: sum.splits prod.splits)

lemma settle_move:
  assumes "target \<noteq> PAID"
  shows "settle gen now row m target ts =
     move_to gen (inv_id row) (\<lambda>i. i\<lparr>inv_status := PAID, inv_paidAt := Some now\<rparr>) ''payment.paid'' target PAID
       [(''acceptedVia'', JStr (if target = OVERPAID then ''overpayment_policy:ACCEPT_FULL''
                                      else ''underpayment_policy:ACCEPT_PARTIAL''))]
       (for_each (credit_transfer gen now row m) (confirmed_of row ts))"
  using assms by (simp add: settle_def move_to_def seq_op_assoc)

lemma settle_ok:
  assumes f: "find_invoice (inv_id row) s = Some r" "inv_status r = target" "auto_accept m target"
    and ts: "\<forall>tr \<in> set (confirmed_of row ts). 0 < tt_amount tr \<and> tt_id tr \<in> set (map tt_id (token_transfers s))"
    and m: "inv_merchantId row \<noteq> []" "0 \<le> mer_feeBps m" "mer_feeBps m < 10000"
    and keys: "distinct (map credit_key (confirmed_of row ts))"
  shows "\<exists>t. settle gen now row m target ts s = Inr ((), t) \<and>
    find_invoice (inv_id row) t = Some (r\<lparr>inv_status := PAID, inv_paidAt := Some now\<rparr>) \<and>
    (\<forall>tr \<in> set (confirmed_of row ts). posted t (credit_key tr)) \<and>
    total DEBIT (ledger_entries t) = total DEBIT (ledger_entries s) +
      sum_list (map tt_amount (filter (\<lambda>tr. \<not> posted s (credit_key tr)) (confirmed_of row ts)))"
proof -
  let ?loop = "for_each (credit_transfer gen now row m) (confirmed_of row ts)"
  have "\<exists>s1. settle gen now row m target ts s = ?loop s1 \<and> find_invoice (inv_id row) s1 = Some (r\<lparr>inv_status := PAID, inv_paidAt := Some now\<rparr>) \<and>
    token_transfers s1 = token_transfers s \<and> ledger_transactions s1 = ledger_transactions s \<and> ledger_entries s1 = ledger_entries s"
  proof (cases "target = PAID")
    case True
    let ?s = "s\<lparr>invoices := update_rows (\<lambda>x. inv_id x = inv_id row) (\<lambda>i. i\<lparr>inv_paidAt := Some now\<rparr>) (invoices s)\<rparr>"
    have "update_invoice (inv_id row) (\<lambda>i. i\<lparr>inv_paidAt := Some now\<rparr>) s = Inr ((), ?s)" using f by (simp add: update_invoice_Inr)
    moreover have "find_invoice (inv_id row) ?s = Some (r\<lparr>inv_status := PAID, inv_paidAt := Some now\<rparr>)"
      using f True find_invoice_id [OF f(1)] find_invoice_update [of "\<lambda>i. i\<lparr>inv_paidAt := Some now\<rparr>" "inv_id row" "inv_id row" s] by auto
    ultimately show ?thesis using True by (intro exI [of _ ?s]) (simp add: settle_PAID)
  next
    case False
    with f(3) have "target \<in> {OVERPAID, UNDERPAID}" by (auto simp: auto_accept_def)
    moreover have "is_ok (assertTransition OVERPAID PAID MONITOR) \<and> is_ok (assertTransition UNDERPAID PAID MONITOR)" by code_simp
    ultimately have "is_ok (assertTransition target PAID MONITOR)" by blast
    then show ?thesis unfolding settle_move [OF False]
      by (rule move_to_ok [OF f(1), where f = "\<lambda>i. i\<lparr>inv_status := PAID, inv_paidAt := Some now\<rparr>", rotated]) simp
  qed
  then obtain s1 where s1: "settle gen now row m target ts s = ?loop s1"
    "find_invoice (inv_id row) s1 = Some (r\<lparr>inv_status := PAID, inv_paidAt := Some now\<rparr>)"
    "token_transfers s1 = token_transfers s" "ledger_transactions s1 = ledger_transactions s" "ledger_entries s1 = ledger_entries s"
    by blast
  have "posted s1 k = posted s k" for k using s1(4) by (simp add: posted_def)
  with credit_loop [of "confirmed_of row ts" s1 row m gen now] ts m keys s1 show ?thesis
    by (auto simp: find_invoice_def)
qed

section \<open>The evaluation decides\<close>

text \<open>What the invoice and its confirmed transfers evaluate to.\<close>

definition evaluated :: "invoice \<Rightarrow> token_transfer list \<Rightarrow> payment_error + payment_evaluation" where
  "evaluated row ts = evaluatePayment
     (fromUnits (inv_cryptoAmount row) (inv_paymentAsset row) (inv_paymentDecimals row))
     (fromUnits (confirmed_total row ts) (inv_paymentAsset row) (inv_paymentDecimals row))
     (Some (inv_underpaymentToleranceBps row)) (Some (inv_overpaymentToleranceBps row))"

lemma finalize_eval:
  assumes "find_invoice i s = Some row" "find_merchant (inv_merchantId row) s = Some m"
    "confirmed_total row (countable_transfers i s) \<noteq> 0" "evaluated row (countable_transfers i s) = Inr e"
    "statusForOutcome (pe_outcome e) = Some target" "canTransition (inv_status row) target"
  shows "finalizeInvoice gen now i s = apply_outcome gen now row m target (countable_transfers i s) s"
proof -
  have "target \<in> {PAID, UNDERPAID, OVERPAID}" using assms(5) by (cases "pe_outcome e") auto
  with assms show ?thesis
    by (auto simp: finalizeInvoice_def invoice_or_throw_def merchant_or_throw_def evaluated_def)
qed

lemma canTransition_of_ok: "is_ok (assertTransition a b actor) \<Longrightarrow> canTransition a b"
  by (auto simp: assertTransition_def is_ok_def canTransition_def split: option.splits sum.splits if_splits)

text \<open>The constraints of the schema on the rows a settlement reads.\<close>

definition settleable :: "invoice \<Rightarrow> merchant \<Rightarrow> token_transfer list \<Rightarrow> bool" where
  "settleable row m ts \<longleftrightarrow> inv_merchantId row \<noteq> [] \<and> 0 \<le> mer_feeBps m \<and> mer_feeBps m < 10000 \<and>
     list_all (\<lambda>t. 0 < tt_amount t) ts \<and> distinct (map credit_key ts)"


lemma credit_loop_invoices: "for_each (credit_transfer gen now row m) ts s = Inr (u, t) \<Longrightarrow> invoices t = invoices s"
proof (induction ts arbitrary: s)
  case (Cons tr ts)
  then show ?case using credit_transfer_Inr [of gen now row m tr s] by (fastforce simp: seq_op_Inr_iff)
qed simp

lemma settle_PAID_status:
  assumes "settle gen now row m target ts s = Inr (u, t)" "find_invoice (inv_id row) s = Some r" "inv_status r = target"
  shows "status_of (inv_id row) t = Some PAID"
proof (cases "target = PAID")
  case True
  with assms(1) obtain s1 where "update_invoice (inv_id row) (\<lambda>i. i\<lparr>inv_paidAt := Some now\<rparr>) s = Inr ((), s1)"
    and loop: "for_each (credit_transfer gen now row m) (confirmed_of row ts) s1 = Inr (u, t)"
    by (auto simp: settle_PAID seq_op_Inr_iff)
  then have "status_of (inv_id row) s1 = Some PAID"
    using assms(2,3) True by (auto simp: update_invoice_Inr status_of_update)
  then show ?thesis using status_of_frame [OF credit_loop_invoices [OF loop]] by simp
next
  case False
  note run = assms(1) [unfolded settle_move [OF False]]
  obtain s1 where "for_each (credit_transfer gen now row m) (confirmed_of row ts) s1 = Inr (u, t)"
    "find_invoice (inv_id row) s1 = Some (r\<lparr>inv_status := PAID, inv_paidAt := Some now\<rparr>)"
    using move_to_Inr [OF run assms(2)] by auto
  then show ?thesis using status_of_frame [OF credit_loop_invoices] by (simp add: status_of_def)
qed

lemma outcome_PAID:
  assumes run: "apply_outcome gen now row m target ts s = Inr (u, t)" and row: "find_invoice (inv_id row) s = Some row"
    and "ledger_entries t \<noteq> ledger_entries s"
  shows "auto_accept m target \<and> status_of (inv_id row) t = Some PAID"
proof -
  let ?f = "\<lambda>i. i\<lparr>inv_status := target, inv_receivedAmount := confirmed_total row ts,
    inv_confirmedAmount := confirmed_total row ts, inv_confirmationCount := Max (set (map tt_confirmations ts))\<rparr>"
  have can: "canTransition (inv_status row) target"
    using assms by (auto simp: apply_outcome_def Let_def split: if_splits)
  obtain s1 where "(if \<not> auto_accept m target then ret () else settle gen now row m target ts) s1 = Inr (u, t)"
    "find_invoice (inv_id row) s1 = Some (?f row)" "ledger_entries s1 = ledger_entries s"
    using move_to_Inr [OF run [unfolded apply_outcome_move [OF can]] row] by auto
  then show ?thesis using assms(3) settle_PAID_status [of gen now row m target ts s1 u t "?f row"]
    by (cases "auto_accept m target") auto
qed

text \<open>The ledger is written only for an invoice that is paid. If finalising an invoice changes
  the entries at all, then the confirmed total was evaluated to an exact payment or to a
  discrepancy the merchant's policy accepts, and the invoice is PAID in the resulting database.\<close>

lemma credit_requires_paid:
  assumes "finalizeInvoice gen now i s = Inr (u, t)" "ledger_entries t \<noteq> ledger_entries s"
  shows "\<exists>row m e target. find_invoice i s = Some row \<and> find_merchant (inv_merchantId row) s = Some m \<and>
    evaluated row (countable_transfers i s) = Inr e \<and> statusForOutcome (pe_outcome e) = Some target \<and>
    auto_accept m target \<and> status_of i t = Some PAID"
proof -
  from assms obtain row m e target where *: "find_invoice i s = Some row" "find_merchant (inv_merchantId row) s = Some m"
      "evaluated row (countable_transfers i s) = Inr e" "statusForOutcome (pe_outcome e) = Some target"
    and run: "apply_outcome gen now row m target (countable_transfers i s) s = Inr (u, t)"
    by (auto simp: finalizeInvoice_def invoice_or_throw_def merchant_or_throw_def bind_op_Inr_iff find_or_throw_Inr_iff
        lifted_result_Inr evaluated_def split: if_splits option.splits)
  have "inv_id row = i" using *(1) by (rule find_invoice_id)
  with * outcome_PAID [OF run _ assms(2)] show ?thesis by auto
qed

section \<open>One credit per on-chain transfer\<close>

lemma split_at_sep:
  assumes "xs @ c # ys = xs' @ c # ys'" "c \<notin> set xs" "c \<notin> set xs'"
  shows "xs = xs' \<and> ys = ys'"
  using assms by (induction xs arbitrary: xs') (auto simp: Cons_eq_append_conv append_eq_Cons_conv)

text \<open>The idempotency key of a credit identifies the transfer on the chain. Two transfers whose
  hashes carry no colon, as no transaction hash does, have the same key exactly when they are the
  same output of the same transaction on the same network.\<close>

lemma credit_key_identifies_transfer:
  assumes "CHR '':'' \<notin> set (tt_txHash x)" "CHR '':'' \<notin> set (tt_txHash y)"
  shows "credit_key x = credit_key y \<longleftrightarrow>
    tt_network x = tt_network y \<and> tt_txHash x = tt_txHash y \<and> tt_transferIndex x = tt_transferIndex y"
proof -
  have net: "CHR '':'' \<notin> set (network_name n)" for n by (cases n) simp_all
  have inj: "network_name m = network_name n \<longleftrightarrow> m = n" for m n by (cases m; cases n) simp_all
  let ?rest = "\<lambda>z. tt_txHash z @ CHR '':'' # show_int (tt_transferIndex z)"
  have "credit_key x = credit_key y \<longleftrightarrow>
      network_name (tt_network x) @ CHR '':'' # ?rest x = network_name (tt_network y) @ CHR '':'' # ?rest y"
    by (simp add: credit_key_def)
  also have "\<dots> \<longleftrightarrow> tt_network x = tt_network y \<and> ?rest x = ?rest y"
    using split_at_sep [OF _ net net] inj by metis
  also have "?rest x = ?rest y \<longleftrightarrow> tt_txHash x = tt_txHash y \<and> tt_transferIndex x = tt_transferIndex y"
    using split_at_sep [OF _ assms] show_int_inj by metis
  finally show ?thesis .
qed

section \<open>Examples\<close>

definition sample_merchant :: merchant where
  "sample_merchant = \<lparr>mer_id = ''mch_1'', mer_name = ''Shop'', mer_underpaymentPolicy = UNDER_MANUAL_REVIEW, mer_overpaymentPolicy = ACCEPT_FULL,
     mer_underpaymentToleranceBps = 0, mer_overpaymentToleranceBps = 0, mer_invoiceExpirySeconds = 1800, mer_feeBps = 100,
     mer_confirmationOverrides = []\<rparr>"

definition sample_invoice :: "invoice_status \<Rightarrow> invoice" where
  "sample_invoice st = \<lparr>inv_id = ''inv_1'', inv_merchantId = ''mch_1'', inv_orderId = ''o1'', inv_externalReference = None, inv_description = None, inv_requestedCurrency = ''USD'',
     inv_requestedDecimals = 2, inv_requestedAmount = 1000, inv_paymentAsset = ''USDT'', inv_paymentDecimals = 6,
     inv_network = ETHEREUM, inv_tokenContract = None, inv_cryptoAmount = 1000, inv_exchangeRate = None, inv_exchangeRateProvider = None, inv_exchangeRateAt = None,
     inv_underpaymentPolicy = UNDER_MANUAL_REVIEW, inv_overpaymentPolicy = ACCEPT_FULL,
     inv_underpaymentToleranceBps = 0, inv_overpaymentToleranceBps = 0, inv_requiredConfirmations = 3,
     inv_status = st, inv_receivedAmount = 0, inv_confirmedAmount = 0, inv_confirmationCount = 0, inv_callbackUrl = None, inv_redirectUrl = None, inv_metadata = [], inv_expiresAt = 50,
     inv_detectedAt = None, inv_paidAt = None, inv_cancelledAt = None, inv_expiredAt = None, inv_version = 0, inv_createdAt = 0\<rparr>"

definition sample_transfer :: "string \<Rightarrow> int \<Rightarrow> token_transfer" where
  "sample_transfer asset amount = (blank_transfer 0 ''ttr_1'' ''tx_1'')\<lparr>tt_network := ETHEREUM, tt_txHash := ''0xab'',
     tt_assetSymbol := asset, tt_amount := amount, tt_invoiceId := Some ''inv_1'', tt_matchStatus := PENDING_CONFIRMATION,
     tt_confirmations := 3\<rparr>"

definition sample_db :: "invoice_status \<Rightarrow> string \<Rightarrow> int \<Rightarrow> db" where
  "sample_db st asset amount = empty_db\<lparr>merchants := [sample_merchant], invoices := [sample_invoice st],
     token_transfers := [sample_transfer asset amount]\<rparr>"

lemma sample_lookups [simp]:
  "find_invoice ''inv_1'' (sample_db st a x) = Some (sample_invoice st)"
  "find_merchant ''mch_1'' (sample_db st a x) = Some sample_merchant"
  "countable_transfers ''inv_1'' (sample_db st a x) = [sample_transfer a x]"
  "confirmed_of (sample_invoice st) [sample_transfer a x] = [sample_transfer a x]"
  "\<not> posted (sample_db st a x) k"
  by (simp_all add: find_invoice_def find_merchant_def countable_transfers_def sample_db_def sample_invoice_def sample_merchant_def
      sample_transfer_def blank_transfer_def confirmed_of_def posted_def empty_db_def)

lemma sample_settleable: "0 < x \<Longrightarrow> settleable (sample_invoice st) sample_merchant [sample_transfer a x]"
  by (simp add: settleable_def sample_invoice_def sample_merchant_def sample_transfer_def)

lemma sample_columns [simp]: "inv_merchantId (sample_invoice st) = ''mch_1''" "inv_status (sample_invoice st) = st"
  "tt_amount (sample_transfer a x) = x" "confirmed_total (sample_invoice st) [sample_transfer a x] = x"
  by (simp_all add: confirmed_total_def) (simp_all add: sample_invoice_def sample_transfer_def)

lemma sample_exact: "\<exists>e. evaluated (sample_invoice st) [sample_transfer a 1000] = Inr e \<and> statusForOutcome (pe_outcome e) = Some PAID"
proof -
  have "case evaluated (sample_invoice CONFIRMING) [sample_transfer ''USDT'' 1000] of Inl _ \<Rightarrow> False
    | Inr e \<Rightarrow> statusForOutcome (pe_outcome e) = Some PAID" by code_simp
  moreover have "evaluated (sample_invoice st) [sample_transfer a 1000] = evaluated (sample_invoice CONFIRMING) [sample_transfer ''USDT'' 1000]"
    by (simp add: evaluated_def) (simp add: sample_invoice_def)
  ultimately show ?thesis by (auto split: sum.splits)
qed

lemma sample_gate: "is_ok (assertTransition CONFIRMING PAID MONITOR)"
  by code_simp

lemma sample_finalized: "case finalizeInvoice counting_gen 9 ''inv_1'' (sample_db CONFIRMING ''USDT'' 1000) of Inl _ \<Rightarrow> False
  | Inr (_, t) \<Rightarrow> ledger_entries t \<noteq> []"
  by code_simp

definition sample_adapter :: adapter where
  "sample_adapter = \<lparr>ad_getTransaction = (\<lambda>_. Inr None), ad_getTransfers = (\<lambda>_. Inr []),
     ad_getConfirmations = (\<lambda>_. Inr \<lparr>ci_confirmations = 3, ci_blockNumber = Some 7, ci_chainTip = 9\<rparr>)\<rparr>"

definition sample_calls :: "(int \<times> monitor_call) list" where
  "sample_calls = [(8, UpdateConfirmations sample_adapter ETHEREUM), (9, HandleReorg ETHEREUM 7)]"

lemma sample_db_ok: "ledger_ok counting_gen (sample_db st a x) \<and> caches_ok (sample_db st a x) \<and> journals_ok (sample_db st a x)"
  by (simp add: ledger_ok_def caches_ok_def journals_ok_def sample_db_def empty_db_def entries_of_def)


section \<open>Behaviours worth knowing\<close>

text \<open>A transfer of another asset to the address of an invoice settles it: the amounts are summed
  whatever asset they are in.\<close>

lemma other_asset_settles:
  "case finalizeInvoice counting_gen 9 ''inv_1'' (sample_db CONFIRMING ''MATIC'' 1000) of Inl _ \<Rightarrow> False
   | Inr (_, t) \<Rightarrow> status_of ''inv_1'' t = Some PAID \<and> ledger_entries t \<noteq> []"
  by code_simp

text \<open>The guard of finalising an invoice ignores the actor, the assertion after it does not: for an
  invoice in reconciliation a further confirmed transfer makes the call fail.\<close>

lemma finalize_aborts_in_reconciliation:
  "case finalizeInvoice counting_gen 9 ''inv_1'' (sample_db RECONCILIATION_REQUIRED ''USDT'' 1000) of
     Inl (InvalidTransition _) \<Rightarrow> True | _ \<Rightarrow> False"
  by code_simp

text \<open>A transfer that confirms after its invoice was paid stays pending.\<close>

lemma pending_after_paid:
  "let t = run_calls counting_gen 0 sample_calls (sample_db PAID ''USDT'' 1000) in
     map tt_matchStatus (token_transfers t) = [PENDING_CONFIRMATION] \<and> ledger_entries t = []"
  by code_simp

text \<open>Updating the confirmations of an underpaid invoice again, with nothing new on the chain, moves
  it to CONFIRMING and back and appends two more events.\<close>

lemma underpaid_cycles:
  "let s = run_calls counting_gen 0 [(8, UpdateConfirmations sample_adapter ETHEREUM)] (sample_db CONFIRMING ''USDT'' 400);
       t = run_calls counting_gen 0 [(8, UpdateConfirmations sample_adapter ETHEREUM)] s in
     status_of ''inv_1'' s = Some UNDERPAID \<and> status_of ''inv_1'' t = Some UNDERPAID \<and>
     length (payment_events t) = length (payment_events s) + 2"
  by code_simp

end
