(* ===== verification/Expiry.thy ===== *)
theory Expiry
  imports Settlement
begin

text \<open>
  The expiry sweep of the worker (\<open>apps/worker/src/expiry-sweep.ts\<close>): a query for the overdue
  invoices, oldest deadline first and at most a batch of them, then one transaction per invoice that
  re-checks and expires it. Rows with equal deadlines are taken in table order.
\<close>

section \<open>The sweep\<close>

definition SWEEPABLE_STATUSES :: "invoice_status list" where
  "SWEEPABLE_STATUSES = [PENDING, UNDERPAID]"

record expiry_sweep_result =
  sw_candidates :: nat
  sw_expired :: nat

definition expireOne :: "(nat \<Rightarrow> string) \<Rightarrow> string \<Rightarrow> int \<Rightarrow> bool tx" where
  "expireOne gen invoiceId now =
     bind_op (invoice_or_throw invoiceId) (\<lambda>invoice.
     let status = inv_status invoice in
     if \<not> isActorAllowed status EXPIRED SYSTEM \<or> \<not> ed_expired (evaluateExpiry (inv_expiresAt invoice) now) then ret False
     else
       bind_op (transition_result (assertTransition status EXPIRED SYSTEM)) (\<lambda>_.
       seq_op (update_invoice invoiceId (\<lambda>i. i\<lparr>inv_status := EXPIRED, inv_expiredAt := Some now, inv_version := inv_version i + 1\<rparr>))
       (seq_op (recordEvent gen invoiceId ''payment.expired'' status EXPIRED ''system:worker'' [])
       (seq_op (case webhookEventForStatus EXPIRED of None \<Rightarrow> ret ()
                | Some eventType \<Rightarrow> upsert_webhook gen eventType invoice)
       (ret True)))))"

definition sweep_candidates :: "nat \<Rightarrow> int \<Rightarrow> db \<Rightarrow> invoice list" where
  "sweep_candidates batchSize now s = take batchSize (sort_key inv_expiresAt
     (filter (\<lambda>i. inv_status i \<in> set SWEEPABLE_STATUSES \<and> inv_expiresAt i \<le> now) (invoices s)))"

definition sweepExpiredInvoices :: "(nat \<Rightarrow> string) \<Rightarrow> nat \<Rightarrow> int \<Rightarrow> expiry_sweep_result service" where
  "sweepExpiredInvoices gen batchSize now =
     pbind (preads (sweep_candidates batchSize now)) (\<lambda>candidates.
     pbind (pfold (\<lambda>c expired. pbind (atomically (expireOne gen (inv_id c) now)) (\<lambda>didExpire.
        pret (if didExpire then expired + 1 else expired))) candidates 0) (\<lambda>expired.
     pret \<lparr>sw_candidates = length candidates, sw_expired = expired\<rparr>))"

section \<open>What one step does\<close>

definition expire_row :: "int \<Rightarrow> invoice \<Rightarrow> invoice" where
  "expire_row now i = i\<lparr>inv_status := EXPIRED, inv_expiredAt := Some now, inv_version := inv_version i + 1\<rparr>"

definition overdue :: "int \<Rightarrow> invoice \<Rightarrow> bool" where
  "overdue now i \<longleftrightarrow> inv_status i \<in> set SWEEPABLE_STATUSES \<and> inv_expiresAt i \<le> now"

lemma expire_row_id [simp]: "inv_id (expire_row now i) = inv_id i"
  by (simp add: expire_row_def)

lemma system_expires: "isActorAllowed st EXPIRED SYSTEM \<longleftrightarrow> st \<in> set SWEEPABLE_STATUSES"
  "is_ok (assertTransition st EXPIRED SYSTEM) \<longleftrightarrow> st \<in> set SWEEPABLE_STATUSES"
proof -
  have "list_all (\<lambda>st. isActorAllowed st EXPIRED SYSTEM = (st \<in> set SWEEPABLE_STATUSES) \<and>
    is_ok (assertTransition st EXPIRED SYSTEM) = (st \<in> set SWEEPABLE_STATUSES)) all_statuses" by code_simp
  then show "isActorAllowed st EXPIRED SYSTEM \<longleftrightarrow> st \<in> set SWEEPABLE_STATUSES"
    "is_ok (assertTransition st EXPIRED SYSTEM) \<longleftrightarrow> st \<in> set SWEEPABLE_STATUSES"
    using UNIV_statuses by (auto simp: list_all_iff)
qed

text \<open>The tables the sweep never touches.\<close>

definition money_untouched :: "db \<Rightarrow> db \<Rightarrow> bool" where
  "money_untouched s t \<longleftrightarrow> ledger_entries t = ledger_entries s \<and> ledger_transactions t = ledger_transactions s \<and>
     ledger_accounts t = ledger_accounts s \<and> token_transfers t = token_transfers s \<and> merchants t = merchants s \<and>
     payment_addresses t = payment_addresses s"

lemma money_untouched_refl [simp]: "money_untouched s s"
  by (simp add: money_untouched_def)

lemma money_untouched_trans: "money_untouched s t \<Longrightarrow> money_untouched t u \<Longrightarrow> money_untouched s u"
  by (simp add: money_untouched_def)

lemma upsert_webhook_frame:
  "\<exists>t. upsert_webhook gen ev row s = Inr ((), t) \<and> invoices t = invoices s \<and> money_untouched s t \<and> payment_events t = payment_events s"
  by (auto simp: upsert_webhook_def fresh_id_def money_untouched_def)

lemma expireOne_overdue:
  assumes "find_invoice i s = Some row" "overdue now row"
  shows "\<exists>t. expireOne gen i now s = Inr (True, t) \<and>
    invoices t = update_rows (\<lambda>r. inv_id r = i) (expire_row now) (invoices s) \<and> money_untouched s t"
proof -
  let ?s = "s\<lparr>invoices := update_rows (\<lambda>r. inv_id r = i) (expire_row now) (invoices s)\<rparr>"
  have st: "inv_status row \<in> set SWEEPABLE_STATUSES" "inv_expiresAt row \<le> now" using assms(2) by (simp_all add: overdue_def)
  then obtain rule where rule: "assertTransition (inv_status row) EXPIRED SYSTEM = Inr rule"
    using system_expires(2) [of "inv_status row"] by (auto simp: is_ok_iff)
  have up: "update_invoice i (\<lambda>i. i\<lparr>inv_status := EXPIRED, inv_expiredAt := Some now, inv_version := inv_version i + 1\<rparr>) s = Inr ((), ?s)"
    using assms(1) by (simp add: update_invoice_Inr expire_row_def [abs_def])
  obtain s1 where 1: "recordEvent gen i ''payment.expired'' (inv_status row) EXPIRED ''system:worker'' [] ?s = Inr ((), s1)"
    "invoices s1 = invoices ?s" "money_untouched ?s s1" by (simp add: recordEvent_Inr money_untouched_def)
  obtain ev where ev: "webhookEventForStatus EXPIRED = Some ev" by simp
  obtain s2 where 2: "upsert_webhook gen ev row s1 = Inr ((), s2)" "invoices s2 = invoices s1" "money_untouched s1 s2"
    using upsert_webhook_frame by blast
  have "expireOne gen i now s = Inr (True, s2)"
    using assms(1) st rule up 1(1) 2(1) ev by (simp add: expireOne_def invoice_or_throw_def Let_def system_expires(1) evaluateExpiry_def)
  moreover have "money_untouched s ?s" by (simp add: money_untouched_def)
  ultimately show ?thesis using 1 2 by (intro exI [of _ s2]) (auto intro: money_untouched_trans)
qed

lemma expireOne_other:
  "find_invoice i s = Some row \<Longrightarrow> \<not> overdue now row \<Longrightarrow> expireOne gen i now s = Inr (False, s)"
  by (auto simp: expireOne_def invoice_or_throw_def Let_def system_expires(1) evaluateExpiry_def overdue_def)

section \<open>The whole sweep\<close>

definition sweep_step :: "(nat \<Rightarrow> string) \<Rightarrow> int \<Rightarrow> invoice \<Rightarrow> nat \<Rightarrow> nat service" where
  "sweep_step gen now c expired = pbind (atomically (expireOne gen (inv_id c) now)) (\<lambda>didExpire.
     pret (if didExpire then expired + 1 else expired))"

lemma sweep_step_ok: "expireOne gen (inv_id c) now s = Inr (True, t) \<Longrightarrow> sweep_step gen now c n s = (Inr (n + 1), t)"
  by (simp add: sweep_step_def pbind_def atomically_def)

definition expire_rows :: "int \<Rightarrow> string set \<Rightarrow> invoice list \<Rightarrow> invoice list" where
  "expire_rows now ids rows = map (\<lambda>i. if inv_id i \<in> ids then expire_row now i else i) rows"

lemma expire_rows_update:
  assumes "i \<notin> ids"
  shows "expire_rows now ids (update_rows (\<lambda>r. inv_id r = i) (expire_row now) rows) = expire_rows now (insert i ids) rows"
  using assms by (induction rows) (auto simp: expire_rows_def update_rows_def)

lemma expire_other_row:
  assumes "invoices t = update_rows (\<lambda>r. inv_id r = i) (expire_row now) (invoices s)" "j \<noteq> i"
  shows "find_invoice j t = find_invoice j s"
proof -
  have "find_invoice j t = map_option (\<lambda>r. if inv_id r = i then expire_row now r else r) (find_invoice j s)"
    unfolding find_invoice_def assms(1) by (rule find_update_rows) simp
  then show ?thesis using assms(2) find_invoice_id [of j s] by (cases "find_invoice j s") auto
qed

lemma sweep_loop:
  assumes "distinct (map inv_id cs)" "\<forall>c \<in> set cs. find_invoice (inv_id c) s = Some c \<and> overdue now c"
  shows "\<exists>t. pfold (sweep_step gen now) cs n s = (Inr (n + length cs), t) \<and>
    invoices t = expire_rows now (inv_id ` set cs) (invoices s) \<and> money_untouched s t"
  using assms
proof (induction cs arbitrary: n s)
  case Nil then show ?case by (simp add: expire_rows_def)
next
  case (Cons c cs)
  obtain s1 where 1: "expireOne gen (inv_id c) now s = Inr (True, s1)"
    "invoices s1 = update_rows (\<lambda>r. inv_id r = inv_id c) (expire_row now) (invoices s)" "money_untouched s s1"
    using expireOne_overdue [of "inv_id c" s c now gen] Cons.prems(2) by auto
  have keep: "find_invoice j s1 = find_invoice j s" if "j \<noteq> inv_id c" for j
    using 1(2) that by (rule expire_other_row)
  have "inv_id c \<notin> inv_id ` set cs" using Cons.prems(1) by simp
  have rest: "\<forall>c \<in> set cs. find_invoice (inv_id c) s1 = Some c \<and> overdue now c"
  proof
    fix d assume "d \<in> set cs"
    then have "inv_id d \<noteq> inv_id c" using \<open>inv_id c \<notin> inv_id ` set cs\<close> by (metis imageI)
    with \<open>d \<in> set cs\<close> show "find_invoice (inv_id d) s1 = Some d \<and> overdue now d" using Cons.prems(2) keep by simp
  qed
  have "distinct (map inv_id cs)" using Cons.prems(1) by simp
  from Cons.IH [OF this rest, of "n + 1"] obtain t where
    t: "pfold (sweep_step gen now) cs (n + 1) s1 = (Inr (n + 1 + length cs), t)"
      "invoices t = expire_rows now (inv_id ` set cs) (invoices s1)" "money_untouched s1 t" by blast
  have "invoices t = expire_rows now (inv_id ` set (c # cs)) (invoices s)"
    using t(2) 1(2) expire_rows_update [OF \<open>inv_id c \<notin> inv_id ` set cs\<close>] by simp
  moreover have "money_untouched s t" using 1(3) t(3) by (rule money_untouched_trans)
  moreover have "pfold (sweep_step gen now) (c # cs) n s = (Inr (n + length (c # cs)), t)"
    using t(1) by (simp add: pbind_def [of "sweep_step gen now c n"] sweep_step_ok [OF 1(1)])
  ultimately show ?case by blast
qed

lemma candidates_overdue: "sweep_candidates b now s = take b (sort_key inv_expiresAt (filter (overdue now) (invoices s)))"
  unfolding sweep_candidates_def overdue_def [abs_def] ..

lemma find_distinct_invoice: "distinct (map inv_id (invoices s)) \<Longrightarrow> c \<in> set (invoices s) \<Longrightarrow> find_invoice (inv_id c) s = Some c"
proof -
  have "distinct (map inv_id rs) \<Longrightarrow> c \<in> set rs \<Longrightarrow> find (\<lambda>r. inv_id r = inv_id c) rs = Some c" for rs
    by (induction rs) auto
  then show "distinct (map inv_id (invoices s)) \<Longrightarrow> c \<in> set (invoices s) \<Longrightarrow> find_invoice (inv_id c) s = Some c"
    by (simp add: find_invoice_def)
qed

lemma distinct_map_sort_filter: "distinct (map f xs) \<Longrightarrow> distinct (map f (take n (sort_key k (filter P xs))))"
proof -
  assume "distinct (map f xs)"
  then have "distinct (map f (filter P xs))" by (rule distinct_map_filter)
  then have "distinct (map f (sort_key k (filter P xs)))" by (simp add: distinct_map)
  then show ?thesis by (simp flip: take_map)
qed

text \<open>The expiry sweep always completes and expires exactly its candidates: it reports as many
  expired as it found, every candidate is EXPIRED with the time of the sweep, every other invoice is
  unchanged, and neither the ledger nor a transfer is touched. The candidates are overdue PENDING or
  UNDERPAID invoices, as many as the batch allows, and none of those left behind has an older
  deadline than one that was taken, so a backlog is worked off in the order of its deadlines.\<close>

lemma sweep_expires_oldest_first:
  assumes "distinct (map inv_id (invoices s))"
  shows "\<exists>t. sweepExpiredInvoices gen b now s =
      (Inr \<lparr>sw_candidates = length (sweep_candidates b now s), sw_expired = length (sweep_candidates b now s)\<rparr>, t) \<and>
    invoices t = map (\<lambda>i. if i \<in> set (sweep_candidates b now s) then expire_row now i else i) (invoices s) \<and>
    money_untouched s t \<and> length (sweep_candidates b now s) = min b (length (filter (overdue now) (invoices s))) \<and>
    (\<forall>c \<in> set (sweep_candidates b now s). overdue now c \<and> c \<in> set (invoices s) \<and>
       (\<forall>i \<in> set (invoices s). overdue now i \<longrightarrow> i \<in> set (sweep_candidates b now s) \<or> inv_expiresAt c \<le> inv_expiresAt i))"
proof -
  let ?cs = "sweep_candidates b now s" and ?all = "sort_key inv_expiresAt (filter (overdue now) (invoices s))"
  have sub: "c \<in> set (invoices s) \<and> overdue now c" if "c \<in> set ?cs" for c
    using that set_take_subset [of b ?all] by (auto simp: candidates_overdue)
  have d: "distinct (map inv_id ?cs)" using distinct_map_sort_filter [OF assms] by (simp add: candidates_overdue)
  obtain t where t: "pfold (sweep_step gen now) ?cs 0 s = (Inr (0 + length ?cs), t)"
    "invoices t = expire_rows now (inv_id ` set ?cs) (invoices s)" "money_untouched s t"
    using sweep_loop [OF d, of s now gen 0] sub find_distinct_invoice [OF assms] by blast
  have "sweepExpiredInvoices gen b now s = (Inr \<lparr>sw_candidates = length ?cs, sw_expired = length ?cs\<rparr>, t)"
    using t(1) by (simp add: sweepExpiredInvoices_def sweep_step_def [abs_def] pbind_def [of "pfold _ _ _"])
  moreover have "inv_id i \<in> inv_id ` set ?cs \<longleftrightarrow> i \<in> set ?cs" if "i \<in> set (invoices s)" for i
    using that assms sub by (auto simp: distinct_map dest: inj_onD)
  then have "invoices t = map (\<lambda>i. if i \<in> set ?cs then expire_row now i else i) (invoices s)"
    using t(2) by (simp add: expire_rows_def)
  moreover have "inv_expiresAt c \<le> inv_expiresAt i" if "c \<in> set ?cs" "i \<in> set (invoices s)" "overdue now i" "i \<notin> set ?cs" for c i
  proof -
    have "i \<in> set ?all" using that by simp
    then have "i \<in> set (drop b ?all)" using that(4) by (metis append_take_drop_id candidates_overdue Un_iff set_append)
    moreover have "sorted (map inv_expiresAt (take b ?all @ drop b ?all))" by simp
    ultimately show ?thesis using that(1) unfolding map_append sorted_append candidates_overdue by auto
  qed
  moreover have "length ?cs = min b (length (filter (overdue now) (invoices s)))" by (simp add: candidates_overdue)
  ultimately show ?thesis using t(3) sub by (intro exI [of _ t]) auto
qed

end
