(* ===== verification/Invoices.thy ===== *)
theory Invoices
  imports Expiry
begin

text \<open>
  The invoice service of the API (\<open>apps/api/src/invoices\<close>): creating an invoice with a price frozen at
  the current rate and a deposit address claimed from the merchant's pool, reading one with lazy
  expiry, and cancelling one. The exchange-rate service is an injected dependency and a parameter;
  rows that concurrent transactions hold locked are a parameter of the claim (\<open>SKIP LOCKED\<close>).
  The column \<open>updated_at\<close>, which Prisma maintains, is left out of the rows and of the response.
\<close>

section \<open>Requests and responses\<close>

record merchant_context =
  mc_merchantId :: string
  mc_apiKeyId :: string
  mc_livemode :: bool
  mc_scopes :: "string list"

record create_invoice_dto =
  dto_order_id :: string
  dto_amount :: string
  dto_currency :: string
  dto_asset :: string
  dto_network :: string
  dto_callback_url :: "string option"
  dto_redirect_url :: "string option"
  dto_external_reference :: "string option"
  dto_description :: "string option"
  dto_metadata :: "(string \<times> json) list option"

record invoice_response =
  ir_id :: string
  ir_order_id :: string
  ir_external_reference :: "string option"
  ir_status :: string
  ir_amount :: string
  ir_currency :: string
  ir_asset :: string
  ir_network :: string
  ir_crypto_amount :: string
  ir_received_amount :: string
  ir_confirmed_amount :: string
  ir_payment_address :: "string option"
  ir_payment_uri :: "string option"
  ir_confirmation_count :: int
  ir_required_confirmations :: int
  ir_transaction_hash :: "string option"
  ir_callback_url :: "string option"
  ir_metadata :: "(string \<times> json) list"
  ir_expires_at :: string
  ir_detected_at :: "string option"
  ir_paid_at :: "string option"
  ir_created_at :: string

record invoice_status_response =
  sr_id :: string
  sr_status :: string
  sr_confirmation_count :: int
  sr_required_confirmations :: int
  sr_received_amount :: string
  sr_crypto_amount :: string
  sr_expires_at :: string
  sr_transaction_hash :: "string option"

record public_invoice_response =
  pr_id :: string
  pr_order_id :: string
  pr_status :: string
  pr_merchant_name :: string
  pr_amount :: string
  pr_currency :: string
  pr_asset :: string
  pr_network :: string
  pr_crypto_amount :: string
  pr_received_amount :: string
  pr_confirmed_amount :: string
  pr_payment_address :: "string option"
  pr_payment_uri :: "string option"
  pr_confirmation_count :: int
  pr_required_confirmations :: int
  pr_transaction_hash :: "string option"
  pr_expires_at :: string
  pr_paid_at :: "string option"

definition toInvoiceResponse :: "invoice \<Rightarrow> string option \<Rightarrow> string option \<Rightarrow> money_error + invoice_response" where
  "toInvoiceResponse invoice paymentAddress transactionHash =
     bind_result (toDecimalString (fromUnits (inv_requestedAmount invoice) (inv_requestedCurrency invoice) (inv_requestedDecimals invoice))) (\<lambda>requested.
     bind_result (toDecimalString (fromUnits (inv_cryptoAmount invoice) (inv_paymentAsset invoice) (inv_paymentDecimals invoice))) (\<lambda>crypto.
     bind_result (toDecimalString (fromUnits (inv_receivedAmount invoice) (inv_paymentAsset invoice) (inv_paymentDecimals invoice))) (\<lambda>received.
     bind_result (toDecimalString (fromUnits (inv_confirmedAmount invoice) (inv_paymentAsset invoice) (inv_paymentDecimals invoice))) (\<lambda>confirmed.
     bind_result (if truthy paymentAddress
       then buildPaymentUri (inv_network invoice) (inv_paymentAsset invoice) (the paymentAddress) crypto
       else Inr None) (\<lambda>paymentUri.
     Inr \<lparr>ir_id = inv_id invoice, ir_order_id = inv_orderId invoice, ir_external_reference = inv_externalReference invoice,
       ir_status = status_name (inv_status invoice), ir_amount = requested, ir_currency = inv_requestedCurrency invoice,
       ir_asset = inv_paymentAsset invoice, ir_network = network_name (inv_network invoice), ir_crypto_amount = crypto,
       ir_received_amount = received, ir_confirmed_amount = confirmed, ir_payment_address = paymentAddress,
       ir_payment_uri = paymentUri, ir_confirmation_count = inv_confirmationCount invoice,
       ir_required_confirmations = inv_requiredConfirmations invoice, ir_transaction_hash = transactionHash,
       ir_callback_url = inv_callbackUrl invoice, ir_metadata = inv_metadata invoice,
       ir_expires_at = toISOString (inv_expiresAt invoice), ir_detected_at = map_option toISOString (inv_detectedAt invoice),
       ir_paid_at = map_option toISOString (inv_paidAt invoice), ir_created_at = toISOString (inv_createdAt invoice)\<rparr>)))))"

definition toPublicInvoiceResponse ::
  "invoice \<Rightarrow> string option \<Rightarrow> string option \<Rightarrow> string \<Rightarrow> money_error + public_invoice_response" where
  "toPublicInvoiceResponse invoice paymentAddress transactionHash merchantName =
     bind_result (toInvoiceResponse invoice paymentAddress transactionHash) (\<lambda>full.
     Inr \<lparr>pr_id = ir_id full, pr_order_id = ir_order_id full, pr_status = ir_status full, pr_merchant_name = merchantName,
       pr_amount = ir_amount full, pr_currency = ir_currency full, pr_asset = ir_asset full, pr_network = ir_network full,
       pr_crypto_amount = ir_crypto_amount full, pr_received_amount = ir_received_amount full,
       pr_confirmed_amount = ir_confirmed_amount full, pr_payment_address = ir_payment_address full,
       pr_payment_uri = ir_payment_uri full, pr_confirmation_count = ir_confirmation_count full,
       pr_required_confirmations = ir_required_confirmations full, pr_transaction_hash = ir_transaction_hash full,
       pr_expires_at = ir_expires_at full, pr_paid_at = ir_paid_at full\<rparr>)"

definition toInvoiceStatusResponse :: "invoice \<Rightarrow> string option \<Rightarrow> money_error + invoice_status_response" where
  "toInvoiceStatusResponse invoice transactionHash =
     bind_result (toDecimalString (fromUnits (inv_cryptoAmount invoice) (inv_paymentAsset invoice) (inv_paymentDecimals invoice))) (\<lambda>crypto.
     bind_result (toDecimalString (fromUnits (inv_receivedAmount invoice) (inv_paymentAsset invoice) (inv_paymentDecimals invoice))) (\<lambda>received.
     Inr \<lparr>sr_id = inv_id invoice, sr_status = status_name (inv_status invoice),
       sr_confirmation_count = inv_confirmationCount invoice, sr_required_confirmations = inv_requiredConfirmations invoice,
       sr_received_amount = received, sr_crypto_amount = crypto, sr_expires_at = toISOString (inv_expiresAt invoice),
       sr_transaction_hash = transactionHash\<rparr>))"

section \<open>Rows with their constraints\<close>

definition check_invoice :: "invoice \<Rightarrow> failure + unit" where
  "check_invoice i =
     bind_result (require (inv_cryptoAmount i > 0) (CheckViolation ''invoices_crypto_amount_positive'')) (\<lambda>_.
     bind_result (require (inv_requestedAmount i > 0) (CheckViolation ''invoices_requested_amount_positive'')) (\<lambda>_.
     bind_result (require (inv_requiredConfirmations i > 0) (CheckViolation ''invoices_required_confirmations_positive'')) (\<lambda>_.
     bind_result (require (inv_expiresAt i > inv_createdAt i) (CheckViolation ''invoices_expiry_after_creation'')) (\<lambda>_.
     require (0 \<le> inv_underpaymentToleranceBps i \<and> inv_underpaymentToleranceBps i \<le> 10000 \<and>
              0 \<le> inv_overpaymentToleranceBps i \<and> inv_overpaymentToleranceBps i \<le> 10000)
       (CheckViolation ''invoices_tolerances_sane'')))))"

definition create_invoice :: "invoice \<Rightarrow> unit tx" where
  "create_invoice i = (\<lambda>s.
     if list_ex (\<lambda>r. inv_id r = inv_id i) (invoices s) then Inl (UniqueViolation ''invoices_pkey'')
     else if list_ex (\<lambda>r. inv_merchantId r = inv_merchantId i \<and> inv_orderId r = inv_orderId i) (invoices s)
       then Inl (UniqueViolation ''invoices_merchant_id_order_id_key'')
     else case check_invoice i of Inl e \<Rightarrow> Inl e | Inr _ \<Rightarrow> Inr ((), s\<lparr>invoices := invoices s @ [i]\<rparr>))"

definition update_address :: "string \<Rightarrow> (payment_address \<Rightarrow> payment_address) \<Rightarrow> unit tx" where
  "update_address i f = bind_op
     (find_or_throw (RecordNotFound ''PaymentAddress'' i) (\<lambda>s. find (\<lambda>r. pa_id r = i) (payment_addresses s))) (\<lambda>_.
     modify (\<lambda>s. s\<lparr>payment_addresses := update_rows (\<lambda>r. pa_id r = i) f (payment_addresses s)\<rparr>))"

text \<open>The unique column \<open>invoice_id\<close> of the addresses.\<close>

definition assign_address :: "int \<Rightarrow> string \<Rightarrow> string \<Rightarrow> unit tx" where
  "assign_address now addressId invoiceId = (\<lambda>s.
     if list_ex (\<lambda>a. pa_id a \<noteq> addressId \<and> pa_invoiceId a = Some invoiceId) (payment_addresses s)
     then Inl (UniqueViolation ''payment_addresses_invoice_id_key'')
     else update_address addressId (\<lambda>a. a\<lparr>pa_status := ASSIGNED, pa_invoiceId := Some invoiceId, pa_assignedAt := Some now\<rparr>) s)"

definition create_events :: "payment_event list \<Rightarrow> unit tx" where
  "create_events es = (\<lambda>s.
     if list_ex (\<lambda>e. list_ex (\<lambda>x. ev_invoiceId x = ev_invoiceId e \<and> ev_sequence x = ev_sequence e) (payment_events s)) es
     then Inl (UniqueViolation ''payment_events_invoice_id_sequence_key'')
     else Inr ((), s\<lparr>payment_events := payment_events s @ es\<rparr>))"

definition create_webhook :: "webhook_event \<Rightarrow> unit tx" where
  "create_webhook w = (\<lambda>s.
     if list_ex (\<lambda>x. we_idempotencyKey x = we_idempotencyKey w) (webhook_events s)
     then Inl (UniqueViolation ''webhook_events_idempotency_key_key'')
     else Inr ((), s\<lparr>webhook_events := webhook_events s @ [w]\<rparr>))"

definition invoice_webhook :: "(nat \<Rightarrow> string) \<Rightarrow> string \<Rightarrow> string \<Rightarrow> webhook_event_type \<Rightarrow> json \<Rightarrow> unit tx" where
  "invoice_webhook gen merchantId invoiceId eventType payload =
     bind_op (fresh_id gen WebhookEventId) (\<lambda>i.
     create_webhook \<lparr>we_id = i, we_merchantId = merchantId, we_invoiceId = Some invoiceId, we_type = webhook_event_name eventType,
       we_idempotencyKey = webhook_key eventType invoiceId, we_payload = payload\<rparr>)"

definition address_of :: "string \<Rightarrow> db \<Rightarrow> payment_address option" where
  "address_of invoiceId s = find (\<lambda>a. pa_invoiceId a = Some invoiceId) (payment_addresses s)"

type_synonym invoice_row = "invoice \<times> payment_address option"

definition load_row :: "string \<Rightarrow> invoice_row tx" where
  "load_row i = bind_op (invoice_or_throw i) (\<lambda>row. bind_op (reads (address_of i)) (\<lambda>a. ret (row, a)))"

section \<open>Creating an invoice\<close>

record priced_request =
  rq_network :: network
  rq_currency :: fiat_currency
  rq_asset :: asset_config
  rq_requested :: money

definition validate_request :: "merchant_context \<Rightarrow> create_invoice_dto \<Rightarrow> app_error + priced_request" where
  "validate_request merchant dto =
     (case network_of_name (toUpperCase (dto_network dto)) of
        None \<Rightarrow> Inl (AppError UNSUPPORTED_NETWORK 400 (''unsupported network: '' @ dto_network dto) None)
      | Some network \<Rightarrow>
          let networkConfig = getNetworkConfig network in
          bind_result (assertNetworkMatchesLivemode (mc_livemode merchant) networkConfig) (\<lambda>_.
          (case findFiatCurrency (dto_currency dto) of
            None \<Rightarrow> Inl (ValidationError (''unsupported currency: '' @ dto_currency dto) None)
          | Some currency \<Rightarrow>
              (case findAsset network (toUpperCase (dto_asset dto)) of
                None \<Rightarrow> Inl (AppError UNSUPPORTED_ASSET_CODE 400
                  (''asset '' @ toUpperCase (dto_asset dto) @ '' is not supported on '' @ nc_displayName networkConfig) None)
              | Some asset \<Rightarrow>
                  if \<not> isPriceable asset \<and> ac_symbol asset \<noteq> fc_code currency
                  then Inl (AppError RATE_UNAVAILABLE 422
                    (ac_symbol asset @ '' has no price feed and cannot be priced in '' @ fc_code currency) None)
                  else (case fromDecimal (dto_amount dto) (fc_code currency) (fc_decimals currency) of
                    Inl _ \<Rightarrow> Inl (AppError INVALID_AMOUNT 400 (''invalid amount: '' @ dto_amount dto) None)
                  | Inr requested \<Rightarrow>
                      if \<not> isPositive requested then Inl (AppError INVALID_AMOUNT 400 ''amount must be greater than zero'' None)
                      else Inr \<lparr>rq_network = network, rq_currency = currency, rq_asset = asset, rq_requested = requested\<rparr>)))))"

text \<open>\<open>ORDER BY created_at LIMIT 1 FOR UPDATE SKIP LOCKED\<close>.\<close>

definition pool :: "string \<Rightarrow> network \<Rightarrow> string \<Rightarrow> string list \<Rightarrow> db \<Rightarrow> payment_address list" where
  "pool merchantId network symbol locked s = sort_key pa_createdAt (filter (\<lambda>a. pa_merchantId a = merchantId \<and> pa_network a = network \<and>
     pa_status a = AVAILABLE \<and> (pa_assetSymbol a = None \<or> pa_assetSymbol a = Some symbol) \<and> pa_id a \<notin> set locked) (payment_addresses s))"

definition new_invoice ::
  "int \<Rightarrow> merchant_context \<Rightarrow> create_invoice_dto \<Rightarrow> priced_request \<Rightarrow> exchange_rate \<Rightarrow> money \<Rightarrow> merchant \<Rightarrow> int \<Rightarrow> int \<Rightarrow> string \<Rightarrow> invoice"
where
  "new_invoice now merchant dto rq rate cryptoMoney merchantRecord requiredConfirmations expiresAt i =
     \<lparr>inv_id = i, inv_merchantId = mc_merchantId merchant, inv_orderId = dto_order_id dto,
      inv_externalReference = dto_external_reference dto, inv_description = dto_description dto,
      inv_requestedCurrency = fc_code (rq_currency rq), inv_requestedDecimals = fc_decimals (rq_currency rq),
      inv_requestedAmount = m_units (rq_requested rq), inv_paymentAsset = ac_symbol (rq_asset rq),
      inv_paymentDecimals = ac_decimals (rq_asset rq), inv_network = rq_network rq,
      inv_tokenContract = ac_contractAddress (rq_asset rq), inv_cryptoAmount = m_units cryptoMoney,
      inv_exchangeRate = Some (er_numerator rate), inv_exchangeRateProvider = Some (er_provider rate),
      inv_exchangeRateAt = Some (er_observedAt rate), inv_underpaymentPolicy = mer_underpaymentPolicy merchantRecord,
      inv_overpaymentPolicy = mer_overpaymentPolicy merchantRecord,
      inv_underpaymentToleranceBps = mer_underpaymentToleranceBps merchantRecord,
      inv_overpaymentToleranceBps = mer_overpaymentToleranceBps merchantRecord,
      inv_requiredConfirmations = requiredConfirmations, inv_status = PENDING, inv_receivedAmount = 0,
      inv_confirmedAmount = 0, inv_confirmationCount = 0, inv_callbackUrl = dto_callback_url dto,
      inv_redirectUrl = dto_redirect_url dto,
      inv_metadata = (case dto_metadata dto of None \<Rightarrow> [] | Some m \<Rightarrow> m),
      inv_expiresAt = expiresAt, inv_detectedAt = None, inv_paidAt = None, inv_cancelledAt = None, inv_expiredAt = None,
      inv_version = 0, inv_createdAt = now\<rparr>"

definition creation_events :: "string \<Rightarrow> string \<Rightarrow> string \<Rightarrow> string \<Rightarrow> payment_event list" where
  "creation_events e1 e2 invoiceId addressId =
     [\<lparr>ev_id = e1, ev_invoiceId = invoiceId, ev_type = ''invoice.created'', ev_fromStatus = None, ev_toStatus = Some CREATED,
       ev_sequence = 1, ev_actor = ''system'', ev_payload = []\<rparr>,
      \<lparr>ev_id = e2, ev_invoiceId = invoiceId, ev_type = ''payment.created'', ev_fromStatus = Some CREATED, ev_toStatus = Some PENDING,
       ev_sequence = 2, ev_actor = ''system'', ev_payload = [(''address'', JStr addressId)]\<rparr>]"

definition creation_payload :: "webhook_event_type \<Rightarrow> invoice \<Rightarrow> string \<Rightarrow> json" where
  "creation_payload eventType i amount =
     JObj [(''event'', JStr (webhook_event_name eventType)),
           (''data'', JObj [(''invoice_id'', JStr (inv_id i)), (''order_id'', JStr (inv_orderId i)), (''amount'', JStr amount),
             (''asset'', JStr (inv_paymentAsset i)), (''network'', JStr (network_name (inv_network i)))])]"

text \<open>The transaction, for an invoice that is priced but has no address yet.\<close>

definition create_transaction :: "(nat \<Rightarrow> string) \<Rightarrow> int \<Rightarrow> string list \<Rightarrow> asset_config \<Rightarrow> money \<Rightarrow> invoice \<Rightarrow> invoice_row tx" where
  "create_transaction gen now locked asset cryptoMoney row =
     bind_op (reads (pool (inv_merchantId row) (inv_network row) (ac_symbol asset) locked)) (\<lambda>candidates.
     case candidates of
       [] \<Rightarrow> throw (RequestError (AppError ADDRESS_POOL_EXHAUSTED 422
         (''no available deposit address for '' @ ac_symbol asset @ '' on '' @ nc_displayName (getNetworkConfig (inv_network row)) @
          ''. Register one with POST /v1/merchant/addresses.'') None))
     | addressRow # _ \<Rightarrow>
         bind_op (transition_result (assertTransition CREATED PENDING SYSTEM)) (\<lambda>_.
         seq_op (create_invoice row)
         (seq_op (assign_address now (pa_id addressRow) (inv_id row))
         (bind_op (fresh_id gen PaymentEventId) (\<lambda>e1.
         bind_op (fresh_id gen PaymentEventId) (\<lambda>e2.
         seq_op (create_events (creation_events e1 e2 (inv_id row) (pa_id addressRow)))
         (seq_op (case webhookEventForStatus PENDING of None \<Rightarrow> ret ()
            | Some eventType \<Rightarrow>
                bind_op (money_result (toDecimalString cryptoMoney)) (\<lambda>amount.
                invoice_webhook gen (inv_merchantId row) (inv_id row) eventType (creation_payload eventType row amount)))
         (load_row (inv_id row)))))))))"

definition duplicate_order :: "string \<Rightarrow> failure" where
  "duplicate_order orderId = RequestError (AppError DUPLICATE_ORDER_ID 409
     (''an invoice already exists for order_id \"'' @ orderId @ ''\"'') None)"

definition unique_to_duplicate :: "string \<Rightarrow> failure \<Rightarrow> failure" where
  "unique_to_duplicate orderId e = (case e of UniqueViolation _ \<Rightarrow> duplicate_order orderId | _ \<Rightarrow> e)"

definition createInvoice ::
  "(nat \<Rightarrow> string) \<Rightarrow> int \<Rightarrow> int \<Rightarrow> (string \<Rightarrow> string \<Rightarrow> failure + exchange_rate) \<Rightarrow> string list \<Rightarrow> merchant_context \<Rightarrow>
   create_invoice_dto \<Rightarrow> invoice_response service"
where
  "createInvoice gen now invoiceMaxExpirySeconds getRate locked merchant dto =
     pbind (pfrom_result (map_error RequestError (validate_request merchant dto))) (\<lambda>rq.
     pbind (preads (\<lambda>s. find (\<lambda>i. inv_merchantId i = mc_merchantId merchant \<and> inv_orderId i = dto_order_id dto) (invoices s))) (\<lambda>existingOrder.
     if existingOrder \<noteq> None then pthrow (duplicate_order (dto_order_id dto))
     else
       pbind (pfrom_result (getRate (ac_symbol (rq_asset rq)) (fc_code (rq_currency rq)))) (\<lambda>rate.
       pbind (pfrom_result (map_error MoneyFailure (convertQuoteToBase rate (rq_requested rq) (ac_decimals (rq_asset rq)) Ceil))) (\<lambda>cryptoMoney.
       pbind (atomically (merchant_or_throw (mc_merchantId merchant))) (\<lambda>merchantRecord.
       pbind (pfrom_result (map_error PaymentFailure (effectiveConfirmations (ac_requiredConfirmations (rq_asset rq))
         (map_of (mer_confirmationOverrides merchantRecord) (network_name (rq_network rq)))))) (\<lambda>requiredConfirmations.
       let expirySeconds = min (mer_invoiceExpirySeconds merchantRecord) invoiceMaxExpirySeconds;
           expiresAt = now + expirySeconds * 1000 in
       pbind (atomically (fresh_id gen InvoiceId)) (\<lambda>invoiceId.
       pmap_error (unique_to_duplicate (dto_order_id dto))
         (pbind (atomically (create_transaction gen now locked (rq_asset rq) cryptoMoney
            (new_invoice now merchant dto rq rate cryptoMoney merchantRecord requiredConfirmations expiresAt invoiceId))) (\<lambda>(row, address).
          pfrom_result (map_error MoneyFailure (toInvoiceResponse row (map_option pa_address address) None)))))))))))"

section \<open>Reading and cancelling\<close>

text \<open>The transaction of the lazy expiry, on the row as it is inside the transaction.\<close>

definition expire_on_read :: "(nat \<Rightarrow> string) \<Rightarrow> int \<Rightarrow> string \<Rightarrow> string \<Rightarrow> invoice_row tx" where
  "expire_on_read gen now merchantId i =
     bind_op (load_row i) (\<lambda>(fresh, address).
     if \<not> isActorAllowed (inv_status fresh) EXPIRED SYSTEM \<or> \<not> ed_expired (evaluateExpiry (inv_expiresAt fresh) now)
     then ret (fresh, address)
     else
       bind_op (transition_result (assertTransition (inv_status fresh) EXPIRED SYSTEM)) (\<lambda>_.
       seq_op (update_invoice i (\<lambda>r. r\<lparr>inv_status := EXPIRED, inv_expiredAt := Some now, inv_version := inv_version r + 1\<rparr>))
       (seq_op (recordEvent gen i ''payment.expired'' (inv_status fresh) EXPIRED ''system'' [])
       (seq_op (case webhookEventForStatus EXPIRED of None \<Rightarrow> ret ()
                | Some eventType \<Rightarrow> invoice_webhook gen merchantId i eventType (webhook_payload eventType fresh))
       (load_row i)))))"

text \<open>\<open>findFirst\<close> by the primary key and the merchant.\<close>

definition loadAndMaybeExpire :: "(nat \<Rightarrow> string) \<Rightarrow> int \<Rightarrow> string \<Rightarrow> string \<Rightarrow> invoice_row service" where
  "loadAndMaybeExpire gen now merchantId i =
     pbind (preads (\<lambda>s. case find_invoice i s of None \<Rightarrow> None
       | Some r \<Rightarrow> if inv_merchantId r = merchantId then Some (r, address_of i s) else None)) (\<lambda>found.
     case found of None \<Rightarrow> pthrow (RequestError (NotFoundError ''invoice'' (Some i)))
     | Some (invoice, address) \<Rightarrow>
         if isActorAllowed (inv_status invoice) EXPIRED SYSTEM \<and> ed_expired (evaluateExpiry (inv_expiresAt invoice) now)
         then atomically (expire_on_read gen now merchantId i)
         else pret (invoice, address))"

definition latestCreditingTxHash :: "string \<Rightarrow> db \<Rightarrow> string option" where
  "latestCreditingTxHash invoiceId s =
     (case sort_key (\<lambda>t. - tt_detectedAt t) (filter (\<lambda>t. tt_invoiceId t = Some invoiceId \<and> tt_matchStatus t = CREDITED) (token_transfers s))
      of [] \<Rightarrow> None | t # _ \<Rightarrow> Some (tt_txHash t))"

definition getInvoice :: "(nat \<Rightarrow> string) \<Rightarrow> int \<Rightarrow> merchant_context \<Rightarrow> string \<Rightarrow> invoice_response service" where
  "getInvoice gen now merchant i =
     pbind (loadAndMaybeExpire gen now (mc_merchantId merchant) i) (\<lambda>(invoice, address).
     pbind (preads (latestCreditingTxHash i)) (\<lambda>hash.
     pfrom_result (map_error MoneyFailure (toInvoiceResponse invoice (map_option pa_address address) hash))))"

definition getPublicInvoice :: "(nat \<Rightarrow> string) \<Rightarrow> int \<Rightarrow> string \<Rightarrow> public_invoice_response service" where
  "getPublicInvoice gen now i =
     pbind (preads (find_invoice i)) (\<lambda>found.
     case found of None \<Rightarrow> pthrow (RequestError (NotFoundError ''invoice'' (Some i)))
     | Some f \<Rightarrow>
         pbind (loadAndMaybeExpire gen now (inv_merchantId f) i) (\<lambda>(invoice, address).
         pbind (preads (latestCreditingTxHash i)) (\<lambda>hash.
         pbind (atomically (merchant_or_throw (inv_merchantId f))) (\<lambda>merchant.
         pfrom_result (map_error MoneyFailure (toPublicInvoiceResponse invoice (map_option pa_address address) hash (mer_name merchant)))))))"

definition getInvoiceStatus :: "(nat \<Rightarrow> string) \<Rightarrow> int \<Rightarrow> merchant_context \<Rightarrow> string \<Rightarrow> invoice_status_response service" where
  "getInvoiceStatus gen now merchant i =
     pbind (loadAndMaybeExpire gen now (mc_merchantId merchant) i) (\<lambda>(invoice, _).
     pbind (preads (latestCreditingTxHash i)) (\<lambda>hash.
     pfrom_result (map_error MoneyFailure (toInvoiceStatusResponse invoice hash))))"

text \<open>The transaction of a cancellation. Its \<open>invoice\<close> and \<open>address\<close> are the ones read before it.\<close>

definition cancel_transaction :: "(nat \<Rightarrow> string) \<Rightarrow> int \<Rightarrow> string \<Rightarrow> string \<Rightarrow> invoice \<Rightarrow> payment_address option \<Rightarrow> invoice_row tx" where
  "cancel_transaction gen now merchantId i invoice address =
     seq_op (update_invoice i (\<lambda>r. r\<lparr>inv_status := CANCELLED, inv_cancelledAt := Some now, inv_version := inv_version r + 1\<rparr>))
     (seq_op (case address of None \<Rightarrow> ret ()
              | Some a \<Rightarrow> update_address (pa_id a) (\<lambda>r. r\<lparr>pa_status := RETIRED, pa_retiredAt := Some now\<rparr>))
     (seq_op (recordEvent gen i ''payment.cancelled'' (inv_status invoice) CANCELLED (''merchant:'' @ merchantId) [])
     (seq_op (case webhookEventForStatus CANCELLED of None \<Rightarrow> ret ()
              | Some eventType \<Rightarrow> invoice_webhook gen merchantId i eventType (webhook_payload eventType invoice))
     (load_row i))))"

definition cancelInvoice :: "(nat \<Rightarrow> string) \<Rightarrow> int \<Rightarrow> merchant_context \<Rightarrow> string \<Rightarrow> invoice_response service" where
  "cancelInvoice gen now merchant i =
     pbind (loadAndMaybeExpire gen now (mc_merchantId merchant) i) (\<lambda>(invoice, address).
     pbind (pfrom_result (map_error InvalidTransition (assertTransition (inv_status invoice) CANCELLED MERCHANT))) (\<lambda>_.
     pbind (atomically (cancel_transaction gen now (mc_merchantId merchant) i invoice address)) (\<lambda>(updated, _).
     pfrom_result (map_error MoneyFailure (toInvoiceResponse updated None None)))))"

section \<open>What a read returns\<close>

lemma load_row_Inr [result_simps]:
  "load_row i s = Inr (r, t) \<longleftrightarrow> t = s \<and> find_invoice i s = Some (fst r) \<and> address_of i s = snd r"
  by (cases r) (auto simp: load_row_def invoice_or_throw_def result_simps)

lemma expire_on_read_fresh:
  assumes "expire_on_read gen now m i s = Inr (r, t)"
  shows "find_invoice i t = Some (fst r) \<and> address_of i t = snd r"
proof -
  have "\<exists>u. load_row i u = Inr (r, t)"
    using assms
    by (auto simp: expire_on_read_def bind_op_Inr_iff seq_op_Inr_iff load_row_Inr lifted_result_Inr split: if_splits)
  then show ?thesis by (auto simp: load_row_Inr)
qed

lemma invoice_webhook_invoices: "invoice_webhook gen m i ev pl s = Inr (u, t) \<Longrightarrow> invoices t = invoices s"
  by (auto simp: invoice_webhook_def create_webhook_def result_simps split: if_splits)

lemma ed_expired_iff: "ed_expired (evaluateExpiry e now) \<longleftrightarrow> e \<le> now"
  by (simp add: evaluateExpiry_def Let_def)

lemmas expiry_check = system_expires(1) ed_expired_iff overdue_def

lemma expire_row_not_overdue [simp]: "\<not> overdue now (expire_row now r)"
  by (simp add: overdue_def expire_row_def SWEEPABLE_STATUSES_def)

text \<open>The table of invoices after the lazy expiry.\<close>

definition expired_on_time :: "int \<Rightarrow> string \<Rightarrow> db \<Rightarrow> invoice list" where
  "expired_on_time now i s = update_rows (\<lambda>r. inv_id r = i) (expire_row now) (invoices s)"

lemma expire_on_read_invoices:
  assumes "expire_on_read gen now m i s = Inr (r, t)" "find_invoice i s = Some old"
  shows "invoices t = (if overdue now old then expired_on_time now i s else invoices s)"
proof (cases "overdue now old")
  case False
  with assms show ?thesis
    by (auto simp: expire_on_read_def expiry_check bind_op_Inr_iff [of "load_row i"] load_row_Inr)
next
  case True
  let ?f = "\<lambda>r. r\<lparr>inv_status := EXPIRED, inv_expiredAt := Some now, inv_version := inv_version r + 1\<rparr>"
  from assms True obtain s1 s2 s3 where up: "update_invoice i ?f s = Inr ((), s1)"
    and ev: "recordEvent gen i ''payment.expired'' (inv_status old) EXPIRED ''system'' [] s1 = Inr ((), s2)"
    and wh: "(case webhookEventForStatus EXPIRED of None \<Rightarrow> ret ()
       | Some eventType \<Rightarrow> invoice_webhook gen m i eventType (webhook_payload eventType old)) s2 = Inr ((), s3)"
    and ld: "load_row i s3 = Inr (r, t)"
    by (auto simp: expire_on_read_def expiry_check bind_op_Inr_iff [of "load_row i"] load_row_Inr
        bind_op_Inr_iff [of "transition_result _"] lifted_result_Inr seq_op_Inr_iff)
  have "invoices t = invoices s1"
    using ld wh recordEvent_invoices [OF ev] by (auto simp: load_row_Inr dest: invoice_webhook_invoices)
  then show ?thesis using up True by (simp add: update_invoice_Inr expired_on_time_def expire_row_def [abs_def])
qed

lemma find_expired_on_time:
  assumes "invoices t = expired_on_time now i s" "find_invoice i s = Some old"
  shows "find_invoice i t = Some (expire_row now old)"
  using assms find_invoice_id [OF assms(2)] find_update_rows [of inv_id "expire_row now" i "\<lambda>r. inv_id r = i" "invoices s"]
  by (simp add: find_invoice_def expired_on_time_def)

lemma load_result:
  assumes "loadAndMaybeExpire gen now m i s = (Inr r, t)"
  shows "find_invoice i t = Some (fst r) \<and> address_of i t = snd r \<and>
    (\<exists>old. find_invoice i s = Some old \<and> inv_merchantId old = m \<and> fst r = (if overdue now old then expire_row now old else old) \<and>
       invoices t = (if overdue now old then expired_on_time now i s else invoices s))"
proof -
  from assms obtain old where old: "find_invoice i s = Some old" "inv_merchantId old = m"
    and run: "(if overdue now old then atomically (expire_on_read gen now m i) else pret (old, address_of i s)) s = (Inr r, t)"
    by (auto simp: loadAndMaybeExpire_def expiry_check split: option.splits if_splits)
  show ?thesis
  proof (cases "overdue now old")
    case False with old run show ?thesis by auto
  next
    case True
    with run have ex: "expire_on_read gen now m i s = Inr (r, t)" by (auto simp: atomically_def split: sum.splits prod.splits)
    have inv: "invoices t = expired_on_time now i s" using expire_on_read_invoices [OF ex old(1)] True by simp
    show ?thesis using expire_on_read_fresh [OF ex] find_expired_on_time [OF inv old(1)] True old inv by auto
  qed
qed

text \<open>C9: lazy expiry and the sweep agree. A read of an invoice, by its merchant or by the payment
  page, returns the row that is stored afterwards and never one that is past its deadline and still
  open; and the table of invoices it leaves is the one the worker's expiry of that invoice at the
  same time leaves, so it does not matter which of the two comes first.\<close>

theorem lazy_expiry_agrees_with_sweep:
  assumes "loadAndMaybeExpire gen now m i s = (Inr (row, a), t)"
  shows "find_invoice i t = Some row \<and> address_of i t = a \<and> inv_merchantId row = m \<and> \<not> overdue now row \<and>
    (\<exists>b u. expireOne gen i now s = Inr (b, u) \<and> invoices u = invoices t)"
proof -
  obtain old where old: "find_invoice i s = Some old" "inv_merchantId old = m" "row = (if overdue now old then expire_row now old else old)"
    "invoices t = (if overdue now old then expired_on_time now i s else invoices s)" "find_invoice i t = Some row" "address_of i t = a"
    using load_result [OF assms] by auto
  have "\<exists>b u. expireOne gen i now s = Inr (b, u) \<and> invoices u = invoices t"
    using expireOne_overdue [OF old(1), of now gen] expireOne_other [OF old(1), of now gen] old(4)
    by (cases "overdue now old") (auto simp: expired_on_time_def)
  then show ?thesis using old by (simp add: expire_row_def overdue_def SWEEPABLE_STATUSES_def)
qed

section \<open>What creating an invoice does\<close>

lemma merchant_or_throw_Inr: "merchant_or_throw i s = Inr (m, t) \<longleftrightarrow> find_merchant i s = Some m \<and> t = s"
  by (auto simp: merchant_or_throw_def result_simps)

lemma assign_address_Inr:
  "assign_address now k i s = Inr (u, t) \<longleftrightarrow> \<not> list_ex (\<lambda>b. pa_id b \<noteq> k \<and> pa_invoiceId b = Some i) (payment_addresses s) \<and>
     find (\<lambda>r. pa_id r = k) (payment_addresses s) \<noteq> None \<and>
     t = s\<lparr>payment_addresses := update_rows (\<lambda>r. pa_id r = k)
       (\<lambda>r. r\<lparr>pa_status := ASSIGNED, pa_invoiceId := Some i, pa_assignedAt := Some now\<rparr>) (payment_addresses s)\<rparr>"
  by (auto simp: assign_address_def update_address_def result_simps split: if_splits)

lemma create_invoice_Inr:
  "create_invoice row s = Inr (u, t) \<longleftrightarrow> find_invoice (inv_id row) s = None \<and>
     \<not> list_ex (\<lambda>r. inv_merchantId r = inv_merchantId row \<and> inv_orderId r = inv_orderId row) (invoices s) \<and>
     check_invoice row = Inr () \<and> t = s\<lparr>invoices := invoices s @ [row]\<rparr>"
  by (auto simp: create_invoice_def find_invoice_def find_None_iff list_ex_iff split: if_splits sum.splits)

lemma create_events_Inr: "create_events (creation_events e1 e2 i k) s = Inr (u, t) \<Longrightarrow>
    \<not> list_ex (\<lambda>x. ev_invoiceId x = i \<and> ev_sequence x = 1) (payment_events s) \<and>
    t = s\<lparr>payment_events := payment_events s @ creation_events e1 e2 i k\<rparr>"
  by (auto simp: create_events_def creation_events_def split: if_splits)

lemma pool_member:
  assumes "pool m n sy locked s = a # rest"
  shows "a \<in> set (payment_addresses s)" "pa_status a = AVAILABLE" "pa_merchantId a = m" "pa_network a = n"
    "pa_assetSymbol a = None \<or> pa_assetSymbol a = Some sy" "pa_id a \<notin> set locked"
proof -
  have "a \<in> set (pool m n sy locked s)" using assms by simp
  then show "a \<in> set (payment_addresses s)" "pa_status a = AVAILABLE" "pa_merchantId a = m" "pa_network a = n"
    "pa_assetSymbol a = None \<or> pa_assetSymbol a = Some sy" "pa_id a \<notin> set locked" by (auto simp: pool_def)
qed

lemma pool_oldest: "pool m n sy locked s = a # rest \<Longrightarrow> b \<in> set (pool m n sy locked s) \<Longrightarrow> pa_createdAt a \<le> pa_createdAt b"
proof -
  assume p: "pool m n sy locked s = a # rest" "b \<in> set (pool m n sy locked s)"
  have "sorted (map pa_createdAt (pool m n sy locked s))" by (simp add: pool_def)
  with p show ?thesis by auto
qed

text \<open>The writes of the creating transaction, in order.\<close>

lemma create_transaction_Inr:
  assumes "create_transaction gen now locked asset crypto row s = Inr (r, t)"
  shows "\<exists>a rest s1 s2 s3 s4 e1 e2. pool (inv_merchantId row) (inv_network row) (ac_symbol asset) locked s = a # rest \<and>
    create_invoice row s = Inr ((), s1) \<and> assign_address now (pa_id a) (inv_id row) s1 = Inr ((), s2) \<and>
    create_events (creation_events e1 e2 (inv_id row) (pa_id a)) (s2\<lparr>db_ulids := Suc (Suc (db_ulids s2))\<rparr>) = Inr ((), s3) \<and>
    (case webhookEventForStatus PENDING of None \<Rightarrow> ret ()
      | Some eventType \<Rightarrow> bind_op (money_result (toDecimalString crypto)) (\<lambda>amount.
          invoice_webhook gen (inv_merchantId row) (inv_id row) eventType (creation_payload eventType row amount))) s3 = Inr ((), s4) \<and>
    load_row (inv_id row) s4 = Inr (r, t)"
proof (cases "pool (inv_merchantId row) (inv_network row) (ac_symbol asset) locked s")
  case Nil with assms show ?thesis by (simp add: create_transaction_def)
next
  case (Cons a rest)
  with assms show ?thesis
    by (simp add: create_transaction_def bind_op_Inr_iff [of "transition_result _"] bind_op_Inr_iff [of "fresh_id _ _"] fresh_id_Inr
        lifted_result_Inr seq_op_Inr_iff) blast
qed

lemma create_transaction_effect:
  assumes "create_transaction gen now locked asset crypto row s = Inr (r, t)"
  shows "\<exists>a rest. pool (inv_merchantId row) (inv_network row) (ac_symbol asset) locked s = a # rest \<and>
    find_invoice (inv_id row) s = None \<and> check_invoice row = Inr () \<and>
    \<not> list_ex (\<lambda>r. inv_merchantId r = inv_merchantId row \<and> inv_orderId r = inv_orderId row) (invoices s) \<and>
    invoices t = invoices s @ [row] \<and>
    payment_addresses t = update_rows (\<lambda>r. pa_id r = pa_id a)
      (\<lambda>r. r\<lparr>pa_status := ASSIGNED, pa_invoiceId := Some (inv_id row), pa_assignedAt := Some now\<rparr>) (payment_addresses s) \<and>
    \<not> list_ex (\<lambda>b. pa_id b \<noteq> pa_id a \<and> pa_invoiceId b = Some (inv_id row)) (payment_addresses s) \<and>
    ledger_entries t = ledger_entries s \<and> token_transfers t = token_transfers s \<and>
    find_invoice (inv_id row) t = Some (fst r) \<and> address_of (inv_id row) t = snd r"
proof -
  obtain a rest s1 s2 s3 s4 e1 e2 where 0: "pool (inv_merchantId row) (inv_network row) (ac_symbol asset) locked s = a # rest"
    and 1: "create_invoice row s = Inr ((), s1)" and 2: "assign_address now (pa_id a) (inv_id row) s1 = Inr ((), s2)"
    and 3: "create_events (creation_events e1 e2 (inv_id row) (pa_id a)) (s2\<lparr>db_ulids := Suc (Suc (db_ulids s2))\<rparr>) = Inr ((), s3)"
    and 4: "(case webhookEventForStatus PENDING of None \<Rightarrow> ret ()
      | Some eventType \<Rightarrow> bind_op (money_result (toDecimalString crypto)) (\<lambda>amount.
          invoice_webhook gen (inv_merchantId row) (inv_id row) eventType (creation_payload eventType row amount))) s3 = Inr ((), s4)"
    and 5: "load_row (inv_id row) s4 = Inr (r, t)"
    using create_transaction_Inr [OF assms] by blast
  have "invoices s4 = invoices s3 \<and> payment_addresses s4 = payment_addresses s3 \<and> ledger_entries s4 = ledger_entries s3 \<and>
      token_transfers s4 = token_transfers s3"
    using 4 by (auto simp: invoice_webhook_def create_webhook_def result_simps split: if_splits)
  then show ?thesis using 0 1 2 create_events_Inr [OF 3] 5
    by (simp add: create_invoice_Inr assign_address_Inr load_row_Inr)
qed

text \<open>C8: what a created invoice is. When a creation succeeds, exactly one invoice is added, for an
  order the merchant had no invoice for. It is PENDING, asks for the amount the frozen rate converts
  the requested amount to, never for fewer confirmations than the asset needs, and expires after now
  and within the platform's maximum. It gets the oldest free address of that merchant and network
  that admits the asset and that no concurrent transaction holds; the other addresses, the ledger and
  the transfers are unchanged.\<close>

theorem created_invoice_is_priced_and_addressed:
  assumes "createInvoice gen now maxExpiry getRate locked merchant dto s = (Inr resp, t)"
  shows "\<exists>row a rq rate. invoices t = invoices s @ [row] \<and> inv_status row = PENDING \<and>
    inv_merchantId row = mc_merchantId merchant \<and> inv_orderId row = dto_order_id dto \<and> ir_id resp = inv_id row \<and>
    list_all (\<lambda>r. \<not> (inv_merchantId r = mc_merchantId merchant \<and> inv_orderId r = dto_order_id dto)) (invoices s) \<and>
    validate_request merchant dto = Inr rq \<and> getRate (ac_symbol (rq_asset rq)) (fc_code (rq_currency rq)) = Inr rate \<and>
    (\<exists>crypto. convertQuoteToBase rate (rq_requested rq) (ac_decimals (rq_asset rq)) Ceil = Inr crypto \<and>
       m_units crypto = inv_cryptoAmount row) \<and> 0 < inv_cryptoAmount row \<and>
    ac_requiredConfirmations (rq_asset rq) \<le> inv_requiredConfirmations row \<and>
    now < inv_expiresAt row \<and> inv_expiresAt row \<le> now + maxExpiry * 1000 \<and>
    a \<in> set (payment_addresses s) \<and> pa_status a = AVAILABLE \<and> pa_merchantId a = mc_merchantId merchant \<and>
    pa_network a = inv_network row \<and> pa_id a \<notin> set locked \<and>
    list_all (\<lambda>b. pa_createdAt a \<le> pa_createdAt b) (pool (mc_merchantId merchant) (inv_network row) (inv_paymentAsset row) locked s) \<and>
    payment_addresses t = update_rows (\<lambda>r. pa_id r = pa_id a)
      (\<lambda>r. r\<lparr>pa_status := ASSIGNED, pa_invoiceId := Some (inv_id row), pa_assignedAt := Some now\<rparr>) (payment_addresses s) \<and>
    ledger_entries t = ledger_entries s \<and> token_transfers t = token_transfers s"
proof -
  from assms obtain rq rate crypto m req where rq: "validate_request merchant dto = Inr rq"
    and fresh: "find (\<lambda>i. inv_merchantId i = mc_merchantId merchant \<and> inv_orderId i = dto_order_id dto) (invoices s) = None"
    and rate: "getRate (ac_symbol (rq_asset rq)) (fc_code (rq_currency rq)) = Inr rate"
    and crypto: "convertQuoteToBase rate (rq_requested rq) (ac_decimals (rq_asset rq)) Ceil = Inr crypto"
    and req: "effectiveConfirmations (ac_requiredConfirmations (rq_asset rq))
         (map_of (mer_confirmationOverrides m) (network_name (rq_network rq))) = Inr req"
    and run: "pbind (atomically (fresh_id gen InvoiceId)) (\<lambda>i.
       pmap_error (unique_to_duplicate (dto_order_id dto))
         (pbind (atomically (create_transaction gen now locked (rq_asset rq) crypto
            (new_invoice now merchant dto rq rate crypto m req (now + min (mer_invoiceExpirySeconds m) maxExpiry * 1000) i))) (\<lambda>(row, address).
          pfrom_result (map_error MoneyFailure (toInvoiceResponse row (map_option pa_address address) None))))) s = (Inr resp, t)"
    by (auto simp: createInvoice_def Let_def pbind_Inr_iff [of "pfrom_result _"] pbind_Inr_iff [of "preads _"] atomically_Inr_iff
        pbind_Inr_iff [of "atomically (merchant_or_throw _)"] merchant_or_throw_Inr map_error_Inr_iff split: if_splits)
  define row where "row = new_invoice now merchant dto rq rate crypto m req (now + min (mer_invoiceExpirySeconds m) maxExpiry * 1000) (newId (gen (db_ulids s)) InvoiceId)"
  from run obtain r where tx: "create_transaction gen now locked (rq_asset rq) crypto row (s\<lparr>db_ulids := Suc (db_ulids s)\<rparr>) = Inr (r, t)"
    and resp: "toInvoiceResponse (fst r) (map_option pa_address (snd r)) None = Inr resp"
    by (auto simp: row_def proc_Inr_iff fresh_id_Inr map_error_Inr_iff)
  have sel: "inv_status row = PENDING" "inv_merchantId row = mc_merchantId merchant" "inv_orderId row = dto_order_id dto"
    "inv_cryptoAmount row = m_units crypto" "inv_requiredConfirmations row = req" "inv_network row = rq_network rq"
    "inv_paymentAsset row = ac_symbol (rq_asset rq)" "inv_createdAt row = now"
    "inv_expiresAt row = now + min (mer_invoiceExpirySeconds m) maxExpiry * 1000" by (simp_all add: row_def new_invoice_def)
  obtain a rest where a: "pool (inv_merchantId row) (inv_network row) (ac_symbol (rq_asset rq)) locked (s\<lparr>db_ulids := Suc (db_ulids s)\<rparr>) = a # rest"
    and eff: "check_invoice row = Inr ()" "invoices t = invoices s @ [row]" "find_invoice (inv_id row) s = None"
      "payment_addresses t = update_rows (\<lambda>r. pa_id r = pa_id a)
        (\<lambda>r. r\<lparr>pa_status := ASSIGNED, pa_invoiceId := Some (inv_id row), pa_assignedAt := Some now\<rparr>) (payment_addresses s)"
      "ledger_entries t = ledger_entries s" "token_transfers t = token_transfers s" "find_invoice (inv_id row) t = Some (fst r)"
    using create_transaction_effect [OF tx] by (auto simp: find_invoice_def)
  have p: "pool (mc_merchantId merchant) (inv_network row) (inv_paymentAsset row) locked s = a # rest"
    using a sel by (simp add: pool_def)
  have "fst r = row" using eff(2,3,7) by (simp add: find_invoice_def find_append)
  then have "ir_id resp = inv_id row" using resp by (auto simp: toInvoiceResponse_def bind_result_Inr_iff)
  moreover have "0 < inv_cryptoAmount row" "now < inv_expiresAt row" using eff(1) sel by (auto simp: check_invoice_def bind_result_Inr_iff require_def split: if_splits)
  moreover have "ac_requiredConfirmations (rq_asset rq) \<le> req"
    using req by (auto simp: effectiveConfirmations_def split: if_splits option.splits)
  moreover have "inv_expiresAt row \<le> now + maxExpiry * 1000" using sel(9) by simp
  moreover have "list_all (\<lambda>r. \<not> (inv_merchantId r = mc_merchantId merchant \<and> inv_orderId r = dto_order_id dto)) (invoices s)"
    using fresh by (auto simp: find_None_iff list_all_iff)
  moreover have "list_all (\<lambda>b. pa_createdAt a \<le> pa_createdAt b) (pool (mc_merchantId merchant) (inv_network row) (inv_paymentAsset row) locked s)"
    using pool_oldest [OF p] by (simp only: list_all_iff) blast
  ultimately show ?thesis using pool_member [OF p] eff sel rq rate crypto
    by (intro exI [of _ row] exI [of _ a] exI [of _ rq] exI [of _ rate]) simp
qed

section \<open>What cancelling does\<close>

lemma update_address_Inr:
  "update_address k f s = Inr (u, t) \<longleftrightarrow> find (\<lambda>r. pa_id r = k) (payment_addresses s) \<noteq> None \<and>
     t = s\<lparr>payment_addresses := update_rows (\<lambda>r. pa_id r = k) f (payment_addresses s)\<rparr>"
  by (auto simp: update_address_def result_simps)

lemma invoice_webhook_frame:
  "invoice_webhook gen m i ev pl s = Inr (u, t) \<Longrightarrow> invoices t = invoices s \<and> payment_addresses t = payment_addresses s \<and>
     ledger_entries t = ledger_entries s"
  by (auto simp: invoice_webhook_def create_webhook_def result_simps split: if_splits)

lemma cancel_transaction_effect:
  assumes "cancel_transaction gen now m i invoice address s = Inr (r, t)"
  shows "invoices t = update_rows (\<lambda>r. inv_id r = i)
      (\<lambda>r. r\<lparr>inv_status := CANCELLED, inv_cancelledAt := Some now, inv_version := inv_version r + 1\<rparr>) (invoices s) \<and>
    payment_addresses t = (case address of None \<Rightarrow> payment_addresses s
      | Some a \<Rightarrow> update_rows (\<lambda>r. pa_id r = pa_id a) (\<lambda>r. r\<lparr>pa_status := RETIRED, pa_retiredAt := Some now\<rparr>) (payment_addresses s)) \<and>
    ledger_entries t = ledger_entries s \<and> find_invoice i t = Some (fst r) \<and> address_of i t = snd r"
proof -
  from assms obtain s1 s2 s3 s4 where 1: "update_invoice i (\<lambda>r. r\<lparr>inv_status := CANCELLED, inv_cancelledAt := Some now,
      inv_version := inv_version r + 1\<rparr>) s = Inr ((), s1)"
    and 2: "(case address of None \<Rightarrow> ret ()
      | Some a \<Rightarrow> update_address (pa_id a) (\<lambda>r. r\<lparr>pa_status := RETIRED, pa_retiredAt := Some now\<rparr>)) s1 = Inr ((), s2)"
    and 3: "recordEvent gen i ''payment.cancelled'' (inv_status invoice) CANCELLED (''merchant:'' @ m) [] s2 = Inr ((), s3)"
    and 4: "(case webhookEventForStatus CANCELLED of None \<Rightarrow> ret ()
      | Some eventType \<Rightarrow> invoice_webhook gen m i eventType (webhook_payload eventType invoice)) s3 = Inr ((), s4)"
    and 5: "load_row i s4 = Inr (r, t)" unfolding cancel_transaction_def seq_op_Inr_iff by blast
  have "invoices s4 = invoices s3 \<and> payment_addresses s4 = payment_addresses s3 \<and> ledger_entries s4 = ledger_entries s3"
    using 4 by (auto dest: invoice_webhook_frame)
  then show ?thesis using 1 2 3 5 by (cases address) (auto simp: update_invoice_Inr update_address_Inr recordEvent_Inr load_row_Inr)
qed

lemma merchant_cancels: "assertTransition st CANCELLED MERCHANT = Inr rule \<Longrightarrow> st \<in> {CREATED, PENDING, UNDERPAID}"
proof -
  have "list_all (\<lambda>st. is_ok (assertTransition st CANCELLED MERCHANT) = (st \<in> {CREATED, PENDING, UNDERPAID})) all_statuses" by code_simp
  then show "assertTransition st CANCELLED MERCHANT = Inr rule \<Longrightarrow> st \<in> {CREATED, PENDING, UNDERPAID}"
    using UNIV_statuses [of st] by (auto simp: list_all_iff is_ok_def split: sum.splits)
qed

lemma expire_on_read_addresses:
  "expire_on_read gen now m i s = Inr (r, t) \<Longrightarrow> payment_addresses t = payment_addresses s \<and> ledger_entries t = ledger_entries s"
  by (auto simp: expire_on_read_def bind_op_Inr_iff seq_op_Inr_iff load_row_Inr lifted_result_Inr update_invoice_Inr recordEvent_Inr
      split: if_splits dest!: invoice_webhook_frame)

lemma load_addresses:
  assumes "loadAndMaybeExpire gen now m i s = (r, t)"
  shows "payment_addresses t = payment_addresses s \<and> ledger_entries t = ledger_entries s"
proof (cases "payment_addresses t = payment_addresses s \<and> ledger_entries t = ledger_entries s")
  case False
  with assms have "atomically (expire_on_read gen now m i) s = (r, t)"
    by (auto simp: loadAndMaybeExpire_def split: option.splits if_splits)
  then show ?thesis using expire_on_read_addresses by (auto simp: atomically_def split: sum.splits prod.splits)
qed

text \<open>Who can cancel what. When a cancellation by a merchant, with nothing running in between,
  succeeds, the invoice was the merchant's own, CREATED, PENDING or UNDERPAID and not past its
  deadline; afterwards it is CANCELLED with its terms unchanged, its deposit address, if it had one,
  is RETIRED and still assigned to it, and the ledger is unchanged.\<close>

lemma cancellation_retires_the_address:
  assumes "cancelInvoice gen now merchant i s = (Inr resp, t)"
  shows "\<exists>old. find_invoice i s = Some old \<and> inv_merchantId old = mc_merchantId merchant \<and>
    inv_status old \<in> {CREATED, PENDING, UNDERPAID} \<and> \<not> overdue now old \<and>
    find_invoice i t = Some (old\<lparr>inv_status := CANCELLED, inv_cancelledAt := Some now, inv_version := inv_version old + 1\<rparr>) \<and>
    payment_addresses t = (case address_of i s of None \<Rightarrow> payment_addresses s
      | Some a \<Rightarrow> update_rows (\<lambda>r. pa_id r = pa_id a) (\<lambda>r. r\<lparr>pa_status := RETIRED, pa_retiredAt := Some now\<rparr>) (payment_addresses s)) \<and>
    ledger_entries t = ledger_entries s"
proof -
  let ?f = "\<lambda>r. r\<lparr>inv_status := CANCELLED, inv_cancelledAt := Some now, inv_version := inv_version r + 1\<rparr>"
  from assms obtain row a s1 rule where ld: "loadAndMaybeExpire gen now (mc_merchantId merchant) i s = (Inr (row, a), s1)"
    and gate: "assertTransition (inv_status row) CANCELLED MERCHANT = Inr rule"
    and rest: "pbind (atomically (cancel_transaction gen now (mc_merchantId merchant) i row a)) (\<lambda>(updated, _).
      pfrom_result (map_error MoneyFailure (toInvoiceResponse updated None None))) s1 = (Inr resp, t)"
    by (auto simp: cancelInvoice_def pbind_Inr_iff [of "loadAndMaybeExpire _ _ _ _"] pbind_Inr_iff [of "pfrom_result _"] map_error_Inr_iff)
  from rest obtain r where tx: "cancel_transaction gen now (mc_merchantId merchant) i row a s1 = Inr (r, t)"
    by (auto simp: proc_Inr_iff)
  have st: "inv_status row \<in> {CREATED, PENDING, UNDERPAID}" using merchant_cancels [OF gate] .
  obtain old where old: "find_invoice i s = Some old" "inv_merchantId old = mc_merchantId merchant"
      "row = (if overdue now old then expire_row now old else old)"
      "invoices s1 = (if overdue now old then expired_on_time now i s else invoices s)" "address_of i s1 = a"
    using load_result [OF ld] by auto
  have no: "\<not> overdue now old" using st old(3) by (auto simp: expire_row_def)
  have ad: "payment_addresses s1 = payment_addresses s \<and> ledger_entries s1 = ledger_entries s" by (rule load_addresses [OF ld])
  have "find_invoice i t = Some (?f old)"
    using cancel_transaction_effect [OF tx] old(1,4) no find_invoice_id [OF old(1)]
      find_update_rows [of inv_id ?f i "\<lambda>r. inv_id r = i" "invoices s"] by (simp add: find_invoice_def)
  moreover have "address_of i s = a" using old(5) ad by (simp add: address_of_def)
  ultimately show ?thesis using old no st cancel_transaction_effect [OF tx] ad by (auto split: option.splits)
qed

section \<open>Examples\<close>

definition sample_context :: merchant_context where
  "sample_context = \<lparr>mc_merchantId = ''mch_1'', mc_apiKeyId = ''ak_1'', mc_livemode = True, mc_scopes = []\<rparr>"

definition sample_dto :: "string \<Rightarrow> create_invoice_dto" where
  "sample_dto order = \<lparr>dto_order_id = order, dto_amount = ''10.00'', dto_currency = ''usd'', dto_asset = ''usdt'', dto_network = ''ethereum'',
     dto_callback_url = None, dto_redirect_url = None, dto_external_reference = None, dto_description = None, dto_metadata = None\<rparr>"

definition sample_rate :: "string \<Rightarrow> string \<Rightarrow> failure + exchange_rate" where
  "sample_rate base qt = Inr \<lparr>er_base = base, er_quote = qt, er_numerator = 1000000000000000000, er_provider = ''p'', er_observedAt = 0\<rparr>"

definition sample_address :: "string \<Rightarrow> int \<Rightarrow> payment_address" where
  "sample_address i created = \<lparr>pa_id = i, pa_merchantId = ''mch_1'', pa_network = ETHEREUM, pa_address = ''0x01'', pa_addressNormalized = ''0x01'',
     pa_assetSymbol = None, pa_status = AVAILABLE, pa_invoiceId = None, pa_assignedAt = None, pa_retiredAt = None, pa_createdAt = created\<rparr>"

definition sample_pool :: "invoice_status \<Rightarrow> db" where
  "sample_pool st = (sample_db st ''USDT'' 1000)\<lparr>payment_addresses := [sample_address ''addr_2'' 2, sample_address ''addr_1'' 1]\<rparr>"

lemma sample_created:
  "case fst (createInvoice counting_gen 5 3600 sample_rate [] sample_context (sample_dto ''o2'') (sample_pool PENDING)) of
     Inl _ \<Rightarrow> False | Inr r \<Rightarrow> ir_crypto_amount r = ''10.000000'' \<and> ir_expires_at r = ''1970-01-01T00:30:00.005Z''"
  by code_simp

theorem created_invoice_is_priced_and_addressed_witness:
  "\<exists>resp t row a. createInvoice counting_gen 5 3600 sample_rate [] sample_context (sample_dto ''o2'') (sample_pool PENDING) = (Inr resp, t) \<and>
     invoices t = invoices (sample_pool PENDING) @ [row] \<and> inv_status row = PENDING \<and> pa_status a = AVAILABLE \<and>
     a \<in> set (payment_addresses (sample_pool PENDING))"
proof -
  obtain resp t where run: "createInvoice counting_gen 5 3600 sample_rate [] sample_context (sample_dto ''o2'') (sample_pool PENDING) = (Inr resp, t)"
    using sample_created by (cases "createInvoice counting_gen 5 3600 sample_rate [] sample_context (sample_dto ''o2'') (sample_pool PENDING)")
      (auto split: sum.splits)
  from created_invoice_is_priced_and_addressed [OF run] show ?thesis using run by blast
qed

lemma sample_read:
  "case fst (loadAndMaybeExpire counting_gen 60 ''mch_1'' ''inv_1'' (sample_pool PENDING)) of Inl _ \<Rightarrow> False | Inr _ \<Rightarrow> True"
  "case fst (cancelInvoice counting_gen 5 sample_context ''inv_1'' (sample_pool PENDING)) of Inl _ \<Rightarrow> False | Inr _ \<Rightarrow> True"
  by code_simp+

theorem lazy_expiry_agrees_with_sweep_witness:
  "\<exists>row a t. loadAndMaybeExpire counting_gen 60 ''mch_1'' ''inv_1'' (sample_pool PENDING) = (Inr (row, a), t) \<and>
     find_invoice ''inv_1'' t = Some row \<and> \<not> overdue 60 row"
proof -
  obtain row a t where run: "loadAndMaybeExpire counting_gen 60 ''mch_1'' ''inv_1'' (sample_pool PENDING) = (Inr (row, a), t)"
    using sample_read(1) by (cases "loadAndMaybeExpire counting_gen 60 ''mch_1'' ''inv_1'' (sample_pool PENDING)") (auto split: sum.splits)
  from lazy_expiry_agrees_with_sweep [OF run] run show ?thesis by blast
qed

text \<open>The status a merchant may cancel is checked on the row read before the transaction. If the
  monitor settles the invoice in between, the cancellation still goes through: the ledger holds the
  credit and the invoice is CANCELLED.\<close>

lemma cancel_overwrites_paid:
  "case finalizeInvoice counting_gen 9 ''inv_1'' (sample_db CONFIRMING ''USDT'' 1000) of Inl _ \<Rightarrow> False
   | Inr (_, paid) \<Rightarrow>
       status_of ''inv_1'' paid = Some PAID \<and>
       (case cancel_transaction counting_gen 9 ''mch_1'' ''inv_1'' (sample_invoice UNDERPAID) None paid of Inl _ \<Rightarrow> False
        | Inr (_, t) \<Rightarrow> status_of ''inv_1'' t = Some CANCELLED \<and> ledger_entries t \<noteq> [])"
  by code_simp

text \<open>The lazy expiry creates its webhook without checking whether one exists. An invoice that
  expired before, was reopened by an administrator and is overdue again cannot be read any more.\<close>

lemma second_expiry_fails_the_read:
  "let s = snd (loadAndMaybeExpire counting_gen 60 ''mch_1'' ''inv_1'' (sample_pool PENDING));
       reopened = s\<lparr>invoices := update_rows (\<lambda>r. inv_id r = ''inv_1'') (\<lambda>r. r\<lparr>inv_status := UNDERPAID\<rparr>) (invoices s)\<rparr>
   in fst (loadAndMaybeExpire counting_gen 61 ''mch_1'' ''inv_1'' reopened) = Inl (UniqueViolation ''webhook_events_idempotency_key_key'')"
  by code_simp

end
