(* ===== verification/Invariants.thy ===== *)
theory Invariants
  imports Invoices
begin

text \<open>
  The discipline of the API, as an extension of the discipline of the payment pipeline: the further
  writes the sweep and the invoice service make. What is kept by these writes is kept by every
  operation of the gateway. The locale is interpreted for the append-only history, the books, the
  journals, the transition gate with all the automatic actors, and the deposit addresses.
\<close>

locale gateway_relation = pipeline_relation R gen for R gen +
  assumes R_actor: "find_invoice i s = Some row \<Longrightarrow> actor \<in> {SYSTEM, MERCHANT} \<Longrightarrow>
        assertTransition (inv_status row) st actor = Inr rule \<Longrightarrow>
        (\<And>x. inv_id (f x) = inv_id x \<and> inv_status (f x) = st) \<Longrightarrow>
        R s (s\<lparr>invoices := update_rows (\<lambda>x. inv_id x = i) f (invoices s)\<rparr>)"
    and R_new_invoice: "find_invoice (inv_id row) s = None \<Longrightarrow> R s (s\<lparr>invoices := invoices s @ [row]\<rparr>)"
    and R_claim: "a \<in> set (payment_addresses s) \<Longrightarrow> pa_status a = AVAILABLE \<Longrightarrow>
        \<not> list_ex (\<lambda>b. pa_id b \<noteq> pa_id a \<and> pa_invoiceId b = Some i) (payment_addresses s) \<Longrightarrow>
        R s (s\<lparr>payment_addresses := update_rows (\<lambda>r. pa_id r = pa_id a)
          (\<lambda>r. r\<lparr>pa_status := ASSIGNED, pa_invoiceId := Some i, pa_assignedAt := Some now\<rparr>) (payment_addresses s)\<rparr>)"
    and R_retire: "R s (s\<lparr>payment_addresses := update_rows (\<lambda>r. pa_id r = k)
          (\<lambda>r. r\<lparr>pa_status := RETIRED, pa_retiredAt := Some now\<rparr>) (payment_addresses s)\<rparr>)"
    and R_first_events: "\<not> list_ex (\<lambda>x. ev_invoiceId x = i \<and> ev_sequence x = 1) (payment_events s) \<Longrightarrow>
        R s (s\<lparr>payment_events := payment_events s @ creation_events e1 e2 i k\<rparr>)"
    and R_cursor: "R s (s\<lparr>chain_cursors := c\<rparr>)"
begin

text \<open>A status change by the system or the merchant, followed by steps of the relation.\<close>

lemma actor_move:
  assumes "update_invoice i f s = Inr (u, t)" "find_invoice i s = Some row" "actor \<in> {SYSTEM, MERCHANT}"
    "assertTransition (inv_status row) st actor = Inr rule" "\<And>x. inv_id (f x) = inv_id x \<and> inv_status (f x) = st"
  shows "R s t"
  using assms R_actor [OF assms(2-4), of f] by (auto simp: update_invoice_Inr)

lemma steps_upsert: "steps R (upsert_webhook gen ev row)"
  unfolding upsert_webhook_def by (intro steps_rules steps_fresh steps_modify) (auto intro!: R_webhook simp: R_refl)

lemma steps_create_webhook: "steps R (invoice_webhook gen m i ev pl)"
  unfolding invoice_webhook_def create_webhook_def
  by (intro steps_rules steps_fresh) (auto simp: steps_def intro: R_webhook split: if_splits)

lemma steps_load_row: "steps R (load_row i)"
  unfolding load_row_def invoice_or_throw_def by (intro steps_rules)

lemma steps_expireOne: "steps R (expireOne gen i now)"
  unfolding steps_def
proof (intro allI impI)
  fix s r t assume run: "expireOne gen i now s = Inr (r, t)"
  then obtain row where row: "find_invoice i s = Some row" by (auto simp: expireOne_def invoice_or_throw_def bind_op_Inr_iff find_or_throw_Inr_iff)
  show "R s t"
  proof (cases "isActorAllowed (inv_status row) EXPIRED SYSTEM \<and> ed_expired (evaluateExpiry (inv_expiresAt row) now)")
    case False with run row show ?thesis by (auto simp: expireOne_def invoice_or_throw_def Let_def R_refl)
  next
    case True
    let ?f = "\<lambda>i. i\<lparr>inv_status := EXPIRED, inv_expiredAt := Some now, inv_version := inv_version i + 1\<rparr>"
    let ?rest = "seq_op (recordEvent gen i ''payment.expired'' (inv_status row) EXPIRED ''system:worker'' [])
       (seq_op (case webhookEventForStatus EXPIRED of None \<Rightarrow> ret () | Some eventType \<Rightarrow> upsert_webhook gen eventType row) (ret True))"
    from run row True obtain rule s1 where rule: "assertTransition (inv_status row) EXPIRED SYSTEM = Inr rule"
      and up: "update_invoice i ?f s = Inr ((), s1)" and rest: "?rest s1 = Inr (r, t)"
      by (auto simp: expireOne_def invoice_or_throw_def Let_def bind_op_Inr_iff [of "transition_result _"] lifted_result_Inr seq_op_Inr_iff [of "update_invoice _ _"])
    have "R s s1" using up row _ rule by (rule actor_move) simp_all
    moreover have "R s1 t" using rest by (rule stepsD [rotated]) (intro steps_rules steps_event steps_upsert)
    ultimately show ?thesis by (rule R_trans)
  qed
qed

lemma sweep: "psteps R (sweepExpiredInvoices gen b now)"
  unfolding sweepExpiredInvoices_def by (intro psteps_rules psteps_fold steps_expireOne)

lemma steps_expire_on_read: "steps R (expire_on_read gen now m i)"
  unfolding steps_def
proof (intro allI impI)
  fix s r t assume run: "expire_on_read gen now m i s = Inr (r, t)"
  then obtain row where row: "find_invoice i s = Some row"
    by (auto simp: expire_on_read_def load_row_def invoice_or_throw_def bind_op_Inr_iff find_or_throw_Inr_iff)
  show "R s t"
  proof (cases "isActorAllowed (inv_status row) EXPIRED SYSTEM \<and> ed_expired (evaluateExpiry (inv_expiresAt row) now)")
    case False with run row show ?thesis by (auto simp: expire_on_read_def load_row_def invoice_or_throw_def R_refl)
  next
    case True
    let ?f = "\<lambda>r. r\<lparr>inv_status := EXPIRED, inv_expiredAt := Some now, inv_version := inv_version r + 1\<rparr>"
    let ?rest = "seq_op (recordEvent gen i ''payment.expired'' (inv_status row) EXPIRED ''system'' [])
       (seq_op (case webhookEventForStatus EXPIRED of None \<Rightarrow> ret ()
                | Some eventType \<Rightarrow> invoice_webhook gen m i eventType (webhook_payload eventType row)) (load_row i))"
    from run row True obtain rule s1 where rule: "assertTransition (inv_status row) EXPIRED SYSTEM = Inr rule"
      and up: "update_invoice i ?f s = Inr ((), s1)" and rest: "?rest s1 = Inr (r, t)"
      by (auto simp: expire_on_read_def load_row_def [of i] invoice_or_throw_def bind_op_Inr_iff [of "transition_result _"] lifted_result_Inr
          seq_op_Inr_iff [of "update_invoice _ _"])
    have "R s s1" using up row _ rule by (rule actor_move) simp_all
    moreover have "R s1 t" using rest by (rule stepsD [rotated]) (intro steps_rules steps_event steps_create_webhook steps_load_row)
    ultimately show ?thesis by (rule R_trans)
  qed
qed

lemma load: "psteps R (loadAndMaybeExpire gen now m i)"
  unfolding loadAndMaybeExpire_def by (intro psteps_rules) (auto intro!: psteps_rules steps_expire_on_read split: prod.splits)

lemma steps_create: "steps R (create_transaction gen now locked asset crypto row)"
  unfolding steps_def
proof (intro allI impI)
  fix s r t assume run: "create_transaction gen now locked asset crypto row s = Inr (r, t)"
  obtain a rest s1 s2 s3 s4 e1 e2 where 0: "pool (inv_merchantId row) (inv_network row) (ac_symbol asset) locked s = a # rest"
    and 1: "create_invoice row s = Inr ((), s1)" and 2: "assign_address now (pa_id a) (inv_id row) s1 = Inr ((), s2)"
    and 3: "create_events (creation_events e1 e2 (inv_id row) (pa_id a)) (s2\<lparr>db_ulids := Suc (Suc (db_ulids s2))\<rparr>) = Inr ((), s3)"
    and 4: "(case webhookEventForStatus PENDING of None \<Rightarrow> ret ()
      | Some eventType \<Rightarrow> bind_op (money_result (toDecimalString crypto)) (\<lambda>amount.
          invoice_webhook gen (inv_merchantId row) (inv_id row) eventType (creation_payload eventType row amount))) s3 = Inr ((), s4)"
    and 5: "load_row (inv_id row) s4 = Inr (r, t)"
    using create_transaction_Inr [OF run] by blast
  have "R s s1" using 1 R_new_invoice [of row s] by (simp add: create_invoice_Inr)
  moreover have "R s1 s2" using 1 2 R_claim [of a s1 "inv_id row" now] pool_member [OF 0]
    by (simp add: create_invoice_Inr assign_address_Inr)
  moreover have "R s2 (s2\<lparr>db_ulids := Suc (Suc (db_ulids s2))\<rparr>)"
    using R_trans [OF R_ulid [of s2] R_ulid [of "s2\<lparr>db_ulids := Suc (db_ulids s2)\<rparr>"]] by simp
  moreover have "R (s2\<lparr>db_ulids := Suc (Suc (db_ulids s2))\<rparr>) s3"
    using create_events_Inr [OF 3] R_first_events [of "inv_id row" "s2\<lparr>db_ulids := Suc (Suc (db_ulids s2))\<rparr>" e1 e2 "pa_id a"] by auto
  moreover have "R s3 s4" using 4
    by (rule stepsD [rotated]) (intro steps_rules steps_create_webhook, simp add: money_result_def steps_rules)
  moreover have "R s4 t" using 5 by (simp add: load_row_Inr R_refl)
  ultimately show "R s t" by (blast intro: R_trans)
qed

lemma psteps_prod: "(\<And>a b. psteps R (f a b)) \<Longrightarrow> psteps R (case x of (a, b) \<Rightarrow> f a b)"
  by (cases x) simp

lemma steps_merchant: "steps R (merchant_or_throw i)"
  unfolding merchant_or_throw_def by (rule steps_pure)

lemmas api_rules = psteps_rules psteps_prod steps_fresh steps_create steps_merchant load

lemma create: "psteps R (createInvoice gen now maxExpiry getRate locked merchant dto)"
  unfolding createInvoice_def Let_def
  by (intro api_rules)

lemma reads: "psteps R (getInvoice gen now merchant i)" "psteps R (getPublicInvoice gen now i)" "psteps R (getInvoiceStatus gen now merchant i)"
  unfolding getInvoice_def getPublicInvoice_def getInvoiceStatus_def
  by (intro api_rules)+

lemma cancel_fresh:
  assumes "cancel_transaction gen now m i row a s = Inr (r, t)" "find_invoice i s = Some row"
    "assertTransition (inv_status row) CANCELLED MERCHANT = Inr rule"
  shows "R s t"
proof -
  let ?f = "\<lambda>r. r\<lparr>inv_status := CANCELLED, inv_cancelledAt := Some now, inv_version := inv_version r + 1\<rparr>"
  let ?rest = "seq_op (case a of None \<Rightarrow> ret ()
      | Some a \<Rightarrow> update_address (pa_id a) (\<lambda>r. r\<lparr>pa_status := RETIRED, pa_retiredAt := Some now\<rparr>))
     (seq_op (recordEvent gen i ''payment.cancelled'' (inv_status row) CANCELLED (''merchant:'' @ m) [])
     (seq_op (case webhookEventForStatus CANCELLED of None \<Rightarrow> ret ()
              | Some eventType \<Rightarrow> invoice_webhook gen m i eventType (webhook_payload eventType row)) (load_row i)))"
  from assms(1) obtain s1 where up: "update_invoice i ?f s = Inr ((), s1)" and rest: "?rest s1 = Inr (r, t)"
    unfolding cancel_transaction_def seq_op_Inr_iff [of "update_invoice _ _"] by blast
  have retire: "steps R (update_address k (\<lambda>r. r\<lparr>pa_status := RETIRED, pa_retiredAt := Some now\<rparr>))" for k
    unfolding update_address_def by (intro steps_rules steps_modify R_retire)
  have "steps R ?rest" by (intro steps_rules retire steps_event steps_create_webhook steps_load_row)
  then have "R s1 t" using rest by (rule stepsD)
  moreover have "R s s1" by (rule actor_move [OF up assms(2) _ assms(3)]) simp_all
  ultimately show ?thesis using R_trans by blast
qed

lemma cancel: "psteps R (cancelInvoice gen now merchant i)"
  unfolding psteps_def
proof
  fix s
  obtain x s1 where ld: "loadAndMaybeExpire gen now (mc_merchantId merchant) i s = (x, s1)" by fastforce
  have R1: "R s s1" using psteps_D [OF load, of s now "mc_merchantId merchant" i] ld by simp
  show "R s (snd (cancelInvoice gen now merchant i s))"
  proof (cases x)
    case (Inl e) then show ?thesis using R1 ld by (simp add: cancelInvoice_def pbind_def)
  next
    case (Inr r)
    obtain row a where r: "r = (row, a)" by fastforce
    have f: "find_invoice i s1 = Some row" using load_result [of gen now "mc_merchantId merchant" i s r s1] ld Inr r by simp
    show ?thesis
    proof (cases "assertTransition (inv_status row) CANCELLED MERCHANT")
      case (Inl e) then show ?thesis using R1 ld Inr r \<open>x = Inr r\<close> by (simp add: cancelInvoice_def pbind_def)
    next
      case gate: (Inr rule)
      have "R s1 t" if "cancel_transaction gen now (mc_merchantId merchant) i row a s1 = Inr (y, t)" for y t
        using that f gate by (rule cancel_fresh)
      then have "R s1 (snd (cancelInvoice gen now merchant i s))"
        using ld gate r \<open>x = Inr r\<close>
        by (cases "cancel_transaction gen now (mc_merchantId merchant) i row a s1")
          (auto simp: cancelInvoice_def pbind_def atomically_def R_refl split: prod.splits)
      with R1 show ?thesis by (rule R_trans)
    qed
  qed
qed

lemmas gateway = pipeline sweep create reads cancel

end

section \<open>What the gateway keeps\<close>

lemma map_id_update: "(\<And>x. inv_id (f x) = inv_id x) \<Longrightarrow> map inv_id (update_rows p f rs) = map inv_id rs"
  by (rule update_rows_ids)

interpretation gw_history: gateway_relation history_kept gen for gen
proof
  fix i s row actor st rule and f :: "invoice \<Rightarrow> invoice"
  assume "\<And>x. inv_id (f x) = inv_id x \<and> inv_status (f x) = st"
  then show "history_kept s (s\<lparr>invoices := update_rows (\<lambda>x. inv_id x = i) f (invoices s)\<rparr>)"
    by (simp add: history_kept_def map_id_update)
qed (simp_all add: history_kept_def)

interpretation gw_books: gateway_relation "books_kept gen" gen for gen
  by unfold_locales (rule books_kept_frame; simp)+

lemma journals_creation:
  assumes "\<not> list_ex (\<lambda>x. ev_invoiceId x = i \<and> ev_sequence x = 1) (payment_events s)"
  shows "keeps journals_ok s (s\<lparr>payment_events := payment_events s @ creation_events e1 e2 i k\<rparr>)"
  unfolding keeps_def
proof
  assume ok: "journals_ok s"
  let ?es = "filter (\<lambda>e. ev_invoiceId e = i) (payment_events s)"
  have seq: "map ev_sequence ?es = map (\<lambda>k. int k + 1) [0..<length ?es]" using ok by (simp add: journals_ok_def Let_def)
  have none: "?es = []"
  proof (rule ccontr)
    assume ne: "?es \<noteq> []"
    then have "hd (map ev_sequence ?es) = 1" unfolding seq by (simp add: hd_map upt_rec)
    then have "ev_sequence (hd ?es) = 1" using ne by (simp add: hd_map)
    moreover have "hd ?es \<in> set ?es" using ne by (rule hd_in_set)
    ultimately show False using assms by (auto simp: list_ex_iff)
  qed
  show "journals_ok (s\<lparr>payment_events := payment_events s @ creation_events e1 e2 i k\<rparr>)"
    unfolding journals_ok_def Let_def
  proof (intro conjI allI)
    fix j
    show "map ev_sequence (filter (\<lambda>e. ev_invoiceId e = j) (payment_events (s\<lparr>payment_events := payment_events s @ creation_events e1 e2 i k\<rparr>))) =
      map (\<lambda>k. int k + 1) [0..<length (filter (\<lambda>e. ev_invoiceId e = j) (payment_events (s\<lparr>payment_events := payment_events s @ creation_events e1 e2 i k\<rparr>)))]"
      using ok none by (cases "j = i") (simp_all add: creation_events_def journals_ok_def Let_def)
    show "distinct (map we_idempotencyKey (webhook_events (s\<lparr>payment_events := payment_events s @ creation_events e1 e2 i k\<rparr>)))"
      using ok by (simp add: journals_ok_def)
  qed
qed

interpretation gw_journals: gateway_relation "keeps journals_ok" gen for gen
  by unfold_locales (rule journals_creation, assumption | rule journals_frame; simp)+

interpretation gw_gate: gateway_relation "gate_respected {MONITOR, SYSTEM, MERCHANT}" gen for gen
proof
  fix i s row actor st rule and f :: "invoice \<Rightarrow> invoice"
  assume "find_invoice i s = Some row" "actor \<in> {SYSTEM, MERCHANT}" "assertTransition (inv_status row) st actor = Inr rule"
    "\<And>x. inv_id (f x) = inv_id x \<and> inv_status (f x) = st"
  then show "gate_respected {MONITOR, SYSTEM, MERCHANT} s (s\<lparr>invoices := update_rows (\<lambda>x. inv_id x = i) f (invoices s)\<rparr>)"
    by (intro gate_respected_move [where actor = actor and rule = rule and row = row and st = st]) auto
next
  fix row :: invoice and s assume "find_invoice (inv_id row) s = None"
  then have "status_of i s = Some a \<Longrightarrow> status_of i (s\<lparr>invoices := invoices s @ [row]\<rparr>) = Some a" for i a
    by (auto simp: status_of_def find_invoice_def find_append)
  then show "gate_respected {MONITOR, SYSTEM, MERCHANT} s (s\<lparr>invoices := invoices s @ [row]\<rparr>)"
    unfolding gate_respected_def by (blast intro: reaches.stay)
qed (rule gate_respected_same, rule status_of_frame, simp)+

text \<open>The deposit addresses: an address that is free has no invoice, no two addresses belong to the
  same invoice, and one that was given to an invoice keeps it and is never free again.\<close>

definition pool_ok :: "payment_address list \<Rightarrow> bool" where
  "pool_ok as \<longleftrightarrow> distinct (map pa_id as) \<and>
     (\<forall>a \<in> set as. pa_status a = AVAILABLE \<longrightarrow> pa_invoiceId a = None) \<and>
     (\<forall>a \<in> set as. \<forall>b \<in> set as. pa_invoiceId a \<noteq> None \<and> pa_invoiceId a = pa_invoiceId b \<longrightarrow> a = b)"

definition addresses_ok :: "db \<Rightarrow> bool" where
  "addresses_ok s \<longleftrightarrow> pool_ok (payment_addresses s)"

definition addresses_kept :: "db \<Rightarrow> db \<Rightarrow> bool" where
  "addresses_kept s t \<longleftrightarrow> (addresses_ok s \<longrightarrow> addresses_ok t \<and>
     (\<forall>a \<in> set (payment_addresses s). pa_invoiceId a \<noteq> None \<longrightarrow>
        (\<exists>b \<in> set (payment_addresses t). pa_id b = pa_id a \<and> pa_address b = pa_address a \<and> pa_invoiceId b = pa_invoiceId a \<and>
           pa_status b \<noteq> AVAILABLE)))"

lemma addresses_kept_refl: "payment_addresses t = payment_addresses s \<Longrightarrow> addresses_kept s t"
proof -
  assume eq: "payment_addresses t = payment_addresses s"
  have "pa_status a \<noteq> AVAILABLE" if "addresses_ok s" "a \<in> set (payment_addresses s)" "pa_invoiceId a \<noteq> None" for a
    using that by (auto simp: addresses_ok_def pool_ok_def)
  moreover have "addresses_ok t = addresses_ok s" using eq by (simp add: addresses_ok_def)
  ultimately show ?thesis unfolding addresses_kept_def eq by blast
qed

lemma addresses_kept_trans:
  assumes "addresses_kept s t" "addresses_kept t u"
  shows "addresses_kept s u"
  unfolding addresses_kept_def
proof (intro impI conjI ballI)
  assume ok: "addresses_ok s"
  with assms(1) have t: "addresses_ok t" by (simp add: addresses_kept_def)
  then show "addresses_ok u" using assms(2) by (simp add: addresses_kept_def)
  fix a assume a: "a \<in> set (payment_addresses s)" "pa_invoiceId a \<noteq> None"
  then obtain b where b: "b \<in> set (payment_addresses t)" "pa_id b = pa_id a" "pa_address b = pa_address a" "pa_invoiceId b = pa_invoiceId a"
    using assms(1) ok unfolding addresses_kept_def by blast
  with a have "pa_invoiceId b \<noteq> None" by simp
  with b(1) t obtain c where "c \<in> set (payment_addresses u)" "pa_id c = pa_id b" "pa_address c = pa_address b"
      "pa_invoiceId c = pa_invoiceId b" "pa_status c \<noteq> AVAILABLE"
    using assms(2) unfolding addresses_kept_def by blast
  with b show "\<exists>b \<in> set (payment_addresses u). pa_id b = pa_id a \<and> pa_address b = pa_address a \<and> pa_invoiceId b = pa_invoiceId a \<and>
      pa_status b \<noteq> AVAILABLE" by (intro bexI [of _ c]) simp_all
qed

lemma addresses_update:
  assumes "\<And>x. pa_id (f x) = pa_id x \<and> pa_address (f x) = pa_address x \<and> pa_status (f x) \<noteq> AVAILABLE"
    and "\<And>b. addresses_ok s \<Longrightarrow> b \<in> set (payment_addresses s) \<Longrightarrow> pa_id b = k \<Longrightarrow>
      (pa_invoiceId b \<noteq> None \<longrightarrow> pa_invoiceId (f b) = pa_invoiceId b) \<and>
      (\<forall>c \<in> set (payment_addresses s). pa_id c \<noteq> k \<longrightarrow> pa_invoiceId (f b) = None \<or> pa_invoiceId c \<noteq> pa_invoiceId (f b))"
  shows "addresses_kept s (s\<lparr>payment_addresses := update_rows (\<lambda>r. pa_id r = k) f (payment_addresses s)\<rparr>)"
  unfolding addresses_kept_def
proof (intro impI conjI ballI)
  let ?g = "\<lambda>r. if pa_id r = k then f r else r"
  assume ok: "addresses_ok s"
  have d: "distinct (map pa_id (payment_addresses s))" using ok by (simp add: addresses_ok_def pool_ok_def)
  have same: "b = c" if "b \<in> set (payment_addresses s)" "c \<in> set (payment_addresses s)" "pa_id b = pa_id c" for b c
    using d that by (auto simp: distinct_map dest: inj_onD)
  have inj: "?g b = ?g c" if bc: "b \<in> set (payment_addresses s)" "c \<in> set (payment_addresses s)"
    and eq: "pa_invoiceId (?g b) \<noteq> None" "pa_invoiceId (?g b) = pa_invoiceId (?g c)" for b c
  proof -
    consider "pa_id b = k" "pa_id c = k" | "pa_id b = k" "pa_id c \<noteq> k" | "pa_id b \<noteq> k" "pa_id c = k" | "pa_id b \<noteq> k" "pa_id c \<noteq> k" by blast
    then show ?thesis
    proof cases
      case 1
      then have "b = c" using same [OF bc] by simp
      then show ?thesis by simp
    next
      case 2
      then have "pa_invoiceId (f b) = None \<or> pa_invoiceId c \<noteq> pa_invoiceId (f b)" using assms(2) [OF ok bc(1)] bc(2) by blast
      with 2 eq show ?thesis by simp
    next
      case 3
      then have "pa_invoiceId (f c) = None \<or> pa_invoiceId b \<noteq> pa_invoiceId (f c)" using assms(2) [OF ok bc(2)] bc(1) by blast
      with 3 eq show ?thesis by simp
    next
      case 4
      then have "b = c" using ok bc eq unfolding addresses_ok_def pool_ok_def by simp
      then show ?thesis by simp
    qed
  qed
  have free: "pa_invoiceId (?g b) = None" if "b \<in> set (payment_addresses s)" "pa_status (?g b) = AVAILABLE" for b
    using that ok assms(1) by (cases "pa_id b = k") (auto simp: addresses_ok_def pool_ok_def)
  have "distinct (map pa_id (update_rows (\<lambda>r. pa_id r = k) f (payment_addresses s)))"
    using d assms(1) update_rows_ids [of pa_id f "\<lambda>r. pa_id r = k" "payment_addresses s"] by simp
  moreover have "\<forall>a \<in> ?g ` set (payment_addresses s). pa_status a = AVAILABLE \<longrightarrow> pa_invoiceId a = None"
    by (rule ballI, erule imageE, hypsubst, rule impI, rule free)
  moreover have "\<forall>a \<in> ?g ` set (payment_addresses s). \<forall>b \<in> ?g ` set (payment_addresses s).
      pa_invoiceId a \<noteq> None \<and> pa_invoiceId a = pa_invoiceId b \<longrightarrow> a = b"
    by (intro ballI impI, elim imageE conjE, hypsubst, rule inj)
  ultimately have "pool_ok (update_rows (\<lambda>r. pa_id r = k) f (payment_addresses s))"
    unfolding pool_ok_def set_update_rows by (intro conjI)
  then show "addresses_ok (s\<lparr>payment_addresses := update_rows (\<lambda>r. pa_id r = k) f (payment_addresses s)\<rparr>)"
    by (simp add: addresses_ok_def)
  fix a assume a: "a \<in> set (payment_addresses s)" "pa_invoiceId a \<noteq> None"
  have "pa_id (?g a) = pa_id a \<and> pa_address (?g a) = pa_address a \<and> pa_invoiceId (?g a) = pa_invoiceId a \<and> pa_status (?g a) \<noteq> AVAILABLE"
    using a assms(1) assms(2) [OF ok a(1)] ok by (cases "pa_id a = k") (auto simp: addresses_ok_def pool_ok_def)
  then show "\<exists>b \<in> set (payment_addresses (s\<lparr>payment_addresses := update_rows (\<lambda>r. pa_id r = k) f (payment_addresses s)\<rparr>)).
      pa_id b = pa_id a \<and> pa_address b = pa_address a \<and> pa_invoiceId b = pa_invoiceId a \<and> pa_status b \<noteq> AVAILABLE"
    using a(1) by (intro bexI [of _ "?g a"]) (simp_all add: set_update_rows)
qed

interpretation gw_addresses: gateway_relation addresses_kept gen for gen
proof
  fix s t u assume "addresses_kept s t" "addresses_kept t u"
  then show "addresses_kept s u" by (rule addresses_kept_trans)
next
  fix p show "steps addresses_kept (postPaymentCredit gen p)"
    unfolding steps_def
  proof (intro allI impI)
    fix s r t assume "postPaymentCredit gen p s = Inr (r, t)"
    from posting_state [OF this] show "addresses_kept s t" by (intro addresses_kept_refl) auto
  qed
next
  fix a and s :: db and i now
  assume a: "a \<in> set (payment_addresses s)" "pa_status a = AVAILABLE"
    and new: "\<not> list_ex (\<lambda>b. pa_id b \<noteq> pa_id a \<and> pa_invoiceId b = Some i) (payment_addresses s)"
  have free: "pa_invoiceId b = None" if "addresses_ok s" "b \<in> set (payment_addresses s)" "pa_id b = pa_id a" for b
    using that a by (auto simp: addresses_ok_def pool_ok_def distinct_map dest: inj_onD)
  show "addresses_kept s (s\<lparr>payment_addresses := update_rows (\<lambda>r. pa_id r = pa_id a)
      (\<lambda>r. r\<lparr>pa_status := ASSIGNED, pa_invoiceId := Some i, pa_assignedAt := Some now\<rparr>) (payment_addresses s)\<rparr>)"
    by (rule addresses_update) (use new free in \<open>auto simp: list_ex_iff\<close>)
next
  fix s :: db and k now
  have "pa_invoiceId b = None \<or> pa_invoiceId c \<noteq> pa_invoiceId b"
    if "addresses_ok s" "b \<in> set (payment_addresses s)" "c \<in> set (payment_addresses s)" "pa_id c \<noteq> pa_id b" for b c
    using that unfolding addresses_ok_def pool_ok_def by metis
  then show "addresses_kept s (s\<lparr>payment_addresses := update_rows (\<lambda>r. pa_id r = k)
      (\<lambda>r. r\<lparr>pa_status := RETIRED, pa_retiredAt := Some now\<rparr>) (payment_addresses s)\<rparr>)"
    by (intro addresses_update) auto
qed (rule addresses_kept_refl; simp)+

end
