(* ===== verification/Scanner.thy ===== *)
theory Scanner
  imports Invariants
begin

text \<open>
  The block scanner (\<open>apps/blockchain-monitor/src/scanner.ts\<close>): one tick loads the cursor of the
  network, checks the last processed block for a reorganisation, walks the next batch of blocks,
  hands the transactions that touch a tracked deposit address to the monitor, saves the cursor and
  updates confirmations. The adapter is a parameter: what it answers during one tick is a function of
  what it is asked, and two ticks may see different adapters. An EVM adapter also offers the cheap
  discovery methods.
\<close>

section \<open>The adapter of the scanner\<close>

record block_head =
  br_number :: int
  br_hash :: string
  br_parentHash :: string

record block_ref = block_head +
  br_timestamp :: int

record block_data = block_ref +
  bd_transactions :: "chain_transaction list"

record light_tx =
  lx_hash :: string
  lx_to :: "string option"
  lx_value :: int

record light_block = block_head +
  lb_transactions :: "light_tx list"

record evm_discovery =
  ed_getLightBlock :: "int \<Rightarrow> failure + light_block option"
  ed_getTransferLogsTo :: "int \<Rightarrow> int \<Rightarrow> string list \<Rightarrow> string list \<Rightarrow> failure + string list"

record scan_adapter = adapter +
  ad_getCurrentBlock :: "failure + block_ref"
  ad_getBlock :: "int \<Rightarrow> failure + block_data option"
  ad_validateAddress :: "string \<Rightarrow> bool"
  ad_discovery :: "evm_discovery option"

definition asEvmDiscoveryAdapter :: "scan_adapter \<Rightarrow> evm_discovery option" where
  "asEvmDiscoveryAdapter ad = ad_discovery ad"

definition monitor_adapter :: "scan_adapter \<Rightarrow> adapter" where
  "monitor_adapter ad = adapter.truncate ad"

section \<open>Cursor and reorganisations\<close>

record scan_cursor =
  sc_lastProcessedBlock :: int
  sc_lastProcessedHash :: "string option"

definition minBigInt :: "int \<Rightarrow> int \<Rightarrow> int" where
  "minBigInt a b = (if a < b then a else b)"

definition normalizeForTracking :: "string \<Rightarrow> string" where
  "normalizeForTracking address = (if startsWith address ''0x'' then toLowerCase address else address)"

text \<open>A JavaScript set keeps the order of insertion.\<close>

definition set_add :: "'a \<Rightarrow> 'a list \<Rightarrow> 'a list" where
  "set_add x xs = (if x \<in> set xs then xs else xs @ [x])"

definition loadTrackedAddresses :: "scan_adapter \<Rightarrow> network \<Rightarrow> db \<Rightarrow> string list" where
  "loadTrackedAddresses ad network s =
     fold (\<lambda>a tracked. let address = normalizeForTracking (pa_addressNormalized a) in
         if ad_validateAddress ad address then set_add address tracked else tracked)
       (filter (\<lambda>a. pa_network a = network \<and> (pa_status a = ASSIGNED \<or> pa_status a = RETIRED)) (payment_addresses s)) []"

definition find_cursor :: "network \<Rightarrow> db \<Rightarrow> chain_cursor option" where
  "find_cursor network s = find (\<lambda>c. cc_network c = network) (chain_cursors s)"

definition loadCursor :: "network \<Rightarrow> int \<Rightarrow> scan_cursor service" where
  "loadCursor network chainTip =
     pbind (preads (find_cursor network)) (\<lambda>existing.
     case existing of
       Some c \<Rightarrow> pret \<lparr>sc_lastProcessedBlock = cc_lastProcessedBlock c, sc_lastProcessedHash = cc_lastProcessedHash c\<rparr>
     | None \<Rightarrow>
         let start = (if chainTip > 0 then chainTip - 1 else 0) in
         pbind (pmodify (\<lambda>s. s\<lparr>chain_cursors := chain_cursors s @
           [\<lparr>cc_network = network, cc_lastProcessedBlock = start, cc_lastProcessedHash = None, cc_chainTipBlock = Some chainTip,
             cc_lastReorgAt = None, cc_lastReorgDepth = None\<rparr>]\<rparr>)) (\<lambda>_.
         pret \<lparr>sc_lastProcessedBlock = start, sc_lastProcessedHash = None\<rparr>))"

definition update_cursor :: "network \<Rightarrow> (chain_cursor \<Rightarrow> chain_cursor) \<Rightarrow> unit service" where
  "update_cursor network f =
     pbind (preads (find_cursor network)) (\<lambda>existing.
     case existing of None \<Rightarrow> pthrow (RecordNotFound ''ChainCursor'' (network_name network))
     | Some _ \<Rightarrow> pmodify (\<lambda>s. s\<lparr>chain_cursors := update_rows (\<lambda>c. cc_network c = network) f (chain_cursors s)\<rparr>))"

definition getBlockHash :: "scan_adapter \<Rightarrow> int \<Rightarrow> failure + string option" where
  "getBlockHash ad number =
     (case asEvmDiscoveryAdapter ad of
        Some evm \<Rightarrow> bind_result (ed_getLightBlock evm number) (\<lambda>b. Inr (map_option br_hash b))
      | None \<Rightarrow> bind_result (ad_getBlock ad number) (\<lambda>b. Inr (map_option br_hash b)))"

definition checkForReorg :: "scan_adapter \<Rightarrow> int \<Rightarrow> string option \<Rightarrow> failure + bool" where
  "checkForReorg ad lastProcessedBlock lastProcessedHash =
     (if \<not> truthy lastProcessedHash \<or> lastProcessedBlock \<le> 0 then Inr False
      else bind_result (getBlockHash ad lastProcessedBlock) (\<lambda>hash.
        Inr (case hash of None \<Rightarrow> True | Some h \<Rightarrow> toLowerCase h \<noteq> toLowerCase (the lastProcessedHash))))"

definition rewindCursor :: "(nat \<Rightarrow> string) \<Rightarrow> int \<Rightarrow> scan_adapter \<Rightarrow> network \<Rightarrow> int \<Rightarrow> scan_cursor service" where
  "rewindCursor gen now ad network fromBlock =
     pbind (handleReorg gen now network fromBlock) (\<lambda>_.
     let rewound = (if fromBlock > 0 then fromBlock - 1 else 0) in
     pbind (pfrom_result (if rewound > 0 then getBlockHash ad rewound else Inr None)) (\<lambda>previousHash.
     pbind (update_cursor network (\<lambda>c. c\<lparr>cc_lastProcessedBlock := rewound, cc_lastProcessedHash := previousHash,
       cc_lastReorgAt := Some now, cc_lastReorgDepth := Some 1\<rparr>)) (\<lambda>_.
     pret \<lparr>sc_lastProcessedBlock = rewound, sc_lastProcessedHash = previousHash\<rparr>)))"

definition saveCursor :: "network \<Rightarrow> int \<Rightarrow> string option \<Rightarrow> int \<Rightarrow> unit service" where
  "saveCursor network block hash chainTip =
     update_cursor network (\<lambda>c. c\<lparr>cc_lastProcessedBlock := block, cc_lastProcessedHash := hash, cc_chainTipBlock := Some chainTip\<rparr>)"

section \<open>Discovery\<close>

record scan_progress =
  sp_scannedBlocks :: nat
  sp_candidates :: nat
  sp_lastBlock :: "(int \<times> string) option"

text \<open>The loop over the light blocks: at most \<open>k\<close> blocks from \<open>height\<close> on.\<close>

fun walk_light :: "(int \<Rightarrow> failure + light_block option) \<Rightarrow> string list \<Rightarrow> nat \<Rightarrow> int \<Rightarrow> string list \<Rightarrow> nat \<Rightarrow> (int \<times> string) option \<Rightarrow>
  failure + (string list \<times> nat \<times> (int \<times> string) option)" where
  "walk_light getLightBlock tracked 0 height hashes scanned lastBlock = Inr (hashes, scanned, lastBlock)"
| "walk_light getLightBlock tracked (Suc k) height hashes scanned lastBlock =
     bind_result (getLightBlock height) (\<lambda>found.
     case found of None \<Rightarrow> Inr (hashes, scanned, lastBlock)
     | Some block \<Rightarrow>
         let hashes' = fold (\<lambda>tx hs. if truthy (lx_to tx) \<and> lx_value tx > 0 \<and> toLowerCase (the (lx_to tx)) \<in> set tracked
                                then set_add (lx_hash tx) hs else hs) (lb_transactions block) hashes in
         walk_light getLightBlock tracked k (height + 1) hashes' (scanned + 1) (Some (br_number block, br_hash block)))"

definition allowlisted_contracts :: "network \<Rightarrow> string list" where
  "allowlisted_contracts network = List.map_filter ac_contractAddress (listAssets (Some network) (Some True))"

definition scanRangeFast ::
  "(nat \<Rightarrow> string) \<Rightarrow> int \<Rightarrow> int \<Rightarrow> scan_adapter \<Rightarrow> evm_discovery \<Rightarrow> network \<Rightarrow> int \<Rightarrow> int \<Rightarrow> string list \<Rightarrow> scan_progress service"
where
  "scanRangeFast gen grace now ad evm network from to tracked =
     pbind (pfrom_result (walk_light (ed_getLightBlock evm) tracked (nat (to - from + 1)) from [] 0 None)) (\<lambda>(native, scannedBlocks, lastBlock).
     pbind (pfrom_result (if scannedBlocks > 0
       then ed_getTransferLogsTo evm from (from + int scannedBlocks - 1) (allowlisted_contracts network) tracked
       else Inr [])) (\<lambda>tokenHashes.
     let candidateHashes = fold set_add tokenHashes native in
     pbind (pfor_each (processTransaction gen grace now (monitor_adapter ad) network) candidateHashes) (\<lambda>_.
     pret \<lparr>sp_scannedBlocks = scannedBlocks, sp_candidates = length candidateHashes, sp_lastBlock = lastBlock\<rparr>)))"

definition touchesTrackedAddress :: "scan_adapter \<Rightarrow> string \<Rightarrow> string list \<Rightarrow> failure + bool" where
  "touchesTrackedAddress ad txHash tracked =
     (if tracked = [] then Inr False
      else bind_result (ad_getTransfers ad txHash) (\<lambda>transfers.
        Inr (list_ex (\<lambda>t. normalizeForTracking (px_toAddress t) \<in> set tracked) transfers)))"

text \<open>The transactions of one block, then the loop over the blocks.\<close>

definition scan_transaction ::
  "(nat \<Rightarrow> string) \<Rightarrow> int \<Rightarrow> int \<Rightarrow> scan_adapter \<Rightarrow> network \<Rightarrow> string list \<Rightarrow> chain_transaction \<Rightarrow> nat \<Rightarrow> nat service"
where
  "scan_transaction gen grace now ad network tracked tx candidates =
     pbind (pfrom_result (touchesTrackedAddress ad (cx_hash tx) tracked)) (\<lambda>touches.
     if touches then
       pbind (processTransaction gen grace now (monitor_adapter ad) network (cx_hash tx)) (\<lambda>_. pret (candidates + 1))
     else pret candidates)"

fun walk_blocks :: "(nat \<Rightarrow> string) \<Rightarrow> int \<Rightarrow> int \<Rightarrow> scan_adapter \<Rightarrow> network \<Rightarrow> string list \<Rightarrow> nat \<Rightarrow> int \<Rightarrow> scan_progress \<Rightarrow> scan_progress service" where
  "walk_blocks gen grace now ad network tracked 0 height p = pret p"
| "walk_blocks gen grace now ad network tracked (Suc k) height p =
     pbind (pfrom_result (ad_getBlock ad height)) (\<lambda>found.
     case found of None \<Rightarrow> pret p
     | Some block \<Rightarrow>
         pbind (pfold (scan_transaction gen grace now ad network tracked) (bd_transactions block) (sp_candidates p)) (\<lambda>candidates.
         walk_blocks gen grace now ad network tracked k (height + 1)
           \<lparr>sp_scannedBlocks = sp_scannedBlocks p + 1, sp_candidates = candidates,
            sp_lastBlock = Some (br_number block, br_hash block)\<rparr>))"

definition scanRangeGeneric ::
  "(nat \<Rightarrow> string) \<Rightarrow> int \<Rightarrow> int \<Rightarrow> scan_adapter \<Rightarrow> network \<Rightarrow> int \<Rightarrow> int \<Rightarrow> string list \<Rightarrow> scan_progress service"
where
  "scanRangeGeneric gen grace now ad network from to tracked =
     walk_blocks gen grace now ad network tracked (nat (to - from + 1)) from
       \<lparr>sp_scannedBlocks = 0, sp_candidates = 0, sp_lastBlock = None\<rparr>"

section \<open>One tick\<close>

record scan_result =
  sr_network :: network
  sr_scannedBlocks :: nat
  sr_candidateTransactions :: nat
  sr_reorgDetected :: bool
  sr_chainTip :: int
  sr_lastProcessedBlock :: int

definition scan_end :: "int \<Rightarrow> int \<Rightarrow> int \<Rightarrow> int" where
  "scan_end current from blockBatchSize =
     (if current < from then from - 1 else minBigInt current (from + blockBatchSize - 1))"

definition scan_range ::
  "(nat \<Rightarrow> string) \<Rightarrow> int \<Rightarrow> int \<Rightarrow> scan_adapter \<Rightarrow> network \<Rightarrow> int \<Rightarrow> int \<Rightarrow> string list \<Rightarrow> scan_progress service"
where
  "scan_range gen grace now ad network from to tracked =
     (case asEvmDiscoveryAdapter ad of
        Some evm \<Rightarrow> if to \<ge> from then scanRangeFast gen grace now ad evm network from to tracked
                    else scanRangeGeneric gen grace now ad network from to tracked
      | None \<Rightarrow> scanRangeGeneric gen grace now ad network from to tracked)"

definition tick :: "(nat \<Rightarrow> string) \<Rightarrow> int \<Rightarrow> int \<Rightarrow> int \<Rightarrow> scan_adapter \<Rightarrow> network \<Rightarrow> scan_result service" where
  "tick gen grace now blockBatchSize ad network =
     pbind (pfrom_result (ad_getCurrentBlock ad)) (\<lambda>current.
     pbind (loadCursor network (br_number current)) (\<lambda>loaded.
     pbind (pfrom_result (checkForReorg ad (sc_lastProcessedBlock loaded) (sc_lastProcessedHash loaded))) (\<lambda>reorgDetected.
     pbind (if reorgDetected then rewindCursor gen now ad network (sc_lastProcessedBlock loaded) else pret loaded) (\<lambda>cursor.
     let from = sc_lastProcessedBlock cursor + 1; to = scan_end (br_number current) from blockBatchSize in
     pbind (preads (loadTrackedAddresses ad network)) (\<lambda>trackedAddresses.
     pbind (scan_range gen grace now ad network from to trackedAddresses) (\<lambda>progress.
     let endingBlock = (case sp_lastBlock progress of Some b \<Rightarrow> fst b
                        | None \<Rightarrow> sc_lastProcessedBlock cursor) in
     pbind (case sp_lastBlock progress of
         Some (number, hash) \<Rightarrow> saveCursor network number (Some hash) (br_number current)
       | None \<Rightarrow> saveCursor network (sc_lastProcessedBlock cursor) (sc_lastProcessedHash cursor) (br_number current)) (\<lambda>_.
     pbind (updateConfirmations gen now (monitor_adapter ad) network) (\<lambda>_.
     pret \<lparr>sr_network = network, sr_scannedBlocks = sp_scannedBlocks progress,
           sr_candidateTransactions = sp_candidates progress, sr_reorgDetected = reorgDetected,
           sr_chainTip = br_number current, sr_lastProcessedBlock = endingBlock\<rparr>))))))))"

section \<open>What is discovered\<close>

text \<open>The specification of discovery: the hashes a scan of the \<open>n\<close> blocks from \<open>from\<close> on has to hand to
  the monitor, in order.\<close>

definition pays_tracked :: "string list \<Rightarrow> light_tx \<Rightarrow> bool" where
  "pays_tracked tracked tx \<longleftrightarrow> truthy (lx_to tx) \<and> lx_value tx > 0 \<and> toLowerCase (the (lx_to tx)) \<in> set tracked"

definition natives_at :: "(int \<Rightarrow> failure + light_block option) \<Rightarrow> string list \<Rightarrow> int \<Rightarrow> string list" where
  "natives_at getLightBlock tracked h = (case getLightBlock h of
     Inr (Some b) \<Rightarrow> map lx_hash (filter (pays_tracked tracked) (lb_transactions b)) | _ \<Rightarrow> [])"

definition touching_at :: "scan_adapter \<Rightarrow> string list \<Rightarrow> int \<Rightarrow> string list" where
  "touching_at ad tracked h = (case ad_getBlock ad h of
     Inr (Some b) \<Rightarrow> filter (\<lambda>x. touchesTrackedAddress ad x tracked = Inr True) (map cx_hash (bd_transactions b)) | _ \<Rightarrow> [])"

definition over_blocks :: "(int \<Rightarrow> 'a list) \<Rightarrow> int \<Rightarrow> nat \<Rightarrow> 'a list" where
  "over_blocks f from n = concat (map (\<lambda>j. f (from + int j)) [0..<n])"

definition discovered :: "scan_adapter \<Rightarrow> network \<Rightarrow> string list \<Rightarrow> int \<Rightarrow> nat \<Rightarrow> string list" where
  "discovered ad network tracked from n =
     (case asEvmDiscoveryAdapter ad of
        None \<Rightarrow> over_blocks (touching_at ad tracked) from n
      | Some evm \<Rightarrow> if n = 0 then [] else
          fold set_add (case ed_getTransferLogsTo evm from (from + int n - 1) (allowlisted_contracts network) tracked of Inl _ \<Rightarrow> [] | Inr hs \<Rightarrow> hs)
            (fold set_add (over_blocks (natives_at (ed_getLightBlock evm) tracked) from n) []))"

text \<open>The reference to the block a height holds, whichever method the scanner uses.\<close>

definition block_at :: "scan_adapter \<Rightarrow> int \<Rightarrow> (int \<times> string) option" where
  "block_at ad h = (case asEvmDiscoveryAdapter ad of
     Some evm \<Rightarrow> (case ed_getLightBlock evm h of Inr (Some b) \<Rightarrow> Some (br_number b, br_hash b) | _ \<Rightarrow> None)
   | None \<Rightarrow> (case ad_getBlock ad h of Inr (Some b) \<Rightarrow> Some (br_number b, br_hash b) | _ \<Rightarrow> None))"

text \<open>What the scanner relies on: the block an adapter returns for a height has that height.\<close>

definition numbered :: "scan_adapter \<Rightarrow> bool" where
  "numbered ad \<longleftrightarrow> (\<forall>h n hash. block_at ad h = Some (n, hash) \<longrightarrow> n = h)"

lemma over_blocks_simps [simp]:
  "over_blocks f from 0 = []" "over_blocks f from (Suc n) = f from @ over_blocks f (from + 1) n"
  by (simp_all add: over_blocks_def upt_conv_Cons map_Suc_upt [symmetric] o_def add.assoc del: upt_Suc)

lemma fold_if_add: "fold (\<lambda>x hs. if P x then set_add (f x) hs else hs) xs hs = fold set_add (map f (filter P xs)) hs"
  by (induction xs arbitrary: hs) simp_all

lemma pfor_each_append:
  "pfor_each f (xs @ ys) s = (Inr (), t) \<longleftrightarrow> (\<exists>u. pfor_each f xs s = (Inr (), u) \<and> pfor_each f ys u = (Inr (), t))"
  by (induction xs arbitrary: s) (auto simp: pbind_Inr_iff)

lemma walk_light_result:
  assumes "walk_light g tracked k h hs sc lst = Inr (hs', sc', lst')"
  shows "\<exists>n \<le> k. sc' = sc + n \<and> hs' = fold set_add (over_blocks (natives_at g tracked) h n) hs \<and>
    (\<forall>j < n. \<exists>b. g (h + int j) = Inr (Some b)) \<and>
    (if n = 0 then lst' = lst else \<exists>b. g (h + int n - 1) = Inr (Some b) \<and> lst' = Some (br_number b, br_hash b))"
  using assms
proof (induction k arbitrary: h hs sc lst)
  case 0 then show ?case by simp
next
  case (Suc k)
  from Suc.prems obtain x where x: "g h = Inr x" by (cases "g h") auto
  show ?case
  proof (cases x)
    case None with x Suc.prems show ?thesis by (intro exI [of _ 0]) simp
  next
    case (Some b)
    then have 2: "g h = Inr (Some b)"
      "walk_light g tracked k (h + 1) (fold set_add (natives_at g tracked h) hs) (sc + 1) (Some (br_number b, br_hash b)) = Inr (hs', sc', lst')"
      using x Suc.prems by (simp_all add: Let_def natives_at_def pays_tracked_def [abs_def] fold_if_add [where f = lx_hash])
    from Suc.IH [OF 2(2)] obtain n where n: "n \<le> k" "sc' = sc + 1 + n"
      "hs' = fold set_add (over_blocks (natives_at g tracked) (h + 1) n) (fold set_add (natives_at g tracked h) hs)"
      "\<forall>j < n. \<exists>b. g (h + 1 + int j) = Inr (Some b)"
      "if n = 0 then lst' = Some (br_number b, br_hash b) else \<exists>b. g (h + 1 + int n - 1) = Inr (Some b) \<and> lst' = Some (br_number b, br_hash b)"
      by blast
    have "\<exists>b. g (h + int j) = Inr (Some b)" if "j < Suc n" for j
      using that n(4) 2(1) by (cases j) (auto simp: add.assoc)
    then show ?thesis using n 2(1) by (intro exI [of _ "Suc n"]) (auto split: if_splits)
  qed
qed

lemma scan_fold_result:
  assumes "pfold (scan_transaction gen grace now ad network tracked) txs c s = (Inr c', t)"
  shows "pfor_each (processTransaction gen grace now (monitor_adapter ad) network)
      (filter (\<lambda>x. touchesTrackedAddress ad x tracked = Inr True) (map cx_hash txs)) s = (Inr (), t) \<and>
    c' = c + length (filter (\<lambda>x. touchesTrackedAddress ad x tracked = Inr True) (map cx_hash txs))"
  using assms
proof (induction txs arbitrary: c s)
  case Nil then show ?case by simp
next
  case (Cons tx txs)
  from Cons.prems obtain c1 s1 where 1: "scan_transaction gen grace now ad network tracked tx c s = (Inr c1, s1)"
    and 2: "pfold (scan_transaction gen grace now ad network tracked) txs c1 s1 = (Inr c', t)" by (auto simp: pbind_Inr_iff)
  from 1 consider "touchesTrackedAddress ad (cx_hash tx) tracked = Inr True" "c1 = c + 1"
      "processTransaction gen grace now (monitor_adapter ad) network (cx_hash tx) s = (Inr (), s1)"
    | "touchesTrackedAddress ad (cx_hash tx) tracked = Inr False" "c1 = c" "s1 = s"
    by (auto simp: scan_transaction_def pbind_Inr_iff split: if_splits)
  then show ?case using Cons.IH [OF 2] by cases (auto simp: pbind_Inr_iff)
qed

lemma walk_blocks_result:
  assumes "walk_blocks gen grace now ad network tracked k h p s = (Inr p', t)"
  shows "\<exists>n \<le> k. sp_scannedBlocks p' = sp_scannedBlocks p + n \<and>
    sp_candidates p' = sp_candidates p + length (over_blocks (touching_at ad tracked) h n) \<and>
    pfor_each (processTransaction gen grace now (monitor_adapter ad) network) (over_blocks (touching_at ad tracked) h n) s = (Inr (), t) \<and>
    (\<forall>j < n. \<exists>b. ad_getBlock ad (h + int j) = Inr (Some b)) \<and>
    (if n = 0 then sp_lastBlock p' = sp_lastBlock p
     else \<exists>b. ad_getBlock ad (h + int n - 1) = Inr (Some b) \<and> sp_lastBlock p' = Some (br_number b, br_hash b))"
  using assms
proof (induction k arbitrary: h p s)
  case 0 then show ?case by simp
next
  case (Suc k)
  from Suc.prems obtain x where x: "ad_getBlock ad h = Inr x" by (cases "ad_getBlock ad h") (auto simp: pbind_Inr_iff)
  show ?case
  proof (cases x)
    case None with x Suc.prems show ?thesis by (intro exI [of _ 0]) (simp add: pbind_def)
  next
    case (Some b)
    then obtain c u where 2: "ad_getBlock ad h = Inr (Some b)"
      "pfold (scan_transaction gen grace now ad network tracked) (bd_transactions b) (sp_candidates p) s = (Inr c, u)"
      "walk_blocks gen grace now ad network tracked k (h + 1) \<lparr>sp_scannedBlocks = sp_scannedBlocks p + 1, sp_candidates = c,
         sp_lastBlock = Some (br_number b, br_hash b)\<rparr> u = (Inr p', t)"
      using x Suc.prems by (auto simp: pbind_Inr_iff)
    have at: "touching_at ad tracked h = filter (\<lambda>x. touchesTrackedAddress ad x tracked = Inr True) (map cx_hash (bd_transactions b))"
      using 2(1) by (simp add: touching_at_def)
    note first = scan_fold_result [OF 2(2), folded at]
    from Suc.IH [OF 2(3), unfolded scan_progress.select_convs] obtain n where n: "n \<le> k" "sp_scannedBlocks p' = sp_scannedBlocks p + 1 + n"
      "sp_candidates p' = c + length (over_blocks (touching_at ad tracked) (h + 1) n)"
      "pfor_each (processTransaction gen grace now (monitor_adapter ad) network) (over_blocks (touching_at ad tracked) (h + 1) n) u = (Inr (), t)"
      "\<forall>j < n. \<exists>b. ad_getBlock ad (h + 1 + int j) = Inr (Some b)"
      "if n = 0 then sp_lastBlock p' = Some (br_number b, br_hash b)
       else \<exists>b. ad_getBlock ad (h + 1 + int n - 1) = Inr (Some b) \<and> sp_lastBlock p' = Some (br_number b, br_hash b)"
      by blast
    have "\<exists>b. ad_getBlock ad (h + int j) = Inr (Some b)" if "j < Suc n" for j
      using that n(5) 2(1) by (cases j) (auto simp: add.assoc)
    then show ?thesis using n first 2(1) by (intro exI [of _ "Suc n"]) (auto simp: pfor_each_append split: if_splits)
  qed
qed

lemma scan_range_result:
  assumes "scan_range gen grace now ad network from to tracked s = (Inr p, t)"
  shows "pfor_each (processTransaction gen grace now (monitor_adapter ad) network)
      (discovered ad network tracked from (sp_scannedBlocks p)) s = (Inr (), t) \<and>
    sp_candidates p = length (discovered ad network tracked from (sp_scannedBlocks p)) \<and>
    sp_scannedBlocks p \<le> nat (to - from + 1) \<and>
    (\<forall>j < sp_scannedBlocks p. block_at ad (from + int j) \<noteq> None) \<and>
    sp_lastBlock p = (if sp_scannedBlocks p = 0 then None else block_at ad (from + int (sp_scannedBlocks p) - 1))"
proof (cases "asEvmDiscoveryAdapter ad")
  case None
  then have "walk_blocks gen grace now ad network tracked (nat (to - from + 1)) from
       \<lparr>sp_scannedBlocks = 0, sp_candidates = 0, sp_lastBlock = None\<rparr> s = (Inr p, t)"
    using assms by (simp add: scan_range_def scanRangeGeneric_def)
  from walk_blocks_result [OF this] show ?thesis using None
    by (auto simp: discovered_def block_at_def split: if_splits)
next
  case (Some evm)
  show ?thesis
  proof (cases "from \<le> to")
    case False
    then have "p = \<lparr>sp_scannedBlocks = 0, sp_candidates = 0, sp_lastBlock = None\<rparr>" "t = s"
      using assms Some by (auto simp: scan_range_def scanRangeGeneric_def)
    then show ?thesis using Some by (simp add: discovered_def)
  next
    case True
    then obtain native n lst logs where
      walk: "walk_light (ed_getLightBlock evm) tracked (nat (to - from + 1)) from [] 0 None = Inr (native, n, lst)"
      and logs: "(if n > 0 then ed_getTransferLogsTo evm from (from + int n - 1) (allowlisted_contracts network) tracked else Inr []) = Inr logs"
      and run: "pfor_each (processTransaction gen grace now (monitor_adapter ad) network) (fold set_add logs native) s = (Inr (), t)"
      and p: "p = \<lparr>sp_scannedBlocks = n, sp_candidates = length (fold set_add logs native), sp_lastBlock = lst\<rparr>"
      using assms Some by (auto simp: scan_range_def scanRangeFast_def Let_def pbind_Inr_iff)
    from walk_light_result [OF walk] have w: "n \<le> nat (to - from + 1)"
      "native = fold set_add (over_blocks (natives_at (ed_getLightBlock evm) tracked) from n) []"
      "\<forall>j < n. \<exists>b. ed_getLightBlock evm (from + int j) = Inr (Some b)"
      "if n = 0 then lst = None else \<exists>b. ed_getLightBlock evm (from + int n - 1) = Inr (Some b) \<and> lst = Some (br_number b, br_hash b)"
      by auto
    have "fold set_add logs native = discovered ad network tracked from n"
      using w(2) logs Some by (auto simp: discovered_def split: if_splits)
    then show ?thesis using run p w Some by (auto simp: block_at_def)
  qed
qed

text \<open>C6: the scan hands the monitor exactly what discovery specifies. When the scan of a range
  succeeds, its effect is that of processing, one after the other and each once in that order, the
  hashes the specification gives for the blocks it walked; it reports their number, walked no more
  blocks than the range has, all of them blocks the chain has, and its last block is the last of
  them.\<close>

theorem scan_refines_discovery:
  assumes "scan_range gen grace now ad network from to tracked s = (Inr p, t)"
  shows "pfor_each (processTransaction gen grace now (monitor_adapter ad) network)
      (discovered ad network tracked from (sp_scannedBlocks p)) s = (Inr (), t) \<and>
    sp_candidates p = length (discovered ad network tracked from (sp_scannedBlocks p)) \<and>
    sp_scannedBlocks p \<le> nat (to - from + 1) \<and>
    (\<forall>j < sp_scannedBlocks p. block_at ad (from + int j) \<noteq> None) \<and>
    sp_lastBlock p = (if sp_scannedBlocks p = 0 then None else block_at ad (from + int (sp_scannedBlocks p) - 1))"
  using assms by (rule scan_range_result)

section \<open>The cursor\<close>

text \<open>The monitor never touches the cursors.\<close>

interpretation cursors: pipeline_relation "\<lambda>s t. chain_cursors t = chain_cursors s" gen for gen
proof
  fix p show "steps (\<lambda>s t. chain_cursors t = chain_cursors s) (postPaymentCredit gen p)"
    unfolding steps_def
  proof (intro allI impI)
    fix s r t assume "postPaymentCredit gen p s = Inr (r, t)"
    from posting_state [OF this] show "chain_cursors t = chain_cursors s" by auto
  qed
qed simp_all

context pipeline_relation
begin

lemma psteps_case_prod: "(\<And>a b c. psteps R (f a b c)) \<Longrightarrow> psteps R (case x of (a, b, c) \<Rightarrow> f a b c)"
  by (cases x) simp

lemma walk: "psteps R (walk_blocks gen grace now ad network tracked k h p)"
proof (induction k arbitrary: h p)
  case 0 show ?case unfolding walk_blocks.simps by (rule psteps_pure)
next
  case (Suc k)
  have tx: "psteps R (scan_transaction gen grace now ad network tracked tx c)" for tx c
    unfolding scan_transaction_def by (intro psteps_rules process_transaction)
  show ?case unfolding walk_blocks.simps by (intro psteps_rules psteps_fold tx Suc)
qed

lemma scan: "psteps R (scan_range gen grace now ad network from to tracked)"
  unfolding scan_range_def scanRangeFast_def scanRangeGeneric_def Let_def
  by (intro psteps_rules psteps_case_prod process_transaction walk)

end

lemma update_cursor_Inr:
  "update_cursor network f s = (Inr u, t) \<longleftrightarrow> find_cursor network s \<noteq> None \<and>
     t = s\<lparr>chain_cursors := update_rows (\<lambda>c. cc_network c = network) f (chain_cursors s)\<rparr>"
  by (auto simp: update_cursor_def split: option.splits)

lemma find_cursor_update:
  assumes "\<And>x. cc_network (f x) = cc_network x" "find_cursor network s = Some c"
  shows "find_cursor network (s\<lparr>chain_cursors := update_rows (\<lambda>c. cc_network c = network) f (chain_cursors s)\<rparr>) = Some (f c)"
proof -
  have "cc_network c = network" using assms(2) find_Some_set by (fastforce simp: find_cursor_def)
  then show ?thesis using assms find_update_rows [of cc_network f network "\<lambda>c. cc_network c = network" "chain_cursors s"]
    by (simp add: find_cursor_def)
qed

lemma find_cursor_frame: "chain_cursors t = chain_cursors s \<Longrightarrow> find_cursor network t = find_cursor network s"
  by (simp add: find_cursor_def)

text \<open>Where a tick resumes.\<close>

definition resume_point :: "network \<Rightarrow> bool \<Rightarrow> int \<Rightarrow> db \<Rightarrow> int" where
  "resume_point network reorg tip s =
     (case find_cursor network s of None \<Rightarrow> max 0 (tip - 1)
      | Some c \<Rightarrow> if reorg then cc_lastProcessedBlock c - 1 else cc_lastProcessedBlock c)"

lemma loadCursor_result:
  assumes "loadCursor network tip s = (Inr c, t)"
  shows "find_cursor network t \<noteq> None \<and> sc_lastProcessedBlock c = resume_point network False tip s \<and>
    (find_cursor network s = None \<longrightarrow> sc_lastProcessedHash c = None)"
proof (cases "find_cursor network s")
  case (Some x) with assms show ?thesis by (auto simp: loadCursor_def resume_point_def)
next
  case None
  then show ?thesis using assms by (auto simp: loadCursor_def resume_point_def Let_def find_cursor_def find_append)
qed

lemma rewindCursor_result:
  assumes "rewindCursor gen now ad network b s = (Inr c, t)" "b > 0" "find_cursor network s \<noteq> None"
  shows "find_cursor network t \<noteq> None \<and> sc_lastProcessedBlock c = b - 1"
proof -
  from assms(1,2) obtain u hash where u: "handleReorg gen now network b s = (Inr (), u)"
    and t: "find_cursor network u \<noteq> None" "t = u\<lparr>chain_cursors := update_rows (\<lambda>c. cc_network c = network)
      (\<lambda>c. c\<lparr>cc_lastProcessedBlock := b - 1, cc_lastProcessedHash := hash, cc_lastReorgAt := Some now, cc_lastReorgDepth := Some 1\<rparr>) (chain_cursors u)\<rparr>"
    and c: "c = \<lparr>sc_lastProcessedBlock = b - 1, sc_lastProcessedHash = hash\<rparr>"
    by (auto simp: rewindCursor_def Let_def pbind_Inr_iff update_cursor_Inr)
  from t(1) obtain x where "find_cursor network u = Some x" by blast
  from find_cursor_update [OF _ this] t(2) c show ?thesis by simp
qed

text \<open>The hash a rewound cursor takes is the adapter's own, so the rewound block is not questioned again.\<close>

lemma rewound_cursor_agrees:
  assumes "rewindCursor gen now ad network b s = (Inr c, t)"
  shows "checkForReorg ad (sc_lastProcessedBlock c) (sc_lastProcessedHash c) = Inr False"
proof -
  let ?n = "if b > 0 then b - 1 else 0"
  from assms obtain hash where "(if ?n > 0 then getBlockHash ad ?n else Inr None) = Inr hash"
    "c = \<lparr>sc_lastProcessedBlock = ?n, sc_lastProcessedHash = hash\<rparr>"
    by (auto simp: rewindCursor_def Let_def pbind_Inr_iff)
  then show ?thesis by (cases hash) (auto simp: checkForReorg_def truthy_def split: if_splits)
qed

lemma block_at_hash: "block_at ad h = Some (n, hash) \<Longrightarrow> getBlockHash ad h = Inr (Some hash)"
  by (auto simp: block_at_def getBlockHash_def split: option.splits sum.splits)

lemma scanned_cursor_agrees: "block_at ad h = Some (n, hash) \<Longrightarrow> checkForReorg ad h (Some hash) = Inr False"
  by (simp add: checkForReorg_def block_at_hash)

definition cursor_moved :: "scan_adapter \<Rightarrow> network \<Rightarrow> int \<Rightarrow> db \<Rightarrow> scan_result \<Rightarrow> chain_cursor \<Rightarrow> bool" where
  "cursor_moved ad network batch s r c \<longleftrightarrow>
    cc_lastProcessedBlock c = sr_lastProcessedBlock r \<and>
    sr_lastProcessedBlock r = resume_point network (sr_reorgDetected r) (sr_chainTip r) s + int (sr_scannedBlocks r) \<and>
    int (sr_scannedBlocks r) \<le> max 0 batch \<and>
    (sr_scannedBlocks r = 0 \<or> sr_lastProcessedBlock r \<le> sr_chainTip r \<and>
       block_at ad (sr_lastProcessedBlock r) = Some (sr_lastProcessedBlock r, the (cc_lastProcessedHash c))) \<and>
    (\<forall>j < sr_scannedBlocks r. block_at ad (resume_point network (sr_reorgDetected r) (sr_chainTip r) s + 1 + int j) \<noteq> None) \<and>
    checkForReorg ad (cc_lastProcessedBlock c) (cc_lastProcessedHash c) = Inr False"

lemma tick_result:
  assumes "tick gen grace now batch ad network s = (Inr r, t)"
    and numbered: "numbered ad"
  shows "\<exists>c. find_cursor network t = Some c \<and> cursor_moved ad network batch s r c"
proof -
  from assms(1) obtain cur loaded s1 reorg cursor s2 p s3 s4 where
    cur: "ad_getCurrentBlock ad = Inr cur" and ld: "loadCursor network (br_number cur) s = (Inr loaded, s1)"
    and chk: "checkForReorg ad (sc_lastProcessedBlock loaded) (sc_lastProcessedHash loaded) = Inr reorg"
    and rw: "(if reorg then rewindCursor gen now ad network (sc_lastProcessedBlock loaded) else pret loaded) s1 = (Inr cursor, s2)"
    and sc: "scan_range gen grace now ad network (sc_lastProcessedBlock cursor + 1)
      (scan_end (br_number cur) (sc_lastProcessedBlock cursor + 1) batch) (loadTrackedAddresses ad network s2) s2 = (Inr p, s3)"
    and sv: "(case sp_lastBlock p of Some (number, hash) \<Rightarrow> saveCursor network number (Some hash) (br_number cur)
       | None \<Rightarrow> saveCursor network (sc_lastProcessedBlock cursor) (sc_lastProcessedHash cursor) (br_number cur)) s3 = (Inr (), s4)"
    and up: "updateConfirmations gen now (monitor_adapter ad) network s4 = (Inr (), t)"
    and r: "r = \<lparr>sr_network = network, sr_scannedBlocks = sp_scannedBlocks p, sr_candidateTransactions = sp_candidates p,
      sr_reorgDetected = reorg, sr_chainTip = br_number cur,
      sr_lastProcessedBlock = (case sp_lastBlock p of Some b \<Rightarrow> fst b | None \<Rightarrow> sc_lastProcessedBlock cursor)\<rparr>"
    unfolding tick_def Let_def pbind_Inr_iff by auto
  note l = loadCursor_result [OF ld]
  have start: "find_cursor network s2 \<noteq> None \<and> sc_lastProcessedBlock cursor = resume_point network reorg (br_number cur) s"
  proof (cases reorg)
    case False with rw l show ?thesis by auto
  next
    case True
    then have pos: "sc_lastProcessedBlock loaded > 0" "sc_lastProcessedHash loaded \<noteq> None"
      using chk by (auto simp: checkForReorg_def truthy_def split: if_splits option.splits)
    with l have "find_cursor network s \<noteq> None" by auto
    with rewindCursor_result [of gen now ad network "sc_lastProcessedBlock loaded" s1 cursor s2] True rw pos(1) l show ?thesis
      by (auto simp: resume_point_def)
  qed
  have agrees: "checkForReorg ad (sc_lastProcessedBlock cursor) (sc_lastProcessedHash cursor) = Inr False"
    using rw chk rewound_cursor_agrees [of gen now ad network "sc_lastProcessedBlock loaded" s1 cursor s2] by (cases reorg) auto
  let ?n = "sp_scannedBlocks p" and ?from = "sc_lastProcessedBlock cursor + 1"
  note scan = scan_range_result [OF sc]
  have "chain_cursors s3 = chain_cursors s2" using psteps_D [where s = s2, OF cursors.scan] sc by (metis snd_conv)
  with start obtain c3 where c3: "find_cursor network s3 = Some c3" using find_cursor_frame [of s3 s2 network] by auto
  have "chain_cursors t = chain_cursors s4" using psteps_D [where s = s4, OF cursors.update_confirmations] up by (metis snd_conv)
  then have c4: "find_cursor network t = find_cursor network s4" by (rule find_cursor_frame)
  show ?thesis
  proof (cases "?n = 0")
    case True
    then have "sp_lastBlock p = None" using scan by simp
    with sv c3 find_cursor_update [OF _ c3] have "\<exists>c. find_cursor network t = Some c \<and> cc_lastProcessedBlock c = sc_lastProcessedBlock cursor \<and>
        cc_lastProcessedHash c = sc_lastProcessedHash cursor"
      unfolding c4 by (auto simp: saveCursor_def update_cursor_Inr)
    with \<open>sp_lastBlock p = None\<close> True start r agrees show ?thesis by (auto simp: cursor_moved_def)
  next
    case False
    have each: "\<forall>j < ?n. block_at ad (?from + int j) \<noteq> None" using scan by blast
    have "block_at ad (?from + int (?n - 1)) \<noteq> None" by (rule each [rule_format]) (use False in simp)
    then obtain number hash where nh: "block_at ad (?from + int ?n - 1) = Some (number, hash)"
      using False by (auto simp: algebra_simps)
    then have b: "block_at ad (?from + int ?n - 1) = Some (?from + int ?n - 1, hash)" using numbered nh unfolding numbered_def by auto
    then have lst: "sp_lastBlock p = Some (?from + int ?n - 1, hash)" using scan False by simp
    have "int ?n \<le> scan_end (br_number cur) ?from batch - ?from + 1" using scan False by linarith
    then have bound: "int ?n \<le> max 0 batch" "?from + int ?n - 1 \<le> br_number cur"
      using False by (auto simp: scan_end_def minBigInt_def split: if_splits)
    from sv lst c3 find_cursor_update [OF _ c3] have "\<exists>c. find_cursor network t = Some c \<and>
        cc_lastProcessedBlock c = ?from + int ?n - 1 \<and> cc_lastProcessedHash c = Some hash"
      unfolding c4 by (auto simp: saveCursor_def update_cursor_Inr)
    then obtain c where c: "find_cursor network t = Some c" "cc_lastProcessedBlock c = ?from + int ?n - 1" "cc_lastProcessedHash c = Some hash"
      by blast
    have rb: "sr_lastProcessedBlock r = ?from + int ?n - 1" "sr_scannedBlocks r = ?n" "sr_chainTip r = br_number cur" "sr_reorgDetected r = reorg"
      using r lst by simp_all
    have rp: "resume_point network reorg (br_number cur) s = ?from - 1" using start by simp
    show ?thesis unfolding cursor_moved_def rb rp using c bound b each scanned_cursor_agrees [OF b] by (intro exI [of _ c]) simp
  qed
qed

text \<open>C7: the cursor leaves no gap. Given that the adapter answers a height with the block of that
  height, a tick that succeeds resumes right after the cursor (one block earlier after a
  reorganisation, at the tip on the first run), moves the saved cursor forward by exactly the blocks
  it walked, no more than the batch and not beyond the tip, each of which the chain has, saves the
  hash of the last one, and leaves a cursor that agrees with the chain it saw.\<close>

theorem tick_leaves_no_gap:
  assumes "tick gen grace now batch ad network s = (Inr r, t)"
    and "numbered ad"
  shows "\<exists>c. find_cursor network t = Some c \<and> cc_lastProcessedBlock c = sr_lastProcessedBlock r \<and>
    sr_lastProcessedBlock r = resume_point network (sr_reorgDetected r) (sr_chainTip r) s + int (sr_scannedBlocks r) \<and>
    int (sr_scannedBlocks r) \<le> max 0 batch \<and>
    (sr_scannedBlocks r = 0 \<or> sr_lastProcessedBlock r \<le> sr_chainTip r \<and>
       block_at ad (sr_lastProcessedBlock r) = Some (sr_lastProcessedBlock r, the (cc_lastProcessedHash c))) \<and>
    (\<forall>j < sr_scannedBlocks r. block_at ad (resume_point network (sr_reorgDetected r) (sr_chainTip r) s + 1 + int j) \<noteq> None) \<and>
    checkForReorg ad (cc_lastProcessedBlock c) (cc_lastProcessedHash c) = Inr False"
  using tick_result [OF assms] unfolding cursor_moved_def .

text \<open>The consequence for a reorganisation of more than one block. A tick that found one rewinds a
  single block and takes the hash the new chain has there; the next tick on the same chain finds
  nothing to rewind, however many of the blocks below were replaced too.\<close>

lemma deep_reorg_not_followed:
  assumes "tick gen grace now batch ad network s = (Inr r, t)" "tick gen' grace' now' batch' ad network t = (Inr r', t')"
    and "numbered ad"
  shows "\<not> sr_reorgDetected r'"
proof -
  obtain c where c: "find_cursor network t = Some c" "cursor_moved ad network batch s r c"
    using tick_result [OF assms(1,3)] by blast
  have "loadCursor network tip t = (Inr \<lparr>sc_lastProcessedBlock = cc_lastProcessedBlock c, sc_lastProcessedHash = cc_lastProcessedHash c\<rparr>, t)" for tip
    using c(1) by (simp add: loadCursor_def pbind_def)
  with assms(2) c(2) show ?thesis unfolding tick_def Let_def pbind_Inr_iff by (auto simp: cursor_moved_def)
qed

section \<open>Witnesses\<close>

text \<open>A chain of twelve blocks, whose eleventh holds one transfer to the address of the invoice.\<close>

definition sample_chain :: "int \<Rightarrow> failure + block_data option" where
  "sample_chain h = Inr (if 1 \<le> h \<and> h \<le> 12
     then Some \<lparr>br_number = h, br_hash = (if h < 11 then ''0xaa'' else ''0xBB''), br_parentHash = ''0xaa'', br_timestamp = 0,
       bd_transactions = (if h = 11 then [\<lparr>cx_hash = ''0xcd'', cx_blockNumber = Some 11, cx_blockHash = Some ''0xBB'', cx_transactionIndex = Some 0, cx_status = TxSuccess,
         cx_fromAddress = None, cx_toAddress = Some ''0x01'', cx_value = 0, cx_feeAmount = None, cx_confirmations = 1\<rparr>] else [])\<rparr>
     else None)"

definition sample_scanner :: scan_adapter where
  "sample_scanner = \<lparr>
     ad_getTransaction = (\<lambda>x. if x = ''0xcd'' then Inr (Some \<lparr>cx_hash = ''0xcd'', cx_blockNumber = Some 11, cx_blockHash = Some ''0xBB'', cx_transactionIndex = Some 0, cx_status = TxSuccess,
         cx_fromAddress = None, cx_toAddress = Some ''0x01'', cx_value = 0, cx_feeAmount = None, cx_confirmations = 1\<rparr>) else Inr None),
     ad_getTransfers = (\<lambda>x. if x = ''0xcd'' then Inr [\<lparr>px_transferIndex = 0, px_tokenContract = None, px_fromAddress = None, px_toAddress = ''0x01'',
         px_amount = 1000\<rparr>] else Inr []),
     ad_getConfirmations = (\<lambda>_. Inr \<lparr>ci_confirmations = 2, ci_blockNumber = Some 11, ci_chainTip = 12\<rparr>),
     ad_getCurrentBlock = Inr \<lparr>br_number = 12, br_hash = ''0xBB'', br_parentHash = ''0xaa'', br_timestamp = 0\<rparr>, ad_getBlock = sample_chain,
     ad_validateAddress = (\<lambda>_. True), ad_discovery = None\<rparr>"

definition sample_watch :: db where
  "sample_watch = (sample_db PENDING ''USDT'' 1000)\<lparr>token_transfers := [],
     payment_addresses := [(sample_address ''addr_1'' 1)\<lparr>pa_status := ASSIGNED, pa_invoiceId := Some ''inv_1''\<rparr>],
     chain_cursors := [\<lparr>cc_network = ETHEREUM, cc_lastProcessedBlock = 10, cc_lastProcessedHash = Some ''0xa0'', cc_chainTipBlock = Some 10,
       cc_lastReorgAt = None, cc_lastReorgDepth = None\<rparr>]\<rparr>"

lemma sample_scan: "case scan_range counting_gen 0 9 sample_scanner ETHEREUM 10 12 [''0x01''] sample_watch of
   (Inr p, t) \<Rightarrow> sp_scannedBlocks p = 3 \<and> sp_candidates p = 1 \<and> length (token_transfers t) = 1 | _ \<Rightarrow> False"
  by code_simp

lemma sample_tick: "case tick counting_gen 0 9 50 sample_scanner ETHEREUM sample_watch of
   (Inr r, t) \<Rightarrow> sr_scannedBlocks r = 3 \<and> sr_reorgDetected r \<and> sr_lastProcessedBlock r = 12 | _ \<Rightarrow> False"
  by code_simp

lemma sample_numbered: "numbered sample_scanner"
  by (auto simp: numbered_def block_at_def asEvmDiscoveryAdapter_def sample_scanner_def sample_chain_def split: if_splits)

theorem scan_refines_discovery_witness:
  "\<exists>p t. scan_range counting_gen 0 9 sample_scanner ETHEREUM 10 12 [''0x01''] sample_watch = (Inr p, t) \<and>
     sp_scannedBlocks p = 3 \<and> length (token_transfers t) = 1 \<and>
     pfor_each (processTransaction counting_gen 0 9 (monitor_adapter sample_scanner) ETHEREUM)
       (discovered sample_scanner ETHEREUM [''0x01''] 10 3) sample_watch = (Inr (), t)"
proof -
  obtain p t where run: "scan_range counting_gen 0 9 sample_scanner ETHEREUM 10 12 [''0x01''] sample_watch = (Inr p, t)"
    and p: "sp_scannedBlocks p = 3" "length (token_transfers t) = 1"
    using sample_scan by (auto split: prod.splits sum.splits)
  with scan_refines_discovery [OF run] show ?thesis by auto
qed

theorem tick_leaves_no_gap_witness:
  "\<exists>r t c. tick counting_gen 0 9 50 sample_scanner ETHEREUM sample_watch = (Inr r, t) \<and> sr_reorgDetected r \<and>
     sr_scannedBlocks r = 3 \<and> find_cursor ETHEREUM t = Some c \<and> cc_lastProcessedBlock c = 12"
proof -
  obtain r t where run: "tick counting_gen 0 9 50 sample_scanner ETHEREUM sample_watch = (Inr r, t)"
    and r: "sr_scannedBlocks r = 3" "sr_reorgDetected r" "sr_lastProcessedBlock r = 12"
    using sample_tick by (auto split: prod.splits sum.splits)
  with tick_leaves_no_gap [OF run sample_numbered] show ?thesis by auto
qed

end
