(* ===== verification/System.thy ===== *)
theory System
  imports Scanner
begin

text \<open>
  The gateway as a whole: the calls the two running programs make on the database, the monitor (its
  scanner ticks, the sweep, the calls of the monitor service) and the API (creating, reading and
  cancelling invoices), in any order and at any times. Every call runs to its end before the next
  one starts; whatever a call fails with, the writes it made before stay, as they do in the database.
\<close>

datatype gateway_call =
    MonitorCall monitor_call
  | ScanTick int scan_adapter network
  | SweepExpired nat
  | CreateInvoice int "string \<Rightarrow> string \<Rightarrow> failure + exchange_rate" "string list" merchant_context create_invoice_dto
  | GetInvoice merchant_context string
  | GetPublicInvoice string
  | GetInvoiceStatus merchant_context string
  | CancelInvoice merchant_context string

fun run_call :: "(nat \<Rightarrow> string) \<Rightarrow> int \<Rightarrow> int \<times> gateway_call \<Rightarrow> db \<Rightarrow> db" where
  "run_call gen grace (now, MonitorCall c) s = run_monitor gen grace (now, c) s"
| "run_call gen grace (now, ScanTick batch ad network) s = snd (tick gen grace now batch ad network s)"
| "run_call gen grace (now, SweepExpired batch) s = snd (sweepExpiredInvoices gen batch now s)"
| "run_call gen grace (now, CreateInvoice maxExpiry getRate locked merchant dto) s =
     snd (createInvoice gen now maxExpiry getRate locked merchant dto s)"
| "run_call gen grace (now, GetInvoice merchant i) s = snd (getInvoice gen now merchant i s)"
| "run_call gen grace (now, GetPublicInvoice i) s = snd (getPublicInvoice gen now i s)"
| "run_call gen grace (now, GetInvoiceStatus merchant i) s = snd (getInvoiceStatus gen now merchant i s)"
| "run_call gen grace (now, CancelInvoice merchant i) s = snd (cancelInvoice gen now merchant i s)"

definition run_gateway :: "(nat \<Rightarrow> string) \<Rightarrow> int \<Rightarrow> (int \<times> gateway_call) list \<Rightarrow> db \<Rightarrow> db" where
  "run_gateway gen grace calls s = fold (run_call gen grace) calls s"

context gateway_relation
begin

lemma psteps_cursor: "psteps R (update_cursor network f)" "psteps R (loadCursor network tip)"
  unfolding update_cursor_def loadCursor_def Let_def by (intro psteps_rules psteps_modify R_cursor)+

lemma tick: "psteps R (tick gen grace now batch ad network)"
  unfolding tick_def rewindCursor_def saveCursor_def Let_def
  by (intro psteps_rules psteps_prod psteps_cursor scan pipeline)

lemma R_run_gateway: "R s (run_gateway gen grace calls s)"
proof -
  have monitor: "R s (run_monitor gen grace c s)" for s c
    using R_run_calls [of s grace "[c]"] by (simp add: run_calls_def)
  have step: "R s (run_call gen grace c s)" for s c
    by (cases "(gen, grace, c, s)" rule: run_call.cases) (auto intro: psteps_D gateway tick monitor)
  show ?thesis unfolding run_gateway_def
  proof (induction calls arbitrary: s)
    case Nil show ?case by (simp add: R_refl)
  next
    case (Cons c calls) show ?case using R_trans [OF step Cons.IH] by simp
  qed
qed

end

section \<open>What every run keeps\<close>


text \<open>C5: the journals are append only and gap free. A run of the gateway only ever appends to the
  ledger, to the payment events, to the webhooks, to the discrepancies and to the invoices, deletes
  none, numbers the events of each invoice 1, 2, 3 and so on, and records each webhook once.\<close>

theorem gateway_keeps_history:
  assumes "journals_ok s"
  shows "history_kept s (run_gateway gen grace calls s) \<and> journals_ok (run_gateway gen grace calls s)"
  using gw_history.R_run_gateway [of s gen grace calls] gw_journals.R_run_gateway [of s gen grace calls] assms
  by (simp add: keeps_def)

text \<open>C4: a deposit address belongs to one invoice for ever. From a pool in which no two addresses
  have the same invoice, every run of the gateway leads to such a pool again, and an address that was
  given to an invoice is still there, still that invoice's, and not free to be given out again.\<close>

theorem addresses_never_reused:
  assumes "addresses_ok s" "a \<in> set (payment_addresses s)" "pa_invoiceId a = Some i"
  shows "addresses_ok (run_gateway gen grace calls s) \<and>
    (\<exists>b \<in> set (payment_addresses (run_gateway gen grace calls s)).
       pa_id b = pa_id a \<and> pa_address b = pa_address a \<and> pa_invoiceId b = Some i \<and> pa_status b \<noteq> AVAILABLE)"
  using gw_addresses.R_run_gateway [of s gen grace calls] assms unfolding addresses_kept_def by (metis option.discI)

text \<open>Sets of statuses that neither the monitor, nor the services, nor a merchant can leave.\<close>

definition closed_regions :: "invoice_status list list" where
  "closed_regions = [[PAID, REFUNDED, RECONCILIATION_REQUIRED], [REFUNDED, RECONCILIATION_REQUIRED], [RECONCILIATION_REQUIRED],
      [EXPIRED, CANCELLED, LATE_PAYMENT_REVIEW, REFUNDED, RECONCILIATION_REQUIRED]]"

lemma regions_closed:
  "list_all (\<lambda>S. list_all (\<lambda>u. list_all (\<lambda>a. list_all (\<lambda>v. v \<in> set S) (targets u a)) [MONITOR, SYSTEM, MERCHANT]) S) closed_regions"
  by code_simp

lemma confined:
  assumes "reaches assertTransition {MONITOR, SYSTEM, MERCHANT} a b" "S \<in> set closed_regions" "a \<in> set S"
  shows "b \<in> set S"
proof (rule invoice_gate.reaches_closed [OF assms(1,3)])
  fix u a assume "u \<in> set S" "a \<in> {MONITOR, SYSTEM, MERCHANT}"
  then have "a \<in> set [MONITOR, SYSTEM, MERCHANT]" by simp
  with \<open>u \<in> set S\<close> assms(2) show "set (targets u a) \<subseteq> set S"
    using regions_closed unfolding list_all_iff by blast
qed


section \<open>Witnesses\<close>

definition sample_run :: "(int \<times> gateway_call) list" where
  "sample_run = [(1, CreateInvoice 3600 sample_rate [] sample_context (sample_dto ''o2'')), (8, ScanTick 50 sample_scanner ETHEREUM),
     (9, MonitorCall (UpdateConfirmations sample_adapter ETHEREUM)), (60, SweepExpired 10), (61, CancelInvoice sample_context ''inv_1'')]"


theorem gateway_keeps_history_witness:
  "history_kept (sample_db CONFIRMING ''USDT'' 1000) (run_gateway counting_gen 0 sample_run (sample_db CONFIRMING ''USDT'' 1000)) \<and>
   journals_ok (run_gateway counting_gen 0 sample_run (sample_db CONFIRMING ''USDT'' 1000))"
  using gateway_keeps_history sample_db_ok by blast

theorem addresses_never_reused_witness:
  "\<exists>b \<in> set (payment_addresses (run_gateway counting_gen 0 sample_run sample_watch)).
     pa_id b = ''addr_1'' \<and> pa_address b = ''0x01'' \<and> pa_invoiceId b = Some ''inv_1'' \<and> pa_status b \<noteq> AVAILABLE"
proof -
  let ?a = "(sample_address ''addr_1'' 1)\<lparr>pa_status := ASSIGNED, pa_invoiceId := Some ''inv_1''\<rparr>"
  have "addresses_ok sample_watch" "?a \<in> set (payment_addresses sample_watch)"
    by (simp_all add: sample_watch_def addresses_ok_def pool_ok_def)
  from addresses_never_reused [OF this, of "''inv_1''" counting_gen 0 sample_run] show ?thesis by (auto simp: sample_address_def)
qed


end
