(* ===== verification/Signing.thy ===== *)
theory Signing
  imports Database
begin

text \<open>
  Custodial signing (\<open>packages/signing/src\<close> and its durable stores in \<open>apps/api/src/signing\<close>): a policy of
  allowed destinations, ceilings and approvals in front of a signing backend. The spend tracker is
  an interface with two implementations, the one in memory and the one on the database; the backend
  is an interface too, implemented by the disabled backend and by the one on a key store. Elliptic
  curve signatures, key generation and SHA-256 are parameters.
\<close>

section \<open>Requests, policy and stores\<close>

record signing_request =
  sq_id :: string
  sq_merchantId :: string
  sq_network :: string
  sq_asset :: string
  sq_fromAddress :: string
  sq_toAddress :: string
  sq_amount :: int
  sq_requestedBy :: string
  sq_requestedAt :: int

record signed_transaction =
  sx_requestId :: string
  sx_rawTxHex :: string
  sx_signedAt :: int

datatype signing_status = PENDING_APPROVAL | SIGNED | REJECTED

fun signing_status_name :: "signing_status \<Rightarrow> string" where
  "signing_status_name PENDING_APPROVAL = ''PENDING_APPROVAL''"
| "signing_status_name SIGNED = ''SIGNED''"
| "signing_status_name REJECTED = ''REJECTED''"

record pending_request =
  pq_request :: signing_request
  pq_status :: signing_status
  pq_approvals :: "string list"
  pq_rejectedBy :: "string option"
  pq_rejectionReason :: "string option"

record signing_policy =
  po_network :: string
  po_allowedDestinations :: "string list"
  po_maxAmountPerTx :: int
  po_maxAmountPerWindow :: int
  po_windowSeconds :: int
  po_requiredApprovals :: int

datatype signing_error =
    SigningNotConfigured string
  | DestinationNotAllowed string
  | AmountCeilingExceeded string
  | SelfApproval
  | UnknownSigningRequest string
  | AlreadyDecided string signing_status
  | KeyNotFound string
  | NoKeyMapped string string
  | BackendError string

fun signing_error_message :: "signing_error \<Rightarrow> string" where
  "signing_error_message (SigningNotConfigured message) = message"
| "signing_error_message (DestinationNotAllowed message) = message"
| "signing_error_message (AmountCeilingExceeded message) = message"
| "signing_error_message SelfApproval = ''the requester cannot also approve their own signing request''"
| "signing_error_message (UnknownSigningRequest i) = ''no pending signing request with id '' @ i"
| "signing_error_message (AlreadyDecided i st) =
     ''signing request '' @ i @ '' is already '' @ toLowerCase (signing_status_name st) @ '', not pending approval''"
| "signing_error_message (KeyNotFound k) = ''no key with id '' @ k @ '' exists in this key store''"
| "signing_error_message (NoKeyMapped a n) = ''no signing key is mapped to '' @ a @ '' on '' @ n"
| "signing_error_message (BackendError message) = message"

datatype signing_event_type = Submitted | Approved | Rejected | Signed | ValidationFailed | SignFailed | KeyUsed

record signing_event =
  sv_requestId :: string
  sv_type :: signing_event_type
  sv_actorId :: "string option"
  sv_occurredAt :: int
  sv_detail :: "(string \<times> json) list"

record spend_entry =
  se_merchantId :: string
  se_network :: string
  se_amount :: int
  se_at :: int

record signing_state =
  ss_spend :: "spend_entry list"
  ss_approvals :: "pending_request list"
  ss_events :: "signing_event list"

type_synonym 'a signing = "(signing_state, signing_error, 'a) proc"
type_synonym window_total = "string \<Rightarrow> string \<Rightarrow> int \<Rightarrow> int \<Rightarrow> spend_entry list \<Rightarrow> int"
type_synonym backend = "int \<Rightarrow> signing_request \<Rightarrow> signed_transaction signing"

text \<open>\<open>InMemorySpendTracker\<close> and \<open>PrismaSpendTracker\<close>: the second also bounds the entries from above.\<close>

definition memory_windowTotal :: window_total where
  "memory_windowTotal merchantId network windowSeconds asOf entries =
     (let cutoff = asOf - windowSeconds * 1000 in
      sum_list (map se_amount (filter (\<lambda>e. se_merchantId e = merchantId \<and> se_network e = network \<and> cutoff < se_at e) entries)))"

definition prisma_windowTotal :: window_total where
  "prisma_windowTotal merchantId network windowSeconds asOf entries =
     (let cutoff = asOf - windowSeconds * 1000 in
      sum_list (map se_amount (filter (\<lambda>e. se_merchantId e = merchantId \<and> se_network e = network \<and> cutoff < se_at e \<and> se_at e \<le> asOf) entries)))"

definition record_spend :: "string \<Rightarrow> string \<Rightarrow> int \<Rightarrow> int \<Rightarrow> unit signing" where
  "record_spend merchantId network amount at =
     pmodify (\<lambda>s. s\<lparr>ss_spend := ss_spend s @ [\<lparr>se_merchantId = merchantId, se_network = network, se_amount = amount, se_at = at\<rparr>]\<rparr>)"

definition upsert_request :: "pending_request \<Rightarrow> pending_request list \<Rightarrow> pending_request list" where
  "upsert_request entry rows =
     (if list_ex (\<lambda>r. sq_id (pq_request r) = sq_id (pq_request entry)) rows
      then update_rows (\<lambda>r. sq_id (pq_request r) = sq_id (pq_request entry)) (\<lambda>_. entry) rows else rows @ [entry])"

definition save_request :: "pending_request \<Rightarrow> unit signing" where
  "save_request entry = pmodify (\<lambda>s. s\<lparr>ss_approvals := upsert_request entry (ss_approvals s)\<rparr>)"

definition get_request :: "string \<Rightarrow> signing_state \<Rightarrow> pending_request option" where
  "get_request requestId s = find (\<lambda>r. sq_id (pq_request r) = requestId) (ss_approvals s)"

section \<open>The policy service\<close>

definition audit :: "int \<Rightarrow> string \<Rightarrow> signing_event_type \<Rightarrow> string option \<Rightarrow> (string \<times> json) list \<Rightarrow> unit signing" where
  "audit now requestId ty actorId detail =
     pmodify (\<lambda>s. s\<lparr>ss_events := ss_events s @
       [\<lparr>sv_requestId = requestId, sv_type = ty, sv_actorId = actorId, sv_occurredAt = now, sv_detail = detail\<rparr>]\<rparr>)"

definition requestSummary :: "signing_request \<Rightarrow> (string \<times> json) list" where
  "requestSummary request =
     [(''merchantId'', JStr (sq_merchantId request)), (''network'', JStr (sq_network request)), (''asset'', JStr (sq_asset request)),
      (''toAddress'', JStr (sq_toAddress request)), (''amount'', JStr (show_int (sq_amount request)))]"

definition assertDestinationAllowed :: "signing_policy \<Rightarrow> signing_request \<Rightarrow> signing_error + unit" where
  "assertDestinationAllowed policy request =
     require (toLowerCase (sq_toAddress request) \<in> set (po_allowedDestinations policy))
       (DestinationNotAllowed (''destination '' @ sq_toAddress request @ '' is not on the '' @ sq_network request @ '' signing allowlist''))"

definition assertWithinCeilings :: "window_total \<Rightarrow> signing_policy \<Rightarrow> signing_request \<Rightarrow> spend_entry list \<Rightarrow> signing_error + unit" where
  "assertWithinCeilings windowTotal policy request entries =
     (if sq_amount request > po_maxAmountPerTx policy then
        Inl (AmountCeilingExceeded (''amount '' @ show_int (sq_amount request) @
          '' exceeds the per-transaction ceiling of '' @ show_int (po_maxAmountPerTx policy)))
      else let total = windowTotal (sq_merchantId request) (sq_network request) (po_windowSeconds policy) (sq_requestedAt request) entries in
        if total + sq_amount request > po_maxAmountPerWindow policy then
          Inl (AmountCeilingExceeded (''amount '' @ show_int (sq_amount request) @ '' would bring the '' @ show_int (po_windowSeconds policy) @
            ''s rolling total to '' @ show_int (total + sq_amount request) @ '', exceeding the ceiling of '' @
            show_int (po_maxAmountPerWindow policy)))
        else Inr ())"

definition auditValidationFailure :: "int \<Rightarrow> string \<Rightarrow> string \<Rightarrow> signing_error \<Rightarrow> unit signing" where
  "auditValidationFailure now requestId actorId e =
     audit now requestId ValidationFailed (Some actorId) [(''reason'', JStr (signing_error_message e))]"

definition finalizeAndSign :: "backend \<Rightarrow> int \<Rightarrow> signing_request \<Rightarrow> string list \<Rightarrow> signed_transaction signing" where
  "finalizeAndSign sign now request approvals =
     pcatch
       (pbind (sign now request) (\<lambda>signed.
        pbind (record_spend (sq_merchantId request) (sq_network request) (sq_amount request) (sq_requestedAt request)) (\<lambda>_.
        pbind (save_request \<lparr>pq_request = request, pq_status = SIGNED, pq_approvals = approvals, pq_rejectedBy = None,
          pq_rejectionReason = None\<rparr>) (\<lambda>_.
        pbind (audit now (sq_id request) Signed (Some (sq_requestedBy request)) [(''rawTxHex'', JStr (sx_rawTxHex signed))]) (\<lambda>_.
        pret signed)))))
       (\<lambda>e. pbind (audit now (sq_id request) SignFailed (Some (sq_requestedBy request)) [(''reason'', JStr (signing_error_message e))]) (\<lambda>_.
        pthrow e))"

datatype submission = SignedTx signed_transaction | Waiting pending_request

definition submit :: "window_total \<Rightarrow> backend \<Rightarrow> signing_policy \<Rightarrow> int \<Rightarrow> signing_request \<Rightarrow> submission signing" where
  "submit windowTotal sign policy now request =
     pbind (audit now (sq_id request) Submitted (Some (sq_requestedBy request)) (requestSummary request)) (\<lambda>_.
     pbind (pcatch
         (pbind (pfrom_result (assertDestinationAllowed policy request)) (\<lambda>_.
          pbind (preads ss_spend) (\<lambda>entries. pfrom_result (assertWithinCeilings windowTotal policy request entries))))
         (\<lambda>e. pbind (auditValidationFailure now (sq_id request) (sq_requestedBy request) e) (\<lambda>_. pthrow e))) (\<lambda>_.
     if po_requiredApprovals policy \<le> 1 then
       pbind (finalizeAndSign sign now request [sq_requestedBy request]) (\<lambda>signed. pret (SignedTx signed))
     else
       let pending = \<lparr>pq_request = request, pq_status = PENDING_APPROVAL, pq_approvals = [], pq_rejectedBy = None,
             pq_rejectionReason = None\<rparr> in
       pbind (save_request pending) (\<lambda>_. pret (Waiting pending))))"

definition pending_or_error :: "string \<Rightarrow> pending_request signing" where
  "pending_or_error requestId =
     pbind (preads (get_request requestId)) (\<lambda>found.
     case found of None \<Rightarrow> pthrow (UnknownSigningRequest requestId)
     | Some pending \<Rightarrow> if pq_status pending \<noteq> PENDING_APPROVAL then pthrow (AlreadyDecided requestId (pq_status pending))
         else pret pending)"

definition approve :: "window_total \<Rightarrow> backend \<Rightarrow> signing_policy \<Rightarrow> int \<Rightarrow> string \<Rightarrow> string \<Rightarrow> submission signing" where
  "approve windowTotal sign policy now requestId approverId =
     pbind (pending_or_error requestId) (\<lambda>pending.
     if sq_requestedBy (pq_request pending) = approverId then pthrow SelfApproval
     else if approverId \<in> set (pq_approvals pending) then pret (Waiting pending)
     else
       let approvals = pq_approvals pending @ [approverId] in
       pbind (audit now requestId Approved (Some approverId)
         [(''approvalCount'', JNum (int (length approvals))), (''required'', JNum (po_requiredApprovals policy))]) (\<lambda>_.
       if int (length approvals) \<ge> po_requiredApprovals policy then
         pbind (pcatch
           (pbind (preads ss_spend) (\<lambda>entries. pfrom_result (assertWithinCeilings windowTotal policy (pq_request pending) entries)))
           (\<lambda>e. pbind (auditValidationFailure now requestId approverId e) (\<lambda>_. pthrow e))) (\<lambda>_.
         pbind (finalizeAndSign sign now (pq_request pending) approvals) (\<lambda>signed. pret (SignedTx signed)))
       else
         let updated = pending\<lparr>pq_approvals := approvals\<rparr> in
         pbind (save_request updated) (\<lambda>_. pret (Waiting updated))))"

definition reject :: "int \<Rightarrow> string \<Rightarrow> string \<Rightarrow> string option \<Rightarrow> pending_request signing" where
  "reject now requestId actorId reason =
     pbind (pending_or_error requestId) (\<lambda>pending.
     let updated = pending\<lparr>pq_status := REJECTED, pq_rejectedBy := Some actorId, pq_rejectionReason := reason\<rparr> in
     pbind (save_request updated) (\<lambda>_.
     pbind (audit now requestId Rejected (Some actorId)
       (case reason of None \<Rightarrow> [] | Some r \<Rightarrow> if r = [] then [] else [(''reason'', JStr r)])) (\<lambda>_.
     pret updated)))"

section \<open>Backends\<close>

definition disabled_sign :: backend where
  "disabled_sign now request = pthrow (SigningNotConfigured
     ''no signing backend is configured - Mode A (custodial) requires a KMS/HSM-backed SigningBackend before this can be enabled (see ADR 0002, ADR 0013)'')"

text \<open>The key store: handles with their key pair, and whether they were rotated out.\<close>

record stored_key =
  sk_private :: string
  sk_public :: string
  sk_retired :: bool

type_synonym key_store = "string \<rightharpoonup> stored_key"

text \<open>\<open>pair\<close> is what the elliptic-curve generator returned.\<close>

definition generateKey :: "string \<times> string \<Rightarrow> string \<Rightarrow> key_store \<Rightarrow> (string \<times> string) \<times> key_store" where
  "generateKey pair keyId keys =
     ((keyId, snd pair), keys(keyId \<mapsto> \<lparr>sk_private = fst pair, sk_public = snd pair, sk_retired = False\<rparr>))"

definition getPublicKey :: "string \<Rightarrow> key_store \<Rightarrow> signing_error + string" where
  "getPublicKey keyId keys = (case keys keyId of None \<Rightarrow> Inl (KeyNotFound keyId) | Some entry \<Rightarrow> Inr (sk_public entry))"

definition key_sign :: "(string \<Rightarrow> string \<Rightarrow> signing_error + string) \<Rightarrow> string \<Rightarrow> string \<Rightarrow> key_store \<Rightarrow> signing_error + string" where
  "key_sign ecSign keyId digest keys =
     (case keys keyId of None \<Rightarrow> Inl (KeyNotFound keyId)
      | Some entry \<Rightarrow> if sk_retired entry then Inl (KeyNotFound (keyId @ '' (rotated out - no longer used for signing)''))
          else ecSign (sk_private entry) digest)"

definition rotateKey :: "string \<times> string \<Rightarrow> int \<Rightarrow> string \<Rightarrow> key_store \<Rightarrow> signing_error + (string \<times> string) \<times> key_store" where
  "rotateKey pair now oldKeyId keys =
     (case keys oldKeyId of None \<Rightarrow> Inl (KeyNotFound oldKeyId)
      | Some old \<Rightarrow> Inr (generateKey pair (oldKeyId @ ''.r'' @ show_int now) (keys(oldKeyId \<mapsto> old\<lparr>sk_retired := True\<rparr>))))"

text \<open>\<open>StaticKeyMapping\<close>.\<close>

definition mapping_key :: "string \<Rightarrow> string \<Rightarrow> string" where
  "mapping_key fromAddress network = network @ '':'' @ toLowerCase fromAddress"

definition mapping_set :: "string \<Rightarrow> string \<Rightarrow> string \<Rightarrow> (string \<rightharpoonup> string) \<Rightarrow> (string \<rightharpoonup> string)" where
  "mapping_set fromAddress network keyId byAddress = byAddress(mapping_key fromAddress network \<mapsto> keyId)"

definition static_mapping :: "(string \<times> string \<times> string) list \<Rightarrow> (string \<rightharpoonup> string)" where
  "static_mapping entries = fold (\<lambda>(fromAddress, network, keyId). mapping_set fromAddress network keyId) entries (\<lambda>_. None)"

definition resolveKeyId :: "(string \<rightharpoonup> string) \<Rightarrow> string \<Rightarrow> string \<Rightarrow> signing_error + string" where
  "resolveKeyId byAddress fromAddress network =
     (let keyId = byAddress (mapping_key fromAddress network) in
      if truthy keyId then Inr (the keyId) else Inl (NoKeyMapped fromAddress network))"

fun json_fields :: "(string \<times> string) list \<Rightarrow> string" where
  "json_fields [] = []"
| "json_fields [(k, v)] = json_quote k @ '':'' @ json_quote v"
| "json_fields ((k, v) # kv # rest) = json_quote k @ '':'' @ json_quote v @ '','' @ json_fields (kv # rest)"

definition canonical :: "signing_request \<Rightarrow> string" where
  "canonical request = ''{'' @ json_fields
     [(''id'', sq_id request), (''network'', sq_network request), (''asset'', sq_asset request),
      (''fromAddress'', toLowerCase (sq_fromAddress request)), (''toAddress'', toLowerCase (sq_toAddress request)),
      (''amount'', show_int (sq_amount request)), (''requestedBy'', sq_requestedBy request),
      (''requestedAt'', toISOString (sq_requestedAt request))] @ ''}''"

definition canonicalDigest :: "(string \<Rightarrow> string) \<Rightarrow> signing_request \<Rightarrow> string" where
  "canonicalDigest sha256 request = sha256 (canonical request)"

definition to_hex :: "string \<Rightarrow> string" where
  "to_hex bytes = concat (map (\<lambda>c. [hex_digit ((of_char c :: nat) div 16), hex_digit ((of_char c :: nat) mod 16)]) bytes)"

definition hsm_sign ::
  "(string \<Rightarrow> string \<Rightarrow> signing_error + string) \<Rightarrow> (string \<Rightarrow> string) \<Rightarrow> key_store \<Rightarrow> (string \<rightharpoonup> string) \<Rightarrow> backend"
where
  "hsm_sign ecSign sha256 keys byAddress now request =
     pbind (pfrom_result (resolveKeyId byAddress (sq_fromAddress request) (sq_network request))) (\<lambda>keyId.
     let digest = canonicalDigest sha256 request in
     pcatch
       (pbind (pfrom_result (key_sign ecSign keyId digest keys)) (\<lambda>signature.
        pbind (audit now (sq_id request) KeyUsed None [(''keyId'', JStr keyId), (''network'', JStr (sq_network request))]) (\<lambda>_.
        pret \<lparr>sx_requestId = sq_id request, sx_rawTxHex = ''0x'' @ to_hex signature, sx_signedAt = now\<rparr>)))
       (\<lambda>e. pbind (audit now (sq_id request) SignFailed None [(''keyId'', JStr keyId), (''reason'', JStr (signing_error_message e))]) (\<lambda>_.
        pthrow e)))"

section \<open>The durable approval store\<close>

text \<open>The columns of a row; the amount is a Prisma decimal.\<close>

record 'd signing_row =
  sw_id :: string
  sw_merchantId :: string
  sw_network :: string
  sw_asset :: string
  sw_fromAddress :: string
  sw_toAddress :: string
  sw_amount :: 'd
  sw_requestedBy :: string
  sw_requestedAt :: int
  sw_status :: signing_status
  sw_approvals :: "string list"
  sw_rejectedBy :: "string option"
  sw_rejectionReason :: "string option"

definition row_of :: "(string \<Rightarrow> 'd) \<Rightarrow> pending_request \<Rightarrow> 'd signing_row" where
  "row_of mkDecimal entry = (let r = pq_request entry in
     \<lparr>sw_id = sq_id r, sw_merchantId = sq_merchantId r, sw_network = sq_network r, sw_asset = sq_asset r,
      sw_fromAddress = sq_fromAddress r, sw_toAddress = sq_toAddress r, sw_amount = unitsToDecimal mkDecimal (sq_amount r),
      sw_requestedBy = sq_requestedBy r, sw_requestedAt = sq_requestedAt r, sw_status = pq_status entry,
      sw_approvals = pq_approvals entry, sw_rejectedBy = pq_rejectedBy entry, sw_rejectionReason = pq_rejectionReason entry\<rparr>)"

definition save_row :: "(string \<Rightarrow> 'd) \<Rightarrow> pending_request \<Rightarrow> 'd signing_row list \<Rightarrow> 'd signing_row list" where
  "save_row mkDecimal entry rows =
     (if list_ex (\<lambda>x. sw_id x = sq_id (pq_request entry)) rows
      then update_rows (\<lambda>x. sw_id x = sq_id (pq_request entry)) (\<lambda>_. row_of mkDecimal entry) rows
      else rows @ [row_of mkDecimal entry])"

definition row_toDomain :: "('d \<Rightarrow> string) \<Rightarrow> 'd signing_row \<Rightarrow> mapping_error + pending_request" where
  "row_toDomain toFixed row =
     bind_result (decimalToUnits toFixed (Some (sw_amount row))) (\<lambda>amount.
     Inr \<lparr>pq_request = \<lparr>sq_id = sw_id row, sq_merchantId = sw_merchantId row, sq_network = sw_network row, sq_asset = sw_asset row,
         sq_fromAddress = sw_fromAddress row, sq_toAddress = sw_toAddress row, sq_amount = amount, sq_requestedBy = sw_requestedBy row,
         sq_requestedAt = sw_requestedAt row\<rparr>,
       pq_status = sw_status row, pq_approvals = sw_approvals row, pq_rejectedBy = sw_rejectedBy row,
       pq_rejectionReason = sw_rejectionReason row\<rparr>)"

definition get_row :: "('d \<Rightarrow> string) \<Rightarrow> string \<Rightarrow> 'd signing_row list \<Rightarrow> mapping_error + pending_request option" where
  "get_row toFixed requestId rows =
     (case find (\<lambda>x. sw_id x = requestId) rows of None \<Rightarrow> Inr None
      | Some row \<Rightarrow> bind_result (row_toDomain toFixed row) (\<lambda>p. Inr (Some p)))"

section \<open>The admin service\<close>

record submit_signing_dto =
  sd_merchant_id :: string
  sd_network :: string
  sd_asset :: string
  sd_from_address :: string
  sd_to_address :: string
  sd_amount :: string

record signing_response =
  rs_id :: string
  rs_merchant_id :: string
  rs_network :: string
  rs_asset :: string
  rs_from_address :: string
  rs_to_address :: string
  rs_amount :: string
  rs_requested_by :: string
  rs_requested_at :: string
  rs_status :: signing_status
  rs_approvals :: "string list"
  rs_rejected_by :: "string option"
  rs_rejection_reason :: "string option"
  rs_raw_tx_hex :: "string option"

definition toAdminSigningResponse :: "pending_request \<Rightarrow> string option \<Rightarrow> signing_response" where
  "toAdminSigningResponse state rawTxHex =
     (let r = pq_request state in
      \<lparr>rs_id = sq_id r, rs_merchant_id = sq_merchantId r, rs_network = sq_network r, rs_asset = sq_asset r,
       rs_from_address = sq_fromAddress r, rs_to_address = sq_toAddress r, rs_amount = show_int (sq_amount r),
       rs_requested_by = sq_requestedBy r, rs_requested_at = toISOString (sq_requestedAt r), rs_status = pq_status state,
       rs_approvals = pq_approvals state, rs_rejected_by = pq_rejectedBy state, rs_rejection_reason = pq_rejectionReason state,
       rs_raw_tx_hex = rawTxHex\<rparr>)"

text \<open>The errors of the package in the vocabulary of the API; any other error is rethrown as it is.\<close>

fun translate_error :: "signing_error \<Rightarrow> signing_error + app_error" where
  "translate_error (DestinationNotAllowed m) = Inr (ValidationError m None)"
| "translate_error (AmountCeilingExceeded m) = Inr (UnprocessableError SIGNING_CEILING_EXCEEDED m None)"
| "translate_error SelfApproval = Inr (ForbiddenError (signing_error_message SelfApproval) None)"
| "translate_error (UnknownSigningRequest i) = Inr (NotFoundError ''signing request'' None)"
| "translate_error (AlreadyDecided i st) = Inr (ConflictError (signing_error_message (AlreadyDecided i st)) CONFLICT None)"
| "translate_error (SigningNotConfigured m) = Inr (UnprocessableError SIGNING_NOT_CONFIGURED m None)"
| "translate_error (NoKeyMapped a n) = Inr (UnprocessableError SIGNING_NOT_CONFIGURED (signing_error_message (NoKeyMapped a n)) None)"
| "translate_error (KeyNotFound k) = Inr (UnprocessableError SIGNING_NOT_CONFIGURED (signing_error_message (KeyNotFound k)) None)"
| "translate_error (BackendError m) = Inl (BackendError m)"

type_synonym 'a admin = "signing_state \<Rightarrow> ((signing_error + app_error) + 'a) \<times> signing_state"

definition withTranslatedErrors :: "'a signing \<Rightarrow> 'a admin" where
  "withTranslatedErrors p = (\<lambda>s. case p s of (Inl e, t) \<Rightarrow> (Inl (translate_error e), t) | (Inr a, t) \<Rightarrow> (Inr a, t))"

definition admin_submit :: "window_total \<Rightarrow> backend \<Rightarrow> signing_policy \<Rightarrow> int \<Rightarrow> string \<Rightarrow> string \<Rightarrow> submit_signing_dto \<Rightarrow> signing_response admin" where
  "admin_submit windowTotal sign policy now ulid actorUserId dto =
     (let request = \<lparr>sq_id = newId ulid SigningRequestId, sq_merchantId = sd_merchant_id dto, sq_network = sd_network dto,
            sq_asset = sd_asset dto, sq_fromAddress = sd_from_address dto, sq_toAddress = sd_to_address dto,
            sq_amount = bigint_of_text (sd_amount dto), sq_requestedBy = actorUserId, sq_requestedAt = now\<rparr> in
      withTranslatedErrors (pbind (submit windowTotal sign policy now request) (\<lambda>result. pret (case result of
        SignedTx signed \<Rightarrow> toAdminSigningResponse \<lparr>pq_request = request, pq_status = SIGNED, pq_approvals = [actorUserId],
          pq_rejectedBy = None, pq_rejectionReason = None\<rparr> (Some (sx_rawTxHex signed))
      | Waiting pending \<Rightarrow> toAdminSigningResponse pending None))))"

definition admin_approve :: "window_total \<Rightarrow> backend \<Rightarrow> signing_policy \<Rightarrow> int \<Rightarrow> string \<Rightarrow> string \<Rightarrow> signing_response admin" where
  "admin_approve windowTotal sign policy now actorUserId requestId =
     withTranslatedErrors (pbind (preads (get_request requestId)) (\<lambda>found. case found of
       None \<Rightarrow> pthrow (UnknownSigningRequest requestId)
     | Some before \<Rightarrow>
         pbind (approve windowTotal sign policy now requestId actorUserId) (\<lambda>result. pret (case result of
           SignedTx signed \<Rightarrow> toAdminSigningResponse (before\<lparr>pq_status := SIGNED\<rparr>) (Some (sx_rawTxHex signed))
         | Waiting pending \<Rightarrow> toAdminSigningResponse pending None))))"

definition admin_reject :: "int \<Rightarrow> string \<Rightarrow> string \<Rightarrow> string option \<Rightarrow> signing_response admin" where
  "admin_reject now actorUserId requestId reason =
     withTranslatedErrors (pbind (reject now requestId actorUserId reason) (\<lambda>rejected. pret (toAdminSigningResponse rejected None)))"

text \<open>Requests are stored in the order of their creation, so the newest come last.\<close>

definition admin_list :: "signing_status option \<Rightarrow> signing_state \<Rightarrow> signing_response list" where
  "admin_list status s = map (\<lambda>p. toAdminSigningResponse p None)
     (take 100 (rev (filter (\<lambda>p. case status of None \<Rightarrow> True | Some st \<Rightarrow> pq_status p = st) (ss_approvals s))))"

definition admin_get :: "string \<Rightarrow> signing_state \<Rightarrow> app_error + signing_response" where
  "admin_get requestId s = (case get_request requestId s of
     None \<Rightarrow> Inl (NotFoundError ''signing request'' (Some requestId))
   | Some p \<Rightarrow> Inr (toAdminSigningResponse p None))"

section \<open>The service as a state machine\<close>

definition signed_ids :: "signing_state \<Rightarrow> string list" where
  "signed_ids s = map sv_requestId (filter (\<lambda>e. sv_type e = Signed) (ss_events s))"

text \<open>The audit trail grew, by signatures for the requests \<open>ids\<close>.\<close>

definition audited :: "signing_state \<Rightarrow> string list \<Rightarrow> signing_state \<Rightarrow> bool" where
  "audited s ids t \<longleftrightarrow> (\<exists>es. ss_events t = ss_events s @ es \<and> map sv_requestId (filter (\<lambda>e. sv_type e = Signed) es) = ids)"

definition spend_of :: "signing_request \<Rightarrow> spend_entry" where
  "spend_of r = \<lparr>se_merchantId = sq_merchantId r, se_network = sq_network r, se_amount = sq_amount r, se_at = sq_requestedAt r\<rparr>"

definition entry :: "signing_request \<Rightarrow> signing_status \<Rightarrow> string list \<Rightarrow> pending_request" where
  "entry r st as = \<lparr>pq_request = r, pq_status = st, pq_approvals = as, pq_rejectedBy = None, pq_rejectionReason = None\<rparr>"

definition admitted :: "window_total \<Rightarrow> signing_policy \<Rightarrow> signing_request \<Rightarrow> signing_state \<Rightarrow> bool" where
  "admitted wt po r s \<longleftrightarrow> assertWithinCeilings wt po r (ss_spend s) = Inr ()"

text \<open>What a call may do, with the request it submits as its label.\<close>

inductive policy_step :: "window_total \<Rightarrow> signing_policy \<Rightarrow> signing_request option \<Rightarrow> signing_state \<Rightarrow> signing_state \<Rightarrow> bool"
  for wt po where
  idle: "audited s [] t \<Longrightarrow> ss_spend t = ss_spend s \<Longrightarrow> ss_approvals t = ss_approvals s \<Longrightarrow> policy_step wt po l s t"
| sign_now: "po_requiredApprovals po \<le> 1 \<Longrightarrow> is_ok (assertDestinationAllowed po r) \<Longrightarrow> admitted wt po r s \<Longrightarrow>
    audited s [sq_id r] t \<Longrightarrow> ss_spend t = ss_spend s @ [spend_of r] \<Longrightarrow>
    ss_approvals t = upsert_request (entry r SIGNED [sq_requestedBy r]) (ss_approvals s) \<Longrightarrow> policy_step wt po (Some r) s t"
| wait: "1 < po_requiredApprovals po \<Longrightarrow> is_ok (assertDestinationAllowed po r) \<Longrightarrow> audited s [] t \<Longrightarrow> ss_spend t = ss_spend s \<Longrightarrow>
    ss_approvals t = upsert_request (entry r PENDING_APPROVAL []) (ss_approvals s) \<Longrightarrow> policy_step wt po (Some r) s t"
| co_sign: "get_request i s = Some p \<Longrightarrow> pq_status p = PENDING_APPROVAL \<Longrightarrow> a \<noteq> sq_requestedBy (pq_request p) \<Longrightarrow>
    a \<notin> set (pq_approvals p) \<Longrightarrow> int (length (pq_approvals p)) + 1 < po_requiredApprovals po \<Longrightarrow> audited s [] t \<Longrightarrow>
    ss_spend t = ss_spend s \<Longrightarrow> ss_approvals t = upsert_request (p\<lparr>pq_approvals := pq_approvals p @ [a]\<rparr>) (ss_approvals s) \<Longrightarrow>
    policy_step wt po None s t"
| sign_approved: "get_request i s = Some p \<Longrightarrow> pq_status p = PENDING_APPROVAL \<Longrightarrow> a \<noteq> sq_requestedBy (pq_request p) \<Longrightarrow>
    a \<notin> set (pq_approvals p) \<Longrightarrow> po_requiredApprovals po \<le> int (length (pq_approvals p)) + 1 \<Longrightarrow> admitted wt po (pq_request p) s \<Longrightarrow>
    audited s [i] t \<Longrightarrow> ss_spend t = ss_spend s @ [spend_of (pq_request p)] \<Longrightarrow>
    ss_approvals t = upsert_request (entry (pq_request p) SIGNED (pq_approvals p @ [a])) (ss_approvals s) \<Longrightarrow> policy_step wt po None s t"
| refuse: "get_request i s = Some p \<Longrightarrow> pq_status p = PENDING_APPROVAL \<Longrightarrow> audited s [] t \<Longrightarrow> ss_spend t = ss_spend s \<Longrightarrow>
    ss_approvals t = upsert_request (p\<lparr>pq_status := REJECTED, pq_rejectedBy := Some a, pq_rejectionReason := reason\<rparr>) (ss_approvals s) \<Longrightarrow>
    policy_step wt po None s t"

lemma audited_trans: "audited s a t \<Longrightarrow> audited t b u \<Longrightarrow> audited s (a @ b) u"
  by (auto simp: audited_def)

lemma audited_refl: "audited s [] s"
  by (simp add: audited_def)

lemma audited_ids: "audited s ids t \<Longrightarrow> signed_ids t = signed_ids s @ ids"
  by (auto simp: audited_def signed_ids_def)

text \<open>What the policy service relies on in a backend: it leaves the stores alone and signs nothing in
  the trail under the name of the service.\<close>

locale signing_backend =
  fixes sign :: backend
  assumes sign_frame: "sign now r s = (x, t) \<Longrightarrow> ss_spend t = ss_spend s \<and> ss_approvals t = ss_approvals s \<and> audited s [] t"
begin

lemma finalize_result:
  assumes "finalizeAndSign sign now r as s = (x, t)"
  shows "case x of Inl _ \<Rightarrow> audited s [] t \<and> ss_spend t = ss_spend s \<and> ss_approvals t = ss_approvals s
    | Inr _ \<Rightarrow> audited s [sq_id r] t \<and> ss_spend t = ss_spend s @ [spend_of r] \<and>
        ss_approvals t = upsert_request (entry r SIGNED as) (ss_approvals s)"
proof -
  obtain y u where y: "sign now r s = (y, u)" by fastforce
  note frame = sign_frame [OF y]
  show ?thesis
  proof (cases y)
    case (Inl e)
    with assms y frame show ?thesis
      by (auto simp: finalizeAndSign_def pcatch_def pbind_def audit_def audited_def)
  next
    case (Inr sg)
    with assms y frame show ?thesis
      by (auto simp: finalizeAndSign_def pcatch_def pbind_def audit_def record_spend_def save_request_def audited_def spend_of_def entry_def)
  qed
qed

lemma submit_step: "policy_step wt po (Some r) s (snd (submit wt sign po now r s))"
proof -
  let ?s = "s\<lparr>ss_events := ss_events s @ [\<lparr>sv_requestId = sq_id r, sv_type = Submitted, sv_actorId = Some (sq_requestedBy r),
    sv_occurredAt = now, sv_detail = requestSummary r\<rparr>]\<rparr>"
  have a: "audited s [] ?s" by (simp add: audited_def)
  show ?thesis
  proof (cases "is_ok (assertDestinationAllowed po r) \<and> admitted wt po r s")
    case False
    then have "audited s [] (snd (submit wt sign po now r s)) \<and> ss_spend (snd (submit wt sign po now r s)) = ss_spend s \<and>
        ss_approvals (snd (submit wt sign po now r s)) = ss_approvals s"
      by (cases "assertDestinationAllowed po r"; cases "assertWithinCeilings wt po r (ss_spend s)")
        (auto simp: submit_def audit_def pcatch_def pbind_def auditValidationFailure_def admitted_def audited_def)
    then show ?thesis by (auto intro: idle)
  next
    case True
    then have ok: "assertDestinationAllowed po r = Inr ()" "assertWithinCeilings wt po r (ss_spend s) = Inr ()"
      by (auto simp: is_ok_iff admitted_def)
    obtain x t where x: "finalizeAndSign sign now r [sq_requestedBy r] ?s = (x, t)" by fastforce
    show ?thesis
    proof (cases "po_requiredApprovals po \<le> 1")
      case req: True
      have "snd (submit wt sign po now r s) = t" using ok req x
        by (cases x) (simp_all add: submit_def audit_def pcatch_def pbind_def)
      then show ?thesis
      proof (cases x)
        case (Inl e)
        with finalize_result [OF x] \<open>snd (submit wt sign po now r s) = t\<close> audited_trans [OF a, of "[]" t]
        show ?thesis by (intro idle) simp_all
      next
        case (Inr signed)
        with finalize_result [OF x] \<open>snd (submit wt sign po now r s) = t\<close> audited_trans [OF a, of "[sq_id r]" t] True req
        show ?thesis by (intro sign_now) simp_all
      qed
    next
      case False
      then have "snd (submit wt sign po now r s) = ?s\<lparr>ss_approvals := upsert_request (entry r PENDING_APPROVAL []) (ss_approvals s)\<rparr>"
        using ok by (simp add: submit_def audit_def pcatch_def pbind_def save_request_def entry_def Let_def)
      with False True show ?thesis by (intro wait) (auto simp: audited_def)
    qed
  qed
qed

lemma pending_or_error_cases:
  obtains (missing) e where "pending_or_error i s = (Inl e, s)"
  | (pending) p where "pending_or_error i s = (Inr p, s)" "get_request i s = Some p" "pq_status p = PENDING_APPROVAL"
  by (cases "get_request i s"; cases "\<exists>p. get_request i s = Some p \<and> pq_status p = PENDING_APPROVAL")
    (auto simp: pending_or_error_def split: if_splits)

lemma get_request_id: "get_request i s = Some p \<Longrightarrow> sq_id (pq_request p) = i \<and> p \<in> set (ss_approvals s)"
  unfolding get_request_def by (auto dest!: find_Some_set)

lemma approve_step: "policy_step wt po None s (snd (approve wt sign po now i a s))"
proof (cases rule: pending_or_error_cases [of i s])
  case (missing e)
  then show ?thesis by (auto simp: approve_def pbind_def intro!: idle audited_refl)
next
  case (pending p)
  show ?thesis
  proof (cases "sq_requestedBy (pq_request p) = a \<or> a \<in> set (pq_approvals p)")
    case True with pending(1) show ?thesis by (auto simp: approve_def pbind_def intro!: idle audited_refl)
  next
    case False
    let ?as = "pq_approvals p @ [a]"
    let ?s = "s\<lparr>ss_events := ss_events s @ [\<lparr>sv_requestId = i, sv_type = Approved, sv_actorId = Some a, sv_occurredAt = now,
      sv_detail = [(''approvalCount'', JNum (int (length ?as))), (''required'', JNum (po_requiredApprovals po))]\<rparr>]\<rparr>"
    have au: "audited s [] ?s" by (simp add: audited_def)
    show ?thesis
    proof (cases "po_requiredApprovals po \<le> int (length ?as)")
      case few: False
      then have "snd (approve wt sign po now i a s) = ?s\<lparr>ss_approvals := upsert_request (p\<lparr>pq_approvals := ?as\<rparr>) (ss_approvals s)\<rparr>"
        using pending(1) False by (simp add: approve_def pbind_def audit_def Let_def save_request_def)
      with pending False few show ?thesis by (intro co_sign) (auto simp: audited_def)
    next
      case enough: True
      show ?thesis
      proof (cases "admitted wt po (pq_request p) s")
        case no: False
        with pending(1) False enough show ?thesis
          by (cases "assertWithinCeilings wt po (pq_request p) (ss_spend s)")
            (auto simp: approve_def pbind_def audit_def Let_def pcatch_def auditValidationFailure_def admitted_def audited_def intro!: idle)
      next
        case yes: True
        obtain x t where x: "finalizeAndSign sign now (pq_request p) ?as ?s = (x, t)" by fastforce
        have "snd (approve wt sign po now i a s) = t" using pending(1) False enough yes x
          by (cases x) (simp_all add: approve_def pbind_def audit_def Let_def pcatch_def admitted_def)
        note run = this finalize_result [OF x]
        show ?thesis
        proof (cases x)
          case (Inl e)
          with run audited_trans [OF au, of "[]" t] show ?thesis by (intro idle) simp_all
        next
          case (Inr signed)
          with run audited_trans [OF au, of "[i]" t] pending False enough yes get_request_id [OF pending(2)] show ?thesis
            by (intro sign_approved [of i s p a]) auto
        qed
      qed
    qed
  qed
qed

lemma reject_step: "policy_step wt po None s (snd (reject now i a reason s))"
proof (cases rule: pending_or_error_cases [of i s])
  case (missing e)
  then show ?thesis by (auto simp: reject_def pbind_def intro!: idle audited_refl)
next
  case (pending p)
  then show ?thesis
    by (intro refuse [where i = i and p = p and a = a and reason = reason]) (auto simp: reject_def pbind_def save_request_def audit_def Let_def audited_def)
qed

end

section \<open>What the store promises\<close>

text \<open>A stored request goes to an allowed address; its approvers are distinct and none of them is its
  requester, unless a single approval is enough, where the submission itself is it; it waits only
  while approvals are missing and it is signed only with enough of them.\<close>

definition entry_ok :: "signing_policy \<Rightarrow> pending_request \<Rightarrow> bool" where
  "entry_ok po p \<longleftrightarrow> is_ok (assertDestinationAllowed po (pq_request p)) \<and> distinct (pq_approvals p) \<and>
     (if po_requiredApprovals po \<le> 1 then pq_status p = SIGNED \<and> pq_approvals p = [sq_requestedBy (pq_request p)]
      else sq_requestedBy (pq_request p) \<notin> set (pq_approvals p) \<and>
        (pq_status p = SIGNED \<longleftrightarrow> po_requiredApprovals po \<le> int (length (pq_approvals p))))"

definition approvals_ok :: "signing_policy \<Rightarrow> signing_state \<Rightarrow> bool" where
  "approvals_ok po s \<longleftrightarrow> distinct (map (sq_id \<circ> pq_request) (ss_approvals s)) \<and> list_all (entry_ok po) (ss_approvals s)"

lemma set_upsert: "set (upsert_request e rows) = insert e {r \<in> set rows. sq_id (pq_request r) \<noteq> sq_id (pq_request e)}"
  by (auto simp: upsert_request_def update_rows_def list_ex_iff)

lemma upsert_ids:
  "map (sq_id \<circ> pq_request) (upsert_request e rows) =
     (if sq_id (pq_request e) \<in> set (map (sq_id \<circ> pq_request) rows) then map (sq_id \<circ> pq_request) rows
      else map (sq_id \<circ> pq_request) rows @ [sq_id (pq_request e)])"
  by (auto simp: upsert_request_def update_rows_def list_ex_iff) (metis image_eqI)

lemma approvals_upsert: "approvals_ok po s \<Longrightarrow> entry_ok po e \<Longrightarrow> ss_approvals t = upsert_request e (ss_approvals s) \<Longrightarrow> approvals_ok po t"
  by (auto simp: approvals_ok_def upsert_ids set_upsert list_all_iff)

lemma step_keeps_approvals:
  assumes "policy_step wt po l s t" "approvals_ok po s"
  shows "approvals_ok po t"
  using assms
proof (cases rule: policy_step.cases)
  case idle then show ?thesis using assms(2) by (simp add: approvals_ok_def)
next
  case (sign_now r)
  then show ?thesis by (intro approvals_upsert [OF assms(2)]) (auto simp: entry_ok_def entry_def)
next
  case (wait r)
  then show ?thesis by (intro approvals_upsert [OF assms(2)]) (auto simp: entry_ok_def entry_def)
next
  case (co_sign i p a)
  then have "entry_ok po p" using assms(2) by (auto simp: approvals_ok_def list_all_iff get_request_def dest: find_Some_set)
  with co_sign show ?thesis by (intro approvals_upsert [OF assms(2)]) (auto simp: entry_ok_def split: if_splits)
next
  case (sign_approved i p a)
  then have "entry_ok po p" using assms(2) by (auto simp: approvals_ok_def list_all_iff get_request_def dest: find_Some_set)
  with sign_approved show ?thesis by (intro approvals_upsert [OF assms(2)]) (auto simp: entry_ok_def entry_def split: if_splits)
next
  case (refuse i p a reason)
  then have "entry_ok po p" using assms(2) by (auto simp: approvals_ok_def list_all_iff get_request_def dest: find_Some_set)
  with refuse show ?thesis by (intro approvals_upsert [OF assms(2)]) (auto simp: entry_ok_def split: if_splits)
qed

section \<open>The rolling ceiling\<close>

definition in_window :: "string \<Rightarrow> string \<Rightarrow> int \<Rightarrow> int \<Rightarrow> spend_entry \<Rightarrow> bool" where
  "in_window m n w till e \<longleftrightarrow> se_merchantId e = m \<and> se_network e = n \<and> till - w * 1000 < se_at e \<and> se_at e \<le> till"

definition spent :: "string \<Rightarrow> string \<Rightarrow> int \<Rightarrow> int \<Rightarrow> spend_entry list \<Rightarrow> int" where
  "spent m n w till es = sum_list (map se_amount (filter (in_window m n w till) es))"

definition ceilings_ok :: "signing_policy \<Rightarrow> signing_state \<Rightarrow> bool" where
  "ceilings_ok po s \<longleftrightarrow> list_all (\<lambda>e. 0 \<le> se_amount e \<and> se_amount e \<le> po_maxAmountPerTx po) (ss_spend s) \<and>
     list_all (\<lambda>p. 0 \<le> sq_amount (pq_request p)) (ss_approvals s) \<and>
     (\<forall>m n till. spent m n (po_windowSeconds po) till (ss_spend s) \<le> po_maxAmountPerWindow po)"

text \<open>The interface of a spend tracker: it counts at least the spending of the window that ends at the
  time it is asked about.\<close>

locale spend_tracker =
  fixes wt :: window_total
  assumes wt_covers: "list_all (\<lambda>e. 0 \<le> se_amount e) es \<Longrightarrow> spent m n w till es \<le> wt m n w till es"

text \<open>A tracker that also counts what was recorded for a later time.\<close>

locale late_spend_tracker = spend_tracker +
  assumes wt_late: "list_all (\<lambda>e. 0 \<le> se_amount e) es \<Longrightarrow> till \<le> later \<Longrightarrow> later - w * 1000 < till \<Longrightarrow> spent m n w later es \<le> wt m n w till es"

lemma sum_filter_mono:
  assumes "list_all (\<lambda>e. 0 \<le> (f e :: int)) es" "\<And>e. P e \<Longrightarrow> Q e"
  shows "sum_list (map f (filter P es)) \<le> sum_list (map f (filter Q es))"
  using assms(1) by (induction es) (auto dest: assms(2) intro: add_increasing)

lemma admitted_iff: "admitted wt po r s \<longleftrightarrow> sq_amount r \<le> po_maxAmountPerTx po \<and>
    wt (sq_merchantId r) (sq_network r) (po_windowSeconds po) (sq_requestedAt r) (ss_spend s) + sq_amount r \<le> po_maxAmountPerWindow po"
  by (auto simp: admitted_def assertWithinCeilings_def Let_def)

context late_spend_tracker
begin

lemma spend_keeps_ceilings:
  assumes "ceilings_ok po s" "admitted wt po r s" "0 \<le> sq_amount r" "ss_spend t = ss_spend s @ [spend_of r]"
    and "list_all (\<lambda>p. 0 \<le> sq_amount (pq_request p)) (ss_approvals t)"
  shows "ceilings_ok po t"
proof -
  have nonneg: "list_all (\<lambda>e. 0 \<le> se_amount e) (ss_spend s)" using assms(1) by (auto simp: ceilings_ok_def list_all_iff)
  have "spent m n (po_windowSeconds po) till (ss_spend t) \<le> po_maxAmountPerWindow po" for m n till
  proof (cases "in_window m n (po_windowSeconds po) till (spend_of r)")
    case False with assms(1,4) show ?thesis by (simp add: ceilings_ok_def spent_def)
  next
    case True
    then have w: "sq_merchantId r = m" "sq_network r = n" "till - po_windowSeconds po * 1000 < sq_requestedAt r" "sq_requestedAt r \<le> till"
      by (simp_all add: in_window_def spend_of_def)
    have "spent m n (po_windowSeconds po) till (ss_spend t) = spent m n (po_windowSeconds po) till (ss_spend s) + sq_amount r"
      using True assms(4) by (simp add: spent_def) (simp add: spend_of_def)
    with wt_late [OF nonneg w(4,3), of m n] assms(2) w(1,2) show ?thesis by (simp add: admitted_iff)
  qed
  then show ?thesis using assms by (auto simp: ceilings_ok_def admitted_iff spend_of_def)
qed

lemma step_keeps_ceilings:
  assumes "policy_step wt po l s t" "ceilings_ok po s" "\<And>r. l = Some r \<Longrightarrow> 0 \<le> sq_amount r"
  shows "ceilings_ok po t"
  using assms(1)
proof (cases rule: policy_step.cases)
  case idle then show ?thesis using assms(2) by (simp add: ceilings_ok_def)
next
  case (sign_now r)
  then show ?thesis using assms(3) by (intro spend_keeps_ceilings [OF assms(2), of r])
      (use assms(2) in \<open>auto simp: ceilings_ok_def list_all_iff set_upsert entry_def\<close>)
next
  case (wait r) then show ?thesis using assms(2,3) by (auto simp: ceilings_ok_def list_all_iff set_upsert entry_def)
next
  case (co_sign i p a)
  then have "p \<in> set (ss_approvals s)" by (auto simp: get_request_def dest: find_Some_set)
  with co_sign show ?thesis using assms(2) by (auto simp: ceilings_ok_def list_all_iff set_upsert)
next
  case (sign_approved i p a)
  then have "p \<in> set (ss_approvals s)" by (auto simp: get_request_def dest: find_Some_set)
  with sign_approved show ?thesis by (intro spend_keeps_ceilings [OF assms(2), of "pq_request p"])
      (use assms(2) in \<open>auto simp: ceilings_ok_def list_all_iff set_upsert entry_def\<close>)
next
  case (refuse i p a reason)
  then have "p \<in> set (ss_approvals s)" by (auto simp: get_request_def dest: find_Some_set)
  with refuse show ?thesis using assms(2) by (auto simp: ceilings_ok_def list_all_iff set_upsert)
qed

end

interpretation memory: late_spend_tracker memory_windowTotal
  by unfold_locales (auto simp: spent_def memory_windowTotal_def Let_def in_window_def intro!: sum_filter_mono)

interpretation prisma: spend_tracker prisma_windowTotal
  by unfold_locales (auto simp: spent_def prisma_windowTotal_def Let_def in_window_def intro!: sum_filter_mono)

interpretation disabled: signing_backend disabled_sign
  by unfold_locales (auto simp: disabled_sign_def audited_refl)

interpretation hsm: signing_backend "hsm_sign ecSign sha256 keys byAddress" for ecSign sha256 keys byAddress
proof
  fix now r s x t assume "hsm_sign ecSign sha256 keys byAddress now r s = (x, t)"
  then show "ss_spend t = ss_spend s \<and> ss_approvals t = ss_approvals s \<and> audited s [] t"
    by (cases "resolveKeyId byAddress (sq_fromAddress r) (sq_network r)")
      (auto simp: hsm_sign_def pbind_def pcatch_def audit_def audited_def Let_def split: sum.splits)
qed

section \<open>Any sequence of calls\<close>

datatype signing_call =
    Submit signing_request
  | Approve string string
  | Reject string string "string option"

fun run_signing_call :: "window_total \<Rightarrow> backend \<Rightarrow> signing_policy \<Rightarrow> int \<times> signing_call \<Rightarrow> signing_state \<Rightarrow> signing_state" where
  "run_signing_call wt sign po (now, Submit r) s = snd (submit wt sign po now r s)"
| "run_signing_call wt sign po (now, Approve i a) s = snd (approve wt sign po now i a s)"
| "run_signing_call wt sign po (now, Reject i a reason) s = snd (reject now i a reason s)"

definition run_signing :: "window_total \<Rightarrow> backend \<Rightarrow> signing_policy \<Rightarrow> (int \<times> signing_call) list \<Rightarrow> signing_state \<Rightarrow> signing_state" where
  "run_signing wt sign po calls s = fold (run_signing_call wt sign po) calls s"

definition empty_signing :: signing_state where
  "empty_signing = \<lparr>ss_spend = [], ss_approvals = [], ss_events = []\<rparr>"

fun call_label :: "signing_call \<Rightarrow> signing_request option" where
  "call_label (Submit r) = Some r"
| "call_label c = None"

definition submitted :: "(int \<times> signing_call) list \<Rightarrow> signing_request list" where
  "submitted calls = List.map_filter (call_label \<circ> snd) calls"

lemma submitted_simps [simp]:
  "submitted [] = []" "submitted ((now, c) # calls) = (case call_label c of None \<Rightarrow> [] | Some r \<Rightarrow> [r]) @ submitted calls"
  by (simp_all add: submitted_def split: option.splits)

context signing_backend
begin

lemma call_step: "policy_step wt po (call_label (snd c)) s (run_signing_call wt sign po c s)"
proof (cases c)
  case (Pair now k)
  then show ?thesis by (cases k) (simp_all add: submit_step approve_step reject_step)
qed

lemma run_keeps:
  assumes "I s" "list_all P (submitted calls)"
    and step: "\<And>l s t. policy_step wt po l s t \<Longrightarrow> I s \<Longrightarrow> (\<And>r. l = Some r \<Longrightarrow> P r) \<Longrightarrow> I t"
  shows "I (run_signing wt sign po calls s)"
  using assms(1,2) unfolding run_signing_def
proof (induction calls arbitrary: s)
  case Nil then show ?case by simp
next
  case (Cons c calls)
  have "I (run_signing_call wt sign po c s)"
    by (rule step [OF call_step Cons.prems(1)]) (use Cons.prems(2) in \<open>cases c, auto\<close>)
  with Cons show ?case by (cases c) (auto split: option.splits)
qed

lemma run_keeps_approvals: "approvals_ok po s \<Longrightarrow> approvals_ok po (run_signing wt sign po calls s)"
  by (rule run_keeps [where P = "\<lambda>_. True"]) (auto simp: list_all_iff intro: step_keeps_approvals)

end

text \<open>Signed once: the trail has at most one signature for a request, exactly when the store has it
  signed, and as much spending is recorded as requests were signed.\<close>

definition once_ok :: "signing_state \<Rightarrow> bool" where
  "once_ok s \<longleftrightarrow> distinct (signed_ids s) \<and> length (ss_spend s) = length (signed_ids s) \<and>
     (\<forall>i. i \<in> set (signed_ids s) \<longleftrightarrow> (\<exists>p. get_request i s = Some p \<and> pq_status p = SIGNED))"

lemma find_upsert:
  "find (\<lambda>r. sq_id (pq_request r) = j) (upsert_request e rows) =
     (if j = sq_id (pq_request e) then Some e else find (\<lambda>r. sq_id (pq_request r) = j) rows)"
proof (induction rows)
  case Nil show ?case by (simp add: upsert_request_def)
next
  case (Cons r rows)
  have one: "find (\<lambda>r. sq_id (pq_request r) = j) (update_rows (\<lambda>r. sq_id (pq_request r) = sq_id (pq_request e)) (\<lambda>_. e) rs) =
      find (\<lambda>r. sq_id (pq_request r) = j) rs" if "j \<noteq> sq_id (pq_request e)" for rs
    using that by (induction rs) (auto simp: update_rows_def)
  show ?case using Cons one by (auto simp: upsert_request_def update_rows_def)
qed

lemma get_after_upsert:
  "ss_approvals t = upsert_request e (ss_approvals s) \<Longrightarrow>
     get_request j t = (if j = sq_id (pq_request e) then Some e else get_request j s)"
  by (simp add: get_request_def find_upsert)

lemma step_signs_once:
  assumes "policy_step wt po l s t" "once_ok s" "\<And>r. l = Some r \<Longrightarrow> get_request (sq_id r) s = None"
  shows "once_ok t \<and> (\<forall>j. get_request j t \<noteq> None \<longrightarrow> get_request j s \<noteq> None \<or> l \<noteq> None \<and> j = sq_id (the l))"
  using assms(1)
proof (cases rule: policy_step.cases)
  case idle then show ?thesis using assms(2) by (auto simp: once_ok_def audited_ids get_request_def)
next
  case (sign_now r)
  have new: "get_request (sq_id r) s = None" using sign_now(1) by (rule assms(3))
  note g = get_after_upsert [OF sign_now(7)]
  from sign_now assms(2) new show ?thesis by (auto simp: once_ok_def audited_ids g entry_def)
next
  case (wait r)
  have new: "get_request (sq_id r) s = None" using wait(1) by (rule assms(3))
  note g = get_after_upsert [OF wait(6)]
  from wait assms(2) new show ?thesis by (auto simp: once_ok_def audited_ids g entry_def)
next
  case (co_sign i p a)
  then have "sq_id (pq_request p) = i" by (auto simp: get_request_def dest: find_Some_set)
  with co_sign assms(2) get_after_upsert [OF co_sign(9)] show ?thesis by (auto simp: once_ok_def audited_ids)
next
  case (sign_approved i p a)
  then have "sq_id (pq_request p) = i" by (auto simp: get_request_def dest: find_Some_set)
  with sign_approved assms(2) get_after_upsert [OF sign_approved(10)] show ?thesis by (auto simp: once_ok_def audited_ids entry_def)
next
  case (refuse i p a reason)
  then have "sq_id (pq_request p) = i" by (auto simp: get_request_def dest: find_Some_set)
  with refuse assms(2) get_after_upsert [OF refuse(6)] show ?thesis by (auto simp: once_ok_def audited_ids)
qed

context signing_backend
begin

lemma run_signs_once:
  assumes "once_ok s" "distinct (map sq_id (submitted calls))" "list_all (\<lambda>r. get_request (sq_id r) s = None) (submitted calls)"
  shows "once_ok (run_signing wt sign po calls s)"
  using assms unfolding run_signing_def
proof (induction calls arbitrary: s)
  case Nil then show ?case by simp
next
  case (Cons c calls)
  let ?t = "run_signing_call wt sign po c s"
  obtain now k where c: "c = (now, k)" by fastforce
  have fresh: "call_label (snd c) = Some r \<Longrightarrow> get_request (sq_id r) s = None" for r using Cons.prems(3) c by simp
  have "once_ok ?t \<and> (\<forall>j. get_request j ?t \<noteq> None \<longrightarrow> get_request j s \<noteq> None \<or> call_label k \<noteq> None \<and> j = sq_id (the (call_label k)))"
    using step_signs_once [OF call_step [of wt po c s] Cons.prems(1) fresh] c by simp
  then have t: "once_ok ?t" "get_request j ?t \<noteq> None \<Longrightarrow> get_request j s \<noteq> None \<or> call_label k \<noteq> None \<and> j = sq_id (the (call_label k))" for j
    by blast+
  have "list_all (\<lambda>r. get_request (sq_id r) ?t = None) (submitted calls)"
    unfolding list_all_iff
  proof
    fix r assume r: "r \<in> set (submitted calls)"
    then have "get_request (sq_id r) s = None" using Cons.prems(3) c by (auto simp: list_all_iff split: option.splits)
    moreover have "\<not> (call_label k \<noteq> None \<and> sq_id r = sq_id (the (call_label k)))"
      using Cons.prems(2) c imageI [OF r, of sq_id] by (auto split: option.splits)
    ultimately show "get_request (sq_id r) ?t = None" using t(2) [of "sq_id r"] by blast
  qed
  moreover have "distinct (map sq_id (submitted calls))" using Cons.prems(2) c by (auto split: option.splits)
  ultimately show ?case using Cons.IH [OF t(1)] by simp
qed

end

section \<open>Properties\<close>

text \<open>C14: every signature is approved. Whatever calls are made, in whatever order and whichever of them
  fail, a request the store has as signed goes to an allowed destination and carries distinct
  approvals, as many as the policy requires and, when it requires more than one, none of them by the
  requester; a request that waits or was rejected has fewer than required.\<close>

theorem signatures_are_approved:
  assumes "approvals_ok po s" "p \<in> set (ss_approvals (run_signing wt (hsm_sign ecSign sha256 keys byAddress) po calls s))"
  shows "toLowerCase (sq_toAddress (pq_request p)) \<in> set (po_allowedDestinations po) \<and> distinct (pq_approvals p) \<and>
    (pq_status p = SIGNED \<longleftrightarrow> po_requiredApprovals po \<le> int (length (pq_approvals p))) \<and>
    (1 < po_requiredApprovals po \<longrightarrow> sq_requestedBy (pq_request p) \<notin> set (pq_approvals p))"
proof -
  have "entry_ok po p" using hsm.run_keeps_approvals [OF assms(1)] assms(2) by (auto simp: approvals_ok_def list_all_iff)
  then show ?thesis by (auto simp: entry_ok_def assertDestinationAllowed_def require_Inr_iff is_ok_iff split: if_splits)
qed

text \<open>C15: the ceilings hold with the tracker in memory. As long as no negative amount is requested, no
  sequence of calls, in any order of the times of their requests, signs more than the ceiling of one
  transaction at once, nor more than the rolling ceiling for a merchant and a network within any
  window of the length of the policy.\<close>

theorem spending_stays_within_ceilings:
  assumes "0 \<le> po_maxAmountPerWindow po" "list_all (\<lambda>r. 0 \<le> sq_amount r) (submitted calls)"
  shows "spent m n (po_windowSeconds po) till (ss_spend (run_signing memory_windowTotal (hsm_sign ecSign sha256 keys byAddress) po calls empty_signing))
      \<le> po_maxAmountPerWindow po \<and>
    list_all (\<lambda>e. se_amount e \<le> po_maxAmountPerTx po)
      (ss_spend (run_signing memory_windowTotal (hsm_sign ecSign sha256 keys byAddress) po calls empty_signing))"
proof -
  have "ceilings_ok po empty_signing" using assms(1) by (simp add: ceilings_ok_def empty_signing_def spent_def)
  then have "ceilings_ok po (run_signing memory_windowTotal (hsm_sign ecSign sha256 keys byAddress) po calls empty_signing)"
    by (rule hsm.run_keeps [OF _ assms(2)]) (rule memory.step_keeps_ceilings)
  then show ?thesis by (auto simp: ceilings_ok_def list_all_iff)
qed

text \<open>A request is signed at most once. When every submission has an identifier of its own, the
  trail holds at most one signature per request, holds it exactly for the requests the store has as
  signed, and one spending is recorded for each; a decided request can be neither approved nor
  rejected again, and the attempt changes nothing.\<close>

lemma signed_at_most_once:
  assumes "distinct (map sq_id (submitted calls))"
    and "s = run_signing wt (hsm_sign ecSign sha256 keys byAddress) po calls empty_signing"
  shows "distinct (signed_ids s) \<and> length (ss_spend s) = length (signed_ids s) \<and>
    (i \<in> set (signed_ids s) \<longleftrightarrow> (\<exists>p. get_request i s = Some p \<and> pq_status p = SIGNED)) \<and>
    (i \<in> set (signed_ids s) \<longrightarrow> approve wt' sign' po' now i a s = (Inl (AlreadyDecided i SIGNED), s) \<and>
      reject now i a reason s = (Inl (AlreadyDecided i SIGNED), s))"
proof -
  have "once_ok empty_signing" by (simp add: once_ok_def empty_signing_def signed_ids_def get_request_def)
  then have "once_ok s" unfolding assms(2)
    by (rule hsm.run_signs_once) (use assms(1) in \<open>auto simp: list_all_iff empty_signing_def get_request_def\<close>)
  then show ?thesis by (auto simp: once_ok_def approve_def reject_def pending_or_error_def pbind_def)
qed

section \<open>Keys\<close>

datatype key_op = Generate "string \<times> string" string | Rotate "string \<times> string" int string

fun run_key_op :: "key_op \<Rightarrow> key_store \<Rightarrow> key_store" where
  "run_key_op (Generate pair keyId) keys = snd (generateKey pair keyId keys)"
| "run_key_op (Rotate pair now keyId) keys = (case rotateKey pair now keyId keys of Inl _ \<Rightarrow> keys | Inr r \<Rightarrow> snd r)"

lemma retired_stays:
  assumes "CHR ''.'' \<notin> set k" "list_all (\<lambda>op. case op of Generate _ i \<Rightarrow> i \<noteq> k | Rotate _ _ _ \<Rightarrow> True) ops"
    "keys k = Some e" "sk_retired e"
  shows "\<exists>e'. fold run_key_op ops keys k = Some e' \<and> sk_retired e' \<and> sk_public e' = sk_public e"
  using assms(2-)
proof (induction ops arbitrary: keys e)
  case Nil then show ?case by simp
next
  case (Cons op ops)
  have "k \<noteq> i @ ''.r'' @ x" for i x using assms(1) by auto
  then have "\<exists>e'. run_key_op op keys k = Some e' \<and> sk_retired e' \<and> sk_public e' = sk_public e"
    using Cons.prems by (cases op) (auto simp: generateKey_def rotateKey_def split: option.splits)
  with Cons show ?case by fastforce
qed

text \<open>A rotated key never signs again. Rotating a key (whose handle has no dot) makes a new one that
  signs, and from then on, through any number of further rotations and of new keys under other
  handles, the old one refuses to sign while its public key stays available for the signatures it
  made.\<close>

lemma rotated_key_never_signs:
  assumes "keys k = Some e" "CHR ''.'' \<notin> set k"
    and "list_all (\<lambda>op. case op of Generate _ i \<Rightarrow> i \<noteq> k | Rotate _ _ _ \<Rightarrow> True) ops"
  shows "\<exists>new pub keys'. rotateKey pair now k keys = Inr ((new, pub), keys') \<and> new \<noteq> k \<and>
    key_sign ecSign new digest keys' = ecSign (fst pair) digest \<and>
    key_sign ecSign k digest (fold run_key_op ops keys') = Inl (KeyNotFound (k @ '' (rotated out - no longer used for signing)'')) \<and>
    getPublicKey k (fold run_key_op ops keys') = Inr (sk_public e)"
proof -
  let ?new = "k @ ''.r'' @ show_int now"
  let ?keys = "snd (generateKey pair ?new (keys(k \<mapsto> e\<lparr>sk_retired := True\<rparr>)))"
  have k: "?keys k = Some (e\<lparr>sk_retired := True\<rparr>)" by (simp add: generateKey_def)
  from retired_stays [where ops = ops and keys = ?keys, OF assms(2,3) k] obtain e' where
    e': "fold run_key_op ops ?keys k = Some e'" "sk_retired e'" "sk_public e' = sk_public e" by auto
  have "rotateKey pair now k keys = Inr ((?new, snd pair), ?keys)" using assms(1) by (simp add: rotateKey_def generateKey_def)
  moreover have "key_sign ecSign ?new digest ?keys = ecSign (fst pair) digest" by (simp add: key_sign_def generateKey_def)
  ultimately show ?thesis using e' by (intro exI [of _ ?new] exI [of _ "snd pair"] exI [of _ ?keys]) (simp add: key_sign_def getPublicKey_def)
qed

section \<open>What a signature binds\<close>

text \<open>A reader of one escaped character, to show that no escape is the beginning of another.\<close>

definition read_escaped :: "string \<Rightarrow> char \<times> string" where
  "read_escaped s =
     (if hd s \<noteq> CHR 0x5C then (hd s, tl s)
      else if s ! 1 = CHR ''u'' then (char_of (16 * hex_val (s ! 4) + hex_val (s ! 5)), drop 6 s)
      else (if s ! 1 = CHR ''b'' then char_of (8 :: nat) else if s ! 1 = CHR ''t'' then char_of (9 :: nat) else if s ! 1 = CHR ''n'' then char_of (10 :: nat)
            else if s ! 1 = CHR ''f'' then char_of (12 :: nat) else if s ! 1 = CHR ''r'' then char_of (13 :: nat) else s ! 1, drop 2 s))"

lemma read_json_escape: "read_escaped (json_escape c @ rest) = (c, rest)"
proof -
  have c: "(of_char c :: nat) = n \<Longrightarrow> c = char_of n" for n by auto
  have q: "char_of (34 :: nat) = CHR 0x22" "char_of (92 :: nat) = CHR 0x5C" by code_simp+
  have hex: "16 * hex_val (hex_digit (n div 16)) + hex_val (hex_digit (n mod 16)) = n" if "n < 32" for n
    using that by (simp add: hex_val_digit)
  consider "(of_char c :: nat) = 34" | "(of_char c :: nat) = 92" | "(of_char c :: nat) \<in> {8, 9, 10, 12, 13}"
    | "(of_char c :: nat) < 32" "(of_char c :: nat) \<notin> {8, 9, 10, 12, 13}" | "32 \<le> (of_char c :: nat)" "of_char c \<noteq> (34 :: nat)" "of_char c \<noteq> (92 :: nat)"
    by fastforce
  then show ?thesis
  proof cases
    case 1 then show ?thesis using c [OF 1] q by (simp add: json_escape_def read_escaped_def)
  next
    case 2 then show ?thesis using c [OF 2] q by (simp add: json_escape_def read_escaped_def)
  next
    case 3 then show ?thesis by (auto simp: json_escape_def read_escaped_def dest!: c)
  next
    case 4
    have "(of_char c :: nat) \<noteq> 34" "(of_char c :: nat) \<noteq> 92" using 4(1) by simp_all
    with 4 hex [OF 4(1)] show ?thesis by (simp add: json_escape_def read_escaped_def Let_def)
  next
    case 5
    then have "c \<noteq> CHR 0x5C" by auto
    with 5 show ?thesis by (simp add: json_escape_def read_escaped_def Let_def)
  qed
qed

lemma json_escape_head: "json_escape c \<noteq> [] \<and> hd (json_escape c) \<noteq> CHR 0x22"
  by (auto simp: json_escape_def Let_def)

lemma quoted_inj: "concat (map json_escape s) @ CHR 0x22 # x = concat (map json_escape t) @ CHR 0x22 # y \<Longrightarrow> s = t \<and> x = y"
proof (induction s arbitrary: t)
  case Nil
  then show ?case using json_escape_head by (cases t) (auto simp: Cons_eq_append_conv, metis hd_append2 list.sel(1))
next
  case (Cons c s)
  then obtain d t' where t: "t = d # t'"
    by (cases t) (auto simp: append_eq_Cons_conv, (metis json_escape_head list.sel(1))+)
  from arg_cong [OF Cons.prems, of read_escaped] have "c = d" "concat (map json_escape s) @ CHR 0x22 # x = concat (map json_escape t') @ CHR 0x22 # y"
    by (simp_all add: t read_json_escape)
  with Cons.IH [of t'] t show ?case by simp
qed

lemma json_quote_inj [simp]: "json_quote s @ x = json_quote t @ y \<longleftrightarrow> s = t \<and> x = y"
  using quoted_inj [of s x t y] by (auto simp: json_quote_def)

lemma json_quote_eq [simp]: "json_quote s = json_quote t \<longleftrightarrow> s = t"
  using json_quote_inj [of s "[]" t "[]"] by simp

text \<open>A signature binds its request. Two requests with the same canonical text, which is what is
  hashed and signed, have the same identifier, network, asset, amount and requester, addresses equal
  up to case, and the same time; no field can be moved into another, whatever characters it holds.\<close>

lemma canonical_binds_request:
  "canonical r = canonical r' \<longleftrightarrow>
     sq_id r = sq_id r' \<and> sq_network r = sq_network r' \<and> sq_asset r = sq_asset r' \<and>
     toLowerCase (sq_fromAddress r) = toLowerCase (sq_fromAddress r') \<and> toLowerCase (sq_toAddress r) = toLowerCase (sq_toAddress r') \<and>
     sq_amount r = sq_amount r' \<and> sq_requestedBy r = sq_requestedBy r' \<and> toISOString (sq_requestedAt r) = toISOString (sq_requestedAt r')"
  by (auto simp: canonical_def show_int_inj)

section \<open>The durable store\<close>

lemma row_of_id [simp]: "sw_id (row_of mkDecimal p) = sq_id (pq_request p)"
  by (simp add: row_of_def Let_def)

lemma save_row_upsert: "save_row mkDecimal e (map (row_of mkDecimal) ps) = map (row_of mkDecimal) (upsert_request e ps)"
  by (auto simp: save_row_def upsert_request_def update_rows_def list_ex_iff)

lemma save_rows_upsert: "fold (save_row mkDecimal) es (map (row_of mkDecimal) ps) = map (row_of mkDecimal) (fold upsert_request es ps)"
  by (induction es arbitrary: ps) (simp_all add: save_row_upsert)

lemma get_row_find:
  assumes "\<And>n. toFixed (mkDecimal (show_int n)) = show_int n"
  shows "get_row toFixed i (map (row_of mkDecimal) ps) = Inr (find (\<lambda>p. sq_id (pq_request p) = i) ps)"
proof -
  have "row_toDomain toFixed (row_of mkDecimal p) = Inr p" for p
    by (simp add: row_toDomain_def row_of_def Let_def decimalToUnits_def unitsToDecimal_def assms is_integer_text_show_int)
  then show ?thesis by (induction ps) (simp_all add: get_row_def)
qed

text \<open>C16: the approvals survive a restart. With Prisma's decimals in plain notation, the table behaves
  as the store in memory: after any sequence of saves, reading a request from the table gives exactly
  what the store holds for it, which is what was saved last under its identifier.\<close>

theorem durable_store_refines_memory:
  assumes "\<And>n. toFixed (mkDecimal (show_int n)) = show_int n"
  shows "get_row toFixed i (fold (save_row mkDecimal) es []) = Inr (find (\<lambda>p. sq_id (pq_request p) = i) (fold upsert_request es [])) \<and>
    get_row toFixed (sq_id (pq_request e)) (fold (save_row mkDecimal) (es @ [e]) []) = Inr (Some e)"
  using get_row_find [where toFixed = toFixed and mkDecimal = mkDecimal, OF assms] save_rows_upsert [of mkDecimal _ "[]"] find_upsert by (simp add: save_row_upsert)

section \<open>Witnesses and behaviour worth knowing\<close>

definition sample_policy :: "int \<Rightarrow> signing_policy" where
  "sample_policy required = \<lparr>po_network = ''*'', po_allowedDestinations = [''0xdd''], po_maxAmountPerTx = 100, po_maxAmountPerWindow = 100,
     po_windowSeconds = 60, po_requiredApprovals = required\<rparr>"

definition sample_signing :: "string \<Rightarrow> int \<Rightarrow> signing_request" where
  "sample_signing i at = \<lparr>sq_id = i, sq_merchantId = ''mch_1'', sq_network = ''ETHEREUM'', sq_asset = ''USDT'', sq_fromAddress = ''0xAA'',
     sq_toAddress = ''0xDD'', sq_amount = 60, sq_requestedBy = ''usr_1'', sq_requestedAt = at\<rparr>"

definition sample_keys :: key_store where
  "sample_keys = (\<lambda>k. if k = ''key1'' then Some \<lparr>sk_private = ''s'', sk_public = ''p'', sk_retired = False\<rparr> else None)"

definition sample_backend :: backend where
  "sample_backend = hsm_sign (\<lambda>k d. Inr k) (\<lambda>t. t) sample_keys (static_mapping [(''0xaa'', ''ETHEREUM'', ''key1'')])"

lemma sample_backend_run [code]:
  "sample_backend now r =
     (if mapping_key (sq_fromAddress r) (sq_network r) = ''ETHEREUM:0xaa'' then
        pbind (audit now (sq_id r) KeyUsed None [(''keyId'', JStr ''key1''), (''network'', JStr (sq_network r))]) (\<lambda>_.
        pret \<lparr>sx_requestId = sq_id r, sx_rawTxHex = ''0x'' @ to_hex ''s'', sx_signedAt = now\<rparr>)
      else pthrow (NoKeyMapped (sq_fromAddress r) (sq_network r)))"
proof -
  have "static_mapping [(''0xaa'', ''ETHEREUM'', ''key1'')] = [''ETHEREUM:0xaa'' \<mapsto> ''key1'']"
    by (simp add: static_mapping_def mapping_set_def mapping_key_def toLowerCase_def lower_char_def)
  then show ?thesis
    by (auto simp: sample_backend_def hsm_sign_def resolveKeyId_def truthy_def key_sign_def sample_keys_def pcatch_def pbind_def audit_def Let_def fun_eq_iff)
qed

definition sample_calls_signing :: "(int \<times> signing_call) list" where
  "sample_calls_signing = [(1000, Submit (sample_signing ''a'' 1000)), (2000, Submit (sample_signing ''b'' 2000)),
     (3000, Approve ''b'' ''usr_2''), (3001, Approve ''b'' ''usr_3''), (4000, Approve ''a'' ''usr_2''), (4001, Approve ''a'' ''usr_3'')]"

text \<open>The two trackers differ when requests are signed in another order than they were made. The
  tracker on the database does not count what was recorded for a later time than the request's own,
  so with approvals the rolling ceiling can be exceeded; the tracker in memory refuses the second.\<close>

lemma late_approval_exceeds_ceiling:
  "spent ''mch_1'' ''ETHEREUM'' 60 2000 (ss_spend (run_signing prisma_windowTotal sample_backend (sample_policy 2) sample_calls_signing empty_signing)) = 120 \<and>
   spent ''mch_1'' ''ETHEREUM'' 60 2000 (ss_spend (run_signing memory_windowTotal sample_backend (sample_policy 2) sample_calls_signing empty_signing)) = 60"
  by code_simp

text \<open>The answer to the approval that signs a request lists the approvals before it.\<close>

lemma approval_response_is_stale:
  "case fst (admin_approve memory_windowTotal sample_backend (sample_policy 2) 4000 ''usr_3'' ''b''
      (run_signing memory_windowTotal sample_backend (sample_policy 2) (take 3 sample_calls_signing) empty_signing)) of
     Inr response \<Rightarrow> rs_status response = SIGNED \<and> rs_approvals response = [''usr_2''] | _ \<Rightarrow> False"
  by code_simp

definition sample_signed :: signing_state where
  "sample_signed = run_signing memory_windowTotal sample_backend (sample_policy 2) sample_calls_signing empty_signing"

lemma sample_signed_facts:
  "list_ex (\<lambda>p. pq_status p = SIGNED) (ss_approvals sample_signed)" "signed_ids sample_signed = [''b'']"
  "map sq_id (submitted sample_calls_signing) = [''a'', ''b'']" "list_all (\<lambda>r. 0 \<le> sq_amount r) (submitted sample_calls_signing)"
  by code_simp+

lemma sample_signed_run:
  "sample_signed = run_signing memory_windowTotal (hsm_sign (\<lambda>k d. Inr k) (\<lambda>t. t) sample_keys (static_mapping [(''0xaa'', ''ETHEREUM'', ''key1'')]))
     (sample_policy 2) sample_calls_signing empty_signing"
  by (simp add: sample_signed_def sample_backend_def)

theorem signatures_are_approved_witness:
  "\<exists>p \<in> set (ss_approvals sample_signed). pq_status p = SIGNED \<and> 2 \<le> length (pq_approvals p) \<and> sq_requestedBy (pq_request p) \<notin> set (pq_approvals p)"
proof -
  obtain p where p: "p \<in> set (ss_approvals sample_signed)" "pq_status p = SIGNED"
    using sample_signed_facts(1) by (auto simp: list_ex_iff)
  have "approvals_ok (sample_policy 2) empty_signing" by (simp add: approvals_ok_def empty_signing_def)
  from signatures_are_approved [OF this p(1) [unfolded sample_signed_run]] p show ?thesis by (auto simp: sample_policy_def)
qed

theorem spending_stays_within_ceilings_witness:
  "spent ''mch_1'' ''ETHEREUM'' 60 2000 (ss_spend sample_signed) \<le> 100 \<and> list_all (\<lambda>e. se_amount e \<le> 100) (ss_spend sample_signed)"
  using spending_stays_within_ceilings [OF _ sample_signed_facts(4), of "sample_policy 2"] unfolding sample_signed_run
  by (simp add: sample_policy_def)

theorem durable_store_refines_memory_witness:
  "get_row (\<lambda>d. d) ''a'' (fold (save_row (\<lambda>t. t)) [entry (sample_signing ''b'' 1) SIGNED [], entry (sample_signing ''a'' 2) PENDING_APPROVAL []] []) =
     Inr (Some (entry (sample_signing ''a'' 2) PENDING_APPROVAL []))"
  using durable_store_refines_memory [where toFixed = "\<lambda>d. d" and mkDecimal = "\<lambda>t. t" and e = "entry (sample_signing ''a'' 2) PENDING_APPROVAL []"
      and es = "[entry (sample_signing ''b'' 1) SIGNED []]"] by (simp add: entry_def sample_signing_def)

end
