(* ===== verification/WebhookSecurity.thy ===== *)
theory WebhookSecurity
  imports Errors
begin

text \<open>
  What protects webhooks: the signature a merchant verifies (\<open>packages/security/src/webhook-signature.ts\<close>)
  and the guard against addresses inside the network (\<open>packages/webhooks/src/ssrf-guard.ts\<close>). HMAC-SHA256,
  the URL parser and name resolution are parameters; \<open>net.isIP\<close> is modelled.
\<close>

section \<open>Signatures\<close>

definition SIGNATURE_VERSION :: string where "SIGNATURE_VERSION = ''v1''"

definition DEFAULT_REPLAY_WINDOW_SECONDS :: int where "DEFAULT_REPLAY_WINDOW_SECONDS = 300"

record signed_webhook =
  sgw_signature :: string
  sgw_timestamp :: int
  sgw_signedPayload :: string

definition buildSignedPayload :: "int \<Rightarrow> string \<Rightarrow> string" where
  "buildSignedPayload timestampSeconds rawBody = show_int timestampSeconds @ ''.'' @ rawBody"

text \<open>\<open>hmac secret payload\<close> is the digest in hexadecimal.\<close>

definition signWebhook :: "(string \<Rightarrow> string \<Rightarrow> string) \<Rightarrow> string \<Rightarrow> string \<Rightarrow> int \<Rightarrow> signed_webhook" where
  "signWebhook hmac secret rawBody timestampSeconds =
     (let signedPayload = buildSignedPayload timestampSeconds rawBody; digest = hmac secret signedPayload in
      \<lparr>sgw_signature = ''t='' @ show_int timestampSeconds @ '','' @ SIGNATURE_VERSION @ ''='' @ digest,
       sgw_timestamp = timestampSeconds, sgw_signedPayload = signedPayload\<rparr>)"

datatype verify_failure = MalformedHeader | TimestampOutOfRange | SignatureMismatch

datatype verify_result = Valid int bool | Invalid verify_failure

definition lower_hex_digits :: string where
  "lower_hex_digits = ''0123456789abcdef''"

definition is_lower_hex :: "char \<Rightarrow> bool" where
  "is_lower_hex c \<longleftrightarrow> c \<in> set lower_hex_digits"

text \<open>\<open>/^[a-f0-9]{64}$/\<close> and \<open>/^\d{1,15}$/\<close>.\<close>

definition is_digest :: "string \<Rightarrow> bool" where
  "is_digest s \<longleftrightarrow> length s = 64 \<and> list_all is_lower_hex s"

definition is_timestamp :: "string \<Rightarrow> bool" where
  "is_timestamp s \<longleftrightarrow> 1 \<le> length s \<and> length s \<le> 15 \<and> list_all is_digit s"

text \<open>The loop over the parts of the header; \<open>None\<close> is its early return.\<close>

fun parse_parts :: "string list \<Rightarrow> int option \<Rightarrow> string list \<Rightarrow> (int option \<times> string list) option" where
  "parse_parts [] timestamp signatures = Some (timestamp, signatures)"
| "parse_parts (part # parts) timestamp signatures =
     (if CHR ''='' \<notin> set part then parse_parts parts timestamp signatures
      else let key = js_trim (takeWhile (\<lambda>c. c \<noteq> CHR ''='') part); v = js_trim (tl (dropWhile (\<lambda>c. c \<noteq> CHR ''='') part)) in
        if key = ''t'' then (if \<not> is_timestamp v then None else parse_parts parts (Some (digits_value v)) signatures)
        else if key = SIGNATURE_VERSION then parse_parts parts timestamp (if is_digest v then signatures @ [v] else signatures)
        else parse_parts parts timestamp signatures)"

definition parseSignatureHeader :: "string \<Rightarrow> (int \<times> string list) option" where
  "parseSignatureHeader header =
     (if header = [] \<or> length header > 1024 then None
      else case parse_parts (split_on (CHR '','') header) None [] of
        Some (Some timestamp, signatures) \<Rightarrow> if signatures = [] then None else Some (timestamp, signatures)
      | _ \<Rightarrow> None)"

fun from_hex :: "string \<Rightarrow> nat list" where
  "from_hex (a # b # rest) = (16 * hex_val a + hex_val b) # from_hex rest"
| "from_hex _ = []"

definition safeEqualHex :: "string \<Rightarrow> string \<Rightarrow> bool" where
  "safeEqualHex a b \<longleftrightarrow> length a = length b \<and> from_hex a = from_hex b"

definition verifyWebhookSignature ::
  "(string \<Rightarrow> string \<Rightarrow> string) \<Rightarrow> string \<Rightarrow> string \<Rightarrow> string \<Rightarrow> int option \<Rightarrow> int \<Rightarrow> string option \<Rightarrow> verify_result" where
  "verifyWebhookSignature hmac secret rawBody signatureHeader toleranceSeconds now previousSecret =
     (case parseSignatureHeader signatureHeader of None \<Rightarrow> Invalid MalformedHeader
      | Some (timestamp, signatures) \<Rightarrow>
          let tolerance = (case toleranceSeconds of None \<Rightarrow> DEFAULT_REPLAY_WINDOW_SECONDS | Some t \<Rightarrow> t) in
          if \<bar>now - timestamp\<bar> > tolerance then Invalid TimestampOutOfRange
          else
            let signedPayload = buildSignedPayload timestamp rawBody; expected = hmac secret signedPayload in
            if list_ex (\<lambda>candidate. safeEqualHex candidate expected) signatures then Valid timestamp False
            else (case previousSecret of
              Some p \<Rightarrow> if p \<noteq> [] \<and> list_ex (\<lambda>candidate. safeEqualHex candidate (hmac p signedPayload)) signatures
                then Valid timestamp True else Invalid SignatureMismatch
            | None \<Rightarrow> Invalid SignatureMismatch))"

lemma lower_hex_table:
  "list_all (\<lambda>a. hex_val a < 16 \<and> list_all (\<lambda>b. hex_val a = hex_val b \<longrightarrow> a = b) lower_hex_digits \<and>
     a \<noteq> CHR '','' \<and> a \<noteq> CHR ''='' \<and> \<not> is_space a) lower_hex_digits"
  by code_simp

lemma lower_hex_val_inj: "is_lower_hex a \<Longrightarrow> is_lower_hex b \<Longrightarrow> hex_val a = hex_val b \<Longrightarrow> a = b"
  using lower_hex_table unfolding is_lower_hex_def list_all_iff by blast

lemma lower_hex_val: "is_lower_hex a \<Longrightarrow> hex_val a < 16"
  using lower_hex_table unfolding is_lower_hex_def list_all_iff by blast

lemma from_hex_inj:
  "list_all is_lower_hex a \<Longrightarrow> list_all is_lower_hex b \<Longrightarrow> even (length a) \<Longrightarrow> length a = length b \<Longrightarrow> from_hex a = from_hex b \<Longrightarrow> a = b"
proof (induction a arbitrary: b rule: from_hex.induct)
  case (1 x y rest)
  obtain u v rest' where b: "b = u # v # rest'" using 1(5) by (cases b; cases "tl b") simp_all
  have lo: "is_lower_hex x" "is_lower_hex y" "is_lower_hex u" "is_lower_hex v" using 1(2,3) b by simp_all
  have eq: "16 * hex_val x + hex_val y = 16 * hex_val u + hex_val v" using 1(6) b by simp
  have parts: "(16 * m + n) div 16 = m" "(16 * m + n) mod 16 = n" if "n < 16" for m n :: nat using that by simp_all
  have "hex_val x = hex_val u" "hex_val y = hex_val v"
    using arg_cong [OF eq, of "\<lambda>n. n div 16"] arg_cong [OF eq, of "\<lambda>n. n mod 16"]
    unfolding parts [OF lower_hex_val [OF lo(2)]] parts [OF lower_hex_val [OF lo(4)]] .
  then have "x = u" "y = v" using lo lower_hex_val_inj by blast+
  moreover have "rest = rest'" by (rule 1(1)) (use 1(2-) b in simp_all)
  ultimately show ?case using b by simp
qed simp_all

lemma safeEqualHex_digest: "is_digest a \<Longrightarrow> is_digest b \<Longrightarrow> safeEqualHex a b \<longleftrightarrow> a = b"
  using from_hex_inj by (auto simp: is_digest_def safeEqualHex_def)

lemma lower_hex_not: "is_lower_hex c \<Longrightarrow> c \<noteq> CHR '','' \<and> c \<noteq> CHR ''='' \<and> \<not> is_space c"
  using lower_hex_table unfolding is_lower_hex_def list_all_iff by blast

lemma parse_parts_digests: "parse_parts parts ts sigs = Some (ts', sigs') \<Longrightarrow> list_all is_digest sigs \<Longrightarrow> list_all is_digest sigs'"
  by (induction parts ts sigs rule: parse_parts.induct) (auto simp: Let_def split: if_splits)

lemma parse_digests: "parseSignatureHeader header = Some (ts, sigs) \<Longrightarrow> list_all is_digest sigs"
  using parse_parts_digests [of "split_on (CHR '','') header" None "[]"]
  by (auto simp: parseSignatureHeader_def split: if_splits option.splits prod.splits)

text \<open>The header of a signature is read back.\<close>

lemma parse_signed_header:
  assumes "is_digest digest" "0 \<le> ts" "ts < 10 ^ 15"
  shows "parseSignatureHeader (''t='' @ show_int ts @ '','' @ SIGNATURE_VERSION @ ''='' @ digest) = Some (ts, [digest])"
proof -
  have ds: "list_all is_digit (show_int ts)" using assms(2) show_digits_digits by (simp add: show_int_nonneg)
  have ne: "show_int ts \<noteq> []" using assms(2) show_digits_nonempty by (simp add: show_int_nonneg)
  have len: "length (show_int ts) \<le> 15" using assms length_show_digits [of ts 15] by (simp add: show_int_nonneg)
  have val: "digits_value (show_int ts) = ts" using assms(2) by (simp add: show_int_nonneg)
  have dg: "list_all is_lower_hex digest" "length digest = 64" "digest \<noteq> []" using assms(1) by (auto simp: is_digest_def)
  have "\<not> is_space (hd (show_int ts))" "\<not> is_space (last (show_int ts))"
    using ds ne is_digit_not_space by (auto simp: list_all_iff)
  then have trim1: "js_trim (show_int ts) = show_int ts" using ne js_trim_id by blast
  have "\<not> is_space (hd digest)" "\<not> is_space (last digest)" using dg lower_hex_not by (auto simp: list_all_iff)
  then have trim2: "js_trim digest = digest" using dg(3) js_trim_id by blast
  have c1: "CHR '','' \<notin> set (''t='' @ show_int ts)" using show_int_no_char [of "CHR '',''" ts] by (simp add: is_digit_def)
  have c2: "CHR '','' \<notin> set (SIGNATURE_VERSION @ ''='' @ digest)" using dg(1) lower_hex_not by (auto simp: SIGNATURE_VERSION_def list_all_iff)
  have split: "split_on (CHR '','') (''t='' @ show_int ts @ '','' @ SIGNATURE_VERSION @ ''='' @ digest) = [''t='' @ show_int ts, SIGNATURE_VERSION @ ''='' @ digest]"
    using split_on_append [OF c1, of "SIGNATURE_VERSION @ ''='' @ digest"] split_on_none [OF c2] by simp
  have t: "is_timestamp (show_int ts)" using ds ne len by (cases "show_int ts") (simp_all add: is_timestamp_def)
  have trims: "js_trim ''t'' = ''t''" "js_trim ''v1'' = ''v1''" by code_simp+
  have "parse_parts [''t='' @ show_int ts, SIGNATURE_VERSION @ ''='' @ digest] None [] = Some (Some ts, [digest])"
    using t assms(1) by (simp add: SIGNATURE_VERSION_def trims trim1 trim2 val Let_def)
  moreover have "length (''t='' @ show_int ts @ '','' @ SIGNATURE_VERSION @ ''='' @ digest) \<le> 1024"
    using len dg(2) by (simp add: SIGNATURE_VERSION_def)
  ultimately show ?thesis unfolding parseSignatureHeader_def split by simp
qed

lemma signed_payload_inj: "0 \<le> t \<Longrightarrow> 0 \<le> t' \<Longrightarrow> buildSignedPayload t body = buildSignedPayload t' body' \<longleftrightarrow> t = t' \<and> body = body'"
proof (auto simp: buildSignedPayload_def)
  assume "0 \<le> t" "0 \<le> t'" and eq: "show_int t @ CHR ''.'' # body = show_int t' @ CHR ''.'' # body'"
  have dot: "CHR ''.'' \<notin> set (show_int x)" for x using show_int_no_char [of "CHR ''.''" x] by (simp add: is_digit_def)
  have tw: "takeWhile (\<lambda>c. c \<noteq> CHR ''.'') (show_int x @ CHR ''.'' # y) = show_int x" for x y
    using dot [of x] by (subst takeWhile_append2) auto
  have "show_int t = show_int t'" using arg_cong [OF eq, of "takeWhile (\<lambda>c. c \<noteq> CHR ''.'')"] unfolding tw .
  with eq have "show_int t = show_int t' \<and> body = body'" by simp
  then show "t = t'" "body = body'" by (simp_all add: show_int_inj)
qed

lemma signed_webhook_verifies:
  assumes "is_digest (hmac secret (buildSignedPayload ts body))" "0 \<le> ts" "ts < 10 ^ 15" "\<bar>now - ts\<bar> \<le> tol"
  shows "parseSignatureHeader (sgw_signature (signWebhook hmac secret body ts)) = Some (ts, [hmac secret (buildSignedPayload ts body)])"
    and "verifyWebhookSignature hmac secret body (sgw_signature (signWebhook hmac secret body ts)) (Some tol) now prev = Valid ts False"
proof -
  show "parseSignatureHeader (sgw_signature (signWebhook hmac secret body ts)) = Some (ts, [hmac secret (buildSignedPayload ts body)])"
    using parse_signed_header [OF assms(1-3)] by (simp add: signWebhook_def Let_def)
  then show "verifyWebhookSignature hmac secret body (sgw_signature (signWebhook hmac secret body ts)) (Some tol) now prev = Valid ts False"
    using assms(4) by (simp add: verifyWebhookSignature_def Let_def safeEqualHex_def)
qed

text \<open>C19: what the gateway signs, a merchant verifies, and nothing else. Assuming only that the digest
  is 64 lower-case hexadecimal digits, a signed webhook verifies with its secret for every time within
  the tolerance, with its secret as the previous one of a rotation, and with no other timestamp; a
  header that verifies carries the digest of exactly this body under its own timestamp, which is
  within the tolerance, for the current or the previous secret.\<close>

theorem webhook_signature_exact:
  assumes "\<And>k p. is_digest (hmac k p)" "0 \<le> ts" "ts < 10 ^ 15" "\<bar>now - ts\<bar> \<le> tol"
  shows "verifyWebhookSignature hmac secret body (sgw_signature (signWebhook hmac secret body ts)) (Some tol) now prev = Valid ts False \<and>
    (secret \<noteq> [] \<longrightarrow> verifyWebhookSignature hmac new body (sgw_signature (signWebhook hmac secret body ts)) (Some tol) now (Some secret)
       \<in> {Valid ts True, Valid ts False}) \<and>
    (verifyWebhookSignature hmac secret body' header (Some tol') now' prev = Valid ts' b \<longrightarrow>
       \<bar>now' - ts'\<bar> \<le> tol' \<and> (\<exists>sigs. parseSignatureHeader header = Some (ts', sigs) \<and>
         (if b then prev \<noteq> None \<and> hmac (the prev) (buildSignedPayload ts' body') \<in> set sigs
          else hmac secret (buildSignedPayload ts' body') \<in> set sigs)))"
proof (intro conjI impI)
  let ?h = "sgw_signature (signWebhook hmac secret body ts)"
  have h: "parseSignatureHeader ?h = Some (ts, [hmac secret (buildSignedPayload ts body)])"
    by (rule signed_webhook_verifies(1)) (rule assms)+
  show "verifyWebhookSignature hmac secret body ?h (Some tol) now prev = Valid ts False"
    by (rule signed_webhook_verifies(2)) (rule assms)+
  show "verifyWebhookSignature hmac new body ?h (Some tol) now (Some secret) \<in> {Valid ts True, Valid ts False}" if "secret \<noteq> []"
    using h assms(4) that by (simp add: verifyWebhookSignature_def Let_def safeEqualHex_def)
  assume v: "verifyWebhookSignature hmac secret body' header (Some tol') now' prev = Valid ts' b"
  then obtain sigs where sigs: "parseSignatureHeader header = Some (ts', sigs)" and tol: "\<bar>now' - ts'\<bar> \<le> tol'"
    and match: "if b then prev \<noteq> None \<and> list_ex (\<lambda>c. safeEqualHex c (hmac (the prev) (buildSignedPayload ts' body'))) sigs
       else list_ex (\<lambda>c. safeEqualHex c (hmac secret (buildSignedPayload ts' body'))) sigs"
    by (auto simp: verifyWebhookSignature_def Let_def split: option.splits prod.splits if_splits)
  have "is_digest c" if "c \<in> set sigs" for c using parse_digests [OF sigs] that by (auto simp: list_all_iff)
  then have eq: "list_ex (\<lambda>c. safeEqualHex c (hmac k p)) sigs \<longleftrightarrow> hmac k p \<in> set sigs" for k p
    using safeEqualHex_digest assms(1) by (auto simp: list_ex_iff)
  from tol show "\<bar>now' - ts'\<bar> \<le> tol'" .
  from sigs match show "\<exists>sigs. parseSignatureHeader header = Some (ts', sigs) \<and>
         (if b then prev \<noteq> None \<and> hmac (the prev) (buildSignedPayload ts' body') \<in> set sigs
          else hmac secret (buildSignedPayload ts' body') \<in> set sigs)" unfolding eq by blast
qed

theorem webhook_signature_exact_witness:
  "verifyWebhookSignature (\<lambda>_ _. replicate 64 (CHR ''a'')) ''k'' ''{}'' (sgw_signature (signWebhook (\<lambda>_ _. replicate 64 (CHR ''a'')) ''k'' ''{}'' 100))
     (Some 300) 350 None = Valid 100 False"
proof -
  have "is_digest (replicate 64 (CHR ''a''))" by code_simp
  then show ?thesis
    using webhook_signature_exact [where hmac = "\<lambda>_ _. replicate 64 (CHR ''a'')" and ts = 100 and now = 350 and tol = 300
        and secret = "''k''" and body = "''{}''" and prev = None] by simp
qed

section \<open>Addresses\<close>

text \<open>\<open>net.isIP\<close>: 4, 6, or 0 for what is no address literal. An octet has no leading zero; a version 6
  address is eight groups of up to four hexadecimal digits, of which \<open>::\<close> abbreviates one or more, the
  last two possibly written as a version 4 address, with an optional zone.\<close>

definition is_octet :: "string \<Rightarrow> bool" where
  "is_octet s \<longleftrightarrow> s \<noteq> [] \<and> length s \<le> 3 \<and> list_all is_digit s \<and> (length s = 1 \<or> hd s \<noteq> CHR ''0'') \<and> digits_value s \<le> 255"

definition isIPv4 :: "string \<Rightarrow> bool" where
  "isIPv4 s \<longleftrightarrow> (let parts = split_on (CHR ''.'') s in length parts = 4 \<and> list_all is_octet parts)"

definition is_hex :: "char \<Rightarrow> bool" where
  "is_hex c \<longleftrightarrow> c \<in> set ''0123456789abcdefABCDEF''"

definition is_group :: "string \<Rightarrow> bool" where
  "is_group s \<longleftrightarrow> s \<noteq> [] \<and> length s \<le> 4 \<and> list_all is_hex s"

text \<open>The number of groups of a list of parts, if they are well formed.\<close>

fun group_count :: "bool \<Rightarrow> string list \<Rightarrow> nat option" where
  "group_count v4 [] = Some 0"
| "group_count v4 (p # ps) =
     (if is_group p then map_option Suc (group_count v4 ps)
      else if v4 \<and> ps = [] \<and> isIPv4 p then Some 2 else None)"

fun find_double_colon :: "string \<Rightarrow> (string \<times> string) option" where
  "find_double_colon (c # d # rest) =
     (if c = CHR '':'' \<and> d = CHR '':'' then Some ([], rest)
      else map_option (\<lambda>(a, b). (c # a, b)) (find_double_colon (d # rest)))"
| "find_double_colon _ = None"

definition groups_of :: "bool \<Rightarrow> string \<Rightarrow> nat option" where
  "groups_of v4 s = (if s = [] then Some 0 else group_count v4 (split_on (CHR '':'') s))"

definition is_zone_char :: "char \<Rightarrow> bool" where
  "is_zone_char c \<longleftrightarrow> c \<in> set ''0123456789abcdefghijklmnopqrstuvwxyzABCDEFGHIJKLMNOPQRSTUVWXYZ-.:''"

definition isIPv6 :: "string \<Rightarrow> bool" where
  "isIPv6 s =
     (let addr = takeWhile (\<lambda>c. c \<noteq> CHR ''%'') s; zone = dropWhile (\<lambda>c. c \<noteq> CHR ''%'') s in
      (zone = [] \<or> tl zone \<noteq> [] \<and> list_all is_zone_char (tl zone)) \<and>
      (case find_double_colon addr of
         None \<Rightarrow> groups_of True addr = Some 8
       | Some (l, r) \<Rightarrow> (case (groups_of False l, groups_of True r) of (Some m, Some n) \<Rightarrow> m + n \<le> 7 | _ \<Rightarrow> False)))"

definition isIP :: "string \<Rightarrow> nat" where
  "isIP s = (if isIPv4 s then 4 else if isIPv6 s then 6 else 0)"

text \<open>\<open>Number(s)\<close> on what the callers pass, parts of a version 4 address; anything else is not a number.\<close>

definition to_number :: "string \<Rightarrow> int option" where
  "to_number s = (if list_all is_digit s then Some (digits_value s) else None)"

definition isPrivateIPv4 :: "string \<Rightarrow> bool" where
  "isPrivateIPv4 ip =
     (let parts = map to_number (split_on (CHR ''.'') ip) in
      if length parts \<noteq> 4 \<or> list_ex (\<lambda>p. p = None) parts then True
      else let a = the (parts ! 0); b = the (parts ! 1) in
        if a = 0 then True else if a = 10 then True else if a = 127 then True else if a = 169 \<and> b = 254 then True
        else if a = 172 \<and> b \<ge> 16 \<and> b \<le> 31 then True else if a = 192 \<and> b = 168 then True
        else if a = 100 \<and> b \<ge> 64 \<and> b \<le> 127 then True else if a \<ge> 224 then True else False)"

definition isPrivateIPv6 :: "string \<Rightarrow> bool" where
  "isPrivateIPv6 ip =
     (let normalized = toLowerCase ip in
      if normalized = ''::1'' \<or> normalized = ''::'' then True
      else if startsWith normalized ''fe80:'' then True
      else if startsWith normalized ''fc'' \<or> startsWith normalized ''fd'' then True
      else if startsWith normalized ''::ffff:'' then
        (let mapped = drop (length ''::ffff:'') normalized in if isIP mapped = 4 then isPrivateIPv4 mapped else False)
      else False)"

definition isPrivateAddress :: "string \<Rightarrow> bool" where
  "isPrivateAddress ip =
     (let version = isIP ip in
      if version = 4 then isPrivateIPv4 ip else if version = 6 then isPrivateIPv6 ip else True)"

definition BLOCKED_HOSTNAMES :: "string list" where
  "BLOCKED_HOSTNAMES = [''localhost'']"

text \<open>What the guard reads of a parsed URL.\<close>

record url =
  url_protocol :: string
  url_hostname :: string

text \<open>\<open>parse\<close> is the URL parser, \<open>resolve\<close> the name resolution; both may fail.\<close>

definition assertPublicWebhookUrl ::
  "(string \<Rightarrow> url option) \<Rightarrow> (string \<Rightarrow> string list option) \<Rightarrow> string \<Rightarrow> string + url" where
  "assertPublicWebhookUrl parse resolve rawUrl =
     (case parse rawUrl of None \<Rightarrow> Inl (''not a valid URL: '' @ rawUrl)
      | Some u \<Rightarrow>
          if url_protocol u \<noteq> ''https:'' \<and> url_protocol u \<noteq> ''http:'' then Inl (''unsupported protocol: '' @ url_protocol u)
          else let hostname = toLowerCase (url_hostname u) in
            if hostname \<in> set BLOCKED_HOSTNAMES \<or> endsWith hostname ''.local'' \<or> endsWith hostname ''.internal''
            then Inl (''refusing to deliver to '' @ hostname)
            else if isIP hostname \<noteq> 0 then
              (if isPrivateAddress hostname then Inl (''refusing to deliver to private address '' @ hostname) else Inr u)
            else (case resolve hostname of None \<Rightarrow> Inl (''could not resolve '' @ hostname)
              | Some records \<Rightarrow>
                  if records = [] then Inl (''could not resolve '' @ hostname)
                  else if list_ex isPrivateAddress records then Inl (hostname @ '' resolves to a private address'')
                  else Inr u))"

definition dotted :: "int \<Rightarrow> int \<Rightarrow> int \<Rightarrow> int \<Rightarrow> string" where
  "dotted a b c d = join_with (CHR ''.'') [show_int a, show_int b, show_int c, show_int d]"

text \<open>The reserved ranges: this network, private use, loopback, link local, carrier-grade NAT, multicast
  and above.\<close>

definition reserved :: "int \<Rightarrow> int \<Rightarrow> bool" where
  "reserved a b \<longleftrightarrow> a \<in> {0, 10, 127} \<or> (a, b) = (169, 254) \<or> a = 172 \<and> 16 \<le> b \<and> b \<le> 31 \<or> (a, b) = (192, 168) \<or>
     a = 100 \<and> 64 \<le> b \<and> b \<le> 127 \<or> 224 \<le> a"

lemma dotted_parts: "0 \<le> a \<Longrightarrow> 0 \<le> b \<Longrightarrow> 0 \<le> c \<Longrightarrow> 0 \<le> d \<Longrightarrow>
    split_on (CHR ''.'') (dotted a b c d) = [show_int a, show_int b, show_int c, show_int d]"
  unfolding dotted_def by (rule split_on_join) (auto simp: show_int_nonneg show_digits_no_char is_digit_def)

lemma private_dotted:
  assumes "0 \<le> a" "0 \<le> b" "0 \<le> c" "0 \<le> d"
  shows "isPrivateIPv4 (dotted a b c d) \<longleftrightarrow> reserved a b"
proof -
  have n: "to_number (show_int x) = Some x" if "0 \<le> x" for x
    using that show_digits_digits by (simp add: to_number_def show_int_nonneg)
  have parts: "map to_number (split_on (CHR ''.'') (dotted a b c d)) = [Some a, Some b, Some c, Some d]"
    using assms by (simp add: dotted_parts n)
  show ?thesis unfolding isPrivateIPv4_def parts by (auto simp: reserved_def)
qed

lemma octet_show: "0 \<le> x \<Longrightarrow> x \<le> 255 \<Longrightarrow> is_octet (show_int x)"
proof -
  have "list_all (\<lambda>x. is_octet (show_int x)) [0..255]" by code_simp
  then show "0 \<le> x \<Longrightarrow> x \<le> 255 \<Longrightarrow> is_octet (show_int x)" by (simp add: list_all_iff)
qed

lemma isIP_dotted:
  assumes "0 \<le> a" "0 \<le> b" "0 \<le> c" "0 \<le> d" "a \<le> 255" "b \<le> 255" "c \<le> 255" "d \<le> 255"
  shows "isIP (dotted a b c d) = 4"
  using assms by (simp add: isIP_def isIPv4_def dotted_parts octet_show)

text \<open>Webhooks only go to public addresses. A URL the guard admits is an http or https one whose
  host is none of the blocked names; the addresses it stands for, itself or all it resolves to, of
  which there is at least one, are address literals the guard takes for public; and none of them is
  a version 4 address in a reserved range.\<close>

lemma webhook_targets_are_public:
  assumes "assertPublicWebhookUrl parse resolve rawUrl = Inr u"
    and "host = toLowerCase (url_hostname u)"
    and "targets = (if isIP host \<noteq> 0 then [host] else the (resolve host))"
  shows "parse rawUrl = Some u \<and> url_protocol u \<in> {''https:'', ''http:''} \<and> host \<noteq> ''localhost'' \<and>
    \<not> endsWith host ''.local'' \<and> \<not> endsWith host ''.internal'' \<and> targets \<noteq> [] \<and>
    list_all (\<lambda>t. isIP t \<noteq> 0 \<and> \<not> isPrivateAddress t) targets \<and>
    (0 \<le> a \<and> 0 \<le> b \<and> 0 \<le> c \<and> 0 \<le> d \<and> a \<le> 255 \<and> b \<le> 255 \<and> c \<le> 255 \<and> d \<le> 255 \<and> dotted a b c d \<in> set targets \<longrightarrow> \<not> reserved a b)"
proof -
  have literal: "isIP t \<noteq> 0" if "\<not> isPrivateAddress t" for t
    using that by (cases "isIP t = 0") (simp_all add: isPrivateAddress_def)
  have p: "parse rawUrl = Some u" "url_protocol u \<in> {''https:'', ''http:''}" "host \<noteq> ''localhost''"
    "\<not> endsWith host ''.local''" "\<not> endsWith host ''.internal''" "targets \<noteq> [] \<and> list_all (\<lambda>t. \<not> isPrivateAddress t) targets"
    using assms by (auto simp: assertPublicWebhookUrl_def Let_def BLOCKED_HOSTNAMES_def list_ex_iff list_all_iff split: option.splits if_splits)
  have "\<not> reserved a b" if "0 \<le> a \<and> 0 \<le> b \<and> 0 \<le> c \<and> 0 \<le> d \<and> a \<le> 255 \<and> b \<le> 255 \<and> c \<le> 255 \<and> d \<le> 255 \<and> dotted a b c d \<in> set targets"
    using that p(6) private_dotted [of a b c d] isIP_dotted [of a b c d] by (auto simp: list_all_iff isPrivateAddress_def)
  with p literal show ?thesis by (auto simp: list_all_iff)
qed

text \<open>What the guard lets through: a loopback address written as a mapped address in hexadecimal, and the
  rest of the link-local range, which is \<open>fe80::/10\<close>.\<close>

lemma guard_misses: "\<not> isPrivateAddress ''::ffff:7f00:1'' \<and> \<not> isPrivateAddress ''fe90::1'' \<and> isPrivateAddress ''::ffff:127.0.0.1''"
  by code_simp

end
