(* ===== verification/Webhooks.thy ===== *)
theory Webhooks
  imports WebhookSecurity Store Complex_Main "HOL-Library.Sublist"
begin

text \<open>
  Webhook delivery (\<open>packages/webhooks/src/dispatcher.ts\<close>, \<open>retry-policy.ts\<close>): one poll recovers deliveries a
  crashed worker left in flight, fans new events out to the endpoints of their merchant, inserts the
  next attempt of failed deliveries that are due, and sends what is pending. The HTTP client, the
  decryption of the endpoint secret, HMAC, the URL parser and name resolution are parameters, and so
  is the random number of the jitter. The clock stands still during one poll. Events are stored in
  the order of their creation.
\<close>

section \<open>Retry policy\<close>

definition DEFAULT_BASE_DELAY_MS :: rat where "DEFAULT_BASE_DELAY_MS = 30000"
definition DEFAULT_MAX_DELAY_MS :: rat where "DEFAULT_MAX_DELAY_MS = 60 * 60 * 1000"
definition DEFAULT_JITTER_RATIO :: rat where "DEFAULT_JITTER_RATIO = 1 / 5"

definition math_round :: "rat \<Rightarrow> int" where
  "math_round x = \<lfloor>x + 1 / 2\<rfloor>"

text \<open>\<open>random\<close> is what \<open>Math.random()\<close> returned. The numbers are taken as exact.\<close>

definition computeRetryDelayMs :: "rat \<Rightarrow> int \<Rightarrow> rat option \<Rightarrow> rat option \<Rightarrow> rat option \<Rightarrow> string + int" where
  "computeRetryDelayMs random failedAttempt baseDelayMs maxDelayMs jitterRatio =
     (if failedAttempt < 1 then Inl (''failedAttempt must be a positive integer, got '' @ show_int failedAttempt)
      else
        let base = (case baseDelayMs of None \<Rightarrow> DEFAULT_BASE_DELAY_MS | Some b \<Rightarrow> b);
            mx = (case maxDelayMs of None \<Rightarrow> DEFAULT_MAX_DELAY_MS | Some m \<Rightarrow> m);
            ratio = (case jitterRatio of None \<Rightarrow> DEFAULT_JITTER_RATIO | Some r \<Rightarrow> r);
            exponential = min mx (base * 2 ^ nat (failedAttempt - 1));
            jitter = exponential * ratio * (random * 2 - 1)
        in Inr (max 0 (math_round (min mx (exponential + jitter)))))"

definition isSuccessStatus :: "int \<Rightarrow> bool" where
  "isSuccessStatus httpStatus \<longleftrightarrow> httpStatus \<ge> 200 \<and> httpStatus < 300"

section \<open>Endpoints and deliveries\<close>

record webhook_endpoint =
  ep_id :: string
  ep_merchantId :: string
  ep_url :: string
  ep_eventTypes :: "string list"
  ep_secretEncrypted :: string
  ep_enabled :: bool
  ep_maxAttempts :: int
  ep_timeoutMs :: int
  ep_consecutiveFailures :: int
  ep_disabledAt :: "int option"
  ep_disabledReason :: "string option"

datatype delivery_status =
    DELIVERY_PENDING | IN_FLIGHT | DELIVERED | DELIVERY_FAILED | EXHAUSTED | ABANDONED

record webhook_delivery =
  wd_id :: string
  wd_webhookEventId :: string
  wd_endpointId :: string
  wd_url :: string
  wd_attempt :: int
  wd_status :: delivery_status
  wd_httpStatus :: "int option"
  wd_responseTimeMs :: "int option"
  wd_responseBody :: "string option"
  wd_errorMessage :: "string option"
  wd_signatureTimestamp :: int
  wd_scheduledAt :: int
  wd_sentAt :: "int option"
  wd_nextRetryAt :: "int option"
  wd_createdAt :: int
  wd_updatedAt :: int

text \<open>The tables the dispatcher works on, and the counter of its run.\<close>

record outbox =
  ob_events :: "webhook_event list"
  ob_endpoints :: "webhook_endpoint list"
  ob_deliveries :: "webhook_delivery list"
  ob_ulids :: nat
  ob_bulkAbandoned :: nat

record http_request =
  hq_url :: string
  hq_signature :: string
  hq_timestamp :: string
  hq_eventId :: string
  hq_deliveryId :: string
  hq_eventType :: string
  hq_body :: string
  hq_timeoutMs :: int

datatype dispatch_error = RowMissing string string | DecryptionFailed | RetryDelayRange string

text \<open>What the dispatcher is built from. \<open>di_fetch\<close> answers with the status and body of a response, or the
  message of an error, and the time it took; \<open>di_errorMessage\<close> is the text of an error of the database client.\<close>

record dispatcher =
  di_gen :: "nat \<Rightarrow> string"
  di_decrypt :: "string \<Rightarrow> string option"
  di_hmac :: "string \<Rightarrow> string \<Rightarrow> string"
  di_fetch :: "http_request \<Rightarrow> (string + int \<times> string) \<times> int"
  di_parse :: "string \<Rightarrow> url option"
  di_resolve :: "string \<Rightarrow> string list option"
  di_random :: "string \<Rightarrow> rat"
  di_errorMessage :: "dispatch_error \<Rightarrow> string"
  di_disableAfter :: int
  di_staleInFlightMs :: int
  di_batchSize :: nat
  di_blockPrivateNetworks :: bool

type_synonym 'a dispatch = "(outbox, dispatch_error, 'a) proc"

datatype delivery_outcome = Delivered | Failed | Exhausted | Abandoned

record failure_info =
  fi_httpStatus :: "int option"
  fi_errorMessage :: string
  fi_responseTimeMs :: "int option"
  fi_responseBody :: "string option"

definition find_delivery :: "string \<Rightarrow> outbox \<Rightarrow> webhook_delivery option" where
  "find_delivery i s = find (\<lambda>d. wd_id d = i) (ob_deliveries s)"

definition find_endpoint :: "string \<Rightarrow> outbox \<Rightarrow> webhook_endpoint option" where
  "find_endpoint i s = find (\<lambda>e. ep_id e = i) (ob_endpoints s)"

text \<open>\<open>update\<close> by id; \<open>updatedAt\<close> is maintained by Prisma.\<close>

definition update_delivery :: "int \<Rightarrow> string \<Rightarrow> (webhook_delivery \<Rightarrow> webhook_delivery) \<Rightarrow> unit dispatch" where
  "update_delivery now i f =
     pbind (preads (find_delivery i)) (\<lambda>found. case found of None \<Rightarrow> pthrow (RowMissing ''WebhookDelivery'' i)
     | Some _ \<Rightarrow> pmodify (\<lambda>s. s\<lparr>ob_deliveries := update_rows (\<lambda>d. wd_id d = i) (\<lambda>d. (f d)\<lparr>wd_updatedAt := now\<rparr>) (ob_deliveries s)\<rparr>))"

definition update_endpoint :: "string \<Rightarrow> (webhook_endpoint \<Rightarrow> webhook_endpoint) \<Rightarrow> webhook_endpoint dispatch" where
  "update_endpoint i f =
     pbind (preads (find_endpoint i)) (\<lambda>found. case found of None \<Rightarrow> pthrow (RowMissing ''WebhookEndpoint'' i)
     | Some e \<Rightarrow> pbind (pmodify (\<lambda>s. s\<lparr>ob_endpoints := update_rows (\<lambda>e. ep_id e = i) f (ob_endpoints s)\<rparr>)) (\<lambda>_. pret (f e)))"

definition new_delivery :: "int \<Rightarrow> string \<Rightarrow> string \<Rightarrow> webhook_endpoint \<Rightarrow> int \<Rightarrow> webhook_delivery" where
  "new_delivery now i eventId endpoint attempt =
     \<lparr>wd_id = i, wd_webhookEventId = eventId, wd_endpointId = ep_id endpoint, wd_url = ep_url endpoint, wd_attempt = attempt,
      wd_status = DELIVERY_PENDING, wd_httpStatus = None, wd_responseTimeMs = None, wd_responseBody = None, wd_errorMessage = None,
      wd_signatureTimestamp = now, wd_scheduledAt = now, wd_sentAt = None, wd_nextRetryAt = None, wd_createdAt = now, wd_updatedAt = now\<rparr>"

text \<open>\<open>upsert\<close> on the unique triple of event, endpoint and attempt, with nothing to update. The
  identifier is drawn in either case.\<close>

definition upsert_delivery :: "dispatcher \<Rightarrow> int \<Rightarrow> string \<Rightarrow> webhook_endpoint \<Rightarrow> int \<Rightarrow> unit dispatch" where
  "upsert_delivery di now eventId endpoint attempt =
     pmodify (\<lambda>s. let i = newId (di_gen di (ob_ulids s)) WebhookDeliveryId; s' = s\<lparr>ob_ulids := Suc (ob_ulids s)\<rparr> in
       if list_ex (\<lambda>d. wd_webhookEventId d = eventId \<and> wd_endpointId d = ep_id endpoint \<and> wd_attempt d = attempt) (ob_deliveries s) then s'
       else s'\<lparr>ob_deliveries := ob_deliveries s @ [new_delivery now i eventId endpoint attempt]\<rparr>)"

section \<open>Fan-out and retries\<close>

definition unfanned_events :: "nat \<Rightarrow> outbox \<Rightarrow> webhook_event list" where
  "unfanned_events batchSize s = take batchSize
     (filter (\<lambda>e. \<not> list_ex (\<lambda>d. wd_webhookEventId d = we_id e) (ob_deliveries s) \<and>
        list_ex (\<lambda>p. ep_merchantId p = we_merchantId e \<and> ep_enabled p) (ob_endpoints s)) (ob_events s))"

definition fan_out :: "dispatcher \<Rightarrow> int \<Rightarrow> webhook_event \<Rightarrow> webhook_endpoint \<Rightarrow> nat \<Rightarrow> nat dispatch" where
  "fan_out di now event endpoint created =
     (if ep_eventTypes endpoint \<noteq> [] \<and> we_type event \<notin> set (ep_eventTypes endpoint) then pret created
      else pbind (upsert_delivery di now (we_id event) endpoint 1) (\<lambda>_. pret (created + 1)))"

definition enqueueNewDeliveries :: "dispatcher \<Rightarrow> int \<Rightarrow> nat dispatch" where
  "enqueueNewDeliveries di now =
     pbind (preads (unfanned_events (di_batchSize di))) (\<lambda>unfannedEvents.
     pfold (\<lambda>event created.
       pbind (preads (\<lambda>s. filter (\<lambda>p. ep_merchantId p = we_merchantId event \<and> ep_enabled p) (ob_endpoints s))) (\<lambda>endpoints.
       pfold (fan_out di now event) endpoints created)) unfannedEvents 0)"

definition due_retries :: "nat \<Rightarrow> int \<Rightarrow> outbox \<Rightarrow> webhook_delivery list" where
  "due_retries batchSize now s = take batchSize (sort_key (\<lambda>d. the (wd_nextRetryAt d))
     (filter (\<lambda>d. wd_status d = DELIVERY_FAILED \<and> (case wd_nextRetryAt d of None \<Rightarrow> False | Some t \<Rightarrow> t \<le> now)) (ob_deliveries s)))"

definition promote :: "dispatcher \<Rightarrow> int \<Rightarrow> webhook_delivery \<Rightarrow> nat \<Rightarrow> nat dispatch" where
  "promote di now previous promoted =
     pbind (preads (find_endpoint (wd_endpointId previous))) (\<lambda>found.
     case found of
       Some endpoint \<Rightarrow>
         if ep_enabled endpoint then
           pbind (upsert_delivery di now (wd_webhookEventId previous) endpoint (wd_attempt previous + 1)) (\<lambda>_. pret (promoted + 1))
         else pbind (update_delivery now (wd_id previous) (\<lambda>d. d\<lparr>wd_status := ABANDONED, wd_nextRetryAt := None\<rparr>)) (\<lambda>_. pret promoted)
     | None \<Rightarrow> pbind (update_delivery now (wd_id previous) (\<lambda>d. d\<lparr>wd_status := ABANDONED, wd_nextRetryAt := None\<rparr>)) (\<lambda>_. pret promoted))"

definition promoteDueRetries :: "dispatcher \<Rightarrow> int \<Rightarrow> nat dispatch" where
  "promoteDueRetries di now = pbind (preads (due_retries (di_batchSize di) now)) (\<lambda>due. pfold (promote di now) due 0)"

section \<open>Sending\<close>

definition finalizeSuccess :: "int \<Rightarrow> string \<Rightarrow> string \<Rightarrow> int \<Rightarrow> int \<Rightarrow> string \<Rightarrow> unit dispatch" where
  "finalizeSuccess now deliveryId endpointId httpStatus responseTimeMs responseBody =
     pbind (update_delivery now deliveryId (\<lambda>d. d\<lparr>wd_status := DELIVERED, wd_httpStatus := Some httpStatus,
       wd_responseTimeMs := Some responseTimeMs, wd_responseBody := Some responseBody, wd_sentAt := Some now, wd_nextRetryAt := None\<rparr>)) (\<lambda>_.
     pbind (update_endpoint endpointId (\<lambda>e. e\<lparr>ep_consecutiveFailures := 0\<rparr>)) (\<lambda>_. pret ()))"

definition disable_endpoint :: "int \<Rightarrow> webhook_endpoint \<Rightarrow> unit dispatch" where
  "disable_endpoint now endpoint =
     pbind (update_endpoint (ep_id endpoint) (\<lambda>e. e\<lparr>ep_enabled := False, ep_disabledAt := Some now,
       ep_disabledReason := Some (show_int (ep_consecutiveFailures endpoint) @ '' consecutive delivery failures'')\<rparr>)) (\<lambda>_.
     pmodify (\<lambda>s. let p = (\<lambda>d. wd_endpointId d = ep_id endpoint \<and> wd_status d = DELIVERY_PENDING) in
       s\<lparr>ob_deliveries := update_rows p (\<lambda>d. d\<lparr>wd_status := ABANDONED, wd_updatedAt := now\<rparr>) (ob_deliveries s),
         ob_bulkAbandoned := ob_bulkAbandoned s + length (filter p (ob_deliveries s))\<rparr>))"

definition finalizeFailure :: "dispatcher \<Rightarrow> int \<Rightarrow> string \<Rightarrow> int \<Rightarrow> string \<Rightarrow> failure_info \<Rightarrow> delivery_outcome dispatch" where
  "finalizeFailure di now deliveryId attempt endpointId info =
     pbind (update_endpoint endpointId (\<lambda>e. e\<lparr>ep_consecutiveFailures := ep_consecutiveFailures e + 1\<rparr>)) (\<lambda>endpoint.
     let attemptsExhausted = attempt \<ge> ep_maxAttempts endpoint;
         shouldDisable = (\<not> attemptsExhausted \<and> ep_consecutiveFailures endpoint \<ge> di_disableAfter di) in
     pbind (if shouldDisable then disable_endpoint now endpoint else pret ()) (\<lambda>_.
     let status = (if attemptsExhausted then EXHAUSTED else if shouldDisable then ABANDONED else DELIVERY_FAILED);
         willRetry = (status = DELIVERY_FAILED) in
     pbind (if willRetry then
         pbind (pfrom_result (map_error RetryDelayRange (computeRetryDelayMs (di_random di deliveryId) attempt None None None))) (\<lambda>delay.
         pret (Some (now + delay)))
       else pret None) (\<lambda>nextRetryAt.
     pbind (update_delivery now deliveryId (\<lambda>d. d\<lparr>wd_status := status, wd_httpStatus := fi_httpStatus info,
       wd_errorMessage := Some (fi_errorMessage info), wd_responseTimeMs := fi_responseTimeMs info,
       wd_responseBody := fi_responseBody info, wd_sentAt := Some now, wd_nextRetryAt := nextRetryAt\<rparr>)) (\<lambda>_.
     pret (if willRetry then Failed else if status = EXHAUSTED then Exhausted else Abandoned)))))"

definition recoverStaleInFlight :: "dispatcher \<Rightarrow> int \<Rightarrow> nat dispatch" where
  "recoverStaleInFlight di now =
     pbind (preads (\<lambda>s. take (di_batchSize di) (filter (\<lambda>d. wd_status d = IN_FLIGHT \<and> wd_updatedAt d < now - di_staleInFlightMs di) (ob_deliveries s)))) (\<lambda>stale.
     pbind (pfor_each (\<lambda>d. pbind (finalizeFailure di now (wd_id d) (wd_attempt d) (wd_endpointId d)
         \<lparr>fi_httpStatus = None, fi_errorMessage = ''recovered: worker crashed mid-delivery'', fi_responseTimeMs = None, fi_responseBody = None\<rparr>) (\<lambda>_. pret ())) stale) (\<lambda>_.
     pret (length stale)))"

definition MAX_RESPONSE_BODY_CHARS :: nat where "MAX_RESPONSE_BODY_CHARS = 2000"

text \<open>Sending a delivery that was claimed.\<close>

definition send_delivery :: "dispatcher \<Rightarrow> int \<Rightarrow> webhook_delivery \<Rightarrow> webhook_endpoint \<Rightarrow> webhook_event \<Rightarrow> delivery_outcome dispatch" where
  "send_delivery di now delivery endpoint event =
     (case di_decrypt di (ep_secretEncrypted endpoint) of None \<Rightarrow> pthrow DecryptionFailed
      | Some secret \<Rightarrow>
          let rawBody = json_stringify (we_payload event); timestampSeconds = now div 1000;
              signed = signWebhook (di_hmac di) secret rawBody timestampSeconds in
          pbind (update_delivery now (wd_id delivery) (\<lambda>d. d\<lparr>wd_signatureTimestamp := timestampSeconds * 1000\<rparr>)) (\<lambda>_.
          let (response, responseTimeMs) = di_fetch di \<lparr>hq_url = ep_url endpoint, hq_signature = sgw_signature signed,
                hq_timestamp = show_int (sgw_timestamp signed), hq_eventId = we_id event, hq_deliveryId = wd_id delivery,
                hq_eventType = we_type event, hq_body = rawBody, hq_timeoutMs = ep_timeoutMs endpoint\<rparr> in
          case response of
            Inr (status, body) \<Rightarrow>
              let responseBody = take MAX_RESPONSE_BODY_CHARS body in
              if isSuccessStatus status then
                pcatch (pbind (finalizeSuccess now (wd_id delivery) (ep_id endpoint) status responseTimeMs responseBody) (\<lambda>_. pret Delivered))
                  (\<lambda>error. finalizeFailure di now (wd_id delivery) (wd_attempt delivery) (ep_id endpoint)
                    \<lparr>fi_httpStatus = None, fi_errorMessage = di_errorMessage di error, fi_responseTimeMs = Some responseTimeMs, fi_responseBody = None\<rparr>)
              else finalizeFailure di now (wd_id delivery) (wd_attempt delivery) (ep_id endpoint)
                \<lparr>fi_httpStatus = Some status, fi_errorMessage = ''endpoint responded '' @ show_int status,
                 fi_responseTimeMs = Some responseTimeMs, fi_responseBody = Some responseBody\<rparr>
          | Inl message \<Rightarrow> finalizeFailure di now (wd_id delivery) (wd_attempt delivery) (ep_id endpoint)
                \<lparr>fi_httpStatus = None, fi_errorMessage = message, fi_responseTimeMs = Some responseTimeMs, fi_responseBody = None\<rparr>))"

definition attemptDelivery :: "dispatcher \<Rightarrow> int \<Rightarrow> string \<Rightarrow> delivery_outcome option dispatch" where
  "attemptDelivery di now deliveryId =
     pbind (preads (find_delivery deliveryId)) (\<lambda>found.
     case found of None \<Rightarrow> pret None
     | Some delivery \<Rightarrow>
         if wd_status delivery \<noteq> DELIVERY_PENDING then pret None
         else pbind (preads (find_endpoint (wd_endpointId delivery))) (\<lambda>ep.
           case ep of
             None \<Rightarrow> pbind (update_delivery now deliveryId (\<lambda>d. d\<lparr>wd_status := ABANDONED\<rparr>)) (\<lambda>_. pret (Some Abandoned))
           | Some endpoint \<Rightarrow>
             if \<not> ep_enabled endpoint then pbind (update_delivery now deliveryId (\<lambda>d. d\<lparr>wd_status := ABANDONED\<rparr>)) (\<lambda>_. pret (Some Abandoned))
             else pbind (preads (\<lambda>s. find (\<lambda>e. we_id e = wd_webhookEventId delivery) (ob_events s))) (\<lambda>ev.
               case ev of
                 None \<Rightarrow> pbind (update_delivery now deliveryId (\<lambda>d. d\<lparr>wd_status := ABANDONED,
                     wd_errorMessage := Some ''webhook event no longer exists''\<rparr>)) (\<lambda>_. pret (Some Abandoned))
               | Some event \<Rightarrow>
                   pbind (update_delivery now deliveryId (\<lambda>d. d\<lparr>wd_status := IN_FLIGHT\<rparr>)) (\<lambda>_.
                   let guard = (if di_blockPrivateNetworks di
                     then (case assertPublicWebhookUrl (di_parse di) (di_resolve di) (ep_url endpoint) of Inl m \<Rightarrow> Some m | Inr _ \<Rightarrow> None)
                     else None) in
                   pbind (case guard of
                       Some message \<Rightarrow> finalizeFailure di now deliveryId (wd_attempt delivery) (ep_id endpoint)
                         \<lparr>fi_httpStatus = None, fi_errorMessage = message, fi_responseTimeMs = None, fi_responseBody = None\<rparr>
                     | None \<Rightarrow> send_delivery di now delivery endpoint event) (\<lambda>outcome. pret (Some outcome))))))"

section \<open>One poll\<close>

record dispatch_summary =
  dm_enqueued :: nat
  dm_retriesPromoted :: nat
  dm_recoveredStale :: nat
  dm_delivered :: nat
  dm_failed :: nat
  dm_exhausted :: nat
  dm_abandoned :: nat

fun count_outcome :: "delivery_outcome option \<Rightarrow> nat \<times> nat \<times> nat \<times> nat \<Rightarrow> nat \<times> nat \<times> nat \<times> nat" where
  "count_outcome None n = n"
| "count_outcome (Some Delivered) (d, f, e, a) = (d + 1, f, e, a)"
| "count_outcome (Some Failed) (d, f, e, a) = (d, f + 1, e, a)"
| "count_outcome (Some Exhausted) (d, f, e, a) = (d, f, e + 1, a)"
| "count_outcome (Some Abandoned) (d, f, e, a) = (d, f, e, a + 1)"

definition due_deliveries :: "nat \<Rightarrow> int \<Rightarrow> outbox \<Rightarrow> webhook_delivery list" where
  "due_deliveries batchSize now s = take batchSize (sort_key wd_createdAt
     (filter (\<lambda>d. wd_status d = DELIVERY_PENDING \<and> wd_scheduledAt d \<le> now) (ob_deliveries s)))"

definition runOnce :: "dispatcher \<Rightarrow> int \<Rightarrow> dispatch_summary dispatch" where
  "runOnce di now =
     pbind (pmodify (\<lambda>s. s\<lparr>ob_bulkAbandoned := 0\<rparr>)) (\<lambda>_.
     pbind (recoverStaleInFlight di now) (\<lambda>recoveredStale.
     pbind (enqueueNewDeliveries di now) (\<lambda>enqueued.
     pbind (promoteDueRetries di now) (\<lambda>retriesPromoted.
     pbind (preads (due_deliveries (di_batchSize di) now)) (\<lambda>due.
     pbind (pfold (\<lambda>delivery outcome. pbind (attemptDelivery di now (wd_id delivery)) (\<lambda>r. pret (count_outcome r outcome))) due (0, 0, 0, 0)) (\<lambda>(d, f, e, a).
     pbind (preads ob_bulkAbandoned) (\<lambda>bulk.
     pret \<lparr>dm_enqueued = enqueued, dm_retriesPromoted = retriesPromoted, dm_recoveredStale = recoveredStale,
           dm_delivered = d, dm_failed = f, dm_exhausted = e, dm_abandoned = a + bulk\<rparr>)))))))"

section \<open>Backoff\<close>

text \<open>How long a retry waits. With the defaults, after any failed attempt and for any random number,
  the delay exists, is at least 24 seconds and at most an hour, and differs from the doubling value,
  itself capped at an hour, by at most a fifth of it and the rounding; an attempt number that is not
  positive is refused.\<close>

lemma retry_delay_bounded:
  assumes "0 \<le> r" "r \<le> 1" and E: "E = min 3600000 (30000 * 2 ^ nat (n - 1))"
  shows "if n < 1 then \<not> is_ok (computeRetryDelayMs r n None None None)
    else \<exists>d. computeRetryDelayMs r n None None None = Inr d \<and> 24000 \<le> d \<and> d \<le> 3600000 \<and> \<bar>of_int d - E\<bar> \<le> E / 5 + (1 / 2 :: rat)"
proof (cases "n < 1")
  case True then show ?thesis by (simp add: computeRetryDelayMs_def)
next
  case False
  have one: "(1 :: rat) \<le> 2 ^ nat (n - 1)" by simp
  have E1: "30000 \<le> E" "E \<le> 3600000" using one by (auto simp: E)
  define j where "j = E * (1 / 5) * (r * 2 - 1)"
  have "\<bar>r * 2 - 1\<bar> \<le> 1" using assms(1,2) by auto
  then have "\<bar>j\<bar> \<le> E / 5" using E1 by (simp add: j_def abs_mult mult_left_le)
  define x where "x = min 3600000 (E + j)"
  have x: "24000 \<le> x" "x \<le> 3600000" "\<bar>x - E\<bar> \<le> E / 5" using \<open>\<bar>j\<bar> \<le> E / 5\<close> E1 by (auto simp: x_def min_def abs_le_iff)
  define d where "d = math_round x"
  have d: "of_int d \<le> x + 1 / 2" "x - 1 / 2 < of_int d" unfolding d_def math_round_def by linarith+
  have "24000 \<le> d" "d \<le> 3600000" using d x by linarith+
  moreover have "\<bar>of_int d - E\<bar> \<le> E / 5 + 1 / 2" using d x(3) by linarith
  moreover have "computeRetryDelayMs r n None None None = Inr (max 0 d)"
    using False by (simp add: computeRetryDelayMs_def Let_def DEFAULT_BASE_DELAY_MS_def DEFAULT_MAX_DELAY_MS_def DEFAULT_JITTER_RATIO_def d_def x_def j_def E)
  ultimately show ?thesis using False by simp
qed

section \<open>The life of a delivery\<close>

text \<open>The moves of a delivery that the dispatcher may make, in one or several writes. Nothing leaves
  \<^const>\<open>DELIVERED\<close>, \<^const>\<open>EXHAUSTED\<close> and \<^const>\<open>ABANDONED\<close>.\<close>

fun moves :: "delivery_status \<Rightarrow> delivery_status list" where
  "moves DELIVERY_PENDING = [DELIVERY_PENDING, IN_FLIGHT, DELIVERED, DELIVERY_FAILED, EXHAUSTED, ABANDONED]"
| "moves IN_FLIGHT = [IN_FLIGHT, DELIVERED, DELIVERY_FAILED, EXHAUSTED, ABANDONED]"
| "moves DELIVERY_FAILED = [ABANDONED]"
| "moves _ = []"

definition same_delivery :: "webhook_delivery \<Rightarrow> webhook_delivery \<Rightarrow> bool" where
  "same_delivery d d' \<longleftrightarrow> wd_id d' = wd_id d \<and> wd_webhookEventId d' = wd_webhookEventId d \<and> wd_endpointId d' = wd_endpointId d \<and>
     wd_attempt d' = wd_attempt d"

definition row_step :: "webhook_delivery \<Rightarrow> webhook_delivery \<Rightarrow> bool" where
  "row_step d d' \<longleftrightarrow> d' = d \<or> same_delivery d d' \<and> wd_status d' \<in> set (moves (wd_status d))"

lemma row_step_refl [simp]: "row_step d d"
  by (simp add: row_step_def)

lemma row_step_trans: "row_step a b \<Longrightarrow> row_step b c \<Longrightarrow> row_step a c"
  by (cases "wd_status a"; cases "wd_status b") (auto simp: row_step_def same_delivery_def)

lemma row_step_same: "row_step d d' \<Longrightarrow> same_delivery d d'"
  by (auto simp: row_step_def same_delivery_def)

text \<open>The tables in order: identifiers are unique and were drawn from the generator, there is one row per
  event, endpoint and attempt, attempts are numbered from 1 and never exceed what the endpoint
  allows, one is marked as failed only when another is allowed, and an attempt other than the first
  follows one that failed.\<close>

definition attempt_ok :: "outbox \<Rightarrow> webhook_delivery \<Rightarrow> bool" where
  "attempt_ok s d \<longleftrightarrow> 1 \<le> wd_attempt d \<and> (case find_endpoint (wd_endpointId d) s of None \<Rightarrow> True
     | Some e \<Rightarrow> (wd_attempt d = 1 \<or> wd_attempt d \<le> ep_maxAttempts e) \<and> (wd_status d = DELIVERY_FAILED \<longrightarrow> wd_attempt d < ep_maxAttempts e))"

definition triple :: "webhook_delivery \<Rightarrow> string \<times> string \<times> int" where
  "triple d = (wd_webhookEventId d, wd_endpointId d, wd_attempt d)"

definition follows_failure :: "webhook_delivery list \<Rightarrow> string \<Rightarrow> string \<Rightarrow> int \<Rightarrow> bool" where
  "follows_failure ds ev e attempt \<longleftrightarrow> attempt = 1 \<or> list_ex (\<lambda>d. triple d = (ev, e, attempt - 1) \<and> wd_status d \<in> {DELIVERY_FAILED, ABANDONED}) ds"

definition chain_ok :: "webhook_delivery list \<Rightarrow> webhook_delivery \<Rightarrow> bool" where
  "chain_ok ds d \<longleftrightarrow> follows_failure ds (wd_webhookEventId d) (wd_endpointId d) (wd_attempt d)"

definition outbox_ok :: "(nat \<Rightarrow> string) \<Rightarrow> outbox \<Rightarrow> bool" where
  "outbox_ok gen s \<longleftrightarrow> distinct (map wd_id (ob_deliveries s)) \<and> distinct (map triple (ob_deliveries s)) \<and>
     list_all (\<lambda>d. \<exists>n < ob_ulids s. wd_id d = newId (gen n) WebhookDeliveryId) (ob_deliveries s) \<and> list_all (attempt_ok s) (ob_deliveries s) \<and>
     list_all (chain_ok (ob_deliveries s)) (ob_deliveries s)"

text \<open>Endpoints change in their counters and by being disabled only.\<close>

definition same_endpoint :: "webhook_endpoint \<Rightarrow> webhook_endpoint \<Rightarrow> bool" where
  "same_endpoint e e' \<longleftrightarrow> ep_id e' = ep_id e \<and> ep_merchantId e' = ep_merchantId e \<and> ep_url e' = ep_url e \<and>
     ep_maxAttempts e' = ep_maxAttempts e \<and> (ep_enabled e' \<longrightarrow> ep_enabled e)"

definition outbox_step :: "(nat \<Rightarrow> string) \<Rightarrow> outbox \<Rightarrow> outbox \<Rightarrow> bool" where
  "outbox_step gen s t \<longleftrightarrow> (outbox_ok gen s \<longrightarrow> outbox_ok gen t \<and>
     (\<exists>olds news. ob_deliveries t = olds @ news \<and> list_all2 row_step (ob_deliveries s) olds) \<and>
     list_all2 same_endpoint (ob_endpoints s) (ob_endpoints t) \<and> prefix (ob_events s) (ob_events t))"

lemma same_endpoint_refl [simp]: "same_endpoint e e"
  by (simp add: same_endpoint_def)

lemma outbox_step_refl: "outbox_step gen s s"
  unfolding outbox_step_def by (intro impI conjI exI [of _ "ob_deliveries s"] exI [of _ "[]"]) (auto simp: list.rel_refl)

lemma outbox_step_trans:
  assumes "outbox_step gen s t" "outbox_step gen t u"
  shows "outbox_step gen s u"
  unfolding outbox_step_def
proof (intro impI conjI)
  assume ok: "outbox_ok gen s"
  from assms(1) ok obtain os ns where t: "outbox_ok gen t" "ob_deliveries t = os @ ns" "list_all2 row_step (ob_deliveries s) os"
    "list_all2 same_endpoint (ob_endpoints s) (ob_endpoints t)" "prefix (ob_events s) (ob_events t)" by (auto simp: outbox_step_def)
  from assms(2) t(1) obtain os' ns' where u: "outbox_ok gen u" "ob_deliveries u = os' @ ns'" "list_all2 row_step (ob_deliveries t) os'"
    "list_all2 same_endpoint (ob_endpoints t) (ob_endpoints u)" "prefix (ob_events t) (ob_events u)" by (auto simp: outbox_step_def)
  show "outbox_ok gen u" by (rule u(1))
  show "prefix (ob_events s) (ob_events u)" using t(5) u(5) by (rule prefix_order.trans)
  from u(3) t(2) obtain a b where ab: "os' = a @ b" "list_all2 row_step os a" by (auto simp: list_all2_append1)
  have "list_all2 row_step (ob_deliveries s) a" using list_all2_trans [of row_step row_step row_step, OF row_step_trans t(3) ab(2)] by simp
  then show "\<exists>olds news. ob_deliveries u = olds @ news \<and> list_all2 row_step (ob_deliveries s) olds" using u(2) ab(1) by auto
  show "list_all2 same_endpoint (ob_endpoints s) (ob_endpoints u)"
    by (rule list_all2_trans [OF _ t(4) u(4)]) (auto simp: same_endpoint_def)
qed

interpretation outbox: step_relation "outbox_step gen" for gen
  by unfold_locales (rule outbox_step_refl, erule outbox_step_trans, assumption)

text \<open>A write that maps rows in place.\<close>

lemma outbox_rows:
  assumes "ob_deliveries t = map g (ob_deliveries s)" "ob_endpoints t = ob_endpoints s" "ob_events t = ob_events s" "ob_ulids t = ob_ulids s"
    and "\<And>d. outbox_ok gen s \<Longrightarrow> d \<in> set (ob_deliveries s) \<Longrightarrow> row_step d (g d) \<and>
      (wd_status (g d) = DELIVERY_FAILED \<longrightarrow> wd_status d = DELIVERY_FAILED \<or>
        (case find_endpoint (wd_endpointId d) s of None \<Rightarrow> True | Some e \<Rightarrow> wd_attempt d < ep_maxAttempts e))"
  shows "outbox_step gen s t"
  unfolding outbox_step_def
proof (intro impI conjI)
  assume ok: "outbox_ok gen s"
  have step: "row_step d (g d)" "same_delivery d (g d)" if "d \<in> set (ob_deliveries s)" for d
    using assms(5) [OF ok that] row_step_same by blast+
  then have ids: "map wd_id (ob_deliveries t) = map wd_id (ob_deliveries s)" "map triple (ob_deliveries t) = map triple (ob_deliveries s)"
    unfolding assms(1) by (auto simp: same_delivery_def triple_def)
  have "attempt_ok t (g d)" if d: "d \<in> set (ob_deliveries s)" for d
  proof -
    have "attempt_ok s d" using ok d by (auto simp: outbox_ok_def list_all_iff)
    with step(2) [OF d] assms(5) [OF ok d] show ?thesis
      by (auto simp: attempt_ok_def same_delivery_def find_endpoint_def assms(2) split: option.splits)
  qed
  then have "list_all (attempt_ok t) (ob_deliveries t)" by (auto simp: assms(1) list_all_iff)
  moreover have "list_all (\<lambda>d. \<exists>n < ob_ulids t. wd_id d = newId (gen n) WebhookDeliveryId) (ob_deliveries t)"
    using ok step(2) by (auto simp: assms(1,4) list_all_iff outbox_ok_def same_delivery_def)
  moreover have "distinct (map wd_id (ob_deliveries t))" "distinct (map triple (ob_deliveries t))"
    unfolding ids using ok by (simp_all add: outbox_ok_def)
  moreover have "list_all (chain_ok (ob_deliveries t)) (ob_deliveries t)"
  proof -
    have "chain_ok (ob_deliveries t) (g d)" if d: "d \<in> set (ob_deliveries s)" for d
    proof -
      have "triple (g d') = triple d' \<and> wd_status (g d') \<in> {DELIVERY_FAILED, ABANDONED}"
        if "d' \<in> set (ob_deliveries s)" "wd_status d' \<in> {DELIVERY_FAILED, ABANDONED}" for d'
        using step [OF that(1)] that(2) by (auto simp: row_step_def same_delivery_def triple_def)
      moreover have "chain_ok (ob_deliveries s) d" using ok d by (auto simp: outbox_ok_def list_all_iff)
      ultimately show ?thesis using step(2) [OF d] unfolding assms(1)
        by (fastforce simp: chain_ok_def follows_failure_def same_delivery_def list_ex_iff)
    qed
    then show ?thesis by (simp add: assms(1) list_all_iff)
  qed
  ultimately show "outbox_ok gen t" by (simp add: outbox_ok_def)
  show "\<exists>olds news. ob_deliveries t = olds @ news \<and> list_all2 row_step (ob_deliveries s) olds"
    by (intro exI [of _ "ob_deliveries t"] exI [of _ "[]"]) (auto simp: assms(1) list.rel_map list.rel_refl_strong step(1))
  show "list_all2 same_endpoint (ob_endpoints s) (ob_endpoints t)" using assms(2) by (simp add: list.rel_refl)
  show "prefix (ob_events s) (ob_events t)" by (simp add: assms(3))
qed

text \<open>Counters of an endpoint and disabling it.\<close>

lemma find_map_key: "(\<And>x. key (g x) = key x) \<Longrightarrow> find (\<lambda>x. key x = i) (map g xs) = map_option g (find (\<lambda>x. key x = i) xs)"
  by (induction xs) auto

lemma outbox_endpoints:
  assumes "ob_deliveries t = ob_deliveries s" "ob_endpoints t = map g (ob_endpoints s)" "ob_events t = ob_events s" "ob_ulids t = ob_ulids s"
    and "\<And>e. same_endpoint e (g e)"
  shows "outbox_step gen s t"
  unfolding outbox_step_def
proof (intro impI conjI)
  have "find_endpoint i t = map_option g (find_endpoint i s)" for i
    unfolding find_endpoint_def assms(2) using assms(5) by (intro find_map_key) (simp add: same_endpoint_def)
  then have "attempt_ok t = attempt_ok s"
    using assms(5) by (auto simp: fun_eq_iff attempt_ok_def same_endpoint_def split: option.splits)
  moreover assume "outbox_ok gen s"
  ultimately show "outbox_ok gen t" using assms(1,4) by (simp add: outbox_ok_def)
  show "\<exists>olds news. ob_deliveries t = olds @ news \<and> list_all2 row_step (ob_deliveries s) olds"
    by (intro exI [of _ "ob_deliveries s"] exI [of _ "[]"]) (simp add: assms(1) list.rel_refl)
  show "list_all2 same_endpoint (ob_endpoints s) (ob_endpoints t)" by (simp add: assms(2,5) list.rel_map list.rel_refl_strong)
  show "prefix (ob_events s) (ob_events t)" by (simp add: assms(3))
qed

lemma update_endpoint_step: "(\<And>e. same_endpoint e (f e)) \<Longrightarrow> psteps (outbox_step gen) (update_endpoint i f)"
  unfolding update_endpoint_def
  by (intro outbox.psteps_rules outbox.psteps_modify outbox_endpoints [where g = "\<lambda>e. if ep_id e = i then f e else e"])
    (auto simp: update_rows_def)

text \<open>A new row for an attempt that is allowed.\<close>

lemma upsert_step:
  assumes inj: "inj (di_gen di)" and allowed: "1 \<le> attempt" "attempt = 1 \<or> (case find_endpoint (ep_id e) s of None \<Rightarrow> True | Some e' \<Rightarrow> attempt \<le> ep_maxAttempts e')"
    and follows: "follows_failure (ob_deliveries s) ev (ep_id e) attempt"
  shows "outbox_step (di_gen di) s (snd (upsert_delivery di now ev e attempt s))"
  unfolding outbox_step_def
proof (intro impI)
  assume ok: "outbox_ok (di_gen di) s"
  let ?t = "snd (upsert_delivery di now ev e attempt s)" and ?i = "newId (di_gen di (ob_ulids s)) WebhookDeliveryId"
  let ?d = "new_delivery now ?i ev e attempt"
  have same: "ob_endpoints ?t = ob_endpoints s" "ob_events ?t = ob_events s" "ob_ulids ?t = Suc (ob_ulids s)"
    by (simp_all add: upsert_delivery_def Let_def)
  have att: "attempt_ok ?t = attempt_ok s" by (simp add: attempt_ok_def find_endpoint_def same(1) fun_eq_iff)
  have eps: "list_all2 same_endpoint (ob_endpoints s) (ob_endpoints ?t)" by (simp add: same(1) list.rel_refl)
  have old: "list_all (\<lambda>d. \<exists>n < Suc (ob_ulids s). wd_id d = newId (di_gen di n) WebhookDeliveryId) (ob_deliveries s)"
    using ok by (auto simp: outbox_ok_def list_all_iff less_Suc_eq)
  have fresh: "?i \<notin> set (map wd_id (ob_deliveries s))"
  proof
    assume "?i \<in> set (map wd_id (ob_deliveries s))"
    then obtain n where "n < ob_ulids s" "newId (di_gen di n) WebhookDeliveryId = ?i" using ok by (auto simp: outbox_ok_def list_all_iff)
    then have "di_gen di n = di_gen di (ob_ulids s)" by (simp add: newId_def)
    with inj \<open>n < ob_ulids s\<close> show False by (auto dest: injD)
  qed
  show "outbox_ok (di_gen di) ?t \<and> (\<exists>olds news. ob_deliveries ?t = olds @ news \<and> list_all2 row_step (ob_deliveries s) olds) \<and>
      list_all2 same_endpoint (ob_endpoints s) (ob_endpoints ?t) \<and> prefix (ob_events s) (ob_events ?t)"
  proof (cases "(ev, ep_id e, attempt) \<in> set (map triple (ob_deliveries s))")
    case True
    then have "list_ex (\<lambda>d. wd_webhookEventId d = ev \<and> wd_endpointId d = ep_id e \<and> wd_attempt d = attempt) (ob_deliveries s)"
      by (auto simp: list_ex_iff triple_def)
    then have "ob_deliveries ?t = ob_deliveries s" by (simp add: upsert_delivery_def Let_def)
    moreover have "list_all2 row_step (ob_deliveries s) (ob_deliveries s)" by (simp add: list.rel_refl)
    ultimately show ?thesis using ok old same(2,3) eps unfolding outbox_ok_def att by (metis append_Nil2 prefix_order.refl)
  next
    case False
    then have "\<not> list_ex (\<lambda>d. wd_webhookEventId d = ev \<and> wd_endpointId d = ep_id e \<and> wd_attempt d = attempt) (ob_deliveries s)"
      by (force simp: list_ex_iff triple_def)
    then have t: "ob_deliveries ?t = ob_deliveries s @ [?d]" by (simp add: upsert_delivery_def Let_def)
    have d: "wd_id ?d = ?i" "triple ?d = (ev, ep_id e, attempt)" "attempt_ok s ?d"
      using allowed by (auto simp: new_delivery_def triple_def attempt_ok_def split: option.splits)
    have "chain_ok (ob_deliveries s @ [?d]) ?d" using follows by (auto simp: chain_ok_def follows_failure_def new_delivery_def)
    moreover have "list_all (chain_ok (ob_deliveries s @ [?d])) (ob_deliveries s)"
      using ok by (auto simp: outbox_ok_def chain_ok_def follows_failure_def list_all_iff)
    ultimately have "outbox_ok (di_gen di) ?t" using ok old fresh False d unfolding outbox_ok_def t same(3) att by auto
    moreover have "list_all2 row_step (ob_deliveries s) (ob_deliveries s)" by (simp add: list.rel_refl)
    ultimately show ?thesis using same(2) t eps by (metis prefix_order.refl)
  qed
qed

text \<open>A write to one row, with the status it has.\<close>

lemma update_delivery_run:
  "find_delivery i s = Some d \<Longrightarrow> update_delivery now i f s =
     (Inr (), s\<lparr>ob_deliveries := map (\<lambda>d. if wd_id d = i then (f d)\<lparr>wd_updatedAt := now\<rparr> else d) (ob_deliveries s)\<rparr>)"
  by (simp add: update_delivery_def update_rows_def)

lemma update_delivery_step:
  assumes "find_delivery i s = Some d" "same_delivery d (f d)" "wd_status (f d) \<in> set (moves (wd_status d))"
    and "wd_status (f d) = DELIVERY_FAILED \<Longrightarrow> (case find_endpoint (wd_endpointId d) s of None \<Rightarrow> True | Some e \<Rightarrow> wd_attempt d < ep_maxAttempts e)"
  shows "outbox_step gen s (snd (update_delivery now i f s))"
proof (rule outbox_rows)
  show "ob_deliveries (snd (update_delivery now i f s)) = map (\<lambda>d. if wd_id d = i then (f d)\<lparr>wd_updatedAt := now\<rparr> else d) (ob_deliveries s)"
    by (simp add: update_delivery_run [OF assms(1)])
  fix d' assume ok: "outbox_ok gen s" and d': "d' \<in> set (ob_deliveries s)"
  have d: "wd_id d = i" "d \<in> set (ob_deliveries s)" using assms(1) by (auto simp: find_delivery_def dest: find_Some_set)
  have "d' = d" if "wd_id d' = i" using ok d d' that by (auto simp: outbox_ok_def distinct_map dest: inj_onD)
  then show "row_step d' (if wd_id d' = i then (f d')\<lparr>wd_updatedAt := now\<rparr> else d') \<and>
      (wd_status (if wd_id d' = i then (f d')\<lparr>wd_updatedAt := now\<rparr> else d') = DELIVERY_FAILED \<longrightarrow> wd_status d' = DELIVERY_FAILED \<or>
        (case find_endpoint (wd_endpointId d') s of None \<Rightarrow> True | Some e \<Rightarrow> wd_attempt d' < ep_maxAttempts e))"
    using assms(2-4) by (auto simp: row_step_def same_delivery_def)
qed (simp_all add: update_delivery_run [OF assms(1)])

text \<open>What a write to other rows leaves alone.\<close>

definition rest_kept :: "string \<Rightarrow> outbox \<Rightarrow> outbox \<Rightarrow> bool" where
  "rest_kept i s t \<longleftrightarrow> (\<forall>j d. j \<noteq> i \<and> find_delivery j s = Some d \<and> wd_status d \<noteq> DELIVERY_PENDING \<longrightarrow> find_delivery j t = Some d)"

lemma rest_kept_trans: "rest_kept i s t \<Longrightarrow> rest_kept i t u \<Longrightarrow> rest_kept i s u"
  unfolding rest_kept_def by blast

lemma rest_kept_same: "ob_deliveries t = ob_deliveries s \<Longrightarrow> rest_kept i s t"
  by (simp add: rest_kept_def find_delivery_def)

lemma update_delivery_rest: "(\<And>d. wd_id (f d) = wd_id d) \<Longrightarrow> rest_kept i s (snd (update_delivery now i f s))"
proof (cases "find_delivery i s")
  case None then show ?thesis by (simp add: update_delivery_def rest_kept_def)
next
  case (Some d)
  assume "\<And>d. wd_id (f d) = wd_id d"
  then have "find_delivery j (snd (update_delivery now i f s)) = map_option (\<lambda>d. if wd_id d = i then (f d)\<lparr>wd_updatedAt := now\<rparr> else d) (find_delivery j s)" for j
    unfolding update_delivery_run [OF Some] find_delivery_def by (simp, intro find_map_key) simp
  then show ?thesis unfolding rest_kept_def by (auto simp: find_delivery_def dest: find_Some_set)
qed

lemma disable_endpoint_step:
  "outbox_step gen s (snd (disable_endpoint now e s)) \<and>
   (\<forall>j d. find_delivery j s = Some d \<and> wd_status d \<noteq> DELIVERY_PENDING \<longrightarrow> find_delivery j (snd (disable_endpoint now e s)) = Some d)"
proof -
  let ?f = "\<lambda>x. x\<lparr>ep_enabled := False, ep_disabledAt := Some now, ep_disabledReason := Some (show_int (ep_consecutiveFailures e) @ '' consecutive delivery failures'')\<rparr>"
  let ?g = "\<lambda>d. if wd_endpointId d = ep_id e \<and> wd_status d = DELIVERY_PENDING then d\<lparr>wd_status := ABANDONED, wd_updatedAt := now\<rparr> else d"
  obtain x u where u: "update_endpoint (ep_id e) ?f s = (x, u)" by fastforce
  have su: "outbox_step gen s u" using psteps_D [OF update_endpoint_step, of ?f gen s "ep_id e"] u by (simp add: same_endpoint_def)
  have du: "ob_deliveries u = ob_deliveries s" using u by (auto simp: update_endpoint_def split: option.splits)
  show ?thesis
  proof (cases x)
    case (Inl err)
    then have "snd (disable_endpoint now e s) = u" using u by (simp add: disable_endpoint_def pbind_def)
    with su du show ?thesis by (simp add: find_delivery_def)
  next
    case (Inr p)
    let ?t = "snd (disable_endpoint now e s)"
    have t: "ob_deliveries ?t = map ?g (ob_deliveries u)" "ob_endpoints ?t = ob_endpoints u" "ob_events ?t = ob_events u" "ob_ulids ?t = ob_ulids u"
      using Inr u by (simp_all add: disable_endpoint_def pbind_def Let_def update_rows_def)
    have "outbox_step gen u ?t" using t by (rule outbox_rows) (simp_all add: row_step_def same_delivery_def)
    with su have "outbox_step gen s ?t" by (rule outbox_step_trans)
    moreover have "find_delivery j ?t = map_option ?g (find_delivery j s)" for j
      unfolding find_delivery_def t(1) du by (rule find_map_key) simp
    ultimately show ?thesis by auto
  qed
qed

lemma update_endpoint_run:
  "update_endpoint i f s = (case find_endpoint i s of None \<Rightarrow> (Inl (RowMissing ''WebhookEndpoint'' i), s)
     | Some e \<Rightarrow> (Inr (f e), s\<lparr>ob_endpoints := update_rows (\<lambda>e. ep_id e = i) f (ob_endpoints s)\<rparr>))"
  by (simp add: update_endpoint_def split: option.splits)

lemma pbind_pret_state: "snd (pbind p (\<lambda>a. pret (f a)) s) = snd (p s)"
  by (auto simp: pbind_def split: prod.splits sum.splits)

lemma pbind_pfrom: "pbind (pfrom_result r) f = (case r of Inl e \<Rightarrow> pthrow e | Inr a \<Rightarrow> f a)"
  by (simp add: pbind_def fun_eq_iff split: sum.splits)

lemma finalizeFailure_step:
  assumes d: "find_delivery i s = Some d" "wd_status d = IN_FLIGHT" "wd_attempt d = a" "wd_endpointId d = e"
  shows "outbox_step gen s (snd (finalizeFailure di now i a e info s)) \<and> rest_kept i s (snd (finalizeFailure di now i a e info s))"
proof (cases "find_endpoint e s")
  case None
  then have "snd (finalizeFailure di now i a e info s) = s" by (simp add: finalizeFailure_def pbind_def update_endpoint_run)
  then show ?thesis by (simp add: outbox_step_refl rest_kept_same)
next
  case (Some p)
  let ?inc = "\<lambda>x. x\<lparr>ep_consecutiveFailures := ep_consecutiveFailures x + 1\<rparr>"
  define s1 where "s1 = s\<lparr>ob_endpoints := update_rows (\<lambda>x. ep_id x = e) ?inc (ob_endpoints s)\<rparr>"
  have r1: "update_endpoint e ?inc s = (Inr (?inc p), s1)" by (simp add: update_endpoint_run Some s1_def)
  have st1: "outbox_step gen s s1" using psteps_D [OF update_endpoint_step, of ?inc gen s e] r1 by (simp add: same_endpoint_def)
  have d1: "find_delivery i s1 = Some d" using d(1) by (simp add: s1_def find_delivery_def)
  have "find_endpoint e s1 = map_option (\<lambda>x. if ep_id x = e then ?inc x else x) (find_endpoint e s)"
    unfolding find_endpoint_def s1_def update_rows_def by (simp, rule find_map_key) simp
  moreover have "ep_id p = e" using Some by (auto simp: find_endpoint_def dest: find_Some_set)
  ultimately have e1: "find_endpoint e s1 = Some (?inc p)" using Some by simp
  define disable where "disable \<longleftrightarrow> \<not> a \<ge> ep_maxAttempts (?inc p) \<and> ep_consecutiveFailures (?inc p) \<ge> di_disableAfter di"
  define status where "status = (if a \<ge> ep_maxAttempts (?inc p) then EXHAUSTED else if disable then ABANDONED else DELIVERY_FAILED)"
  obtain y s2 where r2: "(if disable then disable_endpoint now (?inc p) else pret ()) s1 = (y, s2)" by fastforce
  have st2: "outbox_step gen s1 s2 \<and> find_delivery i s2 = Some d \<and> rest_kept i s1 s2"
    using disable_endpoint_step [of gen s1 now "?inc p"] r2 d1 d(2)
    by (cases disable) (auto simp: outbox_step_refl rest_kept_def dest: arg_cong [of _ _ snd])
  let ?t = "snd (finalizeFailure di now i a e info s)" and ?delay = "computeRetryDelayMs (di_random di i) a None None None"
  let ?upd = "\<lambda>nxt. update_delivery now i (\<lambda>d. d\<lparr>wd_status := status, wd_httpStatus := fi_httpStatus info,
       wd_errorMessage := Some (fi_errorMessage info), wd_responseTimeMs := fi_responseTimeMs info,
       wd_responseBody := fi_responseBody info, wd_sentAt := Some now, wd_nextRetryAt := nxt\<rparr>)"
  have run: "finalizeFailure di now i a e info s = pbind (if disable then disable_endpoint now (?inc p) else pret ()) (\<lambda>_.
     pbind (if status = DELIVERY_FAILED then pbind (pfrom_result (map_error RetryDelayRange ?delay)) (\<lambda>delay. pret (Some (now + delay))) else pret None) (\<lambda>nxt.
     pbind (?upd nxt) (\<lambda>_. pret (if status = DELIVERY_FAILED then Failed else if status = EXHAUSTED then Exhausted else Abandoned)))) s1"
    unfolding finalizeFailure_def pbind_ok [where p = "update_endpoint e ?inc" and s = s, OF r1] Let_def disable_def status_def by (rule refl)
  have "outbox_step gen s2 ?t \<and> rest_kept i s2 ?t"
  proof (cases "?t = s2")
    case True
    then show ?thesis by (simp add: outbox_step_refl rest_kept_same)
  next
    case False
    then obtain u where "y = Inr u" using run r2 by (cases y) (auto simp: pbind_error)
    with False run r2 obtain nxt where "?t = snd (?upd nxt s2)"
      by (cases ?delay) (auto simp: pbind_ok pbind_pret_state pbind_pfrom split: if_splits)
    moreover have "find_endpoint e s2 = Some (?inc p)" if "status = DELIVERY_FAILED"
      using that r2 e1 by (auto simp: status_def split: if_splits)
    ultimately show ?thesis using st2 d(2-4)
      by (auto intro!: update_delivery_step update_delivery_rest simp: same_delivery_def status_def split: if_splits)
  qed
  moreover have "rest_kept i s s1" by (rule rest_kept_same) (simp add: s1_def)
  ultimately show ?thesis using st1 st2 outbox_step_trans rest_kept_trans by blast
qed

text \<open>The row that was written, found again.\<close>

lemma update_delivery_found:
  assumes "find_delivery i s = Some d" "\<And>d. wd_id (f d) = wd_id d"
  shows "find_delivery i (snd (update_delivery now i f s)) = Some ((f d)\<lparr>wd_updatedAt := now\<rparr>)"
proof -
  have "find_delivery i (snd (update_delivery now i f s)) = map_option (\<lambda>d. if wd_id d = i then (f d)\<lparr>wd_updatedAt := now\<rparr> else d) (find_delivery i s)"
    unfolding update_delivery_run [OF assms(1)] find_delivery_def using assms(2) by (simp, intro find_map_key) simp
  moreover have "wd_id d = i" using assms(1) by (auto simp: find_delivery_def dest: find_Some_set)
  ultimately show ?thesis using assms(1) by simp
qed

lemma finalizeFailure_missing: "find_endpoint e s = None \<Longrightarrow> snd (finalizeFailure di now i a e info s) = s"
  by (simp add: finalizeFailure_def pbind_def update_endpoint_run)

lemma send_delivery_step:
  assumes d: "find_delivery (wd_id dl) s = Some d" "wd_status d = IN_FLIGHT" "wd_attempt d = wd_attempt dl" "wd_endpointId d = ep_id e"
  shows "outbox_step gen s (snd (send_delivery di now dl e ev s))"
proof (cases "di_decrypt di (ep_secretEncrypted e)")
  case None then show ?thesis by (simp add: send_delivery_def outbox_step_refl)
next
  case (Some secret)
  let ?i = "wd_id dl" and ?f = "\<lambda>d. d\<lparr>wd_signatureTimestamp := now div 1000 * 1000\<rparr>"
  define u where "u = snd (update_delivery now ?i ?f s)"
  have run: "update_delivery now ?i ?f s = (Inr (), u)" by (simp add: u_def update_delivery_run [OF d(1)])
  have su: "outbox_step gen s u" unfolding u_def using d by (intro update_delivery_step) (auto simp: same_delivery_def)
  have du: "find_delivery ?i u = Some ((?f d)\<lparr>wd_updatedAt := now\<rparr>)" unfolding u_def by (rule update_delivery_found [OF d(1)]) simp
  have fail: "outbox_step gen u (snd (finalizeFailure di now ?i (wd_attempt dl) (ep_id e) info u))" for info
    using finalizeFailure_step [OF du] d by simp
  have success: "outbox_step gen u (snd (pcatch (pbind (finalizeSuccess now ?i (ep_id e) st ms body) (\<lambda>_. pret Delivered))
      (\<lambda>error. finalizeFailure di now ?i (wd_attempt dl) (ep_id e) (info error)) u))" for st ms body info
  proof -
    define g where "g = (\<lambda>d :: webhook_delivery. d\<lparr>wd_status := DELIVERED, wd_httpStatus := Some st, wd_responseTimeMs := Some ms,
      wd_responseBody := Some body, wd_sentAt := Some now, wd_nextRetryAt := None\<rparr>)"
    define v where "v = snd (update_delivery now ?i g u)"
    have rv: "update_delivery now ?i g u = (Inr (), v)" by (simp add: v_def update_delivery_run [OF du])
    have uv: "outbox_step gen u v" unfolding v_def using du d by (intro update_delivery_step) (auto simp: same_delivery_def g_def)
    obtain x w where w: "update_endpoint (ep_id e) (\<lambda>e. e\<lparr>ep_consecutiveFailures := 0\<rparr>) v = (x, w)" by fastforce
    have vw: "outbox_step gen v w"
      using psteps_D [OF update_endpoint_step, of "\<lambda>e. e\<lparr>ep_consecutiveFailures := 0\<rparr>" gen v "ep_id e"] w by (simp add: same_endpoint_def)
    have fin: "finalizeSuccess now ?i (ep_id e) st ms body u = (map_sum id (\<lambda>_. ()) x, w)"
      using rv w unfolding finalizeSuccess_def g_def by (cases x) (simp_all add: pbind_def)
    have "x = Inl er \<Longrightarrow> find_endpoint (ep_id e) w = None" for er using w by (auto simp: update_endpoint_run split: option.splits)
    then have "snd (pcatch (pbind (finalizeSuccess now ?i (ep_id e) st ms body) (\<lambda>_. pret Delivered))
      (\<lambda>error. finalizeFailure di now ?i (wd_attempt dl) (ep_id e) (info error)) u) = w"
      using fin finalizeFailure_missing by (cases x) (simp_all add: pcatch_def pbind_def)
    with outbox_step_trans [OF uv vw] show ?thesis by simp
  qed
  have "outbox_step gen u (snd (send_delivery di now dl e ev s))"
    using fail success by (simp add: send_delivery_def Some Let_def pbind_ok [where p = "update_delivery now ?i ?f" and s = s, OF run] split: sum.split prod.split)
  with su show ?thesis by (rule outbox_step_trans)
qed

lemma attemptDelivery_step: "psteps (outbox_step gen) (attemptDelivery di now i)"
  unfolding psteps_def
proof
  fix s
  show "outbox_step gen s (snd (attemptDelivery di now i s))"
  proof (cases "\<exists>d. find_delivery i s = Some d \<and> wd_status d = DELIVERY_PENDING")
    case False
    then show ?thesis by (auto simp: attemptDelivery_def outbox_step_refl split: option.splits)
  next
    case True
    then obtain d where d: "find_delivery i s = Some d" "wd_status d = DELIVERY_PENDING" by blast
    then have i: "wd_id d = i" by (auto simp: find_delivery_def dest: find_Some_set)
    have ab: "outbox_step gen s (snd (update_delivery now i f s))" if "\<And>d. same_delivery d (f d)" "\<And>d. wd_status (f d) \<in> {ABANDONED, IN_FLIGHT}" for f
      using that(1) [of d] that(2) [of d] d by (intro update_delivery_step) auto
    show ?thesis
    proof (cases "\<exists>e ev. find_endpoint (wd_endpointId d) s = Some e \<and> ep_enabled e \<and> find (\<lambda>e. we_id e = wd_webhookEventId d) (ob_events s) = Some ev")
      case False
      then show ?thesis using d
        by (auto simp: attemptDelivery_def pbind_pret_state intro!: ab split: option.splits) (simp_all add: same_delivery_def)
    next
      case True
      then obtain e ev where e: "find_endpoint (wd_endpointId d) s = Some e" "ep_enabled e" and ev: "find (\<lambda>e. we_id e = wd_webhookEventId d) (ob_events s) = Some ev"
        by blast
      let ?f = "\<lambda>d. d\<lparr>wd_status := IN_FLIGHT\<rparr>"
      define u where "u = snd (update_delivery now i ?f s)"
      have run: "update_delivery now i ?f s = (Inr (), u)" by (simp add: u_def update_delivery_run [OF d(1)])
      have su: "outbox_step gen s u" unfolding u_def by (rule ab) (simp_all add: same_delivery_def)
      have du: "find_delivery i u = Some ((?f d)\<lparr>wd_updatedAt := now\<rparr>)" unfolding u_def by (rule update_delivery_found [OF d(1)]) simp
      have id: "ep_id e = wd_endpointId d" using e by (auto simp: find_endpoint_def dest: find_Some_set)
      have fail: "outbox_step gen u (snd (finalizeFailure di now i (wd_attempt d) (ep_id e) info u))" for info
        using finalizeFailure_step [OF du] id by simp
      moreover have "outbox_step gen u (snd (send_delivery di now d e ev u))"
        using du id i by (intro send_delivery_step [where d = "(?f d)\<lparr>wd_updatedAt := now\<rparr>"]) auto
      ultimately have "outbox_step gen u (snd (attemptDelivery di now i s))"
        using d e ev by (simp add: attemptDelivery_def Let_def pbind_ok [where p = "update_delivery now i ?f" and s = s, OF run] pbind_pret_state split: option.split)
      with su show ?thesis by (rule outbox_step_trans)
    qed
  qed
qed

text \<open>A loop over rows that were read before it, each of which its step may write.\<close>

lemma pfold_rows:
  assumes body: "\<And>d a s. find_delivery (wd_id d) s = Some d \<Longrightarrow> P d \<Longrightarrow> outbox_step gen s (snd (f d a s)) \<and> rest_kept (wd_id d) s (snd (f d a s))"
    and P: "\<And>d. P d \<Longrightarrow> wd_status d \<noteq> DELIVERY_PENDING"
  shows "distinct (map wd_id ds) \<Longrightarrow> \<forall>d\<in>set ds. find_delivery (wd_id d) s = Some d \<and> P d \<Longrightarrow> outbox_step gen s (snd (pfold f ds a s))"
proof (induction ds arbitrary: s a)
  case Nil then show ?case by (simp add: outbox_step_refl)
next
  case (Cons d ds)
  obtain x t where t: "f d a s = (x, t)" by fastforce
  with body [of d s a] Cons.prems have st: "outbox_step gen s t" "rest_kept (wd_id d) s t" by auto
  show ?case
  proof (cases x)
    case (Inl e) then show ?thesis using t st by (simp add: pbind_error)
  next
    case (Inr b)
    have "find_delivery (wd_id d') t = Some d' \<and> P d'" if "d' \<in> set ds" for d'
    proof -
      have "wd_id d' \<in> wd_id ` set ds" using that by simp
      then have "wd_id d' \<noteq> wd_id d" using Cons.prems(1) by auto
      with st(2) Cons.prems(2) that P show ?thesis unfolding rest_kept_def by auto
    qed
    then have "outbox_step gen t (snd (pfold f ds b t))" using Cons.prems(1) by (intro Cons.IH) auto
    with st(1) Inr t show ?thesis using outbox_step_trans by (auto simp: pbind_ok)
  qed
qed

lemma pfor_each_pfold: "pfor_each f xs = pfold (\<lambda>x _. f x) xs ()"
  by (induction xs) simp_all

lemma outbox_step_okI: "(outbox_ok gen s \<Longrightarrow> outbox_step gen s t) \<Longrightarrow> outbox_step gen s t"
  by (auto simp: outbox_step_def)

lemma selected_rows:
  assumes "outbox_ok gen s" "distinct ds" "set ds \<subseteq> set (ob_deliveries s)"
  shows "distinct (map wd_id ds)" "d \<in> set ds \<Longrightarrow> find_delivery (wd_id d) s = Some d"
proof -
  have inj: "inj_on wd_id (set (ob_deliveries s))" using assms(1) by (simp add: outbox_ok_def distinct_map)
  then show "distinct (map wd_id ds)" using assms(2,3) by (auto simp: distinct_map intro: inj_on_subset)
  assume "d \<in> set ds"
  with assms(3) have d: "d \<in> set (ob_deliveries s)" by blast
  then obtain d' where d': "find_delivery (wd_id d) s = Some d'" by (cases "find_delivery (wd_id d) s") (auto simp: find_delivery_def find_None_iff)
  then have "wd_id d' = wd_id d" "d' \<in> set (ob_deliveries s)" by (auto simp: find_delivery_def dest: find_Some_set)
  with inj d d' show "find_delivery (wd_id d) s = Some d" by (auto dest: inj_onD)
qed

lemma outbox_ok_distinct: "outbox_ok gen s \<Longrightarrow> distinct (ob_deliveries s)"
  by (auto simp: outbox_ok_def distinct_map)

lemma recoverStaleInFlight_step: "psteps (outbox_step gen) (recoverStaleInFlight di now)"
  unfolding psteps_def
proof (intro allI, rule outbox_step_okI)
  fix s assume ok: "outbox_ok gen s"
  let ?ds = "take (di_batchSize di) (filter (\<lambda>d. wd_status d = IN_FLIGHT \<and> wd_updatedAt d < now - di_staleInFlightMs di) (ob_deliveries s))"
  have "distinct ?ds" using outbox_ok_distinct [OF ok] by simp
  moreover have "set ?ds \<subseteq> set (ob_deliveries s)" "\<And>d. d \<in> set ?ds \<Longrightarrow> wd_status d = IN_FLIGHT" by (auto dest: in_set_takeD)
  ultimately have rows: "distinct (map wd_id ?ds)" "\<forall>d\<in>set ?ds. find_delivery (wd_id d) s = Some d \<and> wd_status d = IN_FLIGHT"
    using selected_rows [OF ok, of ?ds] by blast+
  have "outbox_step gen s (snd (pfold (\<lambda>d _. pbind (finalizeFailure di now (wd_id d) (wd_attempt d) (wd_endpointId d) info) (\<lambda>_. pret ())) ?ds () s))" for info
    by (rule pfold_rows [OF _ _ rows]) (simp_all add: pbind_pret_state finalizeFailure_step)
  then show "outbox_step gen s (snd (recoverStaleInFlight di now s))"
    by (simp add: recoverStaleInFlight_def pbind_pret_state pfor_each_pfold)
qed

lemma upsert_kept: "find_delivery j s = Some d \<Longrightarrow> find_delivery j (snd (upsert_delivery di now ev e n s)) = Some d"
  by (auto simp: upsert_delivery_def find_delivery_def Let_def find_append)

lemma promote_step:
  assumes inj: "inj (di_gen di)" and d: "find_delivery (wd_id d) s = Some d" "wd_status d = DELIVERY_FAILED"
  shows "outbox_step (di_gen di) s (snd (promote di now d n s)) \<and> rest_kept (wd_id d) s (snd (promote di now d n s))"
proof (cases "\<exists>e. find_endpoint (wd_endpointId d) s = Some e \<and> ep_enabled e")
  case False
  then have "snd (promote di now d n s) = snd (update_delivery now (wd_id d) (\<lambda>d. d\<lparr>wd_status := ABANDONED, wd_nextRetryAt := None\<rparr>) s)"
    by (auto simp: promote_def pbind_pret_state split: option.splits)
  then show ?thesis using d by (auto intro!: update_delivery_step update_delivery_rest simp: same_delivery_def)
next
  case True
  then obtain e where e: "find_endpoint (wd_endpointId d) s = Some e" "ep_enabled e" by blast
  then have id: "ep_id e = wd_endpointId d" by (auto simp: find_endpoint_def dest: find_Some_set)
  have p: "snd (promote di now d n s) = snd (upsert_delivery di now (wd_webhookEventId d) e (wd_attempt d + 1) s)"
    using e by (simp add: promote_def pbind_pret_state)
  have mem: "d \<in> set (ob_deliveries s)" using d(1) by (auto simp: find_delivery_def dest: find_Some_set)
  have "outbox_step (di_gen di) s (snd (promote di now d n s))"
  proof (rule outbox_step_okI)
    assume "outbox_ok (di_gen di) s"
    then have "attempt_ok s d" using mem by (auto simp: outbox_ok_def list_all_iff)
    moreover have "follows_failure (ob_deliveries s) (wd_webhookEventId d) (ep_id e) (wd_attempt d + 1)"
      using mem d(2) id by (auto simp: follows_failure_def triple_def list_ex_iff)
    ultimately show "outbox_step (di_gen di) s (snd (promote di now d n s))"
      unfolding p using e id d(2) by (intro upsert_step [OF inj]) (auto simp: attempt_ok_def)
  qed
  then show ?thesis unfolding p by (simp add: rest_kept_def upsert_kept)
qed

lemma promoteDueRetries_step: "inj (di_gen di) \<Longrightarrow> psteps (outbox_step (di_gen di)) (promoteDueRetries di now)"
  unfolding psteps_def
proof (intro allI, rule outbox_step_okI)
  fix s assume inj: "inj (di_gen di)" and ok: "outbox_ok (di_gen di) s"
  let ?ds = "due_retries (di_batchSize di) now s"
  have "distinct ?ds" using outbox_ok_distinct [OF ok] by (simp add: due_retries_def)
  moreover have "set ?ds \<subseteq> set (ob_deliveries s)" "\<forall>d\<in>set ?ds. wd_status d = DELIVERY_FAILED" by (auto simp: due_retries_def dest: in_set_takeD)
  ultimately have "outbox_step (di_gen di) s (snd (pfold (promote di now) ?ds 0 s))"
    using selected_rows [OF ok] promote_step [OF inj] by (intro pfold_rows [where P = "\<lambda>d. wd_status d = DELIVERY_FAILED"]) auto
  then show "outbox_step (di_gen di) s (snd (promoteDueRetries di now s))" by (simp add: promoteDueRetries_def)
qed

lemma enqueueNewDeliveries_step: "inj (di_gen di) \<Longrightarrow> psteps (outbox_step (di_gen di)) (enqueueNewDeliveries di now)"
proof -
  assume inj: "inj (di_gen di)"
  have "psteps (outbox_step (di_gen di)) (upsert_delivery di now ev e 1)" for ev e
    unfolding psteps_def using upsert_step [OF inj] by (simp add: follows_failure_def)
  then show ?thesis unfolding enqueueNewDeliveries_def fan_out_def by (intro outbox.psteps_rules outbox.psteps_fold)
qed

lemma runOnce_step: "inj (di_gen di) \<Longrightarrow> psteps (outbox_step (di_gen di)) (runOnce di now)"
proof -
  assume inj: "inj (di_gen di)"
  have "psteps (outbox_step (di_gen di)) (pmodify (\<lambda>s. s\<lparr>ob_bulkAbandoned := 0\<rparr>))"
    by (rule outbox.psteps_modify) (rule outbox_rows [where g = id], auto)
  then show ?thesis unfolding runOnce_def case_prod_beta
    by (intro outbox.psteps_rules outbox.psteps_fold recoverStaleInFlight_step attemptDelivery_step
      enqueueNewDeliveries_step [OF inj] promoteDueRetries_step [OF inj])
qed

section \<open>Any number of polls\<close>

text \<open>The worker's life: events are published, then the dispatcher polls, again and again.\<close>

definition poll_rounds :: "dispatcher \<Rightarrow> (webhook_event list \<times> int) list \<Rightarrow> outbox \<Rightarrow> outbox" where
  "poll_rounds di rounds s = foldl (\<lambda>s (events, now). snd (runOnce di now (s\<lparr>ob_events := ob_events s @ events\<rparr>))) s rounds"

lemma poll_rounds_step: "inj (di_gen di) \<Longrightarrow> outbox_step (di_gen di) s (poll_rounds di rounds s)"
proof (induction rounds arbitrary: s)
  case Nil then show ?case by (simp add: poll_rounds_def outbox_step_refl)
next
  case (Cons r rounds)
  obtain events now where r: "r = (events, now)" by fastforce
  let ?u = "s\<lparr>ob_events := ob_events s @ events\<rparr>"
  have "outbox_ok (di_gen di) ?u = outbox_ok (di_gen di) s" by (simp add: outbox_ok_def attempt_ok_def find_endpoint_def list_all_iff)
  then have "outbox_step (di_gen di) s ?u"
    unfolding outbox_step_def by (intro impI conjI exI [of _ "ob_deliveries s"] exI [of _ "[]"]) (auto simp: list.rel_refl)
  also have "outbox_step (di_gen di) ?u (snd (runOnce di now ?u))" using runOnce_step [OF Cons.prems] by (rule psteps_D)
  also (outbox_step_trans) have "outbox_step (di_gen di) (snd (runOnce di now ?u)) (poll_rounds di (r # rounds) s)"
    using Cons.IH [OF Cons.prems, of "snd (runOnce di now ?u)"] by (simp add: poll_rounds_def r)
  finally (outbox_step_trans) show ?case .
qed

text \<open>The life of deliveries over any number of polls, with any answers of the endpoints and errors at any
  point. Rows are never removed and keep their event, endpoint and attempt number; what is
  delivered, exhausted or abandoned never changes again, and a failed row changes only by being
  abandoned; no endpoint is enabled again; and the tables stay in order, so that no event is sent
  twice under one attempt number, nor more often than the endpoint allows.\<close>

lemma deliveries_follow_lifecycle:
  assumes "inj (di_gen di)" "outbox_ok (di_gen di) s" "t = poll_rounds di rounds s"
  shows "outbox_ok (di_gen di) t \<and> length (ob_deliveries s) \<le> length (ob_deliveries t) \<and>
    (k < length (ob_deliveries s) \<longrightarrow> (let d = ob_deliveries s ! k; d' = ob_deliveries t ! k in same_delivery d d' \<and>
       (wd_status d \<in> {DELIVERED, EXHAUSTED, ABANDONED} \<longrightarrow> d' = d) \<and> (wd_status d = DELIVERY_FAILED \<longrightarrow> d' = d \<or> wd_status d' = ABANDONED))) \<and>
    (d \<in> set (ob_deliveries t) \<and> find_endpoint (wd_endpointId d) t = Some e \<and> 1 \<le> ep_maxAttempts e \<longrightarrow> wd_attempt d \<le> ep_maxAttempts e) \<and>
    list_all2 (\<lambda>e e'. ep_id e' = ep_id e \<and> (ep_enabled e' \<longrightarrow> ep_enabled e)) (ob_endpoints s) (ob_endpoints t)"
proof -
  obtain olds news where t: "outbox_ok (di_gen di) t" "ob_deliveries t = olds @ news" "list_all2 row_step (ob_deliveries s) olds"
    "list_all2 same_endpoint (ob_endpoints s) (ob_endpoints t)"
    using poll_rounds_step [OF assms(1), of s rounds] assms(2,3) by (auto simp: outbox_step_def)
  have len: "length olds = length (ob_deliveries s)" using t(3) by (auto dest: list_all2_lengthD)
  have "row_step (ob_deliveries s ! k) (ob_deliveries t ! k)" if "k < length (ob_deliveries s)"
    using t(2,3) len that by (simp add: nth_append list_all2_conv_all_nth)
  then have rows: "same_delivery d d' \<and> (wd_status d \<in> {DELIVERED, EXHAUSTED, ABANDONED} \<longrightarrow> d' = d) \<and>
      (wd_status d = DELIVERY_FAILED \<longrightarrow> d' = d \<or> wd_status d' = ABANDONED)"
    if "k < length (ob_deliveries s)" "d = ob_deliveries s ! k" "d' = ob_deliveries t ! k" for d d'
    using that row_step_same by (auto simp: row_step_def)
  have "wd_attempt d \<le> ep_maxAttempts e" if "d \<in> set (ob_deliveries t)" "find_endpoint (wd_endpointId d) t = Some e" "1 \<le> ep_maxAttempts e"
    using t(1) that by (force simp: outbox_ok_def attempt_ok_def list_all_iff)
  moreover have "list_all2 (\<lambda>e e'. ep_id e' = ep_id e \<and> (ep_enabled e' \<longrightarrow> ep_enabled e)) (ob_endpoints s) (ob_endpoints t)"
    by (rule list_all2_mono [OF t(4)]) (simp add: same_endpoint_def)
  ultimately show ?thesis using t(1,2) len rows unfolding Let_def by auto
qed

text \<open>Every attempt before another one failed.\<close>

lemma earlier_attempts:
  assumes "outbox_ok gen s" "d \<in> set (ob_deliveries s)" "1 \<le> m" "m < wd_attempt d"
  shows "\<exists>d'\<in>set (ob_deliveries s). triple d' = (wd_webhookEventId d, wd_endpointId d, m) \<and> wd_status d' \<in> {DELIVERY_FAILED, ABANDONED}"
  using assms(2-4)
proof (induction "nat (wd_attempt d - m)" arbitrary: d rule: less_induct)
  case less
  have "chain_ok (ob_deliveries s) d" using assms(1) less.prems(1) by (auto simp: outbox_ok_def list_all_iff)
  then obtain d' where d': "d' \<in> set (ob_deliveries s)" "triple d' = (wd_webhookEventId d, wd_endpointId d, wd_attempt d - 1)"
    "wd_status d' \<in> {DELIVERY_FAILED, ABANDONED}"
    using less.prems by (auto simp: chain_ok_def follows_failure_def list_ex_iff)
  show ?case
  proof (cases "m = wd_attempt d - 1")
    case True then show ?thesis using d' by blast
  next
    case False
    then show ?thesis using less.hyps [of d'] less.prems d' by (auto simp: triple_def)
  qed
qed

text \<open>C18: an event succeeds at an endpoint at most once. After any number of polls, if an attempt was
  delivered, every earlier attempt of the same event at the same endpoint failed and there is no
  later one, so that no second delivery is recorded or pending.\<close>

theorem event_succeeds_at_most_once:
  assumes "inj (di_gen di)" "outbox_ok (di_gen di) s" "t = poll_rounds di rounds s"
    and d: "d \<in> set (ob_deliveries t)" "wd_status d = DELIVERED"
    and d': "d' \<in> set (ob_deliveries t)" "wd_webhookEventId d' = wd_webhookEventId d" "wd_endpointId d' = wd_endpointId d"
  shows "d' = d \<or> wd_attempt d' < wd_attempt d \<and> wd_status d' \<in> {DELIVERY_FAILED, ABANDONED}"
proof -
  have ok: "outbox_ok (di_gen di) t" using poll_rounds_step [OF assms(1), of s rounds] assms(2,3) by (simp add: outbox_step_def)
  then have inj: "inj_on triple (set (ob_deliveries t))" by (simp add: outbox_ok_def distinct_map)
  have pos: "1 \<le> wd_attempt d" "1 \<le> wd_attempt d'" using ok d d' by (auto simp: outbox_ok_def attempt_ok_def list_all_iff)
  consider "wd_attempt d' = wd_attempt d" | "wd_attempt d' < wd_attempt d" | "wd_attempt d < wd_attempt d'" by linarith
  then show ?thesis
  proof cases
    case 1
    then have "triple d' = triple d" using d' by (simp add: triple_def)
    then show ?thesis using inj_onD [OF inj] d(1) d'(1) by blast
  next
    case 2
    then obtain x where "x \<in> set (ob_deliveries t)" "triple x = triple d'" "wd_status x \<in> {DELIVERY_FAILED, ABANDONED}"
      using earlier_attempts [OF ok d(1) pos(2)] d' by (auto simp: triple_def)
    then have "x = d'" using inj d'(1) by (auto dest: inj_onD)
    with \<open>wd_status x \<in> _\<close> 2 show ?thesis by simp
  next
    case 3
    then obtain x where "x \<in> set (ob_deliveries t)" "triple x = triple d" "wd_status x \<in> {DELIVERY_FAILED, ABANDONED}"
      using earlier_attempts [OF ok d'(1) pos(1)] d' by (auto simp: triple_def)
    then have "x = d" using inj d(1) by (auto dest: inj_onD)
    with \<open>wd_status x \<in> _\<close> d(2) show ?thesis by auto
  qed
qed

section \<open>What was delivered\<close>

lemma finalizeFailure_outcome: "finalizeFailure di now i a e info s = (Inr r, t) \<Longrightarrow> r \<noteq> Delivered"
  by (auto simp: finalizeFailure_def Let_def pbind_Inr_iff split: if_splits)

lemma finalizeSuccess_run:
  assumes "finalizeSuccess now i e st ms body s = (Inr (), t)" "find_delivery i s = Some d"
  shows "find_delivery i t = Some (d\<lparr>wd_status := DELIVERED, wd_httpStatus := Some st, wd_responseTimeMs := Some ms,
    wd_responseBody := Some body, wd_sentAt := Some now, wd_nextRetryAt := None, wd_updatedAt := now\<rparr>)"
proof -
  let ?f = "\<lambda>d. d\<lparr>wd_status := DELIVERED, wd_httpStatus := Some st, wd_responseTimeMs := Some ms,
    wd_responseBody := Some body, wd_sentAt := Some now, wd_nextRetryAt := None\<rparr>"
  have "ob_deliveries t = ob_deliveries (snd (update_delivery now i ?f s))"
    using assms by (auto simp: finalizeSuccess_def pbind_Inr_iff update_endpoint_run split: option.splits)
  moreover have "find_delivery i (snd (update_delivery now i ?f s)) = Some ((?f d)\<lparr>wd_updatedAt := now\<rparr>)"
    by (rule update_delivery_found [OF assms(2)]) simp
  ultimately show ?thesis by (simp add: find_delivery_def)
qed

lemma send_delivered:
  assumes "send_delivery di now dl e ev s = (Inr Delivered, t)" "find_delivery (wd_id dl) s = Some d"
  shows "\<exists>secret req status body ms d'. di_decrypt di (ep_secretEncrypted e) = Some secret \<and> di_fetch di req = (Inr (status, body), ms) \<and>
    isSuccessStatus status \<and> hq_url req = ep_url e \<and> hq_body req = json_stringify (we_payload ev) \<and>
    hq_signature req = sgw_signature (signWebhook (di_hmac di) secret (json_stringify (we_payload ev)) (now div 1000)) \<and>
    find_delivery (wd_id dl) t = Some d' \<and> wd_status d' = DELIVERED \<and> wd_httpStatus d' = Some status \<and> wd_responseBody d' = Some (take 2000 body)"
proof -
  let ?i = "wd_id dl" and ?body = "json_stringify (we_payload ev)" and ?f = "\<lambda>d. d\<lparr>wd_signatureTimestamp := now div 1000 * 1000\<rparr>"
  obtain secret where secret: "di_decrypt di (ep_secretEncrypted e) = Some secret" using assms(1) by (cases "di_decrypt di (ep_secretEncrypted e)") (auto simp: send_delivery_def)
  define signed where "signed = signWebhook (di_hmac di) secret ?body (now div 1000)"
  define req where "req = \<lparr>hq_url = ep_url e, hq_signature = sgw_signature signed, hq_timestamp = show_int (sgw_timestamp signed), hq_eventId = we_id ev,
    hq_deliveryId = ?i, hq_eventType = we_type ev, hq_body = ?body, hq_timeoutMs = ep_timeoutMs e\<rparr>"
  define u where "u = snd (update_delivery now ?i ?f s)"
  have run: "update_delivery now ?i ?f s = (Inr (), u)" by (simp add: u_def update_delivery_run [OF assms(2)])
  have du: "find_delivery ?i u = Some ((?f d)\<lparr>wd_updatedAt := now\<rparr>)" unfolding u_def by (rule update_delivery_found [OF assms(2)]) simp
  obtain resp ms where resp: "di_fetch di req = (resp, ms)" by fastforce
  have "\<exists>status body. resp = Inr (status, body) \<and> isSuccessStatus status \<and> finalizeSuccess now ?i (ep_id e) status ms (take 2000 body) u = (Inr (), t)"
    using assms(1) resp
    by (auto simp: send_delivery_def secret Let_def pbind_ok [where p = "update_delivery now ?i ?f" and s = s, OF run] pcatch_def pbind_Inr_iff
        signed_def [symmetric] req_def [symmetric] MAX_RESPONSE_BODY_CHARS_def
        split: sum.splits prod.splits if_splits dest!: finalizeFailure_outcome)
  then obtain status body where ok: "resp = Inr (status, body)" "isSuccessStatus status" "finalizeSuccess now ?i (ep_id e) status ms (take 2000 body) u = (Inr (), t)" by blast
  from finalizeSuccess_run [OF ok(3) du] obtain d' where "find_delivery ?i t = Some d'" "wd_status d' = DELIVERED" "wd_httpStatus d' = Some status" "wd_responseBody d' = Some (take 2000 body)"
    by fastforce
  moreover have "hq_url req = ep_url e" "hq_body req = ?body" "hq_signature req = sgw_signature signed" by (simp_all add: req_def)
  ultimately show ?thesis using secret resp ok(1,2) unfolding signed_def by blast
qed

text \<open>C17: what a recorded delivery means. If an attempt is reported as delivered, the row was pending and its
  endpoint enabled, the guard admitted its URL where it is asked, a request with the JSON of the
  event's payload went to that URL and was answered with a status in the 200s, the row holds this
  status and at most 2000 characters of the answer, and the signature of the request verifies for
  the endpoint's secret on any clock within five minutes.\<close>

theorem delivered_means_accepted:
  assumes digest: "\<And>k p. is_digest (di_hmac di k p)" and now: "0 \<le> now" "now < 10 ^ 18" "\<bar>clock - now div 1000\<bar> \<le> 300"
    and run: "attemptDelivery di now i s = (Inr (Some Delivered), t)"
  shows "\<exists>d e ev secret req status body ms d'. find_delivery i s = Some d \<and> wd_status d = DELIVERY_PENDING \<and>
    find_endpoint (wd_endpointId d) s = Some e \<and> ep_enabled e \<and> ev \<in> set (ob_events s) \<and> we_id ev = wd_webhookEventId d \<and>
    (di_blockPrivateNetworks di \<longrightarrow> is_ok (assertPublicWebhookUrl (di_parse di) (di_resolve di) (ep_url e))) \<and>
    hq_url req = ep_url e \<and> hq_body req = json_stringify (we_payload ev) \<and> di_fetch di req = (Inr (status, body), ms) \<and> 200 \<le> status \<and> status < 300 \<and>
    di_decrypt di (ep_secretEncrypted e) = Some secret \<and>
    verifyWebhookSignature (di_hmac di) secret (hq_body req) (hq_signature req) None clock None = Valid (now div 1000) False \<and>
    find_delivery i t = Some d' \<and> wd_status d' = DELIVERED \<and> wd_httpStatus d' = Some status \<and> wd_responseBody d' = Some (take 2000 body)"
proof -
  obtain d e ev where d: "find_delivery i s = Some d" "wd_status d = DELIVERY_PENDING" and e: "find_endpoint (wd_endpointId d) s = Some e" "ep_enabled e"
    and ev: "find (\<lambda>e. we_id e = wd_webhookEventId d) (ob_events s) = Some ev"
    using run by (auto simp: attemptDelivery_def pbind_Inr_iff split: option.splits if_splits)
  let ?f = "\<lambda>d. d\<lparr>wd_status := IN_FLIGHT\<rparr>"
  define u where "u = snd (update_delivery now i ?f s)"
  have run1: "update_delivery now i ?f s = (Inr (), u)" by (simp add: u_def update_delivery_run [OF d(1)])
  have i: "wd_id d = i" using d by (auto simp: find_delivery_def dest: find_Some_set)
  have du: "find_delivery (wd_id d) u = Some ((?f d)\<lparr>wd_updatedAt := now\<rparr>)" unfolding u_def i by (rule update_delivery_found [OF d(1)]) simp
  have "send_delivery di now d e ev u = (Inr Delivered, t) \<and>
      (di_blockPrivateNetworks di \<longrightarrow> is_ok (assertPublicWebhookUrl (di_parse di) (di_resolve di) (ep_url e)))"
    using run d e ev unfolding attemptDelivery_def
    by (auto simp: Let_def pbind_ok [where p = "update_delivery now i ?f" and s = s, OF run1] pbind_Inr_iff
        split: if_splits sum.splits dest!: finalizeFailure_outcome)
  then obtain secret req status body ms d' where sent: "di_decrypt di (ep_secretEncrypted e) = Some secret" "di_fetch di req = (Inr (status, body), ms)"
    "isSuccessStatus status" "hq_url req = ep_url e" "hq_body req = json_stringify (we_payload ev)"
    "hq_signature req = sgw_signature (signWebhook (di_hmac di) secret (json_stringify (we_payload ev)) (now div 1000))"
    "find_delivery i t = Some d'" "wd_status d' = DELIVERED" "wd_httpStatus d' = Some status" "wd_responseBody d' = Some (take 2000 body)"
    and pub: "di_blockPrivateNetworks di \<longrightarrow> is_ok (assertPublicWebhookUrl (di_parse di) (di_resolve di) (ep_url e))"
    using send_delivered [OF _ du] i by blast
  have "0 \<le> now div 1000" "now div 1000 < 10 ^ 15" using now(1,2) by simp_all
  then have "verifyWebhookSignature (di_hmac di) secret (hq_body req) (hq_signature req) (Some 300) clock None = Valid (now div 1000) False"
    unfolding sent(5,6) using signed_webhook_verifies(2) [of "di_hmac di"] digest now(3) by blast
  then have "verifyWebhookSignature (di_hmac di) secret (hq_body req) (hq_signature req) None clock None = Valid (now div 1000) False"
    by (cases "parseSignatureHeader (hq_signature req)") (auto simp: verifyWebhookSignature_def DEFAULT_REPLAY_WINDOW_SECONDS_def Let_def)
  moreover have "ev \<in> set (ob_events s)" "we_id ev = wd_webhookEventId d" using ev by (auto dest: find_Some_set)
  ultimately show ?thesis using d e pub sent(1-5,7-) unfolding isSuccessStatus_def by blast
qed

section \<open>Runs\<close>

text \<open>A dispatcher whose endpoints give one answer, and tables with endpoints and events of one merchant.\<close>

definition sample_dispatcher :: "string + int \<times> string \<Rightarrow> nat \<Rightarrow> dispatcher" where
  "sample_dispatcher answer batch = \<lparr>di_gen = (\<lambda>n. replicate n (CHR ''1'')), di_decrypt = Some, di_hmac = (\<lambda>_ _. replicate 64 (CHR ''a'')),
     di_fetch = (\<lambda>_. (answer, 5)), di_parse = (\<lambda>_. Some \<lparr>url_protocol = ''https:'', url_hostname = ''shop.example''\<rparr>),
     di_resolve = (\<lambda>_. Some [''93.184.216.34'']), di_random = (\<lambda>_. 1 / 2), di_errorMessage = (\<lambda>_. ''database error''),
     di_disableAfter = 20, di_staleInFlightMs = 300000, di_batchSize = batch, di_blockPrivateNetworks = True\<rparr>"

definition sample_endpoint :: "string list \<Rightarrow> webhook_endpoint" where
  "sample_endpoint types = \<lparr>ep_id = ''e1'', ep_merchantId = ''m1'', ep_url = ''https://shop.example/hook'', ep_eventTypes = types, ep_secretEncrypted = ''k'',
     ep_enabled = True, ep_maxAttempts = 8, ep_timeoutMs = 10000, ep_consecutiveFailures = 0, ep_disabledAt = None, ep_disabledReason = None\<rparr>"

definition sample_event :: "string \<Rightarrow> string \<Rightarrow> webhook_event" where
  "sample_event i ty = \<lparr>we_id = i, we_merchantId = ''m1'', we_invoiceId = None, we_type = ty, we_idempotencyKey = i, we_payload = JObj [(''id'', JStr i)]\<rparr>"

definition sample_outbox :: "string list \<Rightarrow> webhook_event list \<Rightarrow> outbox" where
  "sample_outbox types evs = \<lparr>ob_events = evs, ob_endpoints = [sample_endpoint types], ob_deliveries = [], ob_ulids = 0, ob_bulkAbandoned = 0\<rparr>"

lemma sample_dispatcher_gen: "inj (di_gen (sample_dispatcher answer batch))"
  by (rule injI) (simp add: sample_dispatcher_def)

lemma sample_outbox_ok: "outbox_ok gen (sample_outbox types evs)"
  by (simp add: outbox_ok_def sample_outbox_def)

definition sample_run :: outbox where
  "sample_run = poll_rounds (sample_dispatcher (Inr (500, ''no'')) 50) [([], 1000), ([sample_event ''w2'' ''invoice.paid''], 40000)] (sample_outbox [] [sample_event ''w1'' ''invoice.paid''])"

lemma sample_run_rows: "map (\<lambda>d. (wd_webhookEventId d, wd_attempt d, wd_status d, wd_nextRetryAt d)) (ob_deliveries sample_run) =
  [(''w1'', 1, DELIVERY_FAILED, Some 31000), (''w2'', 1, DELIVERY_FAILED, Some 70000), (''w1'', 2, DELIVERY_FAILED, Some 100000)]"
  by code_simp

definition sample_success :: outbox where
  "sample_success = poll_rounds (sample_dispatcher (Inr (204, [])) 50) [([], 1000), ([], 40000)] (sample_outbox [] [sample_event ''w1'' ''invoice.paid''])"

theorem event_succeeds_at_most_once_witness:
  "length (ob_deliveries sample_success) = 1 \<and> set (ob_deliveries sample_success) \<subseteq> {hd (ob_deliveries sample_success)}"
proof -
  have one: "length (ob_deliveries sample_success) = 1" by code_simp
  then obtain d where d: "ob_deliveries sample_success = [d]" by (cases "ob_deliveries sample_success") auto
  have "list_all (\<lambda>d. wd_status d = DELIVERED) (ob_deliveries sample_success)" by code_simp
  with d have "wd_status d = DELIVERED" by simp
  with d have "d' = d \<or> wd_attempt d' < wd_attempt d \<and> wd_status d' \<in> {DELIVERY_FAILED, ABANDONED}" if "d' \<in> set (ob_deliveries sample_success)" for d'
    using event_succeeds_at_most_once [OF sample_dispatcher_gen sample_outbox_ok sample_success_def, of d d'] that by auto
  with one d show ?thesis by auto
qed

definition sample_pending :: outbox where
  "sample_pending = (sample_outbox [] [sample_event ''w1'' ''invoice.paid''])\<lparr>ob_deliveries := [new_delivery 1000 ''d1'' ''w1'' (sample_endpoint []) 1]\<rparr>"

theorem delivered_means_accepted_witness:
  "\<exists>req :: http_request. hq_url req = ''https://shop.example/hook'' \<and>
     verifyWebhookSignature (\<lambda>_ _. replicate 64 (CHR ''a'')) ''k'' (hq_body req) (hq_signature req) None 100 None = Valid 1 False"
proof -
  let ?di = "sample_dispatcher (Inr (204, [])) 50"
  have hmac: "di_hmac ?di = (\<lambda>_ _. replicate 64 (CHR ''a''))" "di_decrypt ?di = Some" by (simp_all add: sample_dispatcher_def)
  have digest: "is_digest (replicate 64 (CHR ''a''))" by code_simp
  have out: "fst (attemptDelivery ?di 1000 ''d1'' sample_pending) = Inr (Some Delivered)" by code_simp
  then have run: "attemptDelivery ?di 1000 ''d1'' sample_pending = (Inr (Some Delivered), snd (attemptDelivery ?di 1000 ''d1'' sample_pending))"
    by (metis prod.collapse)
  have ep: "ep_url e = ''https://shop.example/hook'' \<and> ep_secretEncrypted e = ''k''" if "find_endpoint j sample_pending = Some e" for j e
    using that by (auto simp: find_endpoint_def sample_pending_def sample_outbox_def sample_endpoint_def split: if_splits)
  have dg: "\<And>k p. is_digest (di_hmac ?di k p)" by (simp add: hmac digest)
  have lo: "(0 :: int) \<le> 1000" "(1000 :: int) < 10 ^ 18" "\<bar>100 - 1000 div 1000\<bar> \<le> (300 :: int)" by simp_all
  obtain d :: webhook_delivery and e and req :: http_request and secret where "find_endpoint (wd_endpointId d) sample_pending = Some e" "hq_url req = ep_url e"
    "di_decrypt ?di (ep_secretEncrypted e) = Some secret"
    "verifyWebhookSignature (di_hmac ?di) secret (hq_body req) (hq_signature req) None 100 None = Valid (1000 div 1000) False"
    using delivered_means_accepted [where di = ?di, OF dg lo run] by blast
  then show ?thesis using ep by (auto simp: hmac)
qed

text \<open>A failed row keeps its retry time after the retry was inserted, so that it is due again in every poll:
  with as many such rows as fit into a batch, a newer failure that is due gets no further attempt,
  while each poll reports the old retry as promoted once more.\<close>

lemma retry_starvation:
  "let di = sample_dispatcher (Inr (500, ''no'')) 1;
       s = poll_rounds di [([], 1000), ([sample_event ''w2'' ''invoice.paid''], 2000)] (sample_outbox [] [sample_event ''w1'' ''invoice.paid'']);
       t = poll_rounds di [([], 32000), ([], 40000), ([], 200000), ([], 300000)] s in
   map (\<lambda>d. (wd_webhookEventId d, wd_attempt d, wd_status d, wd_nextRetryAt d)) (ob_deliveries t) =
     [(''w1'', 1, DELIVERY_FAILED, Some 31000), (''w2'', 1, DELIVERY_FAILED, Some 32000), (''w1'', 2, DELIVERY_FAILED, Some 92000)] \<and>
   map_sum id dm_retriesPromoted (fst (runOnce di 400000 t)) = Inr 1"
  by code_simp

text \<open>An event no endpoint of its merchant subscribes to is never fanned out and stays at the front of the
  query: with as many such events as fit into a batch, later events are not delivered.\<close>

lemma fan_out_starvation:
  "let di = sample_dispatcher (Inr (204, [])) 1;
       s = sample_outbox [''invoice.paid''] [sample_event ''w1'' ''invoice.created'', sample_event ''w2'' ''invoice.paid''] in
   ob_deliveries (poll_rounds di [([], 1000), ([], 2000), ([], 3000)] s) = []"
  by code_simp

end
