(* ===== verification/Idempotency.thy ===== *)
theory Idempotency
  imports System
begin

text \<open>
  Idempotency of mutating API calls (\<open>apps/api/src/common/idempotency.service.ts\<close>) and the endpoint that
  creates invoices under it (\<open>invoices.controller.ts\<close>). The phases of \<open>execute\<close> are operations of their
  own: once composed sequentially around a handler, and once as the steps of concurrent requests that
  interleave in any order and may crash anywhere. SHA-256 and the validation of the request body are
  parameters.
\<close>

section \<open>The phases\<close>

definition hashBody :: "(string \<Rightarrow> string) \<Rightarrow> json \<Rightarrow> string" where
  "hashBody sha256 body = sha256 (json_stringify body)"

type_synonym key_triple = "string \<times> string \<times> string"

definition row_triple :: "idempotency_key \<Rightarrow> key_triple" where
  "row_triple r = (ik_merchantId r, ik_endpoint r, ik_key r)"

definition find_key :: "key_triple \<Rightarrow> db \<Rightarrow> idempotency_key option" where
  "find_key tr s = find (\<lambda>r. row_triple r = tr) (idempotency_keys s)"

definition key_reused :: "string \<Rightarrow> failure" where
  "key_reused key = RequestError (ConflictError ''this idempotency key was already used with a different request body''
     IDEMPOTENCY_KEY_REUSED (Some [(''key'', JStr key)]))"

definition key_in_flight :: "string \<Rightarrow> failure" where
  "key_in_flight key = RequestError (ConflictError ''a request with this idempotency key is already in progress''
     IDEMPOTENT_REQUEST_IN_FLIGHT (Some [(''key'', JStr key)]))"

record response =
  rp_status :: int
  rp_body :: json

lemma response_eta [simp]: "\<lparr>rp_status = rp_status x, rp_body = rp_body x\<rparr> = x"
  by (cases x) simp

text \<open>What the lookup decides: an error, a response to replay, or that the key is to be claimed.\<close>

definition check_existing :: "key_triple \<Rightarrow> string \<Rightarrow> db \<Rightarrow> failure + response option" where
  "check_existing tr requestHash s =
     (case find_key tr s of None \<Rightarrow> Inr None
      | Some existing \<Rightarrow>
          if ik_requestHash existing \<noteq> requestHash then Inl (key_reused (snd (snd tr)))
          else if ik_completedAt existing \<noteq> None then
            Inr (Some \<lparr>rp_status = the (ik_responseStatus existing), rp_body = the (ik_responseBody existing)\<rparr>)
          else Inl (key_in_flight (snd (snd tr))))"

definition create_key :: "int \<Rightarrow> int \<Rightarrow> key_triple \<Rightarrow> string \<Rightarrow> string \<Rightarrow> unit tx" where
  "create_key now ttlMs tr requestHash i =
     (\<lambda>s. if list_ex (\<lambda>r. row_triple r = tr \<or> ik_id r = i) (idempotency_keys s) then Inl (UniqueViolation ''idempotency_keys'')
          else Inr ((), s\<lparr>idempotency_keys := idempotency_keys s @
            [\<lparr>ik_id = i, ik_merchantId = fst tr, ik_endpoint = fst (snd tr), ik_key = snd (snd tr), ik_requestHash = requestHash,
              ik_lockedAt = Some now, ik_responseStatus = None, ik_responseBody = None, ik_completedAt = None, ik_expiresAt = now + ttlMs\<rparr>]\<rparr>))"

definition claim_key :: "(nat \<Rightarrow> string) \<Rightarrow> int \<Rightarrow> int \<Rightarrow> key_triple \<Rightarrow> string \<Rightarrow> unit service" where
  "claim_key gen now ttlMs tr requestHash =
     pbind (atomically (fresh_id gen IdempotencyId)) (\<lambda>i.
     pcatch (atomically (create_key now ttlMs tr requestHash i)) (\<lambda>_. pthrow (key_in_flight (snd (snd tr)))))"

text \<open>Deleting the row; that there is none is ignored.\<close>

definition release_key :: "key_triple \<Rightarrow> unit service" where
  "release_key tr = pmodify (\<lambda>s. s\<lparr>idempotency_keys := filter (\<lambda>r. row_triple r \<noteq> tr) (idempotency_keys s)\<rparr>)"

definition complete_key :: "int \<Rightarrow> key_triple \<Rightarrow> response \<Rightarrow> unit service" where
  "complete_key now tr result =
     pbind (preads (find_key tr)) (\<lambda>found. case found of None \<Rightarrow> pthrow (RecordNotFound ''IdempotencyKey'' (snd (snd tr)))
     | Some _ \<Rightarrow> pmodify (\<lambda>s. s\<lparr>idempotency_keys := update_rows (\<lambda>r. row_triple r = tr)
         (\<lambda>r. r\<lparr>ik_responseStatus := Some (rp_status result), ik_responseBody := Some (rp_body result), ik_completedAt := Some now\<rparr>)
         (idempotency_keys s)\<rparr>))"

definition execute ::
  "(string \<Rightarrow> string) \<Rightarrow> (nat \<Rightarrow> string) \<Rightarrow> int \<Rightarrow> key_triple \<Rightarrow> json \<Rightarrow> int option \<Rightarrow> response service \<Rightarrow> (response \<times> bool) service" where
  "execute sha256 gen now tr requestBody ttl handler =
     (let requestHash = hashBody sha256 requestBody; ttlMs = (case ttl of None \<Rightarrow> 24 * 60 * 60 * 1000 | Some t \<Rightarrow> t) in
      pbind (\<lambda>s. (check_existing tr requestHash s, s)) (\<lambda>existing.
      case existing of Some r \<Rightarrow> pret (r, True)
      | None \<Rightarrow>
          pbind (claim_key gen now ttlMs tr requestHash) (\<lambda>_.
          pbind (pcatch handler (\<lambda>error. pbind (release_key tr) (\<lambda>_. pthrow error))) (\<lambda>result.
          pbind (complete_key now tr result) (\<lambda>_. pret (result, False))))))"

section \<open>The endpoint\<close>

definition opt_json :: "string option \<Rightarrow> json" where
  "opt_json x = (case x of None \<Rightarrow> JNull | Some v \<Rightarrow> JStr v)"

definition invoice_response_json :: "invoice_response \<Rightarrow> json" where
  "invoice_response_json r = JObj
    [(''id'', JStr (ir_id r)), (''order_id'', JStr (ir_order_id r)), (''external_reference'', opt_json (ir_external_reference r)),
     (''status'', JStr (ir_status r)), (''amount'', JStr (ir_amount r)), (''currency'', JStr (ir_currency r)), (''asset'', JStr (ir_asset r)),
     (''network'', JStr (ir_network r)), (''crypto_amount'', JStr (ir_crypto_amount r)), (''received_amount'', JStr (ir_received_amount r)),
     (''confirmed_amount'', JStr (ir_confirmed_amount r)), (''payment_address'', opt_json (ir_payment_address r)),
     (''payment_uri'', opt_json (ir_payment_uri r)), (''confirmation_count'', JNum (ir_confirmation_count r)),
     (''required_confirmations'', JNum (ir_required_confirmations r)), (''transaction_hash'', opt_json (ir_transaction_hash r)),
     (''callback_url'', opt_json (ir_callback_url r)), (''metadata'', JObj (ir_metadata r)), (''expires_at'', JStr (ir_expires_at r)),
     (''detected_at'', opt_json (ir_detected_at r)), (''paid_at'', opt_json (ir_paid_at r)), (''created_at'', JStr (ir_created_at r))]"

text \<open>What the API is configured with: the hash, the generator, the longest expiry, the rates, the rows
  other transactions hold, and the validation of the body.\<close>

record api_env =
  api_sha256 :: "string \<Rightarrow> string"
  api_gen :: "nat \<Rightarrow> string"
  api_maxExpiry :: int
  api_getRate :: "string \<Rightarrow> string \<Rightarrow> failure + exchange_rate"
  api_locked :: "string list"
  api_dto :: "json \<Rightarrow> create_invoice_dto"

definition create_endpoint :: "api_env \<Rightarrow> int \<Rightarrow> merchant_context \<Rightarrow> json \<Rightarrow> string option \<Rightarrow> json service" where
  "create_endpoint env now merchant body idempotencyKey =
     (case idempotencyKey of
        None \<Rightarrow> pthrow (RequestError (ValidationError ''the Idempotency-Key header is required for this request'' None))
      | Some key \<Rightarrow>
          if key = [] then pthrow (RequestError (ValidationError ''the Idempotency-Key header is required for this request'' None))
          else pbind (execute (api_sha256 env) (api_gen env) now (mc_merchantId merchant, ''POST /v1/payment-invoices'', key) body None
            (pbind (createInvoice (api_gen env) now (api_maxExpiry env) (api_getRate env) (api_locked env) merchant (api_dto env body))
              (\<lambda>r. pret \<lparr>rp_status = 201, rp_body = invoice_response_json r\<rparr>))) (\<lambda>(result, _). pret (rp_body result)))"

section \<open>Sequential use\<close>

text \<open>None of the gateway's operations touches the keys.\<close>

definition same_keys :: "db \<Rightarrow> db \<Rightarrow> bool" where
  "same_keys s t \<longleftrightarrow> idempotency_keys t = idempotency_keys s"

interpretation gw_keys: gateway_relation same_keys gen for gen
proof
  fix p show "steps same_keys (postPaymentCredit gen p)"
    unfolding steps_def
  proof (intro allI impI)
    fix s r t assume "postPaymentCredit gen p s = Inr (r, t)"
    from posting_state [OF this] show "same_keys s t" by (auto simp: same_keys_def)
  qed
qed (simp_all add: same_keys_def)

lemma run_gateway_keys: "idempotency_keys (run_gateway gen grace calls s) = idempotency_keys s"
  using gw_keys.R_run_gateway [of s gen grace calls] by (simp add: same_keys_def)

lemma createInvoice_keys: "createInvoice gen now mx rate locked m dto s = (r, t) \<Longrightarrow> idempotency_keys t = idempotency_keys s"
  using psteps_D [OF gw_keys.create, of s gen now mx rate locked m dto] by (simp add: same_keys_def)

definition claimed_row :: "int \<Rightarrow> int \<Rightarrow> key_triple \<Rightarrow> string \<Rightarrow> string \<Rightarrow> idempotency_key" where
  "claimed_row now ttlMs tr requestHash i =
     \<lparr>ik_id = i, ik_merchantId = fst tr, ik_endpoint = fst (snd tr), ik_key = snd (snd tr), ik_requestHash = requestHash,
      ik_lockedAt = Some now, ik_responseStatus = None, ik_responseBody = None, ik_completedAt = None, ik_expiresAt = now + ttlMs\<rparr>"

lemma claimed_row_sel [simp]:
  "row_triple (claimed_row now ttl tr h i) = tr" "ik_requestHash (claimed_row now ttl tr h i) = h" "ik_completedAt (claimed_row now ttl tr h i) = None"
  by (simp_all add: claimed_row_def row_triple_def)

lemma claim_key_result:
  "claim_key gen now ttl tr h s = (r, t) \<Longrightarrow>
    (case r of Inl e \<Rightarrow> e = key_in_flight (snd (snd tr)) \<and> idempotency_keys t = idempotency_keys s
     | Inr _ \<Rightarrow> find_key tr s = None \<and> (\<exists>i. idempotency_keys t = idempotency_keys s @ [claimed_row now ttl tr h i]))"
  by (auto simp: claim_key_def pbind_def pcatch_def atomically_def fresh_id_def create_key_def claimed_row_def find_key_def
      list_ex_iff find_None_iff split: if_splits)

lemma find_key_triple: "find_key tr s = Some r \<Longrightarrow> row_triple r = tr \<and> r \<in> set (idempotency_keys s)"
  by (auto simp: find_key_def dest: find_Some_set)

lemma find_key_None: "find_key tr s = None \<longleftrightarrow> tr \<notin> row_triple ` set (idempotency_keys s)"
  by (auto simp: find_key_def find_None_iff)

text \<open>What one execution leaves in the table, whatever the handler does that does not touch it.\<close>

definition stored :: "key_triple \<Rightarrow> string \<Rightarrow> response \<Rightarrow> db \<Rightarrow> bool" where
  "stored tr h result s \<longleftrightarrow> check_existing tr h s = Inr (Some result) \<and> (\<exists>row. find_key tr s = Some row \<and> ik_requestHash row = h)"

lemma check_stored: "check_existing tr h s = Inr (Some result) \<Longrightarrow> stored tr h result s"
  by (auto simp: stored_def check_existing_def split: option.splits if_splits)

lemma execute_result:
  assumes handler: "psteps same_keys handler" and run: "execute sha gen now tr body ttl handler s = (r, t)"
  shows "case r of Inl e \<Rightarrow> idempotency_keys t = idempotency_keys s
    | Inr (result, replayed) \<Rightarrow> stored tr (hashBody sha body) result t \<and> (if replayed then t = s else find_key tr s = None)"
proof -
  define h where "h = hashBody sha body"
  define ms where "ms = (case ttl of None \<Rightarrow> 24 * 60 * 60 * 1000 | Some t \<Rightarrow> t)"
  have fold: "execute sha gen now tr body ttl handler s = pbind (\<lambda>s. (check_existing tr h s, s)) (\<lambda>existing.
      case existing of Some r \<Rightarrow> pret (r, True)
      | None \<Rightarrow> pbind (claim_key gen now ms tr h) (\<lambda>_.
          pbind (pcatch handler (\<lambda>error. pbind (release_key tr) (\<lambda>_. pthrow error))) (\<lambda>result.
          pbind (complete_key now tr result) (\<lambda>_. pret (result, False))))) s"
    unfolding execute_def h_def ms_def Let_def by (rule refl)
  show ?thesis
  proof (cases "check_existing tr h s")
    case (Inl e) then show ?thesis using run unfolding fold by (auto simp: pbind_def)
  next
    case (Inr x)
    note look = this
    show ?thesis
    proof (cases x)
      case (Some result) then show ?thesis using run look check_stored [of tr h s result] unfolding fold by (auto simp: pbind_def h_def [symmetric])
    next
      case None
      obtain c u where u: "claim_key gen now ms tr h s = (c, u)" by fastforce
      show ?thesis
      proof (cases c)
        case (Inl e) then show ?thesis using run look None u claim_key_result [OF u] unfolding fold by (auto simp: pbind_def)
      next
        case (Inr unit)
        with claim_key_result [OF u] obtain i where free: "find_key tr s = None" and keys: "idempotency_keys u = idempotency_keys s @ [claimed_row now ms tr h i]" by auto
        obtain a v where v: "handler u = (a, v)" by fastforce
        have kv: "idempotency_keys v = idempotency_keys s @ [claimed_row now ms tr h i]" using psteps_D [OF handler, of u] v keys by (simp add: same_keys_def)
        show ?thesis
        proof (cases a)
          case (Inl e)
          have "r = Inl e \<and> idempotency_keys t = filter (\<lambda>r. row_triple r \<noteq> tr) (idempotency_keys v)"
            using run look None u v Inr Inl unfolding fold by (auto simp: pbind_def pcatch_def release_key_def)
          moreover have "filter (\<lambda>r. row_triple r \<noteq> tr) (idempotency_keys s) = idempotency_keys s"
            using free by (force simp: find_key_None filter_id_conv)
          ultimately show ?thesis using kv by simp
        next
          case (Inr result)
          let ?f = "\<lambda>r. r\<lparr>ik_responseStatus := Some (rp_status result), ik_responseBody := Some (rp_body result), ik_completedAt := Some now\<rparr>"
          have fv: "find_key tr v = Some (claimed_row now ms tr h i)" using free by (simp add: find_key_def kv find_append)
          then have res: "r = Inr (result, False)" "t = v\<lparr>idempotency_keys := update_rows (\<lambda>r. row_triple r = tr) ?f (idempotency_keys v)\<rparr>"
            using run look None u v \<open>c = Inr unit\<close> Inr unfolding fold by (auto simp: pbind_def pcatch_def complete_key_def)
          have "find_key tr t = map_option (\<lambda>r. if row_triple r = tr then ?f r else r) (find_key tr v)"
            unfolding find_key_def res(2) by (simp, rule find_update_rows) (simp add: row_triple_def)
          with fv have "find_key tr t = Some (?f (claimed_row now ms tr h i))" by simp
          then have "check_existing tr h t = Inr (Some result)" by (simp add: check_existing_def claimed_row_def)
          then show ?thesis using res(1) free check_stored by (simp add: h_def [symmetric])
        qed
      qed
    qed
  qed
qed

lemma stored_replays:
  assumes "stored tr h result s" "idempotency_keys t = idempotency_keys s"
  shows "check_existing tr h t = Inr (Some result)" "h' \<noteq> h \<Longrightarrow> check_existing tr h' t = Inl (key_reused (snd (snd tr)))"
  using assms by (auto simp: stored_def check_existing_def find_key_def)

lemma create_endpoint_keys:
  assumes run: "create_endpoint env now m body (Some key) s = (r, t)"
  defines "tr \<equiv> (mc_merchantId m, ''POST /v1/payment-invoices'', key)"
  shows "case r of Inl e \<Rightarrow> idempotency_keys t = idempotency_keys s
    | Inr resp \<Rightarrow> \<exists>status. stored tr (hashBody (api_sha256 env) body) \<lparr>rp_status = status, rp_body = resp\<rparr> t"
proof (cases "key = []")
  case True then show ?thesis using run by (auto simp: create_endpoint_def)
next
  case False
  let ?h = "pbind (createInvoice (api_gen env) now (api_maxExpiry env) (api_getRate env) (api_locked env) m (api_dto env body))
    (\<lambda>r. pret \<lparr>rp_status = 201, rp_body = invoice_response_json r\<rparr>)"
  obtain x u where x: "execute (api_sha256 env) (api_gen env) now tr body None ?h s = (x, u)" by fastforce
  have "psteps same_keys ?h" by (intro gw_keys.psteps_rules gw_keys.create)
  from execute_result [OF this x] show ?thesis
    using run False x by (auto simp: create_endpoint_def pbind_def tr_def [symmetric] split: sum.splits) (metis response.surjective old.unit.exhaust)
qed

text \<open>Creating an invoice is idempotent under its key. After a request was answered, and after whatever
  the gateway did since, repeating it with the same key and body returns the same answer, whatever
  the time, the rates or the pool are by then, and changes nothing; the same key with a body of
  another hash is refused and changes nothing. A request that failed leaves no key behind.\<close>

lemma creation_is_idempotent:
  assumes "create_endpoint env now merchant body (Some key) s = (r, t)" and "t' = run_gateway gen grace calls t"
    and "api_sha256 env' = api_sha256 env"
  shows "case r of Inl e \<Rightarrow> idempotency_keys t = idempotency_keys s
    | Inr resp \<Rightarrow> create_endpoint env' now' merchant body (Some key) t' = (Inr resp, t') \<and>
        (hashBody (api_sha256 env) body' \<noteq> hashBody (api_sha256 env) body \<longrightarrow>
          create_endpoint env' now' merchant body' (Some key) t' = (Inl (key_reused key), t'))"
proof (cases r)
  case (Inl e) then show ?thesis using create_endpoint_keys [OF assms(1)] by simp
next
  case (Inr resp)
  then obtain status where st: "stored (mc_merchantId merchant, ''POST /v1/payment-invoices'', key) (hashBody (api_sha256 env) body)
      \<lparr>rp_status = status, rp_body = resp\<rparr> t" using create_endpoint_keys [OF assms(1)] by auto
  have "key \<noteq> []" using assms(1) Inr by (auto simp: create_endpoint_def)
  with stored_replays [OF st, of t'] Inr assms(2,3) run_gateway_keys show ?thesis
    by (simp add: create_endpoint_def execute_def Let_def pbind_def)
qed

section \<open>Concurrent requests\<close>

text \<open>Requests of many clients in flight at once. A request holds its key from the claim until its row is
  released or completed; the handler runs in between, against a database others write to as well.\<close>

datatype phase =
    Arrived
  | Absent
  | Running
  | Returned response
  | Thrown failure
  | Answered "failure + response \<times> bool"
  | Crashed

record request =
  rq_triple :: key_triple
  rq_hash :: string
  rq_phase :: phase

text \<open>\<open>srv_log\<close> records the runs of handlers that succeeded, with the request they ran for.\<close>

record server =
  srv_db :: db
  srv_requests :: "request list"
  srv_log :: "(key_triple \<times> string \<times> response) list"

definition set_phase :: "nat \<Rightarrow> phase \<Rightarrow> server \<Rightarrow> server" where
  "set_phase i p s = s\<lparr>srv_requests := (srv_requests s)[i := (srv_requests s ! i)\<lparr>rq_phase := p\<rparr>]\<rparr>"

definition after_lookup :: "failure + response option \<Rightarrow> phase" where
  "after_lookup r = (case r of Inl e \<Rightarrow> Answered (Inl e) | Inr None \<Rightarrow> Absent | Inr (Some x) \<Rightarrow> Answered (Inr (x, True)))"

definition after_claim :: "failure + unit \<Rightarrow> phase" where
  "after_claim r = (case r of Inl e \<Rightarrow> Answered (Inl e) | Inr _ \<Rightarrow> Running)"

definition after_complete :: "response \<Rightarrow> failure + unit \<Rightarrow> phase" where
  "after_complete x r = (case r of Inl e \<Rightarrow> Answered (Inl e) | Inr _ \<Rightarrow> Answered (Inr (x, False)))"

inductive server_step :: "(nat \<Rightarrow> string) \<Rightarrow> server \<Rightarrow> server \<Rightarrow> bool" for gen where
  arrive: "server_step gen s (s\<lparr>srv_requests := srv_requests s @ [\<lparr>rq_triple = tr, rq_hash = h, rq_phase = Arrived\<rparr>]\<rparr>)"
| look: "i < length (srv_requests s) \<Longrightarrow> q = srv_requests s ! i \<Longrightarrow> rq_phase q = Arrived \<Longrightarrow>
    server_step gen s (set_phase i (after_lookup (check_existing (rq_triple q) (rq_hash q) (srv_db s))) s)"
| claim: "i < length (srv_requests s) \<Longrightarrow> q = srv_requests s ! i \<Longrightarrow> rq_phase q = Absent \<Longrightarrow>
    claim_key gen now ttl (rq_triple q) (rq_hash q) (srv_db s) = (r, d) \<Longrightarrow>
    server_step gen s ((set_phase i (after_claim r) s)\<lparr>srv_db := d\<rparr>)"
| succeed: "i < length (srv_requests s) \<Longrightarrow> q = srv_requests s ! i \<Longrightarrow> rq_phase q = Running \<Longrightarrow> same_keys (srv_db s) d \<Longrightarrow>
    server_step gen s ((set_phase i (Returned x) s)\<lparr>srv_db := d, srv_log := srv_log s @ [(rq_triple q, rq_hash q, x)]\<rparr>)"
| fail: "i < length (srv_requests s) \<Longrightarrow> q = srv_requests s ! i \<Longrightarrow> rq_phase q = Running \<Longrightarrow> same_keys (srv_db s) d \<Longrightarrow>
    server_step gen s ((set_phase i (Thrown e) s)\<lparr>srv_db := d\<rparr>)"
| release: "i < length (srv_requests s) \<Longrightarrow> q = srv_requests s ! i \<Longrightarrow> rq_phase q = Thrown e \<Longrightarrow>
    server_step gen s ((set_phase i (Answered (Inl e)) s)\<lparr>srv_db := snd (release_key (rq_triple q) (srv_db s))\<rparr>)"
| complete: "i < length (srv_requests s) \<Longrightarrow> q = srv_requests s ! i \<Longrightarrow> rq_phase q = Returned x \<Longrightarrow>
    complete_key now (rq_triple q) x (srv_db s) = (r, d) \<Longrightarrow>
    server_step gen s ((set_phase i (after_complete x r) s)\<lparr>srv_db := d\<rparr>)"
| crash: "i < length (srv_requests s) \<Longrightarrow> server_step gen s (set_phase i Crashed s)"
| other: "same_keys (srv_db s) d \<Longrightarrow> server_step gen s (s\<lparr>srv_db := d\<rparr>)"

inductive served :: "(nat \<Rightarrow> string) \<Rightarrow> server \<Rightarrow> bool" for gen where
  idle: "idempotency_keys d = [] \<Longrightarrow> served gen \<lparr>srv_db = d, srv_requests = [], srv_log = []\<rparr>"
| step: "served gen s \<Longrightarrow> server_step gen s t \<Longrightarrow> served gen t"

definition holds_key :: "phase \<Rightarrow> bool" where
  "holds_key p \<longleftrightarrow> (case p of Running \<Rightarrow> True | Returned _ \<Rightarrow> True | Thrown _ \<Rightarrow> True | _ \<Rightarrow> False)"

text \<open>The invariant, over the rows of the table, the requests and the log. Every holder has an open row of
  its own; a success is logged once per key and its row is never removed; what a row or an answer
  contains was logged.\<close>

definition request_ok :: "idempotency_key list \<Rightarrow> (key_triple \<times> string \<times> response) list \<Rightarrow> request \<Rightarrow> bool" where
  "request_ok rows log q \<longleftrightarrow>
     (holds_key (rq_phase q) \<longrightarrow> (\<exists>r\<in>set rows. row_triple r = rq_triple q \<and> ik_completedAt r = None \<and> ik_requestHash r = rq_hash q)) \<and>
     (case rq_phase q of Running \<Rightarrow> rq_triple q \<notin> fst ` set log | Thrown _ \<Rightarrow> rq_triple q \<notin> fst ` set log
      | Returned x \<Rightarrow> (rq_triple q, rq_hash q, x) \<in> set log
      | Answered (Inr (x, _)) \<Rightarrow> (rq_triple q, rq_hash q, x) \<in> set log | _ \<Rightarrow> True)"

definition row_ok :: "(key_triple \<times> string \<times> response) list \<Rightarrow> idempotency_key \<Rightarrow> bool" where
  "row_ok log r \<longleftrightarrow> ik_completedAt r = None \<or>
     (\<exists>x. (row_triple r, ik_requestHash r, x) \<in> set log \<and> ik_responseStatus r = Some (rp_status x) \<and> ik_responseBody r = Some (rp_body x))"

definition sole_holders :: "request list \<Rightarrow> bool" where
  "sole_holders qs \<longleftrightarrow> (\<forall>i < length qs. \<forall>j < length qs. holds_key (rq_phase (qs ! i)) \<and> holds_key (rq_phase (qs ! j)) \<and>
     rq_triple (qs ! i) = rq_triple (qs ! j) \<longrightarrow> i = j)"

definition server_ok :: "server \<Rightarrow> bool" where
  "server_ok s \<longleftrightarrow> (let rows = idempotency_keys (srv_db s); log = srv_log s in
     distinct (map row_triple rows) \<and> distinct (map fst log) \<and> sole_holders (srv_requests s) \<and>
     list_all (\<lambda>(tr, h, x). \<exists>r\<in>set rows. row_triple r = tr \<and> ik_requestHash r = h) log \<and>
     list_all (row_ok log) rows \<and> list_all (request_ok rows log) (srv_requests s))"

lemma holds_key_simps [simp]:
  "holds_key Running" "holds_key (Returned x)" "holds_key (Thrown e)" "\<not> holds_key Arrived" "\<not> holds_key Absent" "\<not> holds_key (Answered a)" "\<not> holds_key Crashed"
  by (simp_all add: holds_key_def)

lemma set_phase_simps [simp]:
  "srv_db (set_phase i p s) = srv_db s" "srv_log (set_phase i p s) = srv_log s"
  "srv_requests (set_phase i p s) = (srv_requests s)[i := (srv_requests s ! i)\<lparr>rq_phase := p\<rparr>]"
  by (simp_all add: set_phase_def)

lemma sole_holders_update:
  assumes "sole_holders qs" "i < length qs"
    and "holds_key p \<Longrightarrow> holds_key (rq_phase (qs ! i)) \<or> (\<forall>q\<in>set qs. holds_key (rq_phase q) \<longrightarrow> rq_triple q \<noteq> rq_triple (qs ! i))"
  shows "sole_holders (qs[i := (qs ! i)\<lparr>rq_phase := p\<rparr>])"
  unfolding sole_holders_def
proof (intro allI impI, elim conjE)
  let ?qs = "qs[i := (qs ! i)\<lparr>rq_phase := p\<rparr>]"
  fix a b assume ab: "a < length ?qs" "b < length ?qs" "holds_key (rq_phase (?qs ! a))" "holds_key (rq_phase (?qs ! b))" "rq_triple (?qs ! a) = rq_triple (?qs ! b)"
  have tr: "rq_triple (?qs ! k) = rq_triple (qs ! k)" if "k < length qs" for k using assms(2) that by (cases "k = i") simp_all
  have "holds_key (rq_phase (qs ! k)) \<or> k = i" if "k < length qs" "holds_key (rq_phase (?qs ! k))" for k using that by (cases "k = i") simp_all
  then have held: "holds_key (rq_phase (qs ! a)) \<or> a = i" "holds_key (rq_phase (qs ! b)) \<or> b = i" using ab by simp_all
  show "a = b"
  proof (cases "holds_key (rq_phase (qs ! i))")
    case True with held assms(1) ab tr show ?thesis unfolding sole_holders_def by (metis length_list_update)
  next
    case False
    then have "holds_key p" if "a = i \<or> b = i" using ab assms(2) that by auto
    with assms(3) False have free: "a = i \<or> b = i \<Longrightarrow> q \<in> set qs \<Longrightarrow> holds_key (rq_phase q) \<Longrightarrow> rq_triple q \<noteq> rq_triple (qs ! i)" for q by blast
    show ?thesis
    proof (cases "a = i \<or> b = i")
      case True
      with held ab tr free [of "qs ! a"] free [of "qs ! b"] show ?thesis by auto
    next
      case False with held ab assms(1) tr show ?thesis unfolding sole_holders_def by (metis length_list_update)
    qed
  qed
qed

text \<open>The invariant, unfolded over any rows, log and requests.\<close>

definition parts_ok :: "idempotency_key list \<Rightarrow> (key_triple \<times> string \<times> response) list \<Rightarrow> request list \<Rightarrow> bool" where
  "parts_ok rows log qs \<longleftrightarrow> distinct (map row_triple rows) \<and> distinct (map fst log) \<and> sole_holders qs \<and>
     list_all (\<lambda>(tr, h, x). \<exists>r\<in>set rows. row_triple r = tr \<and> ik_requestHash r = h) log \<and>
     list_all (row_ok log) rows \<and> list_all (request_ok rows log) qs"

lemma server_ok_parts: "server_ok s \<longleftrightarrow> parts_ok (idempotency_keys (srv_db s)) (srv_log s) (srv_requests s)"
  by (simp add: server_ok_def parts_ok_def Let_def)

lemma parts_okD:
  assumes "parts_ok rows log qs"
  shows "distinct (map row_triple rows)" "distinct (map fst log)" "sole_holders qs"
    "(tr, h, x) \<in> set log \<Longrightarrow> \<exists>r\<in>set rows. row_triple r = tr \<and> ik_requestHash r = h"
    "r \<in> set rows \<Longrightarrow> row_ok log r" "q \<in> set qs \<Longrightarrow> request_ok rows log q"
  using assms by (auto simp: parts_ok_def list_all_iff)

lemma other_holder:
  assumes "sole_holders qs" "i < length qs" "holds_key (rq_phase (qs ! i))" "j < length qs" "j \<noteq> i" "holds_key (rq_phase (qs ! j))"
  shows "rq_triple (qs ! j) \<noteq> rq_triple (qs ! i)"
  using assms unfolding sole_holders_def by metis

lemma all_updated:
  assumes "\<And>j. j < length qs \<Longrightarrow> j \<noteq> i \<Longrightarrow> P (qs ! j)" "i < length qs \<Longrightarrow> P q"
  shows "list_all P (qs[i := q])"
  unfolding list_all_length using assms by (metis length_list_update nth_list_update_eq nth_list_update_neq)

text \<open>A step that changes neither the table nor the log.\<close>

lemma phase_step_ok:
  assumes ok: "parts_ok rows log qs" and i: "i < length qs" and p: "\<not> holds_key p" "request_ok rows log ((qs ! i)\<lparr>rq_phase := p\<rparr>)"
  shows "parts_ok rows log (qs[i := (qs ! i)\<lparr>rq_phase := p\<rparr>])"
proof -
  have "sole_holders (qs[i := (qs ! i)\<lparr>rq_phase := p\<rparr>])" using parts_okD(3) [OF ok] i p(1) by (intro sole_holders_update) auto
  moreover have "list_all (request_ok rows log) (qs[i := (qs ! i)\<lparr>rq_phase := p\<rparr>])"
    using parts_okD(6) [OF ok] p(2) by (intro all_updated) auto
  ultimately show ?thesis using ok by (simp add: parts_ok_def)
qed

lemma claim_step_ok:
  assumes ok: "parts_ok rows log qs" and i: "i < length qs" and row: "row_triple row = rq_triple (qs ! i)" "ik_completedAt row = None" "ik_requestHash row = rq_hash (qs ! i)"
    and free: "rq_triple (qs ! i) \<notin> row_triple ` set rows"
  shows "parts_ok (rows @ [row]) log (qs[i := (qs ! i)\<lparr>rq_phase := Running\<rparr>])"
proof -
  have unheld: "rq_triple q \<noteq> rq_triple (qs ! i)" if "q \<in> set qs" "holds_key (rq_phase q)" for q
    using parts_okD(6) [OF ok that(1)] that(2) free by (force simp: request_ok_def)
  have "sole_holders (qs[i := (qs ! i)\<lparr>rq_phase := Running\<rparr>])" using parts_okD(3) [OF ok] i unheld by (intro sole_holders_update) auto
  moreover have "rq_triple (qs ! i) \<notin> fst ` set log" using parts_okD(4) [OF ok] free by force
  then have "list_all (request_ok (rows @ [row]) log) (qs[i := (qs ! i)\<lparr>rq_phase := Running\<rparr>])"
    using parts_okD(6) [OF ok] row by (intro all_updated) (force simp: request_ok_def)+
  moreover have "list_all (row_ok log) (rows @ [row])" using ok row(2) by (auto simp: parts_ok_def row_ok_def)
  moreover have "list_all (\<lambda>(tr, h, x). \<exists>r\<in>set (rows @ [row]). row_triple r = tr \<and> ik_requestHash r = h) log"
    using ok by (fastforce simp: parts_ok_def list_all_iff)
  moreover have "distinct (map row_triple (rows @ [row]))" using ok free row(1) by (auto simp: parts_ok_def)
  ultimately show ?thesis using ok by (simp add: parts_ok_def)
qed

lemma succeed_step_ok:
  assumes ok: "parts_ok rows log qs" and i: "i < length qs" and run: "rq_phase (qs ! i) = Running"
  shows "parts_ok rows (log @ [(rq_triple (qs ! i), rq_hash (qs ! i), x)]) (qs[i := (qs ! i)\<lparr>rq_phase := Returned x\<rparr>])"
proof -
  let ?log = "log @ [(rq_triple (qs ! i), rq_hash (qs ! i), x)]"
  have qi: "request_ok rows log (qs ! i)" using parts_okD(6) [OF ok] i by simp
  then have fresh: "rq_triple (qs ! i) \<notin> fst ` set log" and held: "\<exists>r\<in>set rows. row_triple r = rq_triple (qs ! i) \<and> ik_completedAt r = None \<and> ik_requestHash r = rq_hash (qs ! i)"
    using run by (simp_all add: request_ok_def)
  have "sole_holders (qs[i := (qs ! i)\<lparr>rq_phase := Returned x\<rparr>])" using parts_okD(3) [OF ok] i run by (intro sole_holders_update) auto
  moreover have "list_all (request_ok rows ?log) (qs[i := (qs ! i)\<lparr>rq_phase := Returned x\<rparr>])"
  proof (rule all_updated)
    fix j assume j: "j < length qs" "j \<noteq> i"
    then have "request_ok rows log (qs ! j)" using parts_okD(6) [OF ok] by simp
    moreover have "holds_key (rq_phase (qs ! j)) \<Longrightarrow> rq_triple (qs ! j) \<noteq> rq_triple (qs ! i)"
      using other_holder [OF parts_okD(3) [OF ok] i] run j by simp
    ultimately show "request_ok rows ?log (qs ! j)" by (auto simp: request_ok_def split: phase.splits sum.splits)
  next
    show "request_ok rows ?log ((qs ! i)\<lparr>rq_phase := Returned x\<rparr>)" using held by (simp add: request_ok_def)
  qed
  moreover have "list_all (row_ok ?log) rows" using ok by (fastforce simp: parts_ok_def row_ok_def list_all_iff)
  moreover have "distinct (map fst ?log)" using ok fresh by (auto simp: parts_ok_def)
  moreover have "list_all (\<lambda>(tr, h, x). \<exists>r\<in>set rows. row_triple r = tr \<and> ik_requestHash r = h) ?log" using ok held by (auto simp: parts_ok_def)
  ultimately show ?thesis using ok by (simp add: parts_ok_def)
qed

lemma fail_step_ok:
  assumes ok: "parts_ok rows log qs" and i: "i < length qs" and run: "rq_phase (qs ! i) = Running"
  shows "parts_ok rows log (qs[i := (qs ! i)\<lparr>rq_phase := Thrown e\<rparr>])"
proof -
  have "request_ok rows log (qs ! i)" using parts_okD(6) [OF ok] i by simp
  then have "request_ok rows log ((qs ! i)\<lparr>rq_phase := Thrown e\<rparr>)" using run by (simp add: request_ok_def)
  then have "list_all (request_ok rows log) (qs[i := (qs ! i)\<lparr>rq_phase := Thrown e\<rparr>])" using parts_okD(6) [OF ok] by (intro all_updated) auto
  moreover have "sole_holders (qs[i := (qs ! i)\<lparr>rq_phase := Thrown e\<rparr>])" using parts_okD(3) [OF ok] i run by (intro sole_holders_update) auto
  ultimately show ?thesis using ok by (simp add: parts_ok_def)
qed

lemma release_step_ok:
  assumes ok: "parts_ok rows log qs" and i: "i < length qs" and run: "rq_phase (qs ! i) = Thrown e"
  shows "parts_ok (filter (\<lambda>r. row_triple r \<noteq> rq_triple (qs ! i)) rows) log (qs[i := (qs ! i)\<lparr>rq_phase := Answered (Inl e)\<rparr>])"
proof -
  let ?rows = "filter (\<lambda>r. row_triple r \<noteq> rq_triple (qs ! i)) rows"
  have "request_ok rows log (qs ! i)" using parts_okD(6) [OF ok] i by simp
  then have fresh: "rq_triple (qs ! i) \<notin> fst ` set log" using run by (simp add: request_ok_def)
  have "list_all (request_ok ?rows log) (qs[i := (qs ! i)\<lparr>rq_phase := Answered (Inl e)\<rparr>])"
  proof (rule all_updated)
    fix j assume j: "j < length qs" "j \<noteq> i"
    then have "request_ok rows log (qs ! j)" using parts_okD(6) [OF ok] by simp
    moreover have "holds_key (rq_phase (qs ! j)) \<Longrightarrow> rq_triple (qs ! j) \<noteq> rq_triple (qs ! i)"
      using other_holder [OF parts_okD(3) [OF ok] i] run j by simp
    ultimately show "request_ok ?rows log (qs ! j)" by (auto simp: request_ok_def)
  qed (simp add: request_ok_def)
  moreover have "sole_holders (qs[i := (qs ! i)\<lparr>rq_phase := Answered (Inl e)\<rparr>])" using parts_okD(3) [OF ok] i by (intro sole_holders_update) auto
  moreover have "\<exists>r\<in>set ?rows. row_triple r = tr \<and> ik_requestHash r = h" if "(tr, h, x) \<in> set log" for tr h x
    using parts_okD(4) [OF ok that] fresh that by force
  ultimately show ?thesis using ok by (auto simp: parts_ok_def list_all_iff distinct_map_filter)
qed

lemma complete_step_ok:
  assumes ok: "parts_ok rows log qs" and i: "i < length qs" and run: "rq_phase (qs ! i) = Returned x"
  shows "parts_ok (update_rows (\<lambda>r. row_triple r = rq_triple (qs ! i))
      (\<lambda>r. r\<lparr>ik_responseStatus := Some (rp_status x), ik_responseBody := Some (rp_body x), ik_completedAt := Some now\<rparr>) rows) log
      (qs[i := (qs ! i)\<lparr>rq_phase := Answered (Inr (x, False))\<rparr>])"
proof -
  let ?tr = "rq_triple (qs ! i)"
  let ?f = "\<lambda>r. if row_triple r = ?tr then r\<lparr>ik_responseStatus := Some (rp_status x), ik_responseBody := Some (rp_body x), ik_completedAt := Some now\<rparr> else r"
  have key: "row_triple (?f r) = row_triple r" "ik_requestHash (?f r) = ik_requestHash r" for r by (simp_all add: row_triple_def)
  have qi: "request_ok rows log (qs ! i)" using parts_okD(6) [OF ok] i by simp
  then have logged: "(?tr, rq_hash (qs ! i), x) \<in> set log" and held: "\<exists>r\<in>set rows. row_triple r = ?tr \<and> ik_requestHash r = rq_hash (qs ! i)"
    using run by (auto simp: request_ok_def)
  have hash: "ik_requestHash r = rq_hash (qs ! i)" if "r \<in> set rows" "row_triple r = ?tr" for r
  proof -
    from held obtain r0 where "r0 \<in> set rows" "row_triple r0 = ?tr" "ik_requestHash r0 = rq_hash (qs ! i)" by blast
    moreover have "inj_on row_triple (set rows)" using parts_okD(1) [OF ok] by (simp add: distinct_map)
    ultimately have "r0 = r" using that by (intro inj_onD [of row_triple "set rows"]) auto
    then show ?thesis using \<open>ik_requestHash r0 = _\<close> by simp
  qed
  have rows: "list_all (row_ok log) (map ?f rows)"
  proof -
    have "row_ok log (?f r)" if r: "r \<in> set rows" for r
    proof (cases "row_triple r = ?tr")
      case True
      then have "(row_triple (?f r), ik_requestHash (?f r), x) \<in> set log" using logged hash [OF r True] key [of r] by simp
      then show ?thesis using True unfolding row_ok_def by auto
    next
      case False then show ?thesis using parts_okD(5) [OF ok r] by simp
    qed
    then show ?thesis unfolding list_all_iff set_map by blast
  qed
  have reqs: "list_all (request_ok (map ?f rows) log) (qs[i := (qs ! i)\<lparr>rq_phase := Answered (Inr (x, False))\<rparr>])"
  proof (rule all_updated)
    fix j assume j: "j < length qs" "j \<noteq> i"
    then have qj: "request_ok rows log (qs ! j)" using parts_okD(6) [OF ok] by simp
    have "\<exists>r\<in>set (map ?f rows). row_triple r = rq_triple (qs ! j) \<and> ik_completedAt r = None \<and> ik_requestHash r = rq_hash (qs ! j)" if hk: "holds_key (rq_phase (qs ! j))"
    proof -
      have "rq_triple (qs ! j) \<noteq> ?tr" using other_holder [OF parts_okD(3) [OF ok] i] run j hk by simp
      moreover obtain r where "r \<in> set rows" "row_triple r = rq_triple (qs ! j)" "ik_completedAt r = None" "ik_requestHash r = rq_hash (qs ! j)"
        using qj hk by (auto simp: request_ok_def)
      ultimately show ?thesis by (intro bexI [of _ "?f r"]) auto
    qed
    with qj show "request_ok (map ?f rows) log (qs ! j)" by (simp add: request_ok_def)
  next
    show "request_ok (map ?f rows) log ((qs ! i)\<lparr>rq_phase := Answered (Inr (x, False))\<rparr>)" using logged by (simp add: request_ok_def)
  qed
  have sole: "sole_holders (qs[i := (qs ! i)\<lparr>rq_phase := Answered (Inr (x, False))\<rparr>])" using parts_okD(3) [OF ok] i by (intro sole_holders_update) auto
  have logd: "list_all (\<lambda>(tr, h, x). \<exists>r\<in>set (map ?f rows). row_triple r = tr \<and> ik_requestHash r = h) log"
  proof -
    have "\<exists>r\<in>set (map ?f rows). row_triple r = tr \<and> ik_requestHash r = h" if "(tr, h, y) \<in> set log" for tr h y
    proof -
      from parts_okD(4) [OF ok that] obtain r where "r \<in> set rows" "row_triple r = tr" "ik_requestHash r = h" by blast
      then show ?thesis using key [of r] by (intro bexI [of _ "?f r"]) auto
    qed
    then show ?thesis by (auto simp: list_all_iff)
  qed
  have "map row_triple (map ?f rows) = map row_triple rows" using key by simp
  then have dist: "distinct (map row_triple (map ?f rows))" using parts_okD(1) [OF ok] by metis
  show ?thesis unfolding update_rows_def parts_ok_def by (intro conjI dist parts_okD(2) [OF ok] sole logd rows reqs)
qed

lemma lookup_request_ok:
  assumes "parts_ok (idempotency_keys d) log qs"
  shows "request_ok (idempotency_keys d) log (q\<lparr>rq_phase := after_lookup (check_existing (rq_triple q) (rq_hash q) d)\<rparr>)"
proof (cases "check_existing (rq_triple q) (rq_hash q) d")
  case (Inl e) then show ?thesis by (simp add: after_lookup_def request_ok_def)
next
  case (Inr y)
  show ?thesis
  proof (cases y)
    case None then show ?thesis using Inr by (simp add: after_lookup_def request_ok_def)
  next
    case (Some x)
    with Inr obtain row where row: "find_key (rq_triple q) d = Some row" "ik_requestHash row = rq_hash q" "ik_completedAt row \<noteq> None"
      "x = \<lparr>rp_status = the (ik_responseStatus row), rp_body = the (ik_responseBody row)\<rparr>"
      by (auto simp: check_existing_def split: option.splits if_splits)
    with parts_okD(5) [OF assms, of row] find_key_triple [OF row(1)] have "(rq_triple q, rq_hash q, x) \<in> set log" by (auto simp: row_ok_def)
    then show ?thesis using Inr Some by (simp add: after_lookup_def request_ok_def)
  qed
qed

lemma server_step_ok: "server_step gen s t \<Longrightarrow> server_ok s \<Longrightarrow> server_ok t"
  unfolding server_ok_parts
proof (induction rule: server_step.induct)
  case (arrive s tr h)
  let ?qs = "srv_requests s" and ?q = "\<lparr>rq_triple = tr, rq_hash = h, rq_phase = Arrived\<rparr>"
  have "sole_holders (?qs @ [?q])" using parts_okD(3) [OF arrive] by (auto simp: sole_holders_def nth_append less_Suc_eq)
  with arrive show ?case by (simp add: parts_ok_def request_ok_def)
next
  case (look i s q)
  have "\<not> holds_key (after_lookup r)" for r by (simp add: after_lookup_def split: sum.split option.split)
  with look lookup_request_ok [OF look.prems, of q] show ?case by (simp add: phase_step_ok)
next
  case (claim i s q now ttl r d)
  show ?case
  proof (cases r)
    case (Inl e)
    then show ?thesis using claim claim_key_result [OF claim(4)] by (simp add: after_claim_def phase_step_ok request_ok_def)
  next
    case (Inr u)
    with claim_key_result [OF claim(4)] obtain k where k: "find_key (rq_triple q) (srv_db s) = None" "idempotency_keys d = idempotency_keys (srv_db s) @ [claimed_row now ttl (rq_triple q) (rq_hash q) k]"
      by auto
    then show ?thesis using claim Inr by (simp add: after_claim_def claim_step_ok find_key_None)
  qed
next
  case (succeed i s q d x) then show ?case by (simp add: same_keys_def succeed_step_ok)
next
  case (fail i s q d e) then show ?case by (simp add: same_keys_def fail_step_ok)
next
  case (release i s q e) then show ?case by (simp add: release_key_def release_step_ok)
next
  case (complete i s q x now r d)
  have "request_ok (idempotency_keys (srv_db s)) (srv_log s) q" using parts_okD(6) [OF complete.prems] complete(1,2) by simp
  then have "find_key (rq_triple q) (srv_db s) \<noteq> None" using complete(3) by (auto simp: request_ok_def find_key_None intro: rev_image_eqI)
  then have "r = Inr ()" "d = (srv_db s)\<lparr>idempotency_keys := update_rows (\<lambda>r. row_triple r = rq_triple q)
         (\<lambda>r. r\<lparr>ik_responseStatus := Some (rp_status x), ik_responseBody := Some (rp_body x), ik_completedAt := Some now\<rparr>) (idempotency_keys (srv_db s))\<rparr>"
    using complete(4) by (auto simp: complete_key_def)
  then show ?case using complete by (simp add: after_complete_def complete_step_ok)
next
  case (crash i s) then show ?case by (simp add: phase_step_ok request_ok_def)
next
  case (other s d) then show ?case by (simp add: same_keys_def)
qed

lemma served_ok: "served gen s \<Longrightarrow> server_ok s"
proof (induction rule: served.induct)
  case (idle d) then show ?case by (simp add: server_ok_def sole_holders_def)
next
  case (step s t) then show ?case using server_step_ok by blast
qed

text \<open>C24: under concurrency a request runs once. However many requests arrive and however their phases
  interleave with each other, with the rest of the gateway and with crashes, the handler succeeds at
  most once for each merchant, endpoint and key; every successful answer, fresh or replayed, is the
  response of that one run, for the same hash of the body; so all answers for one key are the same.\<close>

theorem requests_run_once:
  assumes "served gen s"
  shows "distinct (map fst (srv_log s)) \<and>
    (q \<in> set (srv_requests s) \<and> rq_phase q = Answered (Inr (x, replayed)) \<longrightarrow> (rq_triple q, rq_hash q, x) \<in> set (srv_log s)) \<and>
    (q \<in> set (srv_requests s) \<and> q' \<in> set (srv_requests s) \<and> rq_triple q' = rq_triple q \<and>
      rq_phase q = Answered (Inr (x, replayed)) \<and> rq_phase q' = Answered (Inr (x', replayed')) \<longrightarrow> x' = x \<and> rq_hash q' = rq_hash q)"
proof -
  have ok: "parts_ok (idempotency_keys (srv_db s)) (srv_log s) (srv_requests s)" using served_ok [OF assms] by (simp add: server_ok_parts)
  have logged: "(rq_triple q, rq_hash q, x) \<in> set (srv_log s)" if "q \<in> set (srv_requests s)" "rq_phase q = Answered (Inr (x, r))" for q x r
    using parts_okD(6) [OF ok that(1)] that(2) by (simp add: request_ok_def)
  have "inj_on fst (set (srv_log s))" using parts_okD(2) [OF ok] by (simp add: distinct_map)
  then have "a = b" if "(tr, a) \<in> set (srv_log s)" "(tr, b) \<in> set (srv_log s)" for tr a b using inj_onD [of fst "set (srv_log s)" "(tr, a)" "(tr, b)"] that by simp
  with logged parts_okD(2) [OF ok] show ?thesis by (metis prod.inject)
qed

section \<open>Runs\<close>

definition sample_api :: api_env where
  "sample_api = \<lparr>api_sha256 = id, api_gen = counting_gen, api_maxExpiry = 3600, api_getRate = sample_rate, api_locked = [],
     api_dto = (\<lambda>_. sample_dto ''o2'')\<rparr>"

definition sample_start :: db where
  "sample_start = (sample_pool PENDING)\<lparr>db_ulids := 10\<rparr>"

lemma sample_creation:
  "is_ok (fst (create_endpoint sample_api 5 sample_context JNull (Some ''k1'') sample_start))"
  by code_simp

text \<open>A request from its arrival to its answer.\<close>

lemma sample_served:
  "\<exists>s. served counting_gen s \<and> srv_requests s = [\<lparr>rq_triple = (''m'', ''e'', ''k''), rq_hash = ''h'', rq_phase = Answered (Inr (x, False))\<rparr>] \<and>
     srv_log s = [((''m'', ''e'', ''k''), ''h'', x)]"
proof -
  let ?tr = "(''m'', ''e'', ''k'')" and ?q = "\<lambda>p. \<lparr>rq_triple = (''m'', ''e'', ''k''), rq_hash = ''h'', rq_phase = p\<rparr>"
  let ?s = "\<lambda>d p log. \<lparr>srv_db = d, srv_requests = [?q p], srv_log = log\<rparr>"
  define d where "d = empty_db\<lparr>idempotency_keys := [claimed_row 1 10 ?tr ''h'' ''idem_0''], db_ulids := 1\<rparr>"
  define d' where "d' = snd (complete_key 2 ?tr x d)"
  have c: "claim_key counting_gen 1 10 ?tr ''h'' empty_db = (Inr (), d)"
  proof -
    have i: "newId (counting_gen 0) IdempotencyId = ''idem_0''" by code_simp
    show ?thesis
      by (simp add: claim_key_def pbind_def pcatch_def atomically_def fresh_id_def create_key_def empty_db_def d_def claimed_row_def i)
  qed
  have k: "complete_key 2 ?tr x d = (Inr (), d')" by (simp add: d'_def d_def complete_key_def find_key_def)
  have "served counting_gen \<lparr>srv_db = empty_db, srv_requests = [], srv_log = []\<rparr>" by (rule served.idle) (simp add: empty_db_def)
  from served.step [OF this server_step.arrive [of counting_gen _ ?tr "''h''"]] have "served counting_gen (?s empty_db Arrived [])" by simp
  from served.step [OF this server_step.look [of 0 _ "?q Arrived"]] have "served counting_gen (?s empty_db Absent [])"
    by (simp add: set_phase_def after_lookup_def check_existing_def find_key_def empty_db_def)
  from served.step [OF this server_step.claim [of 0 _ "?q Absent" counting_gen 1 10 "Inr ()" d]] c have "served counting_gen (?s d Running [])"
    by (simp add: set_phase_def after_claim_def)
  from served.step [OF this server_step.succeed [of 0 _ "?q Running" d counting_gen x]] have "served counting_gen (?s d (Returned x) [(?tr, ''h'', x)])"
    by (simp add: set_phase_def same_keys_def)
  from served.step [OF this server_step.complete [of 0 _ "?q (Returned x)" x 2 "Inr ()" d']] k
  have "served counting_gen (?s d' (Answered (Inr (x, False))) [(?tr, ''h'', x)])" by (simp add: set_phase_def after_complete_def)
  then show ?thesis by force
qed

theorem requests_run_once_witness:
  "\<exists>s. served counting_gen s \<and> length (srv_requests s) = 1 \<and> distinct (map fst (srv_log s)) \<and>
     ((''m'', ''e'', ''k''), ''h'', \<lparr>rp_status = 201, rp_body = JNull\<rparr>) \<in> set (srv_log s)"
proof -
  let ?x = "\<lparr>rp_status = 201, rp_body = JNull\<rparr>"
  obtain s where s: "served counting_gen s" "srv_requests s = [\<lparr>rq_triple = (''m'', ''e'', ''k''), rq_hash = ''h'', rq_phase = Answered (Inr (?x, False))\<rparr>]"
    using sample_served [of ?x] by blast
  from requests_run_once [OF s(1), of "hd (srv_requests s)" ?x False] s show ?thesis by (intro exI [of _ s]) simp
qed

text \<open>A key whose request crashed is refused for good: neither the lock's time nor its expiry is read.\<close>

lemma abandoned_key_stays_locked:
  assumes "find_key tr s = Some row" "ik_completedAt row = None" "ik_requestHash row = hashBody sha body"
  shows "execute sha gen now tr body ttl handler s = (Inl (key_in_flight (snd (snd tr))), s)"
  using assms by (simp add: execute_def check_existing_def Let_def pbind_def)

text \<open>The hash is that of the text, so that the same object with its fields in another order is refused.\<close>

lemma hash_depends_on_field_order:
  "hashBody id (JObj [(''a'', JNum 1), (''b'', JNum 2)]) \<noteq> hashBody id (JObj [(''b'', JNum 2), (''a'', JNum 1)])"
  by code_simp

end
