(* ===== verification/Addresses.thy ===== *)
theory Addresses
  imports WebhookSecurity "HOL-Library.Word"
begin

text \<open>
  Addresses of the chains (\<open>packages/blockchain/src/address/evm.ts\<close>, \<open>bitcoin.ts\<close>): structure, checksums and the
  form they are stored and compared in. Keccak-256 and SHA-256 are parameters. The Bech32 checksum and
  the regrouping of bits are on 32-bit words, as JavaScript's bit operations are.
\<close>

unbundle bit_operations_syntax

section \<open>EVM\<close>

definition isStructurallyValidEvmAddress :: "string \<Rightarrow> bool" where
  "isStructurallyValidEvmAddress address \<longleftrightarrow> length address = 42 \<and> take 2 address = ''0x'' \<and> list_all is_hex (drop 2 address)"

definition invalid_evm :: "string \<Rightarrow> string" where
  "invalid_evm address = ''not a structurally valid EVM address: '' @ address"

text \<open>\<open>keccak\<close> gives the digest in hexadecimal.\<close>

definition checksum_chars :: "string \<Rightarrow> string \<Rightarrow> string" where
  "checksum_chars lower hashHex = map2 (\<lambda>c h. if hex_val h \<ge> 8 then upper_char c else c) lower hashHex"

definition toChecksumAddress :: "(string \<Rightarrow> string) \<Rightarrow> string \<Rightarrow> string + string" where
  "toChecksumAddress keccak address =
     (if \<not> isStructurallyValidEvmAddress address then Inl (invalid_evm address)
      else let lower = toLowerCase (drop 2 address) in Inr (''0x'' @ checksum_chars lower (keccak lower)))"

definition isValidEvmAddress :: "(string \<Rightarrow> string) \<Rightarrow> string \<Rightarrow> bool" where
  "isValidEvmAddress keccak address \<longleftrightarrow> isStructurallyValidEvmAddress address \<and>
     (let body = drop 2 address in
      if body = toLowerCase body \<or> body = toUpperCase body then True else toChecksumAddress keccak address = Inr address)"

definition normalizeEvmAddress :: "string \<Rightarrow> string + string" where
  "normalizeEvmAddress address =
     (if \<not> isStructurallyValidEvmAddress address then Inl (invalid_evm address) else Inr (toLowerCase address))"

definition evmAddressesEqual :: "string \<Rightarrow> string \<Rightarrow> bool" where
  "evmAddressesEqual a b \<longleftrightarrow> isStructurallyValidEvmAddress a \<and> isStructurallyValidEvmAddress b \<and> toLowerCase a = toLowerCase b"

definition ZERO_ADDRESS :: string where
  "ZERO_ADDRESS = ''0x'' @ replicate 40 (CHR ''0'')"

section \<open>Bitcoin, Base58Check\<close>

datatype bitcoin_network = Mainnet | Testnet

definition BASE58_ALPHABET :: string where
  "BASE58_ALPHABET = ''123456789ABCDEFGHJKLMNPQRSTUVWXYZabcdefghijkmnopqrstuvwxyz''"

fun index_of :: "'a list \<Rightarrow> 'a \<Rightarrow> nat option" where
  "index_of [] x = None"
| "index_of (y # ys) x = (if y = x then Some 0 else map_option Suc (index_of ys x))"

fun show_hex :: "nat \<Rightarrow> string" where
  "show_hex n = (if n < 16 then [hex_digit n] else show_hex (n div 16) @ [hex_digit (n mod 16)])"

declare show_hex.simps [simp del]

fun base58_value :: "nat \<Rightarrow> string \<Rightarrow> nat option" where
  "base58_value v [] = Some v"
| "base58_value v (c # cs) = (case index_of BASE58_ALPHABET c of None \<Rightarrow> None | Some digit \<Rightarrow> base58_value (v * 58 + digit) cs)"

definition base58Decode :: "string \<Rightarrow> nat list option" where
  "base58Decode input =
     (if input = [] then None
      else case base58_value 0 input of None \<Rightarrow> None
      | Some v \<Rightarrow>
          let hex = show_hex v; hex = (if odd (length hex) then CHR ''0'' # hex else hex);
              bytes = (if hex = ''0'' then [] else from_hex hex);
              leadingZeros = length (takeWhile (\<lambda>c. c = CHR ''1'') input)
          in Some (replicate leadingZeros 0 @ bytes))"

definition LEGACY_MAINNET_VERSIONS :: "nat list" where "LEGACY_MAINNET_VERSIONS = [0x00, 0x05]"
definition LEGACY_TESTNET_VERSIONS :: "nat list" where "LEGACY_TESTNET_VERSIONS = [0x6f, 0xc4]"

definition isValidBase58Check :: "(nat list \<Rightarrow> nat list) \<Rightarrow> string \<Rightarrow> bitcoin_network \<Rightarrow> bool" where
  "isValidBase58Check sha256 address network =
     (case base58Decode address of None \<Rightarrow> False
      | Some decoded \<Rightarrow>
          length decoded = 25 \<and>
          (let payload = take 21 decoded; checksum = drop 21 decoded; expected = take 4 (sha256 (sha256 payload)) in
           checksum = expected \<and>
           hd payload \<in> set (case network of Mainnet \<Rightarrow> LEGACY_MAINNET_VERSIONS | Testnet \<Rightarrow> LEGACY_TESTNET_VERSIONS)))"

section \<open>Bitcoin, Bech32\<close>

type_synonym word32 = "32 word"

definition BECH32_CHARSET :: string where
  "BECH32_CHARSET = ''qpzry9x8gf2tvdw0s3jn54khce6mua7l''"

definition BECH32_CONST :: word32 where "BECH32_CONST = 1"
definition BECH32M_CONST :: word32 where "BECH32M_CONST = 0x2bc830a3"

definition GENERATORS :: "word32 list" where
  "GENERATORS = [0x3b6a57b2, 0x26508e6d, 0x1ea119fa, 0x3d4233dd, 0x2a1462b3]"

definition generator_mix :: "word32 \<Rightarrow> word32 \<Rightarrow> word32" where
  "generator_mix hi checksum = foldl (\<lambda>c i. if bit hi i then c XOR GENERATORS ! i else c) checksum [0..<5]"

definition polymod_step :: "word32 \<Rightarrow> word32 \<Rightarrow> word32" where
  "polymod_step checksum v = generator_mix (drop_bit 25 checksum) (push_bit 5 (checksum AND 0x1ffffff) XOR v)"

definition bech32Polymod :: "word32 list \<Rightarrow> word32" where
  "bech32Polymod values = foldl polymod_step 1 values"

definition char_code :: "char \<Rightarrow> word32" where
  "char_code c = word_of_nat (of_char c)"

definition bech32HrpExpand :: "string \<Rightarrow> word32 list" where
  "bech32HrpExpand hrp = map (\<lambda>c. drop_bit 5 (char_code c)) hrp @ [0] @ map (\<lambda>c. char_code c AND 31) hrp"

datatype bech32_variant = Bech32 | Bech32m

record bech32_decoded =
  bd_hrp :: string
  bd_version :: word32
  bd_program :: "word32 list"
  bd_variant :: bech32_variant

text \<open>The inner loop of \<open>convertBits\<close>; \<open>toBits\<close> is positive in the code.\<close>

function emit_groups :: "nat \<Rightarrow> word32 \<Rightarrow> nat \<Rightarrow> word32 list \<Rightarrow> nat \<times> word32 list" where
  "emit_groups toBits acc bits result =
     (if 0 < toBits \<and> bits \<ge> toBits
      then emit_groups toBits acc (bits - toBits) (result @ [drop_bit (bits - toBits) acc AND (push_bit toBits 1 - 1)])
      else (bits, result))"
  by pat_completeness auto
termination by (relation "measure (\<lambda>(_, _, bits, _). bits)") auto

declare emit_groups.simps [simp del]

fun convert_loop :: "nat \<Rightarrow> nat \<Rightarrow> word32 list \<Rightarrow> word32 \<Rightarrow> nat \<Rightarrow> word32 list \<Rightarrow> (word32 \<times> nat \<times> word32 list) option" where
  "convert_loop fromBits toBits [] acc bits result = Some (acc, bits, result)"
| "convert_loop fromBits toBits (v # vs) acc bits result =
     (if drop_bit fromBits v \<noteq> 0 then None
      else let acc' = push_bit fromBits acc OR v; (bits', result') = emit_groups toBits acc' (bits + fromBits) result in
        convert_loop fromBits toBits vs acc' bits' result')"

definition convertBits :: "word32 list \<Rightarrow> nat \<Rightarrow> nat \<Rightarrow> bool \<Rightarrow> word32 list option" where
  "convertBits xs fromBits toBits pad =
     (case convert_loop fromBits toBits xs 0 0 [] of None \<Rightarrow> None
      | Some (acc, bits, result) \<Rightarrow>
          let maxValue = push_bit toBits 1 - 1; rest = push_bit (toBits - bits) acc AND maxValue in
          if pad then Some (if bits > 0 then result @ [rest] else result)
          else if bits \<ge> fromBits \<or> rest \<noteq> 0 then None else Some result)"

fun charset_values :: "string \<Rightarrow> word32 list option" where
  "charset_values [] = Some []"
| "charset_values (c # cs) = (case index_of BECH32_CHARSET c of None \<Rightarrow> None
     | Some i \<Rightarrow> map_option (\<lambda>vs. word_of_nat i # vs) (charset_values cs))"

text \<open>The separator is the last \<open>1\<close>: what is before it and what follows it.\<close>

definition split_last :: "string \<Rightarrow> (string \<times> string) option" where
  "split_last s = (if CHR ''1'' \<notin> set s then None
     else Some (rev (tl (dropWhile (\<lambda>c. c \<noteq> CHR ''1'') (rev s))), rev (takeWhile (\<lambda>c. c \<noteq> CHR ''1'') (rev s))))"

definition witness_program :: "string \<Rightarrow> word32 list \<Rightarrow> bech32_variant \<Rightarrow> bech32_decoded option" where
  "witness_program hrp values variant =
     (case take (length values - 6) values of [] \<Rightarrow> None
      | version # programWords \<Rightarrow>
          (case convertBits programWords 5 8 False of None \<Rightarrow> None
           | Some program \<Rightarrow>
               if length program < 2 \<or> length program > 40 then None
               else if version = 0 \<and> length program \<noteq> 20 \<and> length program \<noteq> 32 then None
               else if version = 0 \<and> variant \<noteq> Bech32 then None
               else if version \<noteq> 0 \<and> variant \<noteq> Bech32m then None
               else Some \<lparr>bd_hrp = hrp, bd_version = version, bd_program = program, bd_variant = variant\<rparr>))"

definition bech32Decode :: "string \<Rightarrow> bech32_decoded option" where
  "bech32Decode address =
     (if length address < 8 \<or> length address > 90 then None
      else if address \<noteq> toLowerCase address \<and> address \<noteq> toUpperCase address then None
      else let lower = toLowerCase address in
        case split_last lower of None \<Rightarrow> None
        | Some (hrp, dataPart) \<Rightarrow>
            if length hrp < 1 \<or> length hrp + 7 > length lower then None
            else (case charset_values dataPart of None \<Rightarrow> None
              | Some values \<Rightarrow>
                  let checksumValue = bech32Polymod (bech32HrpExpand hrp @ values) in
                  if checksumValue = BECH32_CONST then witness_program hrp values Bech32
                  else if checksumValue = BECH32M_CONST then witness_program hrp values Bech32m
                  else None))"

definition isValidSegwit :: "string \<Rightarrow> bitcoin_network \<Rightarrow> bool" where
  "isValidSegwit address network = (case bech32Decode address of None \<Rightarrow> False
     | Some decoded \<Rightarrow> bd_hrp decoded = (case network of Mainnet \<Rightarrow> ''bc'' | Testnet \<Rightarrow> ''tb''))"

definition isValidBitcoinAddress :: "(nat list \<Rightarrow> nat list) \<Rightarrow> string \<Rightarrow> bitcoin_network \<Rightarrow> bool" where
  "isValidBitcoinAddress sha256 address network \<longleftrightarrow>
     address \<noteq> [] \<and> (isValidBase58Check sha256 address network \<or> isValidSegwit address network)"

definition network_kind_name :: "bitcoin_network \<Rightarrow> string" where
  "network_kind_name network = (case network of Mainnet \<Rightarrow> ''mainnet'' | Testnet \<Rightarrow> ''testnet'')"

definition normalizeBitcoinAddress :: "(nat list \<Rightarrow> nat list) \<Rightarrow> string \<Rightarrow> bitcoin_network \<Rightarrow> string + string" where
  "normalizeBitcoinAddress sha256 address network =
     (if \<not> isValidBitcoinAddress sha256 address network
      then Inl (''not a valid Bitcoin '' @ network_kind_name network @ '' address: '' @ address)
      else Inr (if isValidBase58Check sha256 address network then address else toLowerCase address))"

section \<open>The checksum is linear\<close>

definition generator_term :: "word32 \<Rightarrow> nat \<Rightarrow> word32" where
  "generator_term hi i = (if bit hi i then GENERATORS ! i else 0)"

lemma generator_mix_terms:
  "generator_mix hi c = c XOR generator_term hi 0 XOR generator_term hi 1 XOR generator_term hi 2 XOR generator_term hi 3 XOR generator_term hi 4"
  by (simp add: generator_mix_def generator_term_def upt_rec numeral_eq_Suc xor.assoc)

lemma generator_term_xor: "generator_term (a XOR b) i = generator_term a i XOR generator_term b i"
  by (simp add: generator_term_def bit_simps)

lemma generator_mix_xor: "generator_mix (a XOR b) (c XOR d) = generator_mix a c XOR generator_mix b d"
  by (simp only: generator_mix_terms generator_term_xor) (simp add: ac_simps)

lemma and_xor_distrib: "(c XOR d) AND m = (c AND m) XOR (d AND m :: word32)"
  by (rule bit_eqI) (auto simp: bit_simps)

lemma polymod_step_xor: "polymod_step (c XOR d) (v XOR w) = polymod_step c v XOR polymod_step d w"
proof -
  have "push_bit 5 ((c XOR d) AND 0x1ffffff) XOR (v XOR w) = (push_bit 5 (c AND 0x1ffffff) XOR v) XOR (push_bit 5 (d AND 0x1ffffff) XOR w)"
    by (simp only: and_xor_distrib push_bit_xor) (simp add: ac_simps)
  then show ?thesis by (simp add: polymod_step_def generator_mix_xor)
qed

lemma polymod_step_zero [simp]: "polymod_step 0 v = v"
  by (simp add: polymod_step_def generator_mix_terms generator_term_def)

lemma polymod_fold_xor:
  "length vs = length ws \<Longrightarrow> foldl polymod_step c vs XOR foldl polymod_step d ws = foldl polymod_step (c XOR d) (map2 (XOR) vs ws)"
  by (induction vs ws arbitrary: c d rule: list_induct2) (simp_all add: polymod_step_xor [symmetric])

text \<open>The step with no input is injective on 30 bits: its last five bits determine the five bits shifted out.\<close>

lemma generators_low_bits: "list_all (\<lambda>n. take_bit 5 (generator_mix (word_of_nat n) 0) = 0 \<longrightarrow> n = 0) [0..<32]"
  by code_simp

lemma bit_high: "take_bit 30 (c :: word32) = c \<Longrightarrow> bit c n \<Longrightarrow> n < 30"
  by (metis bit_take_bit_iff)

lemma polymod_step_nonzero:
  assumes c: "take_bit 30 c = c" and "polymod_step c 0 = 0"
  shows "c = 0"
proof -
  let ?hi = "drop_bit 25 c"
  have hb: "n < 30" if "bit c n" for n using bit_high [OF c that] .
  have mask: "(0x1ffffff :: word32) = mask 25" by (simp add: mask_eq_exp_minus_1)
  have eq: "push_bit 5 (take_bit 25 c) XOR generator_mix ?hi 0 = 0"
    using assms(2) unfolding polymod_step_def mask take_bit_eq_mask [symmetric] generator_mix_terms by simp
  have "take_bit 5 (push_bit 5 (take_bit 25 c)) = (0 :: word32)" by (rule bit_eqI) (simp add: bit_simps)
  moreover have "take_bit 5 (push_bit 5 (take_bit 25 c) XOR generator_mix ?hi 0) = 0" unfolding eq by simp
  ultimately have low: "take_bit 5 (generator_mix ?hi 0) = 0" unfolding take_bit_xor by simp
  have "bit (take_bit 5 ?hi) n = bit ?hi n" for n using hb [of "25 + n"] by (auto simp: bit_simps)
  then have "take_bit 5 ?hi = ?hi" by (intro bit_eqI) simp
  then have "unat ?hi = unat (take_bit 5 ?hi)" by simp
  also have "\<dots> < 32" unfolding unsigned_take_bit_eq by (simp add: take_bit_eq_mod)
  finally have hi: "unat ?hi \<in> set [0..<32]" by simp
  have "take_bit 5 (generator_mix (word_of_nat (unat ?hi)) 0) = 0" using low by simp
  with generators_low_bits hi have "unat ?hi = 0" unfolding list_all_iff by blast
  then have hi0: "?hi = 0" by (simp add: unat_eq_0)
  with eq have lo0: "push_bit 5 (take_bit 25 c) = 0" by (simp add: generator_mix_terms generator_term_def)
  have "\<not> bit c n" for n
  proof
    assume b: "bit c n"
    show False
    proof (cases "n < 25")
      case True
      then have "bit (push_bit 5 (take_bit 25 c)) (n + 5)" using b by (simp add: bit_simps)
      with lo0 show False by simp
    next
      case False
      then have "bit ?hi (n - 25)" using b by (simp add: bit_simps)
      with hi0 show False by simp
    qed
  qed
  then show ?thesis by (intro bit_eqI) simp
qed

lemma generators_30_bits: "list_all (\<lambda>g. take_bit 30 g = g) GENERATORS"
  by code_simp

lemma generator_term_30: "i < 5 \<Longrightarrow> take_bit 30 (generator_term hi i) = generator_term hi i"
  using generators_30_bits by (auto simp: generator_term_def list_all_length GENERATORS_def)

lemma polymod_step_30:
  assumes "take_bit 30 v = v"
  shows "take_bit 30 (polymod_step c v) = polymod_step c v"
proof -
  have mask: "(0x1ffffff :: word32) = mask 25" by (simp add: mask_eq_exp_minus_1)
  have "take_bit 30 (push_bit 5 (take_bit 25 c)) = push_bit 5 (take_bit 25 c :: word32)" by (rule bit_eqI) (auto simp: bit_simps)
  then show ?thesis unfolding polymod_step_def generator_mix_terms mask take_bit_eq_mask [symmetric] take_bit_xor
    using assms generator_term_30 by simp
qed

lemma polymod_zeros:
  "take_bit 30 c = c \<Longrightarrow> c \<noteq> 0 \<Longrightarrow> foldl polymod_step c (replicate n 0) \<noteq> 0"
proof (induction n arbitrary: c)
  case (Suc n)
  then have "polymod_step c 0 \<noteq> 0" using polymod_step_nonzero by blast
  with Suc.IH [of "polymod_step c 0"] polymod_step_30 [of 0 c] show ?case by simp
qed simp

lemma polymod_zero_start: "foldl polymod_step 0 (replicate n 0) = 0"
  by (induction n) simp_all

text \<open>Two sequences that differ in one place have different checksums.\<close>

lemma xor_self_list: "map2 (XOR) xs xs = replicate (length xs) (0 :: word32)"
  by (induction xs) simp_all

lemma polymod_one_difference:
  assumes "take_bit 30 x = x" "take_bit 30 y = y" "x \<noteq> y"
  shows "bech32Polymod (us @ x # vs) XOR bech32Polymod (us @ y # vs) = foldl polymod_step (x XOR y) (replicate (length vs) 0)"
    and "bech32Polymod (us @ x # vs) \<noteq> bech32Polymod (us @ y # vs)"
proof -
  have "map2 (XOR) (us @ x # vs) (us @ y # vs) = replicate (length us) 0 @ (x XOR y) # replicate (length vs) 0"
    by (simp add: xor_self_list)
  then show eq: "bech32Polymod (us @ x # vs) XOR bech32Polymod (us @ y # vs) = foldl polymod_step (x XOR y) (replicate (length vs) 0)"
    unfolding bech32Polymod_def by (subst polymod_fold_xor) (simp_all add: polymod_zero_start)
  have "take_bit 30 (x XOR y) = x XOR y" using assms by simp
  moreover have "x XOR y \<noteq> 0" using assms(3) by (metis xor.assoc xor.right_neutral xor_self_eq)
  ultimately show "bech32Polymod (us @ x # vs) \<noteq> bech32Polymod (us @ y # vs)" using polymod_zeros [of "x XOR y"] eq by auto
qed

section \<open>Regrouping bits\<close>

text \<open>The number a sequence of groups of \<open>b\<close> bits stands for.\<close>

definition groups_value :: "nat \<Rightarrow> word32 list \<Rightarrow> nat" where
  "groups_value b xs = foldl (\<lambda>a x. a * 2 ^ b + unat x) 0 xs"

lemma groups_value_simps [simp]:
  "groups_value b [] = 0" "groups_value b [x] = unat x" "groups_value b (xs @ [x]) = groups_value b xs * 2 ^ b + unat x"
  by (simp_all add: groups_value_def)

lemma groups_value_Cons: "groups_value b (x # xs) = unat x * (2 ^ b) ^ length xs + groups_value b xs"
  by (induction xs rule: rev_induct) (simp_all flip: append_Cons add: algebra_simps)

lemma groups_value_less: "list_all (\<lambda>x. unat x < 2 ^ b) xs \<Longrightarrow> groups_value b xs < (2 ^ b) ^ length xs"
proof (induction xs rule: rev_induct)
  case (snoc x xs)
  then have "groups_value b xs + 1 \<le> (2 ^ b) ^ length xs" "unat x < 2 ^ b" by auto
  then have "(groups_value b xs + 1) * 2 ^ b \<le> (2 ^ b) ^ length xs * 2 ^ b" by (intro mult_right_mono) auto
  with \<open>unat x < 2 ^ b\<close> show ?case by (simp add: algebra_simps)
qed simp

lemma groups_value_inj:
  "length xs = length ys \<Longrightarrow> list_all (\<lambda>x. unat x < 2 ^ b) xs \<Longrightarrow> list_all (\<lambda>x. unat x < 2 ^ b) ys \<Longrightarrow> groups_value b xs = groups_value b ys \<Longrightarrow> xs = ys"
proof (induction xs arbitrary: ys rule: rev_induct)
  case (snoc x xs)
  then obtain y zs where ys: "ys = zs @ [y]" by (cases ys rule: rev_cases) auto
  have eq: "groups_value b xs * 2 ^ b + unat x = groups_value b zs * 2 ^ b + unat y" and less: "unat x < 2 ^ b" "unat y < 2 ^ b"
    using snoc.prems ys by auto
  have "groups_value b xs = (groups_value b xs * 2 ^ b + unat x) div 2 ^ b" using less(1) by simp
  also have "\<dots> = groups_value b zs" unfolding eq using less(2) by simp
  finally have "groups_value b xs = groups_value b zs" .
  moreover from this eq have "x = y" by (simp add: unsigned_word_eqI [where ?'a = nat])
  ultimately show ?case using snoc ys by simp
qed simp

text \<open>Shifting five bits into the accumulator, which wraps, and taking eight out of its last bits.\<close>

lemma shift_mod:
  fixes x v :: nat
  assumes "v < 32"
  shows "(x * 32 + v) mod 2 ^ (k + 5) = (x mod 2 ^ k) * 32 + v"
proof -
  define q m where "q = x div 2 ^ k" and "m = x mod 2 ^ k"
  have x: "x = q * 2 ^ k + m" by (simp only: q_def m_def div_mult_mod_eq)
  have "m + 1 \<le> 2 ^ k" by (simp add: m_def Suc_leI)
  then have "(m + 1) * 32 \<le> 2 ^ k * 32" by (rule mult_right_mono) simp
  with assms have less: "m * 32 + v < 2 ^ (k + 5)" by (simp add: power_add)
  have "x * 32 + v = (m * 32 + v) + q * 2 ^ (k + 5)" by (simp add: x power_add algebra_simps)
  then have "(x * 32 + v) mod 2 ^ (k + 5) = (m * 32 + v) mod 2 ^ (k + 5)" by (simp only: mod_mult_self1)
  then show ?thesis using less by (simp only: mod_less m_def)
qed

lemma shift_in_value:
  fixes acc v :: word32
  assumes "unat v < 32" "k \<le> 27"
  shows "unat (push_bit 5 acc OR v) mod 2 ^ (k + 5) = (unat acc mod 2 ^ k) * 32 + unat v"
proof -
  have "unat (take_bit 5 v) = unat v" unfolding unsigned_take_bit_eq using assms(1) by (simp add: take_bit_nat_eq_self)
  then have v: "take_bit 5 v = v" by (rule unsigned_word_eqI)
  have "bit (push_bit 5 acc AND v) n = False" for n
  proof -
    have "bit v n \<Longrightarrow> n < 5" using v by (metis bit_take_bit_iff)
    then show ?thesis by (auto simp: bit_simps)
  qed
  then have "push_bit 5 acc AND v = 0" by (intro bit_eqI) simp
  then have "push_bit 5 acc OR v = push_bit 5 acc + v" by (simp add: disjunctive_add_eq_or)
  also have "\<dots> = acc * 32 + v" by (simp add: push_bit_eq_mult)
  finally have "unat (push_bit 5 acc OR v) = (unat acc * 32 + unat v) mod 2 ^ 32" by (simp add: unat_word_ariths mod_simps)
  moreover have "(2 :: nat) ^ (k + 5) dvd 2 ^ 32" using assms(2) by (intro le_imp_power_dvd) simp
  ultimately have "unat (push_bit 5 acc OR v) mod 2 ^ (k + 5) = (unat acc * 32 + unat v) mod 2 ^ (k + 5)" by (simp add: mod_mod_cancel)
  also have "\<dots> = (unat acc mod 2 ^ k) * 32 + unat v" using assms(1) by (rule shift_mod)
  finally show ?thesis .
qed

lemma byte_value: "unat (drop_bit m acc AND (push_bit 8 1 - 1) :: word32) = unat acc mod 2 ^ (m + 8) div 2 ^ m"
proof -
  have "(push_bit 8 1 - 1 :: word32) = mask 8" by (simp add: mask_eq_exp_minus_1 push_bit_eq_mult)
  then have "unat (drop_bit m acc AND (push_bit 8 1 - 1) :: word32) = unat (take_bit 8 (drop_bit m acc))" by (simp add: take_bit_eq_mask)
  also have "\<dots> = take_bit 8 (drop_bit m (unat acc))" using unsigned_less [of acc, where ?'a = nat] by (simp add: unsigned_take_bit_eq unsigned_drop_bit_eq take_bit_nat_eq_self)
  also have "\<dots> = drop_bit m (take_bit (m + 8) (unat acc))" by (simp add: drop_bit_take_bit)
  finally show ?thesis by (simp only: drop_bit_eq_div take_bit_eq_mod)
qed

text \<open>The loop for groups of five and of eight bits.\<close>

lemma emit_eight: "bits < 16 \<Longrightarrow> emit_groups 8 acc bits result =
    (if bits \<ge> 8 then (bits - 8, result @ [drop_bit (bits - 8) acc AND (push_bit 8 1 - 1)]) else (bits, result))"
  by (subst emit_groups.simps, subst emit_groups.simps) auto

lemma drop_bit_small: "drop_bit 5 v = 0 \<longleftrightarrow> unat (v :: word32) < 32"
proof -
  have "unat (drop_bit 5 v) = unat v div 32"
    unfolding unsigned_drop_bit_eq using unsigned_less [of v, where ?'a = nat] by (simp add: take_bit_nat_eq_self drop_bit_eq_div)
  moreover have "drop_bit 5 v = 0 \<longleftrightarrow> unat (drop_bit 5 v) = 0" by (simp add: unat_eq_0)
  ultimately show ?thesis by (simp add: div_eq_0_iff)
qed

lemma convert_loop_total: "bits < 8 \<Longrightarrow> list_all (\<lambda>v. unat v < 32) vs \<longleftrightarrow> (\<exists>r. convert_loop 5 8 vs acc bits result = Some r)"
  by (induction vs arbitrary: acc bits result) (auto simp: drop_bit_small emit_eight Let_def)

lemma convert_loop_value:
  assumes "convert_loop 5 8 vs acc bits result = Some (acc', bits', result')" "bits < 8" "list_all (\<lambda>x. unat x < 256) result"
  shows "bits' < 8 \<and> list_all (\<lambda>x. unat x < 256) result' \<and> 5 * length vs + bits + 8 * length result = 8 * length result' + bits' \<and>
    (groups_value 8 result * 2 ^ bits + unat acc mod 2 ^ bits) * 32 ^ length vs + groups_value 5 vs = groups_value 8 result' * 2 ^ bits' + unat acc' mod 2 ^ bits'"
  using assms
proof (induction vs arbitrary: acc bits result)
  case Nil then show ?case by simp
next
  case (Cons v vs)
  have v: "unat v < 32" using Cons.prems(1) drop_bit_small by (auto split: if_splits)
  define a where "a = push_bit 5 acc OR v"
  define x where "x = unat a mod 2 ^ (bits + 5)"
  have x: "x = unat acc mod 2 ^ bits * 32 + unat v" unfolding x_def a_def using shift_in_value [OF v, of bits acc] Cons.prems(2) by simp
  have val: "(groups_value 8 result * 2 ^ bits + unat acc mod 2 ^ bits) * 32 ^ length (v # vs) + groups_value 5 (v # vs) =
      (groups_value 8 result * 2 ^ (bits + 5) + x) * 32 ^ length vs + groups_value 5 vs"
    by (simp add: x groups_value_Cons power_add algebra_simps)
  show ?case
  proof (cases "bits + 5 \<ge> 8")
    case False
    then have run: "convert_loop 5 8 vs a (bits + 5) result = Some (acc', bits', result')"
      using Cons.prems v by (simp add: drop_bit_small emit_eight a_def)
    from Cons.IH [OF run] False Cons.prems(3) show ?thesis unfolding val by (simp add: x_def)
  next
    case True
    define m where "m = bits + 5 - 8"
    have m: "bits + 5 = m + 8" using True by (simp add: m_def)
    define w where "w = drop_bit m a AND (push_bit 8 1 - 1)"
    have w: "unat w = x div 2 ^ m" unfolding w_def byte_value x_def m by simp
    have run: "convert_loop 5 8 vs a m (result @ [w]) = Some (acc', bits', result')"
      using Cons.prems v True by (simp add: drop_bit_small emit_eight a_def w_def m_def)
    have "x < 2 ^ (m + 8)" by (simp add: x_def m)
    then have "unat w < 256" unfolding w by (intro less_mult_imp_div_less) (simp add: power_add mult.commute)
    then have small: "list_all (\<lambda>x. unat x < 256) (result @ [w])" using Cons.prems(3) by simp
    have "unat a mod 2 ^ m = x mod 2 ^ m" unfolding x_def m by (simp add: mod_mod_cancel le_imp_power_dvd)
    then have "groups_value 8 (result @ [w]) * 2 ^ m + unat a mod 2 ^ m = groups_value 8 result * 2 ^ (bits + 5) + x"
      unfolding m using div_mult_mod_eq [of x "2 ^ m"] by (simp add: w power_add algebra_simps)
    moreover have "m < 8" using Cons.prems(2) by (simp add: m_def)
    ultimately show ?thesis using Cons.IH [OF run _ small] m unfolding val by (simp add: add.commute)
  qed
qed

lemma padding_zero: "bits < 8 \<Longrightarrow> push_bit (8 - bits) acc AND (push_bit 8 1 - 1) = (0 :: word32) \<longleftrightarrow> unat acc mod 2 ^ bits = 0"
proof -
  assume b: "bits < 8"
  have mask: "(push_bit 8 1 - 1 :: word32) = mask 8" by (simp add: mask_eq_exp_minus_1 push_bit_eq_mult)
  have "push_bit (8 - bits) acc AND (push_bit 8 1 - 1) = (0 :: word32) \<longleftrightarrow> take_bit bits acc = 0"
  proof
    assume z: "push_bit (8 - bits) acc AND (push_bit 8 1 - 1) = (0 :: word32)"
    have "\<not> bit (take_bit bits acc) n" for n
    proof
      assume "bit (take_bit bits acc) n"
      then have "bit (push_bit (8 - bits) acc AND (push_bit 8 1 - 1)) (n + (8 - bits))" unfolding mask using b by (auto simp: bit_simps)
      with z show False by simp
    qed
    then show "take_bit bits acc = 0" by (intro bit_eqI) simp
  next
    assume z: "take_bit bits acc = 0"
    have "\<not> bit (push_bit (8 - bits) acc AND (push_bit 8 1 - 1)) n" for n
    proof
      assume "bit (push_bit (8 - bits) acc AND (push_bit 8 1 - 1)) n"
      then have "bit (take_bit bits acc) (n - (8 - bits))" unfolding mask using b by (auto simp: bit_simps)
      with z show False by simp
    qed
    then show "push_bit (8 - bits) acc AND (push_bit 8 1 - 1) = (0 :: word32)" by (intro bit_eqI) simp
  qed
  also have "\<dots> \<longleftrightarrow> unat (take_bit bits acc) = 0" by (simp add: unat_eq_0)
  finally show ?thesis unfolding unsigned_take_bit_eq by (simp only: take_bit_eq_mod)
qed

lemma convertBits_iff:
  "convertBits vs 5 8 False = Some bs \<longleftrightarrow>
     list_all (\<lambda>v. unat v < 32) vs \<and> list_all (\<lambda>x. unat x < 256) bs \<and>
     (\<exists>k < 5. 5 * length vs = 8 * length bs + k \<and> groups_value 5 vs = groups_value 8 bs * 2 ^ k)"
proof (cases "list_all (\<lambda>v. unat v < 32) vs")
  case False
  then have "convert_loop 5 8 vs 0 0 [] = None" using convert_loop_total [of 0 vs 0 "[]"] by (cases "convert_loop 5 8 vs 0 0 []") auto
  with False show ?thesis by (simp add: convertBits_def)
next
  case True
  then obtain acc bits result where run: "convert_loop 5 8 vs 0 0 [] = Some (acc, bits, result)" using convert_loop_total [of 0 vs 0 "[]"] by auto
  have inv: "bits < 8" "list_all (\<lambda>x. unat x < 256) result" "5 * length vs = 8 * length result + bits"
    "groups_value 5 vs = groups_value 8 result * 2 ^ bits + unat acc mod 2 ^ bits"
    using convert_loop_value [OF run] by auto
  have conv: "convertBits vs 5 8 False = Some bs \<longleftrightarrow> bits < 5 \<and> unat acc mod 2 ^ bits = 0 \<and> bs = result"
    using run padding_zero [OF inv(1)] by (auto simp: convertBits_def Let_def)
  show ?thesis unfolding conv
  proof
    assume "bits < 5 \<and> unat acc mod 2 ^ bits = 0 \<and> bs = result"
    then show "list_all (\<lambda>v. unat v < 32) vs \<and> list_all (\<lambda>x. unat x < 256) bs \<and>
       (\<exists>k < 5. 5 * length vs = 8 * length bs + k \<and> groups_value 5 vs = groups_value 8 bs * 2 ^ k)" using True inv by auto
  next
    assume "list_all (\<lambda>v. unat v < 32) vs \<and> list_all (\<lambda>x. unat x < 256) bs \<and>
       (\<exists>k < 5. 5 * length vs = 8 * length bs + k \<and> groups_value 5 vs = groups_value 8 bs * 2 ^ k)"
    then obtain k where k: "k < 5" "5 * length vs = 8 * length bs + k" "groups_value 5 vs = groups_value 8 bs * 2 ^ k" and bs: "list_all (\<lambda>x. unat x < 256) bs" by blast
    have "8 * length bs + k = 8 * length result + bits" using k(2) inv(3) by simp
    then have "bits = k" "length bs = length result" using k(1) inv(1) by presburger+
    moreover have "groups_value 8 result * 2 ^ bits + unat acc mod 2 ^ bits = groups_value 8 bs * 2 ^ bits" using inv(4) k(3) \<open>bits = k\<close> by simp
    then have "(groups_value 8 result * 2 ^ bits + unat acc mod 2 ^ bits) mod 2 ^ bits = (groups_value 8 bs * 2 ^ bits) mod 2 ^ bits" by simp
    then have "unat acc mod 2 ^ bits = 0" by simp
    moreover from this \<open>groups_value 8 result * 2 ^ bits + _ = _\<close> have "groups_value 8 result = groups_value 8 bs" by simp
    then have "bs = result" using \<open>length bs = length result\<close> bs inv(2) groups_value_inj [of bs result 8] by simp
    ultimately show "bits < 5 \<and> unat acc mod 2 ^ bits = 0 \<and> bs = result" using k(1) by simp
  qed
qed

text \<open>The regrouping of a witness program from groups of five bits to bytes, on 32-bit integers whose
  accumulator overflows for every real address, is exact: it succeeds with some bytes if and only if
  the groups are below 32, fewer than five bits are left over, these are zero, and the bytes stand for
  the same number.\<close>

lemma convertBits_regroups:
  "convertBits vs 5 8 False = Some bs \<longleftrightarrow>
     list_all (\<lambda>v. unat v < 32) vs \<and> list_all (\<lambda>x. unat x < 256) bs \<and>
     (\<exists>k < 5. 5 * length vs = 8 * length bs + k \<and> groups_value 5 vs = groups_value 8 bs * 2 ^ k)"
  by (rule convertBits_iff)

section \<open>Typing errors in addresses\<close>

lemma index_of_Some: "index_of xs c = Some i \<Longrightarrow> i < length xs \<and> xs ! i = c"
  by (induction xs arbitrary: i) (auto split: if_splits)

lemma charset_values_length: "charset_values cs = Some vs \<Longrightarrow> length vs = length cs"
  by (induction cs arbitrary: vs) (auto split: option.splits)

lemma charset_values_small: "charset_values cs = Some vs \<Longrightarrow> v \<in> set vs \<Longrightarrow> unat v < 32"
proof (induction cs arbitrary: vs)
  case (Cons c cs)
  have "unat (word_of_nat i :: word32) < 32" if "index_of BECH32_CHARSET c = Some i" for i
    using index_of_Some [OF that] by (simp add: BECH32_CHARSET_def unsigned_of_nat take_bit_nat_eq_self)
  with Cons show ?case by (auto split: option.splits)
qed simp

lemma charset_values_append:
  "charset_values (p @ c # q) = Some vs \<Longrightarrow> \<exists>u x w i. vs = u @ x # w \<and> charset_values p = Some u \<and> charset_values q = Some w \<and>
     index_of BECH32_CHARSET c = Some i \<and> x = word_of_nat i"
proof (induction p arbitrary: vs)
  case Nil then show ?case by (auto split: option.splits)
next
  case (Cons a p)
  then obtain i ws where "index_of BECH32_CHARSET a = Some i" "charset_values (p @ c # q) = Some ws" "vs = word_of_nat i # ws" by (auto split: option.splits)
  with Cons.IH [of ws] show ?case by force
qed

lemma charset_word_inj:
  assumes "index_of BECH32_CHARSET c = Some i" "index_of BECH32_CHARSET d = Some j" "(word_of_nat i :: word32) = word_of_nat j"
  shows "c = d"
proof -
  have len: "length BECH32_CHARSET = 32" by code_simp
  have "unat (word_of_nat n :: word32) = n" if "n < 32" for n using that by (simp add: unsigned_of_nat take_bit_nat_eq_self)
  moreover have "i < 32" "j < 32" using index_of_Some [OF assms(1)] index_of_Some [OF assms(2)] len by auto
  ultimately have "i = j" using arg_cong [OF assms(3), of unat] by metis
  then show ?thesis using index_of_Some [OF assms(1)] index_of_Some [OF assms(2)] by simp
qed

lemma split_last_Some:
  assumes "split_last s = Some (h, d)"
  shows "s = h @ CHR ''1'' # d" "CHR ''1'' \<notin> set d"
proof -
  let ?t = "takeWhile (\<lambda>c. c \<noteq> CHR ''1'') (rev s)" and ?d = "dropWhile (\<lambda>c. c \<noteq> CHR ''1'') (rev s)"
  have in_s: "CHR ''1'' \<in> set s" and hd': "h = rev (tl ?d)" "d = rev ?t" using assms by (auto simp: split_last_def split: if_splits)
  then have "?d \<noteq> []" by auto
  then have "?d = CHR ''1'' # tl ?d" using hd_dropWhile [of "\<lambda>c. c \<noteq> CHR ''1''" "rev s"] by (cases ?d) auto
  then have "rev s = ?t @ CHR ''1'' # tl ?d" by (metis takeWhile_dropWhile_id)
  then have "s = rev (?t @ CHR ''1'' # tl ?d)" by (metis rev_rev_ident)
  then show "s = h @ CHR ''1'' # d" by (simp add: hd')
  show "CHR ''1'' \<notin> set d" unfolding hd' by (auto dest: set_takeWhileD)
qed

text \<open>What a valid address consists of.\<close>

definition segwit_hrp :: "bitcoin_network \<Rightarrow> string" where
  "segwit_hrp network = (case network of Mainnet \<Rightarrow> ''bc'' | Testnet \<Rightarrow> ''tb'')"

definition variant_const :: "bech32_variant \<Rightarrow> word32" where
  "variant_const v = (case v of Bech32 \<Rightarrow> BECH32_CONST | Bech32m \<Rightarrow> BECH32M_CONST)"

lemma variant_const_simps: "variant_const Bech32 = BECH32_CONST" "variant_const Bech32m = BECH32M_CONST"
  by (simp_all add: variant_const_def)

lemma witness_program_Some:
  assumes "witness_program hrp vs var = Some d"
  shows "\<exists>v ps. vs = v # ps \<and> (v = 0 \<longleftrightarrow> var = Bech32) \<and> (v = 0 \<longrightarrow> length vs \<in> {39, 59}) \<and> bd_hrp d = hrp"
proof -
  obtain v ps program where take: "take (length vs - 6) vs = v # ps" and conv: "convertBits ps 5 8 False = Some program"
    and rules: "v = 0 \<longrightarrow> length program \<in> {20, 32}" "v = 0 \<longleftrightarrow> var = Bech32" "bd_hrp d = hrp"
    using assms by (cases var) (auto simp: witness_program_def split: list.splits option.splits if_splits)
  have len: "length vs = 7 + length ps"
  proof -
    have "length (take (length vs - 6) vs) = Suc (length ps)" by (simp add: take)
    then show ?thesis by simp
  qed
  obtain k where "k < 5" "5 * length ps = 8 * length program + k" using conv unfolding convertBits_iff by blast
  then have "v = 0 \<longrightarrow> length ps \<in> {32, 52}" using rules(1) by (auto; presburger)
  moreover obtain ws where "vs = v # ws" using take by (cases vs) (auto simp: take_Cons' split: if_splits)
  ultimately show ?thesis using rules(2,3) len by auto
qed

lemma valid_segwit_shape:
  assumes "isValidSegwit a network"
  shows "\<exists>d vs var decoded. toLowerCase a = segwit_hrp network @ CHR ''1'' # d \<and> CHR ''1'' \<notin> set d \<and> charset_values d = Some vs \<and>
     bech32Polymod (bech32HrpExpand (segwit_hrp network) @ vs) = variant_const var \<and> witness_program (segwit_hrp network) vs var = Some decoded"
proof -
  obtain decoded where dec: "bech32Decode a = Some decoded" "bd_hrp decoded = segwit_hrp network"
    using assms by (auto simp: isValidSegwit_def segwit_hrp_def split: option.splits)
  then obtain hrp d vs where sp: "split_last (toLowerCase a) = Some (hrp, d)" and cv: "charset_values d = Some vs"
    and ch: "bech32Polymod (bech32HrpExpand hrp @ vs) = BECH32_CONST \<and> witness_program hrp vs Bech32 = Some decoded \<or>
      bech32Polymod (bech32HrpExpand hrp @ vs) = BECH32M_CONST \<and> witness_program hrp vs Bech32m = Some decoded"
    by (auto simp: bech32Decode_def Let_def split: if_splits option.splits prod.splits)
  then have "hrp = segwit_hrp network" using witness_program_Some dec(2) by metis
  with ch obtain var where "bech32Polymod (bech32HrpExpand (segwit_hrp network) @ vs) = variant_const var" "witness_program (segwit_hrp network) vs var = Some decoded"
    using variant_const_simps by metis
  with split_last_Some [OF sp] cv \<open>hrp = _\<close> show ?thesis by blast
qed

text \<open>A changed version character does not turn one of the two checksums into the other, at either length
  of a version 0 address. By linearity this is a question about five words for each length.\<close>

definition basis_38 :: "word32 list" where
  "basis_38 = [0x17ebadab, 0x2d53db56, 0xa3717a5, 0x146e2a6a, 0x28c8d1f4]"

definition basis_58 :: "word32 list" where
  "basis_58 = [0x3eb817be, 0x2f64aa75, 0xe5951e3, 0x1ca687c6, 0x394d0aac]"

definition select_xor :: "word32 \<Rightarrow> word32 list \<Rightarrow> word32" where
  "select_xor e bs = foldr (\<lambda>i a. (if bit e i then bs ! i else 0) XOR a) [0..<5] 0"

lemma generator_mix_numeral: "generator_mix hi c =
  (let c = (if bit hi 0 then c XOR 0x3b6a57b2 else c); c = (if bit hi 1 then c XOR 0x26508e6d else c); c = (if bit hi 2 then c XOR 0x1ea119fa else c);
       c = (if bit hi 3 then c XOR 0x3d4233dd else c) in if bit hi 4 then c XOR 0x2a1462b3 else c)"
  by (simp add: generator_mix_def GENERATORS_def upt_rec numeral_eq_Suc)

lemma zeros_38: "replicate 38 (0 :: word32) = [0, 0, 0, 0, 0, 0, 0, 0, 0, 0, 0, 0, 0, 0, 0, 0, 0, 0, 0, 0, 0, 0, 0, 0, 0, 0, 0, 0, 0, 0, 0, 0, 0, 0, 0, 0, 0, 0]"
  by (simp add: numeral_eq_Suc)

lemma zeros_58: "replicate 58 (0 :: word32) = replicate 38 0 @ [0, 0, 0, 0, 0, 0, 0, 0, 0, 0, 0, 0, 0, 0, 0, 0, 0, 0, 0, 0]"
  by (simp add: numeral_eq_Suc)

lemma fold_zeros_38:
  "foldl polymod_step 1 (replicate 38 0) = 0x17ebadab" "foldl polymod_step 2 (replicate 38 0) = 0x2d53db56"
  "foldl polymod_step 4 (replicate 38 0) = 0xa3717a5" "foldl polymod_step 8 (replicate 38 0) = 0x146e2a6a"
  "foldl polymod_step 16 (replicate 38 0) = 0x28c8d1f4"
  unfolding zeros_38 by (simp_all add: polymod_step_def generator_mix_numeral)

lemma fold_zeros_58:
  "foldl polymod_step 1 (replicate 58 0) = 0x3eb817be" "foldl polymod_step 2 (replicate 58 0) = 0x2f64aa75"
  "foldl polymod_step 4 (replicate 58 0) = 0xe5951e3" "foldl polymod_step 8 (replicate 58 0) = 0x1ca687c6"
  "foldl polymod_step 16 (replicate 58 0) = 0x394d0aac"
  unfolding zeros_58 foldl_append fold_zeros_38 by (simp_all add: polymod_step_def generator_mix_numeral)

lemma basis_computed:
  "map (\<lambda>i. foldl polymod_step (push_bit i 1) (replicate 38 0)) [0..<5] = basis_38"
  "map (\<lambda>i. foldl polymod_step (push_bit i 1) (replicate 58 0)) [0..<5] = basis_58"
proof -
  have upt: "[0..<5] = [0, 1, 2, 3, 4 :: nat]" by code_simp
  have push: "push_bit 0 1 = (1 :: word32)" "push_bit 1 1 = (2 :: word32)" "push_bit 2 1 = (4 :: word32)" "push_bit 3 1 = (8 :: word32)" "push_bit 4 1 = (16 :: word32)"
    by (simp_all add: push_bit_eq_mult)
  show "map (\<lambda>i. foldl polymod_step (push_bit i 1) (replicate 38 0)) [0..<5] = basis_38"
    unfolding upt list.map push fold_zeros_38 basis_38_def by (rule refl)
  show "map (\<lambda>i. foldl polymod_step (push_bit i 1) (replicate 58 0)) [0..<5] = basis_58"
    unfolding upt list.map push fold_zeros_58 basis_58_def by (rule refl)
qed

lemma version_change_detected:
  "list_all (\<lambda>n. let e = word_of_nat n in e = select_xor e (map (\<lambda>i. push_bit i 1) [0..<5]) \<and>
     select_xor e basis_38 \<noteq> BECH32_CONST XOR BECH32M_CONST \<and> select_xor e basis_58 \<noteq> BECH32_CONST XOR BECH32M_CONST) [1..<32]"
  by code_simp

lemma fold_zeros_xor: "foldl polymod_step (a XOR b) (replicate n 0) = foldl polymod_step a (replicate n 0) XOR foldl polymod_step b (replicate n 0)"
  using polymod_fold_xor [of "replicate n 0" "replicate n 0" a b] by simp

lemma fold_zeros_select:
  assumes "e = select_xor e (map (\<lambda>i. push_bit i 1) [0..<5])"
  shows "foldl polymod_step e (replicate n 0) = select_xor e (map (\<lambda>i. foldl polymod_step (push_bit i 1) (replicate n 0)) [0..<5])"
proof -
  let ?F = "\<lambda>c. foldl polymod_step c (replicate n 0)"
  have "?F (foldr (\<lambda>i a. (if bit e i then map (\<lambda>i. push_bit i 1) [0..<5] ! i else 0) XOR a) is 0) =
      foldr (\<lambda>i a. (if bit e i then map (\<lambda>i. ?F (push_bit i 1)) [0..<5] ! i else 0) XOR a) is 0" if "set is \<subseteq> {0..<5}" for "is"
    using that by (induction "is") (auto simp: polymod_zero_start fold_zeros_xor)
  from this [of "[0..<5]"] have "?F (select_xor e (map (\<lambda>i. push_bit i 1) [0..<5])) = select_xor e (map (\<lambda>i. ?F (push_bit i 1)) [0..<5])"
    by (simp only: select_xor_def set_upt order_refl)
  with assms show ?thesis by simp
qed

lemma version_syndrome:
  assumes "0 < unat e" "unat e < 32" "n \<in> {38, 58}"
  shows "foldl polymod_step e (replicate n 0) \<noteq> BECH32_CONST XOR BECH32M_CONST"
proof -
  have "unat e \<in> set [1..<32]" using assms(1,2) by simp
  then have "let e = word_of_nat (unat e) in e = select_xor e (map (\<lambda>i. push_bit i 1) [0..<5]) \<and>
     select_xor e basis_38 \<noteq> BECH32_CONST XOR BECH32M_CONST \<and> select_xor e basis_58 \<noteq> BECH32_CONST XOR BECH32M_CONST"
    using version_change_detected unfolding list_all_iff by blast
  then have sel: "e = select_xor e (map (\<lambda>i. push_bit i 1) [0..<5])" "select_xor e basis_38 \<noteq> BECH32_CONST XOR BECH32M_CONST"
    "select_xor e basis_58 \<noteq> BECH32_CONST XOR BECH32M_CONST" by (simp_all add: Let_def)
  show ?thesis using fold_zeros_select [OF sel(1), of n] sel(2,3) assms(3) basis_computed by auto
qed

text \<open>Two strings of one length that differ in one place.\<close>

definition differences :: "'a list \<Rightarrow> 'a list \<Rightarrow> nat" where
  "differences xs ys = length (filter (\<lambda>(x, y). x \<noteq> y) (zip xs ys))"

lemma differences_append: "length a = length c \<Longrightarrow> differences (a @ b) (c @ d) = differences a c + differences b d"
  by (simp add: differences_def)

lemma differences_same [simp]: "differences xs xs = 0"
  by (induction xs) (simp_all add: differences_def)

lemma no_difference: "length xs = length ys \<Longrightarrow> differences xs ys = 0 \<Longrightarrow> xs = ys"
  by (induction xs ys rule: list_induct2) (auto simp: differences_def split: if_splits)

lemma one_difference:
  "length xs = length ys \<Longrightarrow> differences xs ys = 1 \<Longrightarrow> \<exists>p x y q. xs = p @ x # q \<and> ys = p @ y # q \<and> x \<noteq> y"
proof (induction xs ys rule: list_induct2)
  case (Cons x xs y ys)
  show ?case
  proof (cases "x = y")
    case True
    then have "differences xs ys = 1" using Cons.prems by (simp add: differences_def)
    with Cons.IH obtain p a b q where "xs = p @ a # q \<and> ys = p @ b # q \<and> a \<noteq> b" by blast
    with True show ?thesis by (intro exI [of _ "y # p"]) auto
  next
    case False
    then have "differences xs ys = 0" using Cons.prems by (simp add: differences_def)
    then have "xs = ys" using Cons.hyps by (rule no_difference [rotated])
    with False show ?thesis by (intro exI [of _ "[]"]) auto
  qed
qed (simp add: differences_def)

lemma small_word_30: "unat (v :: word32) < 32 \<Longrightarrow> take_bit 30 v = v"
proof -
  assume "unat v < 32"
  then have "unat (take_bit 30 v) = unat v" unfolding unsigned_take_bit_eq by (simp add: take_bit_nat_eq_self)
  then show ?thesis by (rule unsigned_word_eqI)
qed

text \<open>C29: no typing error goes unnoticed. Two valid segregated-witness addresses of one network and length,
  of whatever version, never differ in exactly one character: whoever mistypes one character of such
  an address has typed an invalid one. (Upper and lower case spell the same address.)\<close>

theorem segwit_typo_detected:
  assumes a: "isValidSegwit a network" and b: "isValidSegwit b network" and len: "length a = length b"
  shows "differences (toLowerCase a) (toLowerCase b) \<noteq> 1"
proof
  assume one: "differences (toLowerCase a) (toLowerCase b) = 1"
  let ?h = "segwit_hrp network" and ?x = "bech32HrpExpand (segwit_hrp network)"
  from valid_segwit_shape [OF a] obtain da va ra ea where A: "toLowerCase a = ?h @ CHR ''1'' # da" "charset_values da = Some va"
    "bech32Polymod (?x @ va) = variant_const ra" "witness_program ?h va ra = Some ea" by blast
  from valid_segwit_shape [OF b] obtain db vb rb eb where B: "toLowerCase b = ?h @ CHR ''1'' # db" "charset_values db = Some vb"
    "bech32Polymod (?x @ vb) = variant_const rb" "witness_program ?h vb rb = Some eb" by blast
  have "length (toLowerCase a) = length (toLowerCase b)" using len by simp
  then have "length da = length db" unfolding A(1) B(1) by simp
  moreover have "differences da db = 1" using one unfolding A(1) B(1) by (simp add: differences_append) (simp add: differences_def)
  ultimately obtain p x y q where xy: "da = p @ x # q" "db = p @ y # q" "x \<noteq> y" using one_difference by blast
  from charset_values_append [of p x q va] A(2) xy(1) obtain u i w where va: "va = u @ word_of_nat i # w" "charset_values p = Some u"
    "charset_values q = Some w" "index_of BECH32_CHARSET x = Some i" by auto
  from charset_values_append [of p y q vb] B(2) xy(2) va(2,3) obtain j where vb: "vb = u @ word_of_nat j # w" "index_of BECH32_CHARSET y = Some j" by auto
  have ij: "(word_of_nat i :: word32) \<noteq> word_of_nat j" using charset_word_inj [OF va(4) vb(2)] xy(3) by blast
  have small: "unat (word_of_nat i :: word32) < 32" "unat (word_of_nat j :: word32) < 32"
    using charset_values_small [OF A(2)] charset_values_small [OF B(2)] va(1) vb(1) by auto
  note diff = polymod_one_difference [OF small_word_30 [OF small(1)] small_word_30 [OF small(2)] ij, where us = "?x @ u" and vs = w]
  have "ra \<noteq> rb" using diff(2) A(3) B(3) va(1) vb(1) by auto
  from witness_program_Some [OF A(4)] obtain v1 p1 where w1: "va = v1 # p1" "v1 = 0 \<longleftrightarrow> ra = Bech32" "v1 = 0 \<longrightarrow> length va \<in> {39, 59}" by blast
  from witness_program_Some [OF B(4)] obtain v2 p2 where w2: "vb = v2 # p2" "v2 = 0 \<longleftrightarrow> rb = Bech32" "v2 = 0 \<longrightarrow> length vb \<in> {39, 59}" by blast
  have "v1 \<noteq> v2" "v1 = 0 \<or> v2 = 0" using \<open>ra \<noteq> rb\<close> w1(2) w2(2) by (metis bech32_variant.exhaust)+
  then have u: "u = []" using w1(1) w2(1) va(1) vb(1) by (cases u) auto
  then have v: "v1 = word_of_nat i" "v2 = word_of_nat j" using w1(1) w2(1) va(1) vb(1) by auto
  have n: "length w \<in> {38, 58}" using \<open>v1 = 0 \<or> v2 = 0\<close> w1(3) w2(3) va(1) vb(1) u by auto
  have "word_of_nat i XOR word_of_nat j = (if v1 = 0 then word_of_nat j else word_of_nat i :: word32)"
    using \<open>v1 = 0 \<or> v2 = 0\<close> v by auto
  then have e: "0 < unat (word_of_nat i XOR word_of_nat j :: word32)" "unat (word_of_nat i XOR word_of_nat j :: word32) < 32"
    using small ij v \<open>v1 = 0 \<or> v2 = 0\<close> by (auto simp: unat_gt_0)
  have "variant_const ra XOR variant_const rb = BECH32_CONST XOR BECH32M_CONST"
    using \<open>ra \<noteq> rb\<close> by (cases ra; cases rb) (auto simp: variant_const_simps xor.commute)
  with diff(1) A(3) B(3) va(1) vb(1) have "foldl polymod_step (word_of_nat i XOR word_of_nat j) (replicate (length w) 0) = BECH32_CONST XOR BECH32M_CONST" by simp
  with version_syndrome [OF e n] show False by blast
qed

lemma sample_segwit:
  "isValidSegwit ''bc1qw508d6qejxtdg4y5r3zarvary0c5xw7kv8f3t4'' Mainnet"
  "isValidSegwit ''bc13qqqqjggfzq'' Mainnet"
  by code_simp+

theorem segwit_typo_detected_witness:
  "isValidSegwit ''bc1qw508d6qejxtdg4y5r3zarvary0c5xw7kv8f3t4'' Mainnet \<and>
   differences (toLowerCase ''bc1qw508d6qejxtdg4y5r3zarvary0c5xw7kv8f3t4'') (toLowerCase ''bc1qw508d6qejxtdg4y5r3zarvary0c5xw7kv8f3t4'') \<noteq> 1"
  using segwit_typo_detected [OF sample_segwit(1) sample_segwit(1) refl] sample_segwit(1) by blast

text \<open>The version of a witness program is not checked against the highest one, 16: the second sample has
  version 17.\<close>

lemma version_seventeen_accepted:
  "isValidSegwit ''bc13qqqqjggfzq'' Mainnet \<and> map_option bd_version (bech32Decode ''bc13qqqqjggfzq'') = Some 17"
  using sample_segwit(2) by (intro conjI) (assumption, code_simp)

section \<open>The form of an address that is stored\<close>

definition hex_chars :: string where
  "hex_chars = ''0123456789abcdefABCDEF''"

lemma hex_table:
  "list_all (\<lambda>c. is_hex (lower_char c) \<and> is_hex (upper_char c) \<and> lower_char (upper_char (lower_char c)) = lower_char c) hex_chars"
  by code_simp

lemma hex_case: "is_hex c \<Longrightarrow> is_hex (lower_char c)" "is_hex c \<Longrightarrow> is_hex (upper_char c)" "is_hex c \<Longrightarrow> lower_char (upper_char (lower_char c)) = lower_char c"
  using hex_table unfolding is_hex_def list_all_iff hex_chars_def by blast+

lemma toLowerCase_append: "toLowerCase (a @ b) = toLowerCase a @ toLowerCase b"
  by (simp add: toLowerCase_def)

lemma evm_split:
  assumes "isStructurallyValidEvmAddress a"
  shows "a = ''0x'' @ drop 2 a" "length (drop 2 a) = 40" "list_all is_hex (drop 2 a)" "toLowerCase a = ''0x'' @ toLowerCase (drop 2 a)"
proof -
  show a: "a = ''0x'' @ drop 2 a" using assms by (metis append_take_drop_id isStructurallyValidEvmAddress_def)
  show "length (drop 2 a) = 40" "list_all is_hex (drop 2 a)" using assms by (simp_all add: isStructurallyValidEvmAddress_def)
  have "toLowerCase ''0x'' = ''0x''" by code_simp
  then show "toLowerCase a = ''0x'' @ toLowerCase (drop 2 a)" using a toLowerCase_append by metis
qed

lemma evm_structure: "length b = 40 \<Longrightarrow> list_all is_hex b \<Longrightarrow> isStructurallyValidEvmAddress (''0x'' @ b)"
  by (simp add: isStructurallyValidEvmAddress_def)

lemma evm_lower: "isStructurallyValidEvmAddress a \<Longrightarrow> isStructurallyValidEvmAddress (toLowerCase a)"
proof -
  assume a: "isStructurallyValidEvmAddress a"
  have "list_all is_hex (toLowerCase (drop 2 a))"
    using evm_split(3) [OF a] hex_case(1) unfolding toLowerCase_def list_all_iff set_map by blast
  moreover have "length (toLowerCase (drop 2 a)) = 40" using evm_split(2) [OF a] by simp
  ultimately show "isStructurallyValidEvmAddress (toLowerCase a)" unfolding evm_split(4) [OF a] by (rule evm_structure [rotated])
qed

text \<open>The checksummed spelling of an address has the same digits.\<close>

lemma checksum_lower:
  assumes "list_all is_hex s" "length s \<le> length h"
  shows "toLowerCase (checksum_chars (toLowerCase s) h) = toLowerCase s" "list_all is_hex (checksum_chars (toLowerCase s) h)"
    "length (checksum_chars (toLowerCase s) h) = length s"
proof -
  have "toLowerCase (checksum_chars (toLowerCase s) h) = toLowerCase s \<and> list_all is_hex (checksum_chars (toLowerCase s) h)"
    using assms
  proof (induction s arbitrary: h)
    case (Cons c s)
    then obtain d hs where h: "h = d # hs" by (cases h) auto
    with Cons hex_case [of c] hex_case(2) [of "lower_char c"] show ?case by (simp add: checksum_chars_def toLowerCase_def)
  qed (simp add: checksum_chars_def toLowerCase_def)
  then show "toLowerCase (checksum_chars (toLowerCase s) h) = toLowerCase s" "list_all is_hex (checksum_chars (toLowerCase s) h)" by blast+
  show "length (checksum_chars (toLowerCase s) h) = length s" using assms(2) by (simp add: checksum_chars_def)
qed

lemma checksum_valid:
  assumes "\<And>x. 40 \<le> length (keccak x)" "toChecksumAddress keccak a = Inr c"
  shows "toLowerCase c = toLowerCase a" "isValidEvmAddress keccak c" "toChecksumAddress keccak c = Inr c"
proof -
  have a: "isStructurallyValidEvmAddress a" and c: "c = ''0x'' @ checksum_chars (toLowerCase (drop 2 a)) (keccak (toLowerCase (drop 2 a)))"
    using assms(2) by (auto simp: toChecksumAddress_def Let_def split: if_splits)
  have body: "toLowerCase (drop 2 c) = toLowerCase (drop 2 a)" "list_all is_hex (drop 2 c)" "length (drop 2 c) = 40"
    using checksum_lower [OF evm_split(3) [OF a], of "keccak (toLowerCase (drop 2 a))"] assms(1) evm_split(2) [OF a] by (simp_all add: c)
  have sc: "isStructurallyValidEvmAddress c" using evm_structure [OF body(3,2)] by (simp add: c)
  show "toLowerCase c = toLowerCase a" using evm_split(4) [OF sc] evm_split(4) [OF a] body(1) by simp
  show cc: "toChecksumAddress keccak c = Inr c" using sc body(1) by (simp add: toChecksumAddress_def Let_def) (simp add: c)
  show "isValidEvmAddress keccak c" using sc cc by (simp add: isValidEvmAddress_def Let_def)
qed

lemma segwit_lower: "isValidSegwit a network \<Longrightarrow> isValidSegwit (toLowerCase a) network"
  by (auto simp: isValidSegwit_def bech32Decode_def Let_def split: option.splits if_splits)

text \<open>Addresses are stored and compared in one form. Normalising is idempotent and keeps an address
  valid, for both families; EVM addresses are equal exactly when they normalise to the same text; the
  checksummed spelling of an address is valid, equal to it and a fixed point; and in mixed case no
  other spelling is valid.\<close>

lemma normalization_is_canonical:
  assumes "\<And>x. 40 \<le> length (keccak x)"
  shows "(normalizeBitcoinAddress sha a network = Inr n \<longrightarrow> isValidBitcoinAddress sha n network \<and> normalizeBitcoinAddress sha n network = Inr n) \<and>
    (normalizeEvmAddress e = Inr m \<longrightarrow> normalizeEvmAddress m = Inr m \<and> isValidEvmAddress keccak m) \<and>
    (evmAddressesEqual e f \<longleftrightarrow> is_ok (normalizeEvmAddress e) \<and> normalizeEvmAddress e = normalizeEvmAddress f) \<and>
    (toChecksumAddress keccak e = Inr c \<longrightarrow> evmAddressesEqual c e \<and> isValidEvmAddress keccak c \<and> toChecksumAddress keccak c = Inr c) \<and>
    (isValidEvmAddress keccak e \<and> drop 2 e \<noteq> toLowerCase (drop 2 e) \<and> drop 2 e \<noteq> toUpperCase (drop 2 e) \<longrightarrow> toChecksumAddress keccak e = Inr e)"
proof (intro conjI impI)
  assume n: "normalizeBitcoinAddress sha a network = Inr n"
  then have "n = a \<and> isValidBase58Check sha a network \<or> n = toLowerCase a \<and> isValidSegwit a network" and "a \<noteq> []"
    by (auto simp: normalizeBitcoinAddress_def isValidBitcoinAddress_def split: if_splits)
  then show v: "isValidBitcoinAddress sha n network" using segwit_lower by (auto simp: isValidBitcoinAddress_def toLowerCase_def)
  then show "normalizeBitcoinAddress sha n network = Inr n" using n
    by (auto simp: normalizeBitcoinAddress_def split: if_splits)
next
  assume "normalizeEvmAddress e = Inr m"
  then have m: "m = toLowerCase e" "isStructurallyValidEvmAddress e" by (auto simp: normalizeEvmAddress_def split: if_splits)
  with evm_lower have sm: "isStructurallyValidEvmAddress m" by simp
  with m(1) show "normalizeEvmAddress m = Inr m" by (simp add: normalizeEvmAddress_def)
  have "drop 2 m = toLowerCase (drop 2 m)" using m(1) by (simp add: toLowerCase_def drop_map comp_def)
  with sm show "isValidEvmAddress keccak m" by (simp add: isValidEvmAddress_def)
next
  show "evmAddressesEqual e f \<longleftrightarrow> is_ok (normalizeEvmAddress e) \<and> normalizeEvmAddress e = normalizeEvmAddress f"
    by (auto simp: evmAddressesEqual_def normalizeEvmAddress_def)
next
  assume c: "toChecksumAddress keccak e = Inr c"
  note v = checksum_valid [OF assms c]
  show "isValidEvmAddress keccak c" "toChecksumAddress keccak c = Inr c" using v by simp_all
  have "isStructurallyValidEvmAddress e" using c by (auto simp: toChecksumAddress_def split: if_splits)
  with v show "evmAddressesEqual c e" by (simp add: evmAddressesEqual_def isValidEvmAddress_def)
next
  assume "isValidEvmAddress keccak e \<and> drop 2 e \<noteq> toLowerCase (drop 2 e) \<and> drop 2 e \<noteq> toUpperCase (drop 2 e)"
  then show "toChecksumAddress keccak e = Inr e" by (simp add: isValidEvmAddress_def Let_def)
qed

text \<open>The test for an empty value compares with one digit after the digits were padded to pairs, so a text
  of ones decodes to one byte too many.\<close>

lemma all_ones_one_byte_too_many: "base58Decode (replicate 3 (CHR ''1'')) = Some [0, 0, 0, 0]"
  by code_simp

end
