(* ===== verification/Doubles.thy ===== *)
theory Doubles
  imports Complex_Main "HOL-Library.Log_Nat"
begin

text \<open>
  JavaScript numbers, as the rational numbers they denote. \<open>to_double\<close> rounds to the nearest double, ties to
  the one with an even last bit: what \<open>JSON.parse\<close> does with a decimal, \<open>Number\<close> with a \<open>bigint\<close>, and every
  arithmetic operation with its exact result. Numbers from \<open>2 ^ 1024\<close> on, which become infinite, do not
  occur in what is modelled. \<open>btcToSatoshis\<close> is from \<open>packages/blockchain/src/bitcoin/rpc-client.ts\<close>.
\<close>

definition pow2 :: "int \<Rightarrow> rat" where
  "pow2 e = (if 0 \<le> e then 2 ^ nat e else 1 / 2 ^ nat (- e))"

text \<open>The exponent of the leading bit of a positive number.\<close>

definition binary_exponent :: "rat \<Rightarrow> int" where
  "binary_exponent x = (let (p, q) = quotient_of x; e = bitlen p - bitlen q in if pow2 e \<le> x then e else e - 1)"

definition round_half_even :: "rat \<Rightarrow> int" where
  "round_half_even x = (let f = \<lfloor>x\<rfloor>; d = x - of_int f in
     if d < 1 / 2 then f else if d > 1 / 2 then f + 1 else if even f then f else f + 1)"

text \<open>Doubles have 52 bits after the leading one, and no exponent below \<open>-1022\<close>.\<close>

definition last_place :: "rat \<Rightarrow> rat" where
  "last_place x = pow2 (max (binary_exponent \<bar>x\<bar>) (- 1022) - 52)"

definition to_double :: "rat \<Rightarrow> rat" where
  "to_double x = (if x = 0 then 0 else of_int (round_half_even (x / last_place x)) * last_place x)"

definition Math_round :: "rat \<Rightarrow> int" where
  "Math_round x = \<lfloor>x + 1 / 2\<rfloor>"

definition Number_of_bigint :: "int \<Rightarrow> int" where
  "Number_of_bigint n = \<lfloor>to_double (of_int n)\<rfloor>"

definition btcToSatoshis :: "rat \<Rightarrow> int" where
  "btcToSatoshis amount = Math_round (to_double (amount * 10 ^ 8))"

section \<open>The error of rounding\<close>

lemma pow2_powi: "pow2 e = 2 powi e"
  by (simp add: pow2_def power_int_def field_simps)

lemma pow2_pos [simp]: "0 < pow2 e"
  by (simp add: pow2_def)

lemma pow2_add: "pow2 (a + b) = pow2 a * pow2 b"
  unfolding pow2_powi by (simp add: power_int_add)

lemma pow2_mono: "a \<le> b \<Longrightarrow> pow2 a \<le> pow2 b"
  unfolding pow2_powi by (rule power_int_increasing) simp_all

lemma pow2_nat: "0 \<le> e \<Longrightarrow> pow2 e = 2 ^ nat e"
  by (simp add: pow2_def)

lemma bitlen_pow2_bounds:
  assumes "0 < p"
  shows "pow2 (bitlen p - 1) \<le> of_int p" "of_int p < pow2 (bitlen p)"
proof -
  have "1 \<le> bitlen p" using assms bitlen_nonneg [of p] bitlen_eq_zero_iff [of p] by linarith
  moreover have "2 ^ nat (bitlen p - 1) \<le> p" "p < 2 ^ nat (bitlen p)" using bitlen_bounds [OF assms] by simp_all
  then have "(of_int (2 ^ nat (bitlen p - 1)) :: rat) \<le> of_int p" "of_int p < (of_int (2 ^ nat (bitlen p)) :: rat)"
    by (simp_all only: of_int_le_iff of_int_less_iff)
  ultimately show "pow2 (bitlen p - 1) \<le> of_int p" "of_int p < pow2 (bitlen p)" by (simp_all add: pow2_nat)
qed

lemma binary_exponent_le:
  assumes "0 < x"
  shows "pow2 (binary_exponent x) \<le> x"
proof -
  obtain p q where pq: "quotient_of x = (p, q)" by (cases "quotient_of x")
  have q: "0 < q" and x: "x = of_int p / of_int q" using quotient_of_denom_pos [OF pq] quotient_of_div [OF pq] by simp_all
  have p: "0 < p" using assms q x by (simp add: zero_less_divide_iff)
  let ?e = "bitlen p - bitlen q"
  have "pow2 (?e - 1) * of_int q \<le> pow2 (?e - 1) * pow2 (bitlen q)"
    using bitlen_pow2_bounds(2) [OF q] by simp
  also have "\<dots> = pow2 (bitlen p - 1)" unfolding pow2_add [symmetric] by simp
  also have "\<dots> \<le> of_int p" by (rule bitlen_pow2_bounds(1) [OF p])
  finally have "pow2 (?e - 1) \<le> x" using q by (simp add: x pos_le_divide_eq)
  then show ?thesis by (auto simp: binary_exponent_def pq Let_def)
qed

lemma binary_exponent_less:
  assumes "0 < x"
  shows "x < pow2 (binary_exponent x + 1)"
proof -
  obtain p q where pq: "quotient_of x = (p, q)" by (cases "quotient_of x")
  have q: "0 < q" and x: "x = of_int p / of_int q" using quotient_of_denom_pos [OF pq] quotient_of_div [OF pq] by simp_all
  have p: "0 < p" using assms q x by (simp add: zero_less_divide_iff)
  let ?e = "bitlen p - bitlen q"
  have "of_int p < pow2 (bitlen p)" by (rule bitlen_pow2_bounds(2) [OF p])
  also have "\<dots> = pow2 (?e + 1) * pow2 (bitlen q - 1)" unfolding pow2_add [symmetric] by simp
  also have "\<dots> \<le> pow2 (?e + 1) * of_int q" using bitlen_pow2_bounds(1) [OF q] by simp
  finally have "x < pow2 (?e + 1)" using q by (simp add: x pos_divide_less_eq)
  then show ?thesis by (auto simp: binary_exponent_def pq Let_def)
qed

lemma round_half_even_error: "\<bar>of_int (round_half_even x) - x\<bar> \<le> 1 / 2"
proof -
  have "of_int \<lfloor>x\<rfloor> \<le> x" "x < of_int \<lfloor>x\<rfloor> + 1" by linarith+
  then show ?thesis unfolding round_half_even_def Let_def abs_le_iff by (simp split: if_split) linarith
qed

lemma last_place_pos: "0 < last_place x"
  by (simp add: last_place_def)

lemma to_double_error_place: "\<bar>to_double x - x\<bar> \<le> last_place x / 2"
proof (cases "x = 0")
  case False
  let ?u = "last_place x"
  have "\<bar>of_int (round_half_even (x / ?u)) - x / ?u\<bar> * ?u \<le> 1 / 2 * ?u"
    using round_half_even_error [of "x / ?u"] last_place_pos [of x] by (intro mult_right_mono) auto
  then have "\<bar>(of_int (round_half_even (x / ?u)) - x / ?u) * ?u\<bar> \<le> ?u / 2" using last_place_pos [of x] by (simp add: abs_mult)
  then show ?thesis using False last_place_pos [of x] by (simp add: to_double_def algebra_simps)
qed (simp add: to_double_def last_place_def less_imp_le)

lemma to_double_error:
  assumes "pow2 (- 1022) \<le> \<bar>x\<bar>"
  shows "\<bar>to_double x - x\<bar> \<le> \<bar>x\<bar> / 2 ^ 53"
proof -
  have pos: "0 < \<bar>x\<bar>" using assms pow2_pos [of "- 1022"] by linarith
  have "- 1022 \<le> binary_exponent \<bar>x\<bar>"
  proof (rule ccontr)
    assume "\<not> - 1022 \<le> binary_exponent \<bar>x\<bar>"
    then have "pow2 (binary_exponent \<bar>x\<bar> + 1) \<le> pow2 (- 1022)" by (intro pow2_mono) simp
    then show False using binary_exponent_less [OF pos] assms by linarith
  qed
  then have "last_place x / 2 = pow2 (binary_exponent \<bar>x\<bar> + - 52) / 2" by (simp add: last_place_def)
  also have "\<dots> = pow2 (binary_exponent \<bar>x\<bar>) / 2 ^ 53" unfolding pow2_add by (simp add: pow2_def [of "- 52"])
  also have "\<dots> \<le> \<bar>x\<bar> / 2 ^ 53" using binary_exponent_le [OF pos] by (simp add: divide_right_mono)
  finally show ?thesis using to_double_error_place [of x] by linarith
qed

text \<open>Integers below \<open>2 ^ 53\<close> are exact.\<close>

lemma round_half_even_int [simp]: "round_half_even (of_int n) = n"
  by (simp add: round_half_even_def)

lemma to_double_int:
  assumes "\<bar>n\<bar> < 2 ^ 53"
  shows "to_double (of_int n) = of_int n"
proof (cases "n = 0")
  case False
  then have pos: "(0 :: rat) < \<bar>of_int n\<bar>" by simp
  have "pow2 (binary_exponent \<bar>of_int n\<bar>) \<le> of_int \<bar>n\<bar>" using binary_exponent_le [OF pos] by simp
  also have "\<dots> < of_int (2 ^ 53)" using assms by (simp only: of_int_less_iff)
  also have "\<dots> = pow2 53" by (simp add: pow2_def)
  finally have "binary_exponent \<bar>of_int n\<bar> < 53" using pow2_mono [of 53 "binary_exponent \<bar>of_int n\<bar>"] by linarith
  then have e: "max (binary_exponent \<bar>of_int n\<bar>) (- 1022) - 52 \<le> 0" by simp
  define k where "k = nat (- (max (binary_exponent \<bar>of_int n\<bar>) (- 1022) - 52))"
  have place: "last_place (of_int n) = 1 / 2 ^ k" using e by (auto simp: last_place_def pow2_def k_def)
  have "of_int n / last_place (of_int n) = of_int (n * 2 ^ k)" by (simp add: place)
  then have "round_half_even (of_int n / last_place (of_int n)) = n * 2 ^ k" using round_half_even_int by metis
  then show ?thesis using False by (simp add: to_double_def place)
qed (simp add: to_double_def)

lemma Number_exact: "\<bar>n\<bar> < 2 ^ 53 \<Longrightarrow> Number_of_bigint n = n"
  by (simp add: Number_of_bigint_def to_double_int)

section \<open>Amounts in bitcoin\<close>

lemma btcToSatoshis_zero [simp]: "btcToSatoshis 0 = 0"
  by (simp add: btcToSatoshis_def to_double_def Math_round_def floor_eq_iff)

lemma Number_nonneg: "0 \<le> n \<Longrightarrow> 0 \<le> Number_of_bigint n"
proof -
  assume "0 \<le> n"
  then have "0 \<le> round_half_even (of_int n / last_place (of_int n))"
    using last_place_pos [of "of_int n"] by (auto simp: round_half_even_def Let_def)
  then show ?thesis using last_place_pos [of "of_int n"] by (simp add: Number_of_bigint_def to_double_def)
qed

lemma Math_round_near: "\<bar>x - of_int n\<bar> < 1 / 2 \<Longrightarrow> Math_round x = n"
  unfolding Math_round_def by (rule floor_unique) linarith+

lemma tiny: "pow2 (- 1022) \<le> 1 / 10 ^ 8"
proof -
  have "pow2 (- 1022) \<le> pow2 (- 27)" by (rule pow2_mono) simp
  also have "\<dots> \<le> 1 / 10 ^ 8" by (simp add: pow2_def)
  finally show ?thesis .
qed

text \<open>Converting a node's amounts with floating-point arithmetic is exact. The node reports an amount as
  a number of bitcoins with eight decimals, of which the client gets the nearest double; for every amount
  up to the 21 million bitcoins that can exist, multiplying and rounding gives back the number of
  satoshis.\<close>

lemma btcToSatoshis_exact:
  assumes "0 \<le> n" "n \<le> 21 * 10 ^ 14"
  shows "btcToSatoshis (to_double (of_int n / 10 ^ 8)) = n"
proof (cases "n = 0")
  case True
  then show ?thesis using Math_round_near [of 0 0] by (simp add: btcToSatoshis_def to_double_def)
next
  case False
  define x :: rat where "x = of_int n"
  have x: "1 \<le> x" "x \<le> 21 * 10 ^ 14" unfolding x_def using False assms by simp_all
  define a where "a = to_double (x / 10 ^ 8)"
  have "1 / 10 ^ 8 \<le> \<bar>x / 10 ^ 8\<bar>" using x(1) by (simp add: abs_if divide_right_mono)
  then have "\<bar>a - x / 10 ^ 8\<bar> \<le> \<bar>x / 10 ^ 8\<bar> / 2 ^ 53" unfolding a_def using tiny by (intro to_double_error) linarith
  then have y: "\<bar>a * 10 ^ 8 - x\<bar> \<le> x / 2 ^ 53" using x(1) by (simp add: abs_if field_simps split: if_splits)
  have "x / 2 ^ 53 \<le> x / 2" using x(1) by (intro divide_left_mono) simp_all
  then have "1 / 2 \<le> a * 10 ^ 8" using y x(1) by linarith
  then have "pow2 (- 1022) \<le> \<bar>a * 10 ^ 8\<bar>" using tiny by (simp add: abs_if)
  then have "\<bar>to_double (a * 10 ^ 8) - a * 10 ^ 8\<bar> \<le> \<bar>a * 10 ^ 8\<bar> / 2 ^ 53" by (rule to_double_error)
  moreover have "\<bar>a * 10 ^ 8\<bar> \<le> x + x / 2 ^ 53" using y \<open>1 / 2 \<le> a * 10 ^ 8\<close> by linarith
  then have "\<bar>a * 10 ^ 8\<bar> / 2 ^ 53 \<le> (x + x / 2 ^ 53) / 2 ^ 53" by (rule divide_right_mono) simp
  ultimately have z: "\<bar>to_double (a * 10 ^ 8) - a * 10 ^ 8\<bar> \<le> (x + x / 2 ^ 53) / 2 ^ 53" by (rule order_trans)
  have "x / 2 ^ 53 + (x + x / 2 ^ 53) / 2 ^ 53 < 1 / 2" using x by (simp add: field_simps)
  then have "\<bar>to_double (a * 10 ^ 8) - of_int n\<bar> < 1 / 2" using y z unfolding x_def [symmetric] by linarith
  then show ?thesis unfolding btcToSatoshis_def a_def x_def by (rule Math_round_near)
qed

end
