(* ===== verification/Adapters.thy ===== *)
theory Adapters
  imports Scanner Addresses Doubles
begin

text \<open>
  The adapters between the monitor and the nodes: the JSON-RPC clients
  (\<open>packages/blockchain/src/evm/rpc-client.ts\<close>, \<open>bitcoin/rpc-client.ts\<close>), the parsing of transfer logs
  (\<open>evm/transfer-log.ts\<close>) and the two adapters (\<open>evm/rpc-adapter.ts\<close>, \<open>bitcoin/rpc-adapter.ts\<close>). \<open>fetch\<close> is
  a parameter, and so is the node: the answer of each method, in the shape the adapters cast it to, or an error. A
  batch of requests is answered in order, its first error being the one that is thrown. The polling
  subscription is a step on the last block seen; the raw payload kept with a transaction is not modelled.
\<close>

section \<open>Errors\<close>

text \<open>An error the node answered with, a failure to reach the node with whether it can be tried again, a log that
  cannot be parsed, and any other \<open>Error\<close>.\<close>

datatype chain_error =
    RpcError int string
  | BlockchainAdapterError string bool
  | TransferLogParseError string
  | OtherError string

fun error_text :: "chain_error \<Rightarrow> string" where
  "error_text (RpcError c m) = m"
| "error_text (BlockchainAdapterError m r) = m"
| "error_text (TransferLogParseError m) = m"
| "error_text (OtherError m) = m"

definition is_rpc_error :: "chain_error \<Rightarrow> bool" where
  "is_rpc_error e = (case e of RpcError _ _ \<Rightarrow> True | _ \<Rightarrow> False)"

section \<open>The JSON-RPC clients\<close>

text \<open>A body is one response or an array of them; a result may be missing.\<close>

datatype 'r rpc_response = RpcSuccess "'r option" | RpcFailure int string

datatype 'r rpc_body = OneResponse "'r rpc_response" | Responses "'r rpc_response list"

record 'q rpc_request =
  rq_call_id :: nat
  rq_call :: 'q

datatype 'q rpc_payload = OneRequest "'q rpc_request" | Requests "'q rpc_request list"

record 'r http_response =
  hr_ok :: bool
  hr_status :: int
  hr_body :: "'r rpc_body option"

type_synonym ('q, 'r) fetch = "string \<Rightarrow> 'q rpc_payload \<Rightarrow> string + 'r http_response"

record rpc_options =
  ro_url :: string
  ro_fallbackUrl :: "string option"

definition responded :: "int \<Rightarrow> chain_error" where
  "responded status = BlockchainAdapterError (''RPC endpoint responded '' @ show_int status) (status \<ge> 500 \<or> status = 429)"

definition post :: "('q, 'r) fetch \<Rightarrow> string \<Rightarrow> 'q rpc_payload \<Rightarrow> chain_error + 'r rpc_body" where
  "post fetch url payload =
     (case fetch url payload of
        Inl m \<Rightarrow> Inl (BlockchainAdapterError (''RPC transport failure: '' @ m) True)
      | Inr response \<Rightarrow>
          if \<not> hr_ok response then Inl (responded (hr_status response))
          else of_option (BlockchainAdapterError ''RPC endpoint returned a non-JSON body'' True) (hr_body response))"

definition response_result :: "'r rpc_response \<Rightarrow> chain_error + 'r option" where
  "response_result response = (case response of RpcSuccess r \<Rightarrow> Inr r | RpcFailure c m \<Rightarrow> Inl (RpcError c m))"

text \<open>\<open>send\<close> and \<open>sendBatch\<close>, with the identifier the next request gets. An array has no field \<open>error\<close> and no \<open>result\<close>.\<close>

definition send :: "('q, 'r) fetch \<Rightarrow> string \<Rightarrow> 'q \<Rightarrow> nat \<Rightarrow> (chain_error + 'r option) \<times> nat" where
  "send fetch url method nextId =
     (bind_result (post fetch url (OneRequest \<lparr>rq_call_id = nextId, rq_call = method\<rparr>)) (\<lambda>body.
        case body of OneResponse response \<Rightarrow> response_result response | Responses _ \<Rightarrow> Inr None), nextId + 1)"

fun all_results :: "'r rpc_response list \<Rightarrow> chain_error + 'r option list" where
  "all_results [] = Inr []"
| "all_results (x # xs) = bind_result (response_result x) (\<lambda>r. bind_result (all_results xs) (\<lambda>rs. Inr (r # rs)))"

definition number_requests :: "nat \<Rightarrow> 'q list \<Rightarrow> 'q rpc_request list" where
  "number_requests n calls = map2 (\<lambda>i c. \<lparr>rq_call_id = i, rq_call = c\<rparr>) [n..<n + length calls] calls"

definition sendBatch :: "('q, 'r) fetch \<Rightarrow> string \<Rightarrow> 'q list \<Rightarrow> nat \<Rightarrow> (chain_error + 'r option list) \<times> nat" where
  "sendBatch fetch url calls nextId =
     (bind_result (post fetch url (Requests (number_requests nextId calls))) (\<lambda>body.
        case body of
          OneResponse _ \<Rightarrow> Inl (BlockchainAdapterError ''expected a JSON-RPC batch array response'' True)
        | Responses responses \<Rightarrow> all_results responses), nextId + length calls)"

text \<open>The other endpoint is asked only when the first could not be.\<close>

definition with_fallback :: "rpc_options \<Rightarrow> (string \<Rightarrow> nat \<Rightarrow> (chain_error + 'a) \<times> nat) \<Rightarrow> nat \<Rightarrow> (chain_error + 'a) \<times> nat" where
  "with_fallback options attempt nextId =
     (case attempt (ro_url options) nextId of
        (Inl e, n) \<Rightarrow> if \<not> truthy (ro_fallbackUrl options) \<or> is_rpc_error e then (Inl e, n)
                    else attempt (the (ro_fallbackUrl options)) n
      | (Inr a, n) \<Rightarrow> (Inr a, n))"

definition rpc_call :: "('q, 'r) fetch \<Rightarrow> rpc_options \<Rightarrow> 'q \<Rightarrow> nat \<Rightarrow> (chain_error + 'r option) \<times> nat" where
  "rpc_call fetch options method = with_fallback options (\<lambda>url. send fetch url method)"

definition rpc_batch :: "('q, 'r) fetch \<Rightarrow> rpc_options \<Rightarrow> 'q list \<Rightarrow> nat \<Rightarrow> (chain_error + 'r option list) \<times> nat" where
  "rpc_batch fetch options calls nextId =
     (if calls = [] then (Inr [], nextId) else with_fallback options (\<lambda>url. sendBatch fetch url calls) nextId)"

text \<open>Bitcoin Core answers an error with status 500 and a JSON body, which is read first; a body has a result or
  an error.\<close>

definition bitcoin_call :: "('q, 'r) fetch \<Rightarrow> string \<Rightarrow> 'q \<Rightarrow> nat \<Rightarrow> (chain_error + 'r option) \<times> nat" where
  "bitcoin_call fetch url method nextId =
     (case fetch url (OneRequest \<lparr>rq_call_id = nextId, rq_call = method\<rparr>) of
        Inl m \<Rightarrow> Inl (BlockchainAdapterError (''RPC transport failure: '' @ m) True)
      | Inr response \<Rightarrow>
          (case hr_body response of
             None \<Rightarrow> Inl (BlockchainAdapterError ''RPC endpoint returned a non-JSON body'' True)
           | Some (OneResponse (RpcFailure c m)) \<Rightarrow> Inl (RpcError c m)
           | Some body \<Rightarrow>
               if \<not> hr_ok response then Inl (responded (hr_status response))
               else Inr (case body of OneResponse (RpcSuccess r) \<Rightarrow> r | _ \<Rightarrow> None)), nextId + 1)"

definition RPC_INVALID_ADDRESS_OR_KEY :: int where "RPC_INVALID_ADDRESS_OR_KEY = -5"

section \<open>Quantities\<close>

text \<open>\<open>BigInt(s)\<close>: white space around is dropped, nothing is zero, a prefix gives the base, and only a decimal
  has a sign.\<close>

definition radix_value :: "int \<Rightarrow> string \<Rightarrow> int" where
  "radix_value base s = foldl (\<lambda>a c. a * base + int (hex_val (lower_char c))) 0 s"

definition radix_literal :: "int \<Rightarrow> string \<Rightarrow> string \<Rightarrow> int option" where
  "radix_literal base digits s = (if s \<noteq> [] \<and> set s \<subseteq> set digits then Some (radix_value base s) else None)"

definition BigInt_literal :: "string \<Rightarrow> int option" where
  "BigInt_literal s = (let t = js_trim s; p = toLowerCase (take 2 t) in
     if t = [] then Some 0
     else if p = ''0x'' then radix_literal 16 ''0123456789abcdefABCDEF'' (drop 2 t)
     else if p = ''0o'' then radix_literal 8 ''01234567'' (drop 2 t)
     else if p = ''0b'' then radix_literal 2 ''01'' (drop 2 t)
     else if hd t = CHR ''-'' then map_option uminus (radix_literal 10 ''0123456789'' (tl t))
     else radix_literal 10 ''0123456789'' (if hd t = CHR ''+'' then tl t else t))"

definition BigInt_of :: "string \<Rightarrow> chain_error + int" where
  "BigInt_of s = of_option (OtherError (''Cannot convert '' @ s @ '' to a BigInt'')) (BigInt_literal s)"

definition hexToBigInt :: "string option \<Rightarrow> chain_error + int option" where
  "hexToBigInt hex = (case hex of None \<Rightarrow> Inr None | Some h \<Rightarrow> bind_result (BigInt_of h) (\<lambda>n. Inr (Some n)))"

definition hexToNumber :: "string option \<Rightarrow> chain_error + int option" where
  "hexToNumber hex = bind_result (hexToBigInt hex) (\<lambda>n. Inr (map_option Number_of_bigint n))"

text \<open>\<open>hexToBigInt(x) ?? 0n\<close> of a string that is present.\<close>

definition quantity :: "string \<Rightarrow> chain_error + int" where
  "quantity h = bind_result (hexToBigInt (Some h)) (\<lambda>n. Inr (case n of None \<Rightarrow> 0 | Some v \<Rightarrow> v))"

definition toHexQuantity :: "int \<Rightarrow> chain_error + string" where
  "toHexQuantity v =
     (if v < 0 then Inl (OtherError (''cannot encode a negative quantity: '' @ show_int v)) else Inr (''0x'' @ show_hex (nat v)))"

section \<open>Transfer logs\<close>

definition TRANSFER_EVENT_TOPIC :: string where
  "TRANSFER_EVENT_TOPIC = ''0xddf252ad1be2c89b69c2b068fc378daa952ba7f163c4a11628f55a4df523b3ef''"

record raw_evm_log =
  rl_address :: string
  rl_topics :: "string list"
  rl_data :: string
  rl_logIndex :: int

definition stripHexPrefix :: "string \<Rightarrow> string" where
  "stripHexPrefix v = (if startsWith v ''0x'' \<or> startsWith v ''0X'' then drop 2 v else v)"

definition normalize_or_throw :: "string \<Rightarrow> chain_error + string" where
  "normalize_or_throw address = map_error OtherError (normalizeEvmAddress address)"

definition addressToTopic :: "string \<Rightarrow> chain_error + string" where
  "addressToTopic address =
     bind_result (normalize_or_throw address) (\<lambda>n. Inr (''0x'' @ replicate 24 (CHR ''0'') @ drop 2 n))"

definition addressFromTopic :: "string \<Rightarrow> chain_error + string" where
  "addressFromTopic topic = (let hex = stripHexPrefix topic in
     if length hex \<noteq> 64 then Inl (TransferLogParseError (''topic is not 32 bytes: '' @ topic))
     else if take 24 hex \<noteq> replicate 24 (CHR ''0'')
     then Inl (TransferLogParseError (''topic has non-zero padding, not an address: '' @ topic))
     else normalize_or_throw (''0x'' @ drop 24 hex))"

definition amountFromData :: "string \<Rightarrow> chain_error + int" where
  "amountFromData d = (let hex = stripHexPrefix d in
     if hex = [] then Inl (TransferLogParseError ''empty log data'')
     else if length hex > 64 \<or> \<not> list_all is_hex hex then Inl (TransferLogParseError (''malformed uint256 data: '' @ d))
     else BigInt_of (''0x'' @ hex))"

definition parse_fields :: "raw_evm_log \<Rightarrow> chain_error + parsed_transfer option" where
  "parse_fields lg =
     bind_result (addressFromTopic (rl_topics lg ! 1)) (\<lambda>fromAddress.
     bind_result (addressFromTopic (rl_topics lg ! 2)) (\<lambda>toAddress.
     bind_result (amountFromData (rl_data lg)) (\<lambda>amount.
     if amount = 0 then Inr None
     else bind_result (normalize_or_throw (rl_address lg)) (\<lambda>contract.
       Inr (Some \<lparr>px_transferIndex = rl_logIndex lg, px_tokenContract = Some contract, px_fromAddress = Some fromAddress,
         px_toAddress = toAddress, px_amount = amount\<rparr>)))))"

definition parseTransferLog :: "raw_evm_log \<Rightarrow> chain_error + parsed_transfer option" where
  "parseTransferLog lg =
     (if length (rl_topics lg) \<noteq> 3 then Inr None
      else if toLowerCase (rl_topics lg ! 0) \<noteq> TRANSFER_EVENT_TOPIC then Inr None
      else case parse_fields lg of
        Inl (TransferLogParseError m) \<Rightarrow> Inr None
      | r \<Rightarrow> r)"

fun parseTransferLogs :: "raw_evm_log list \<Rightarrow> chain_error + parsed_transfer list" where
  "parseTransferLogs [] = Inr []"
| "parseTransferLogs (lg # logs) =
     bind_result (parseTransferLog lg) (\<lambda>t. bind_result (parseTransferLogs logs) (\<lambda>ts.
       Inr (case t of None \<Rightarrow> ts | Some x \<Rightarrow> x # ts)))"

definition nativeTransfer :: "string option \<Rightarrow> string \<Rightarrow> int \<Rightarrow> chain_error + parsed_transfer option" where
  "nativeTransfer fromAddress toAddress v =
     (if v \<le> 0 then Inr None
      else bind_result (if truthy fromAddress then bind_result (normalize_or_throw (the fromAddress)) (\<lambda>a. Inr (Some a)) else Inr None) (\<lambda>f.
        bind_result (normalize_or_throw toAddress) (\<lambda>t.
        Inr (Some \<lparr>px_transferIndex = -1, px_tokenContract = None, px_fromAddress = f, px_toAddress = t, px_amount = v\<rparr>))))"

section \<open>The EVM adapter\<close>

record raw_evm_tx =
  rx_hash :: string
  rx_blockNumber :: "string option"
  rx_blockHash :: "string option"
  rx_transactionIndex :: "string option"
  rx_from :: string
  rx_to :: "string option"
  rx_value :: string
  rx_gasPrice :: "string option"

record receipt_log =
  rg_address :: string
  rg_topics :: "string list"
  rg_data :: string
  rg_logIndex :: string

record raw_evm_receipt =
  ert_status :: string
  ert_gasUsed :: string
  ert_effectiveGasPrice :: "string option"
  ert_logs :: "receipt_log list"

record raw_evm_block =
  rb_number :: string
  rb_hash :: string
  rb_parentHash :: string
  rb_timestamp :: string
  rb_transactions :: "raw_evm_tx list"

text \<open>The methods of the node: \<open>eth_getTransactionByHash\<close>, \<open>eth_getTransactionReceipt\<close>, \<open>eth_blockNumber\<close>,
  \<open>eth_getBalance\<close>, \<open>eth_getBlockByNumber\<close>, \<open>eth_getBlockByHash\<close> and \<open>eth_getLogs\<close> with its filter: the range, the
  contracts, the event and the recipients.\<close>

record evm_node =
  en_getTransactionByHash :: "string \<Rightarrow> chain_error + raw_evm_tx option"
  en_getTransactionReceipt :: "string \<Rightarrow> chain_error + raw_evm_receipt option"
  en_blockNumber :: "chain_error + string"
  en_getBalance :: "string \<Rightarrow> chain_error + string"
  en_getBlockByNumber :: "string \<Rightarrow> chain_error + raw_evm_block option"
  en_getBlockByHash :: "string \<Rightarrow> chain_error + raw_evm_block option"
  en_getLogs :: "string \<Rightarrow> string \<Rightarrow> string list \<Rightarrow> string \<Rightarrow> string list \<Rightarrow> chain_error + string list"

text \<open>The argument of \<open>getBlock\<close>: a number or a hash.\<close>

datatype block_id = BlockNumber int | BlockHash string

fun map_results :: "('a \<Rightarrow> 'e + 'b) \<Rightarrow> 'a list \<Rightarrow> 'e + 'b list" where
  "map_results f [] = Inr []"
| "map_results f (x # xs) = bind_result (f x) (\<lambda>y. bind_result (map_results f xs) (\<lambda>ys. Inr (y # ys)))"

definition toRawEvmLog :: "receipt_log \<Rightarrow> chain_error + raw_evm_log" where
  "toRawEvmLog lg = bind_result (hexToNumber (Some (rg_logIndex lg))) (\<lambda>i.
     Inr \<lparr>rl_address = rg_address lg, rl_topics = rg_topics lg, rl_data = rg_data lg,
       rl_logIndex = (case i of None \<Rightarrow> 0 | Some n \<Rightarrow> n)\<rparr>)"

definition confirmations_of :: "int option \<Rightarrow> int \<Rightarrow> int" where
  "confirmations_of blockNumber chainTip =
     (case blockNumber of None \<Rightarrow> 0 | Some b \<Rightarrow> if chainTip \<ge> b then Number_of_bigint (chainTip - b + 1) else 0)"

definition evm_fee :: "raw_evm_tx \<Rightarrow> raw_evm_receipt option \<Rightarrow> chain_error + int option" where
  "evm_fee tx receipt =
     (case receipt of None \<Rightarrow> Inr None
      | Some r \<Rightarrow>
          let gasPrice = (case ert_effectiveGasPrice r of None \<Rightarrow> rx_gasPrice tx | Some g \<Rightarrow> Some g) in
          if truthy gasPrice
          then bind_result (quantity (ert_gasUsed r)) (\<lambda>used. bind_result (quantity (the gasPrice)) (\<lambda>p. Inr (Some (used * p))))
          else Inr None)"

definition evm_toChainTransaction :: "raw_evm_tx \<Rightarrow> raw_evm_receipt option \<Rightarrow> int \<Rightarrow> chain_error + chain_transaction" where
  "evm_toChainTransaction tx receipt chainTip =
     bind_result (hexToBigInt (rx_blockNumber tx)) (\<lambda>blockNumber.
     bind_result (evm_fee tx receipt) (\<lambda>feeAmount.
     bind_result (hexToNumber (rx_transactionIndex tx)) (\<lambda>txIndex.
     bind_result (quantity (rx_value tx)) (\<lambda>v.
     Inr \<lparr>cx_hash = rx_hash tx, cx_blockNumber = blockNumber, cx_blockHash = rx_blockHash tx, cx_transactionIndex = txIndex,
       cx_status = (case receipt of None \<Rightarrow> TxPending | Some r \<Rightarrow> if ert_status r = ''0x1'' then TxSuccess else TxReverted),
       cx_fromAddress = Some (rx_from tx), cx_toAddress = rx_to tx, cx_value = v, cx_feeAmount = feeAmount,
       cx_confirmations = confirmations_of blockNumber chainTip\<rparr>))))"

definition evm_getBalance :: "evm_node \<Rightarrow> string \<Rightarrow> chain_error + int" where
  "evm_getBalance node address = bind_result (en_getBalance node address) quantity"

definition evm_getTransaction :: "evm_node \<Rightarrow> string \<Rightarrow> chain_error + chain_transaction option" where
  "evm_getTransaction node h =
     bind_result (en_getTransactionByHash node h) (\<lambda>rawTx.
     bind_result (en_getTransactionReceipt node h) (\<lambda>rawReceipt.
     bind_result (en_blockNumber node) (\<lambda>tipHex.
     case rawTx of None \<Rightarrow> Inr None
     | Some tx \<Rightarrow> bind_result (quantity tipHex) (\<lambda>chainTip.
         bind_result (evm_toChainTransaction tx rawReceipt chainTip) (\<lambda>t. Inr (Some t))))))"

definition native_part :: "raw_evm_tx \<Rightarrow> chain_error + parsed_transfer list" where
  "native_part tx =
     (if truthy (rx_to tx)
      then bind_result (quantity (rx_value tx)) (\<lambda>v.
        bind_result (nativeTransfer (Some (rx_from tx)) (the (rx_to tx)) v) (\<lambda>native.
        Inr (case native of None \<Rightarrow> [] | Some t \<Rightarrow> [t])))
      else Inr [])"

definition evm_getTransfers :: "evm_node \<Rightarrow> string \<Rightarrow> chain_error + parsed_transfer list" where
  "evm_getTransfers node h =
     bind_result (en_getTransactionByHash node h) (\<lambda>rawTx.
     bind_result (en_getTransactionReceipt node h) (\<lambda>rawReceipt.
     case (rawTx, rawReceipt) of
       (Some tx, Some receipt) \<Rightarrow>
         if ert_status receipt \<noteq> ''0x1'' then Inr []
         else bind_result (native_part tx) (\<lambda>native.
           bind_result (map_results toRawEvmLog (ert_logs receipt)) (\<lambda>logs.
           bind_result (parseTransferLogs logs) (\<lambda>transfers. Inr (native @ transfers))))
     | _ \<Rightarrow> Inr []))"

text \<open>The receipts of a block's transactions, in one batch; a transaction's is found under its hash in lower case.\<close>

definition fetchReceiptsByHash :: "evm_node \<Rightarrow> string list \<Rightarrow> chain_error + (string \<rightharpoonup> raw_evm_receipt)" where
  "fetchReceiptsByHash node hashes =
     bind_result (map_results (en_getTransactionReceipt node) hashes) (\<lambda>receipts.
     Inr (fold (\<lambda>(h, r) m. case r of None \<Rightarrow> m | Some x \<Rightarrow> m(toLowerCase h \<mapsto> x)) (zip hashes receipts) Map.empty))"

definition fetch_block :: "evm_node \<Rightarrow> block_id \<Rightarrow> chain_error + raw_evm_block option" where
  "fetch_block node i =
     (case i of BlockNumber n \<Rightarrow> bind_result (toHexQuantity n) (en_getBlockByNumber node) | BlockHash h \<Rightarrow> en_getBlockByHash node h)"

definition block_time :: "string \<Rightarrow> chain_error + int" where
  "block_time t = bind_result (hexToNumber (Some t)) (\<lambda>n. Inr (Number_of_bigint ((case n of None \<Rightarrow> 0 | Some s \<Rightarrow> s) * 1000)))"

definition evm_getBlock :: "evm_node \<Rightarrow> block_id \<Rightarrow> chain_error + block_data option" where
  "evm_getBlock node i =
     bind_result (fetch_block node i) (\<lambda>rawBlock.
     case rawBlock of None \<Rightarrow> Inr None
     | Some b \<Rightarrow>
         bind_result (fetchReceiptsByHash node (map rx_hash (rb_transactions b))) (\<lambda>receiptsById.
         bind_result (quantity (rb_number b)) (\<lambda>chainTip.
         bind_result (block_time (rb_timestamp b)) (\<lambda>time.
         bind_result (map_results (\<lambda>tx. evm_toChainTransaction tx (receiptsById (toLowerCase (rx_hash tx))) chainTip) (rb_transactions b)) (\<lambda>txs.
         Inr (Some \<lparr>br_number = chainTip, br_hash = rb_hash b, br_parentHash = rb_parentHash b, br_timestamp = time,
           bd_transactions = txs\<rparr>))))))"

definition evm_getLightBlock :: "evm_node \<Rightarrow> block_id \<Rightarrow> chain_error + light_block option" where
  "evm_getLightBlock node i =
     bind_result (fetch_block node i) (\<lambda>rawBlock.
     case rawBlock of None \<Rightarrow> Inr None
     | Some b \<Rightarrow>
         bind_result (quantity (rb_number b)) (\<lambda>n.
         bind_result (map_results (\<lambda>tx. bind_result (quantity (rx_value tx)) (\<lambda>v.
           Inr \<lparr>lx_hash = rx_hash tx, lx_to = rx_to tx, lx_value = v\<rparr>)) (rb_transactions b)) (\<lambda>txs.
         Inr (Some \<lparr>br_number = n, br_hash = rb_hash b, br_parentHash = rb_parentHash b, lb_transactions = txs\<rparr>))))"

definition evm_getTransferLogsTo :: "evm_node \<Rightarrow> int \<Rightarrow> int \<Rightarrow> string list \<Rightarrow> string list \<Rightarrow> chain_error + string list" where
  "evm_getTransferLogsTo node fromBlock toBlock contracts toAddresses =
     (if contracts = [] \<or> toAddresses = [] then Inr []
      else bind_result (toHexQuantity fromBlock) (\<lambda>f. bind_result (toHexQuantity toBlock) (\<lambda>t.
        bind_result (map_results addressToTopic toAddresses) (\<lambda>topics.
        bind_result (en_getLogs node f t contracts TRANSFER_EVENT_TOPIC topics) (\<lambda>hashes.
        Inr (fold set_add hashes []))))))"

definition evm_getCurrentBlock :: "evm_node \<Rightarrow> chain_error + block_ref" where
  "evm_getCurrentBlock node =
     bind_result (en_blockNumber node) (\<lambda>tipHex.
     bind_result (en_getBlockByNumber node tipHex) (\<lambda>header.
     case header of
       None \<Rightarrow> Inl (BlockchainAdapterError ''provider reported a block number it cannot return a header for'' True)
     | Some b \<Rightarrow> bind_result (quantity (rb_number b)) (\<lambda>n. bind_result (block_time (rb_timestamp b)) (\<lambda>time.
         Inr \<lparr>br_number = n, br_hash = rb_hash b, br_parentHash = rb_parentHash b, br_timestamp = time\<rparr>))))"

definition evm_getConfirmations :: "evm_node \<Rightarrow> string \<Rightarrow> chain_error + confirmation_info" where
  "evm_getConfirmations node h =
     bind_result (en_getTransactionByHash node h) (\<lambda>rawTx.
     bind_result (en_blockNumber node) (\<lambda>tipHex.
     bind_result (quantity tipHex) (\<lambda>chainTip.
     bind_result (case rawTx of None \<Rightarrow> Inr None | Some tx \<Rightarrow> hexToBigInt (rx_blockNumber tx)) (\<lambda>blockNumber.
     Inr \<lparr>ci_confirmations = confirmations_of blockNumber chainTip, ci_blockNumber = blockNumber, ci_chainTip = chainTip\<rparr>))))"

section \<open>The Bitcoin adapter\<close>

record raw_vout =
  rv_value :: rat
  rv_n :: int
  rv_address :: "string option"
  rv_addresses :: "string list option"

record raw_bitcoin_tx =
  bx_txid :: string
  bx_vout :: "raw_vout list"
  bx_confirmations :: "int option"
  bx_blockhash :: "string option"

record raw_bitcoin_header =
  bh_hash :: string
  bh_height :: int
  bh_previousblockhash :: "string option"
  bh_time :: int

record raw_bitcoin_block = raw_bitcoin_header +
  bb_tx :: "string list"

text \<open>The methods of the node: \<open>getrawtransaction\<close>, \<open>getblockcount\<close>, \<open>getblockhash\<close>, \<open>getblock\<close>, \<open>getbestblockhash\<close>,
  \<open>getblockheader\<close> and \<open>scantxoutset\<close>. Amounts and heights are JavaScript numbers.\<close>

record bitcoin_node =
  bn_getrawtransaction :: "string \<Rightarrow> chain_error + raw_bitcoin_tx"
  bn_getblockcount :: "chain_error + int"
  bn_getblockhash :: "int \<Rightarrow> chain_error + string"
  bn_getblock :: "string \<Rightarrow> chain_error + raw_bitcoin_block option"
  bn_getbestblockhash :: "chain_error + string"
  bn_getblockheader :: "string \<Rightarrow> chain_error + raw_bitcoin_header"
  bn_scantxoutset :: "string \<Rightarrow> chain_error + rat"

definition unless_not_found :: "chain_error + 'a option \<Rightarrow> chain_error + 'a option" where
  "unless_not_found r = (case r of
     Inl (RpcError c m) \<Rightarrow> if c = RPC_INVALID_ADDRESS_OR_KEY then Inr None else Inl (RpcError c m)
   | r \<Rightarrow> r)"

definition getRawTransaction :: "bitcoin_node \<Rightarrow> string \<Rightarrow> chain_error + raw_bitcoin_tx option" where
  "getRawTransaction node h = unless_not_found (bind_result (bn_getrawtransaction node h) (\<lambda>t. Inr (Some t)))"

definition blockHashAt :: "bitcoin_node \<Rightarrow> int \<Rightarrow> chain_error + string option" where
  "blockHashAt node height = unless_not_found (bind_result (bn_getblockhash node (Number_of_bigint height)) (\<lambda>h. Inr (Some h)))"

text \<open>\<open>scriptPubKey.address ?? scriptPubKey.addresses?.[0]\<close>.\<close>

definition output_address :: "raw_vout \<Rightarrow> string option" where
  "output_address vout = (case rv_address vout of Some a \<Rightarrow> Some a
     | None \<Rightarrow> (case rv_addresses vout of Some (a # _) \<Rightarrow> Some a | _ \<Rightarrow> None))"

definition bitcoin_kind :: "network \<Rightarrow> bitcoin_network" where
  "bitcoin_kind network = (if network = BITCOIN then Mainnet else Testnet)"

definition bitcoin_getBalance :: "bitcoin_node \<Rightarrow> string \<Rightarrow> chain_error + int" where
  "bitcoin_getBalance node address =
     bind_result (bn_scantxoutset node (''addr('' @ address @ '')'')) (\<lambda>total. Inr (btcToSatoshis total))"

definition bitcoin_toChainTransaction :: "raw_bitcoin_tx \<Rightarrow> int \<Rightarrow> int option \<Rightarrow> chain_transaction" where
  "bitcoin_toChainTransaction tx chainTip txIndex =
     (let confirmations = (case bx_confirmations tx of None \<Rightarrow> 0 | Some c \<Rightarrow> c);
          blockNumber = (if confirmations > 0 then Some (chainTip - confirmations + 1) else None);
          firstOutput = find (\<lambda>v. truthy (output_address v)) (bx_vout tx) in
      \<lparr>cx_hash = bx_txid tx, cx_blockNumber = blockNumber, cx_blockHash = bx_blockhash tx, cx_transactionIndex = txIndex,
       cx_status = (if blockNumber \<noteq> None then TxSuccess else TxPending), cx_fromAddress = None,
       cx_toAddress = (case firstOutput of None \<Rightarrow> None | Some v \<Rightarrow> output_address v),
       cx_value = foldl (\<lambda>sum v. sum + btcToSatoshis (rv_value v)) 0 (bx_vout tx), cx_feeAmount = None,
       cx_confirmations = confirmations\<rparr>)"

definition bitcoin_getTransaction :: "bitcoin_node \<Rightarrow> string \<Rightarrow> chain_error + chain_transaction option" where
  "bitcoin_getTransaction node h =
     bind_result (getRawTransaction node h) (\<lambda>tx.
     case tx of None \<Rightarrow> Inr None
     | Some t \<Rightarrow> bind_result (bn_getblockcount node) (\<lambda>chainTip. Inr (Some (bitcoin_toChainTransaction t chainTip None))))"

text \<open>The body of the loop over the outputs.\<close>

definition output_transfer :: "(nat list \<Rightarrow> nat list) \<Rightarrow> bitcoin_network \<Rightarrow> raw_vout \<Rightarrow> parsed_transfer option" where
  "output_transfer sha256 kind vout =
     (if \<not> truthy (output_address vout) then None
      else case normalizeBitcoinAddress sha256 (the (output_address vout)) kind of Inl _ \<Rightarrow> None
      | Inr normalized \<Rightarrow> Some \<lparr>px_transferIndex = rv_n vout, px_tokenContract = None, px_fromAddress = None,
          px_toAddress = normalized, px_amount = btcToSatoshis (rv_value vout)\<rparr>)"

definition bitcoin_getTransfers :: "(nat list \<Rightarrow> nat list) \<Rightarrow> network \<Rightarrow> bitcoin_node \<Rightarrow> string \<Rightarrow> chain_error + parsed_transfer list" where
  "bitcoin_getTransfers sha256 network node h =
     bind_result (getRawTransaction node h) (\<lambda>tx.
     case tx of None \<Rightarrow> Inr []
     | Some t \<Rightarrow> Inr (if truthy (bx_blockhash t) then List.map_filter (output_transfer sha256 (bitcoin_kind network)) (bx_vout t) else []))"

definition parent_hash :: "raw_bitcoin_header \<Rightarrow> string" where
  "parent_hash b = (case bh_previousblockhash b of None \<Rightarrow> replicate 64 (CHR ''0'') | Some p \<Rightarrow> p)"

definition listed_transaction :: "raw_bitcoin_header \<Rightarrow> nat \<Rightarrow> string \<Rightarrow> chain_transaction" where
  "listed_transaction b i txid =
     \<lparr>cx_hash = txid, cx_blockNumber = Some (bh_height b), cx_blockHash = Some (bh_hash b), cx_transactionIndex = Some (int i),
      cx_status = TxSuccess, cx_fromAddress = None, cx_toAddress = None, cx_value = 0, cx_feeAmount = None, cx_confirmations = 0\<rparr>"

definition bitcoin_getBlock :: "bitcoin_node \<Rightarrow> block_id \<Rightarrow> chain_error + block_data option" where
  "bitcoin_getBlock node i =
     bind_result (case i of BlockNumber n \<Rightarrow> blockHashAt node n | BlockHash h \<Rightarrow> Inr (Some h)) (\<lambda>h.
     if \<not> truthy h then Inr None
     else bind_result (unless_not_found (bn_getblock node (the h))) (\<lambda>block.
       Inr (map_option (\<lambda>b. let hd = raw_bitcoin_header.truncate b in
         \<lparr>br_number = bh_height b, br_hash = bh_hash b, br_parentHash = parent_hash hd, br_timestamp = Number_of_bigint (bh_time b * 1000),
          bd_transactions = map2 (listed_transaction hd) [0..<length (bb_tx b)] (bb_tx b)\<rparr>) block)))"

definition bitcoin_getCurrentBlock :: "bitcoin_node \<Rightarrow> chain_error + block_ref" where
  "bitcoin_getCurrentBlock node =
     bind_result (bn_getbestblockhash node) (\<lambda>h.
     bind_result (bn_getblockheader node h) (\<lambda>b.
     Inr \<lparr>br_number = bh_height b, br_hash = bh_hash b, br_parentHash = parent_hash b, br_timestamp = Number_of_bigint (bh_time b * 1000)\<rparr>))"

definition bitcoin_getConfirmations :: "bitcoin_node \<Rightarrow> string \<Rightarrow> chain_error + confirmation_info" where
  "bitcoin_getConfirmations node h =
     bind_result (bn_getblockcount node) (\<lambda>chainTip.
     bind_result (getRawTransaction node h) (\<lambda>tx.
     Inr (case tx of
       None \<Rightarrow> \<lparr>ci_confirmations = 0, ci_blockNumber = None, ci_chainTip = chainTip\<rparr>
     | Some t \<Rightarrow>
         (case bx_confirmations t of
            None \<Rightarrow> \<lparr>ci_confirmations = 0, ci_blockNumber = None, ci_chainTip = chainTip\<rparr>
          | Some c \<Rightarrow>
              if c = 0 then \<lparr>ci_confirmations = 0, ci_blockNumber = None, ci_chainTip = chainTip\<rparr>
              else \<lparr>ci_confirmations = c, ci_blockNumber = Some (chainTip - c + 1), ci_chainTip = chainTip\<rparr>))))"

section \<open>The interface of the monitor and the scanner\<close>

definition chain_failure :: "chain_error + 'a \<Rightarrow> failure + 'a" where
  "chain_failure r = map_error (\<lambda>e. AdapterFailure (error_text e)) r"

text \<open>The constructors refuse a network of the other family.\<close>

definition EvmJsonRpcAdapter :: "network \<Rightarrow> evm_node \<Rightarrow> chain_error + scan_adapter" where
  "EvmJsonRpcAdapter network node =
     (if nc_family (NETWORKS network) \<noteq> EvmFamily
      then Inl (BlockchainAdapterError (''EvmJsonRpcAdapter cannot serve a non-EVM network: '' @ network_name network) False)
      else Inr \<lparr>ad_getTransaction = \<lambda>h. chain_failure (evm_getTransaction node h),
        ad_getTransfers = \<lambda>h. chain_failure (evm_getTransfers node h),
        ad_getConfirmations = \<lambda>h. chain_failure (evm_getConfirmations node h),
        ad_getCurrentBlock = chain_failure (evm_getCurrentBlock node),
        ad_getBlock = \<lambda>n. chain_failure (evm_getBlock node (BlockNumber n)),
        ad_validateAddress = isStructurallyValidEvmAddress,
        ad_discovery = Some \<lparr>ed_getLightBlock = \<lambda>n. chain_failure (evm_getLightBlock node (BlockNumber n)),
          ed_getTransferLogsTo = \<lambda>f t cs tos. chain_failure (evm_getTransferLogsTo node f t cs tos)\<rparr>\<rparr>)"

definition BitcoinRpcAdapter :: "(nat list \<Rightarrow> nat list) \<Rightarrow> network \<Rightarrow> bitcoin_node \<Rightarrow> chain_error + scan_adapter" where
  "BitcoinRpcAdapter sha256 network node =
     (if nc_family (NETWORKS network) \<noteq> BitcoinFamily
      then Inl (BlockchainAdapterError (''BitcoinRpcAdapter cannot serve a non-Bitcoin network: '' @ network_name network) False)
      else Inr \<lparr>ad_getTransaction = \<lambda>h. chain_failure (bitcoin_getTransaction node h),
        ad_getTransfers = \<lambda>h. chain_failure (bitcoin_getTransfers sha256 network node h),
        ad_getConfirmations = \<lambda>h. chain_failure (bitcoin_getConfirmations node h),
        ad_getCurrentBlock = chain_failure (bitcoin_getCurrentBlock node),
        ad_getBlock = \<lambda>n. chain_failure (bitcoin_getBlock node (BlockNumber n)),
        ad_validateAddress = \<lambda>a. isValidBitcoinAddress sha256 a (bitcoin_kind network),
        ad_discovery = None\<rparr>)"

text \<open>One tick of \<open>monitorTransactions\<close>, the same in both adapters: the events it emits, whether it reports an error, and
  the last block seen.\<close>

datatype monitor_event = BlockEvent network block_ref | ReorgEvent network int int

definition monitor_tick :: "network \<Rightarrow> chain_error + block_ref \<Rightarrow> bool \<Rightarrow> block_ref option \<Rightarrow> monitor_event list \<times> chain_error option \<times> block_ref option" where
  "monitor_tick network current stopped lastSeen =
     (if stopped then ([], None, lastSeen)
      else case current of Inl e \<Rightarrow> ([], Some e, lastSeen)
      | Inr c \<Rightarrow>
          (case lastSeen of
             None \<Rightarrow> ([BlockEvent network c], None, Some c)
           | Some l \<Rightarrow>
               if br_hash c = br_hash l then ([], None, Some l)
               else if br_number c \<le> br_number l then ([ReorgEvent network (br_number c) (br_number c)], None, Some c)
               else ([BlockEvent network c], None, Some c)))"

definition poll_interval :: "network \<Rightarrow> int" where
  "poll_interval network = max 1000 (nc_averageBlockSeconds (NETWORKS network) * 1000)"

section \<open>Hexadecimal numbers\<close>

lemma radix_value_append: "radix_value b (s @ [c]) = radix_value b s * b + int (hex_val (lower_char c))"
  by (simp add: radix_value_def)

lemma is_hex_code: "is_hex c \<longleftrightarrow> (of_char c :: nat) \<in> {48..57} \<union> {97..102} \<union> {65..70}"
proof -
  have "is_hex c \<longleftrightarrow> (of_char c :: nat) \<in> of_char ` set ''0123456789abcdefABCDEF''"
    by (simp add: is_hex_def inj_image_mem_iff inj_of_char del: image_insert list.set)
  also have "of_char ` set ''0123456789abcdefABCDEF'' = {48..57} \<union> {97..102} \<union> {65..70 :: nat}"
    by (simp add: numeral_eq_Suc atLeastAtMostSuc_conv insert_commute)
  finally show ?thesis .
qed

lemma hex_digit_facts: "n < 16 \<Longrightarrow> is_hex (hex_digit n)" "n < 16 \<Longrightarrow> hex_val (lower_char (hex_digit n)) = n"
proof -
  assume n: "n < 16"
  then have code: "(of_char (hex_digit n) :: nat) \<in> {48..57} \<union> {97..102}" by (simp add: hex_digit_def)
  then show "is_hex (hex_digit n)" unfolding is_hex_code by blast
  have "(of_char (hex_digit n) :: int) = int (of_char (hex_digit n))" by (simp only: of_nat_of_char)
  then have "lower_char (hex_digit n) = hex_digit n" using code by (auto simp: lower_char_def)
  then show "hex_val (lower_char (hex_digit n)) = n" using hex_val_digit [OF n] by simp
qed

lemma show_hex_nonempty [simp]: "show_hex n \<noteq> []"
  by (subst show_hex.simps) simp

lemma show_hex_hex: "list_all is_hex (show_hex n)"
proof (induction n rule: show_hex.induct)
  case (1 n)
  then show ?case by (subst show_hex.simps) (simp add: hex_digit_facts)
qed

lemma radix_show_hex: "radix_value 16 (show_hex n) = int n"
proof (induction n rule: show_hex.induct)
  case (1 n)
  show ?case
  proof (cases "n < 16")
    case True
    then show ?thesis by (subst show_hex.simps) (simp add: radix_value_def hex_digit_facts)
  next
    case False
    then have "radix_value 16 (show_hex n) = int (n div 16) * 16 + int (n mod 16)"
      using 1 by (subst show_hex.simps) (simp add: radix_value_append hex_digit_facts)
    then show ?thesis by (metis div_mult_mod_eq of_nat_add of_nat_mult of_nat_numeral)
  qed
qed

lemma show_hex_length: "n < 16 ^ Suc k \<Longrightarrow> length (show_hex n) \<le> Suc k"
proof (induction n arbitrary: k rule: show_hex.induct)
  case (1 n)
  show ?case
  proof (cases "n < 16")
    case True
    then show ?thesis by (subst show_hex.simps) simp
  next
    case False
    then obtain j where "k = Suc j" using 1(2) by (cases k) auto
    with 1(2) have "n div 16 < 16 ^ Suc j" by (simp add: less_mult_imp_div_less)
    with 1(1) False have "length (show_hex (n div 16)) \<le> Suc j" by blast
    with False \<open>k = Suc j\<close> show ?thesis by (subst show_hex.simps) simp
  qed
qed

lemma radix_leading_zeros: "radix_value 16 (replicate k (CHR ''0'') @ s) = radix_value 16 s"
proof -
  have "foldl (\<lambda>a c. a * 16 + int (hex_val (lower_char c))) 0 (replicate k (CHR ''0'')) = 0"
    by (induction k) (simp_all add: hex_val_def lower_char_def)
  then show ?thesis by (simp add: radix_value_def)
qed

lemma radix_value_nonneg: "0 \<le> b \<Longrightarrow> 0 \<le> radix_value b s"
proof (induction s rule: rev_induct)
  case (snoc c s)
  then show ?case by (simp add: radix_value_append)
qed (simp add: radix_value_def)

lemma hex_not_space: "is_hex c \<Longrightarrow> \<not> is_space c" "\<not> is_space (CHR ''0'')" "\<not> is_space (CHR ''x'')"
proof -
  have "(of_char c :: int) = int (of_char c)" by (simp only: of_nat_of_char)
  then show "is_hex c \<Longrightarrow> \<not> is_space c" by (auto simp: is_hex_code is_space_def Let_def)
qed (simp_all add: is_space_def)

lemma BigInt_hex:
  assumes "s \<noteq> []" "list_all is_hex s"
  shows "BigInt_of (''0x'' @ s) = Inr (radix_value 16 s)"
proof -
  have "\<not> is_space (last s)" using assms hex_not_space(1) by (auto simp: list_all_iff)
  then have trim: "js_trim (''0x'' @ s) = ''0x'' @ s" using assms(1) hex_not_space(2) by (intro js_trim_id) simp_all
  have "toLowerCase ''0x'' = ''0x''" by code_simp
  moreover have "set s \<subseteq> set ''0123456789abcdefABCDEF''" using assms(2) unfolding list_all_iff is_hex_def by blast
  ultimately have "BigInt_literal (''0x'' @ s) = Some (radix_value 16 s)"
    using assms(1) unfolding BigInt_literal_def trim Let_def radix_literal_def by simp
  then show ?thesis by (simp add: BigInt_of_def of_option_def)
qed

text \<open>What a quantity in hexadecimal is encoded as is read back.\<close>

lemma quantity_roundtrip: "0 \<le> n \<Longrightarrow> bind_result (toHexQuantity n) quantity = Inr n"
  using BigInt_hex [OF show_hex_nonempty show_hex_hex, of "nat n"]
  by (simp add: toHexQuantity_def quantity_def hexToBigInt_def radix_show_hex)

lemma quantity_nonneg:
  assumes "startsWith h ''0x''" "BigInt_of h = Inr n"
  shows "0 \<le> n"
proof -
  have h: "h = ''0x'' @ drop 2 h" using assms(1) append_take_drop_id [of 2 h] by (simp add: startsWith_def numeral_2_eq_2)
  have "dropWhile is_space h = ''0x'' @ drop 2 h" by (subst h) (simp add: hex_not_space)
  moreover have "\<exists>v. dropWhile is_space (w @ ''x0'') = v @ ''x0''" for w
    by (induction w) (auto simp: hex_not_space)
  then obtain v where "dropWhile is_space (rev (drop 2 h) @ ''x0'') = v @ ''x0''" by blast
  ultimately have "\<exists>u. js_trim h = ''0x'' @ u" by (simp add: js_trim_def)
  then obtain u where u: "js_trim h = ''0x'' @ u" ..
  have "toLowerCase ''0x'' = ''0x''" by code_simp
  then have "radix_literal 16 ''0123456789abcdefABCDEF'' u = Some n"
    using assms(2) u by (simp add: BigInt_of_def of_option_def BigInt_literal_def Let_def split: option.splits)
  then show ?thesis using radix_value_nonneg [of 16 u] by (simp add: radix_literal_def split: if_splits)
qed

section \<open>Logs and topics\<close>

lemma normalize_or_throw_Inr: "normalize_or_throw x = Inr y \<longleftrightarrow> isStructurallyValidEvmAddress x \<and> y = toLowerCase x"
  by (auto simp: normalize_or_throw_def normalizeEvmAddress_def map_error_def)

lemma lower_zeros: "toLowerCase (replicate k (CHR ''0'')) = replicate k (CHR ''0'')"
  by (simp add: toLowerCase_def lower_char_def)

lemma drop_lower: "drop k (toLowerCase s) = toLowerCase (drop k s)"
  by (simp add: toLowerCase_def drop_map)

lemma parsed_topic:
  assumes "addressFromTopic topic = Inr a"
  shows "isStructurallyValidEvmAddress a" "toLowerCase a = a" "addressToTopic a = Inr (''0x'' @ toLowerCase (stripHexPrefix topic))"
proof -
  let ?h = "stripHexPrefix topic"
  have pad: "take 24 ?h = replicate 24 (CHR ''0'')" and n: "normalize_or_throw (''0x'' @ drop 24 ?h) = Inr a"
    using assms by (simp_all add: addressFromTopic_def Let_def split: if_splits)
  then have st: "isStructurallyValidEvmAddress (''0x'' @ drop 24 ?h)" and a: "a = toLowerCase (''0x'' @ drop 24 ?h)"
    unfolding normalize_or_throw_Inr by blast+
  show v: "isStructurallyValidEvmAddress a" "toLowerCase a = a" unfolding a using evm_lower [OF st] by simp_all
  have "drop 2 a = toLowerCase (drop 24 ?h)" unfolding a drop_lower by simp
  moreover have "toLowerCase ?h = toLowerCase (take 24 ?h) @ toLowerCase (drop 24 ?h)" by (simp flip: toLowerCase_append)
  moreover have "normalize_or_throw a = Inr a" using v by (simp add: normalize_or_throw_Inr)
  ultimately show "addressToTopic a = Inr (''0x'' @ toLowerCase ?h)" by (simp add: addressToTopic_def pad lower_zeros)
qed

lemma topic_parses:
  assumes "isStructurallyValidEvmAddress a"
  shows "addressToTopic a = Inr (''0x'' @ replicate 24 (CHR ''0'') @ toLowerCase (drop 2 a))"
    "addressFromTopic (''0x'' @ replicate 24 (CHR ''0'') @ toLowerCase (drop 2 a)) = Inr (toLowerCase a)"
proof -
  note l = evm_lower [OF assms]
  have low: "toLowerCase a = ''0x'' @ toLowerCase (drop 2 a)" and len: "length (drop 2 a) = 40"
    using evm_split(4,2) [OF assms] .
  have "normalize_or_throw a = Inr (toLowerCase a)" using assms by (simp add: normalize_or_throw_Inr)
  then show "addressToTopic a = Inr (''0x'' @ replicate 24 (CHR ''0'') @ toLowerCase (drop 2 a))"
    by (simp add: addressToTopic_def drop_lower)
  have "normalize_or_throw (''0x'' @ toLowerCase (drop 2 a)) = Inr (toLowerCase a)"
    using l unfolding low [symmetric] by (simp add: normalize_or_throw_Inr)
  then show "addressFromTopic (''0x'' @ replicate 24 (CHR ''0'') @ toLowerCase (drop 2 a)) = Inr (toLowerCase a)"
    using len by (simp add: addressFromTopic_def stripHexPrefix_def startsWith_def)
qed

text \<open>The encoding of a \<open>uint256\<close> in the data of a log: 64 hexadecimal digits.\<close>

definition encode_uint256 :: "int \<Rightarrow> string" where
  "encode_uint256 n = ''0x'' @ replicate (64 - length (show_hex (nat n))) (CHR ''0'') @ show_hex (nat n)"

lemma amount_parses:
  assumes "0 \<le> n" "n < 2 ^ 256"
  shows "amountFromData (encode_uint256 n) = Inr n"
proof -
  let ?s = "replicate (64 - length (show_hex (nat n))) (CHR ''0'') @ show_hex (nat n)"
  have "n < 16 ^ Suc 63" using assms(2) by simp
  then have "nat n < 16 ^ Suc 63" using assms(1) by (simp only: nat_less_iff of_nat_power of_nat_numeral)
  then have len: "length (show_hex (nat n)) \<le> 64" using show_hex_length [of "nat n" 63] by simp
  have "is_hex (CHR ''0'')" by (simp add: is_hex_code)
  then have hex: "list_all is_hex ?s" using show_hex_hex [of "nat n"] by (auto simp: list_all_iff)
  have "BigInt_of (''0x'' @ ?s) = Inr n"
    using BigInt_hex [OF _ hex] assms(1) by (simp add: radix_leading_zeros radix_show_hex)
  then show ?thesis using len hex by (simp add: amountFromData_def encode_uint256_def stripHexPrefix_def startsWith_def)
qed

lemma parseTransferLog_Some:
  assumes "parseTransferLog lg = Inr (Some t)"
  shows "length (rl_topics lg) = 3" "toLowerCase (rl_topics lg ! 0) = TRANSFER_EVENT_TOPIC"
    "addressFromTopic (rl_topics lg ! 2) = Inr (px_toAddress t)" "amountFromData (rl_data lg) = Inr (px_amount t)" "px_amount t \<noteq> 0"
    "px_tokenContract t = Some (toLowerCase (rl_address lg))" "px_transferIndex t = rl_logIndex lg"
    "\<exists>f. addressFromTopic (rl_topics lg ! 1) = Inr f \<and> px_fromAddress t = Some f"
proof -
  have 1: "length (rl_topics lg) = 3" "toLowerCase (rl_topics lg ! 0) = TRANSFER_EVENT_TOPIC" and p: "parse_fields lg = Inr (Some t)"
    using assms by (auto simp: parseTransferLog_def split: if_splits sum.splits chain_error.splits)
  from p obtain f a n c where 2: "addressFromTopic (rl_topics lg ! 1) = Inr f" "addressFromTopic (rl_topics lg ! 2) = Inr a"
    "amountFromData (rl_data lg) = Inr n" "n \<noteq> 0" "normalize_or_throw (rl_address lg) = Inr c"
    "t = \<lparr>px_transferIndex = rl_logIndex lg, px_tokenContract = Some c, px_fromAddress = Some f, px_toAddress = a, px_amount = n\<rparr>"
    by (auto simp: parse_fields_def result_simps split: if_splits)
  show "length (rl_topics lg) = 3" "toLowerCase (rl_topics lg ! 0) = TRANSFER_EVENT_TOPIC" using 1 .
  show "addressFromTopic (rl_topics lg ! 2) = Inr (px_toAddress t)" "amountFromData (rl_data lg) = Inr (px_amount t)" "px_amount t \<noteq> 0"
    "px_tokenContract t = Some (toLowerCase (rl_address lg))" "px_transferIndex t = rl_logIndex lg"
    "\<exists>f. addressFromTopic (rl_topics lg ! 1) = Inr f \<and> px_fromAddress t = Some f"
    using 2 by (simp_all add: normalize_or_throw_Inr)
qed

lemma amountFromData_nonneg:
  assumes "amountFromData d = Inr n"
  shows "0 \<le> n"
proof -
  let ?h = "stripHexPrefix d"
  have h: "?h \<noteq> []" "list_all is_hex ?h" and "BigInt_of (''0x'' @ ?h) = Inr n"
    using assms by (simp_all add: amountFromData_def Let_def split: if_splits)
  then have "n = radix_value 16 ?h" using BigInt_hex [OF h] by simp
  then show ?thesis using radix_value_nonneg [of 16] by simp
qed

lemma Transfer_topic_lower: "toLowerCase TRANSFER_EVENT_TOPIC = TRANSFER_EVENT_TOPIC"
  by code_simp

text \<open>C27: reading a transfer log inverts its encoding. The log a token emits for a transfer of a positive amount, its
  addresses as topics and the amount as 32 bytes, is read back as that transfer, the addresses in their
  normal form; and a log that is read as a transfer has a positive amount and, as its third topic, the one
  that \<open>addressToTopic\<close> gives for the recipient, up to case, so that the filter on topics finds it.\<close>

theorem transfer_log_roundtrip:
  assumes "isStructurallyValidEvmAddress c" "isStructurallyValidEvmAddress f" "isStructurallyValidEvmAddress a" "0 < n" "n < 2 ^ 256"
  shows "(\<exists>tf ta. addressToTopic f = Inr tf \<and> addressToTopic a = Inr ta \<and>
      parseTransferLog \<lparr>rl_address = c, rl_topics = [TRANSFER_EVENT_TOPIC, tf, ta], rl_data = encode_uint256 n, rl_logIndex = i\<rparr> =
      Inr (Some \<lparr>px_transferIndex = i, px_tokenContract = Some (toLowerCase c), px_fromAddress = Some (toLowerCase f),
        px_toAddress = toLowerCase a, px_amount = n\<rparr>)) \<and>
    (parseTransferLog lg = Inr (Some t) \<longrightarrow> 0 < px_amount t \<and>
      addressToTopic (px_toAddress t) = Inr (''0x'' @ toLowerCase (stripHexPrefix (rl_topics lg ! 2))))"
proof (intro conjI impI)
  have "normalize_or_throw c = Inr (toLowerCase c)" using assms(1) by (simp add: normalize_or_throw_Inr)
  moreover have "amountFromData (encode_uint256 n) = Inr n" using assms(4,5) by (intro amount_parses) simp_all
  ultimately show "\<exists>tf ta. addressToTopic f = Inr tf \<and> addressToTopic a = Inr ta \<and>
      parseTransferLog \<lparr>rl_address = c, rl_topics = [TRANSFER_EVENT_TOPIC, tf, ta], rl_data = encode_uint256 n, rl_logIndex = i\<rparr> =
      Inr (Some \<lparr>px_transferIndex = i, px_tokenContract = Some (toLowerCase c), px_fromAddress = Some (toLowerCase f),
        px_toAddress = toLowerCase a, px_amount = n\<rparr>)"
    unfolding topic_parses(1) [OF assms(2)] topic_parses(1) [OF assms(3)]
    using topic_parses(2) [OF assms(2)] topic_parses(2) [OF assms(3)] assms(4)
    by (simp add: parseTransferLog_def parse_fields_def Transfer_topic_lower)
next
  assume p: "parseTransferLog lg = Inr (Some t)"
  show "0 < px_amount t" using parseTransferLog_Some(4,5) [OF p] amountFromData_nonneg by force
  show "addressToTopic (px_toAddress t) = Inr (''0x'' @ toLowerCase (stripHexPrefix (rl_topics lg ! 2)))"
    by (rule parsed_topic(3) [OF parseTransferLog_Some(3) [OF p]])
qed

theorem transfer_log_roundtrip_witness:
  "\<exists>tf ta. addressToTopic ZERO_ADDRESS = Inr tf \<and> addressToTopic ZERO_ADDRESS = Inr ta \<and>
    parseTransferLog \<lparr>rl_address = ZERO_ADDRESS, rl_topics = [TRANSFER_EVENT_TOPIC, tf, ta], rl_data = encode_uint256 255, rl_logIndex = 3\<rparr> =
      Inr (Some \<lparr>px_transferIndex = 3, px_tokenContract = Some ZERO_ADDRESS, px_fromAddress = Some ZERO_ADDRESS,
        px_toAddress = ZERO_ADDRESS, px_amount = 255\<rparr>)"
proof -
  have z: "isStructurallyValidEvmAddress ZERO_ADDRESS" "toLowerCase ZERO_ADDRESS = ZERO_ADDRESS" by code_simp+
  show ?thesis using transfer_log_roundtrip [OF z(1) z(1) z(1), where n = 255 and i = 3] unfolding z(2) by simp
qed

section \<open>Logs cannot stop the monitor\<close>

text \<open>What a node answers: topics are hexadecimal, whatever a contract put in them, and the emitting contract is an
  address.\<close>

definition node_log :: "raw_evm_log \<Rightarrow> bool" where
  "node_log lg \<longleftrightarrow> isStructurallyValidEvmAddress (rl_address lg) \<and> list_all (\<lambda>t. list_all is_hex (stripHexPrefix t)) (rl_topics lg)"

lemma addressFromTopic_errors:
  assumes "list_all is_hex (stripHexPrefix topic)" "addressFromTopic topic = Inl e"
  shows "\<exists>m. e = TransferLogParseError m"
proof -
  let ?h = "stripHexPrefix topic"
  have "isStructurallyValidEvmAddress (''0x'' @ drop 24 ?h)" if "length ?h = 64"
    using that assms(1) in_set_dropD [of _ 24 ?h] by (intro evm_structure) (auto simp: list_all_iff)
  then show ?thesis using assms(2)
    by (auto simp: addressFromTopic_def Let_def normalize_or_throw_def normalizeEvmAddress_def map_error_def split: if_splits)
qed

lemma amountFromData_errors:
  assumes "amountFromData d = Inl e"
  shows "\<exists>m. e = TransferLogParseError m"
proof -
  let ?h = "stripHexPrefix d"
  have "BigInt_of (''0x'' @ ?h) = Inr (radix_value 16 ?h)" if "?h \<noteq> []" "list_all is_hex ?h" using that by (rule BigInt_hex)
  then show ?thesis using assms by (auto simp: amountFromData_def Let_def split: if_splits)
qed

lemma parseTransferLog_total:
  assumes "node_log lg"
  shows "is_ok (parseTransferLog lg)"
proof (cases "length (rl_topics lg) = 3 \<and> toLowerCase (rl_topics lg ! 0) = TRANSFER_EVENT_TOPIC")
  case True
  then have "list_all is_hex (stripHexPrefix (rl_topics lg ! 1))" "list_all is_hex (stripHexPrefix (rl_topics lg ! 2))"
    using assms by (auto simp: node_log_def list_all_length)
  note topics = this [THEN addressFromTopic_errors]
  have "normalize_or_throw (rl_address lg) = Inr (toLowerCase (rl_address lg))" using assms by (simp add: node_log_def normalize_or_throw_Inr)
  then have "\<exists>m. e = TransferLogParseError m" if "parse_fields lg = Inl e" for e
    using that topics amountFromData_errors [of "rl_data lg"] by (auto simp: parse_fields_def result_simps split: if_splits)
  with True show ?thesis by (cases "parse_fields lg") (auto simp: parseTransferLog_def)
qed (auto simp: parseTransferLog_def)

definition log_transfer :: "raw_evm_log \<Rightarrow> parsed_transfer option" where
  "log_transfer lg = (case parseTransferLog lg of Inr t \<Rightarrow> t | Inl _ \<Rightarrow> None)"

text \<open>A contract that emits garbage does not keep the transfers of a transaction from being read. Whatever topics
  and data the logs of a receipt have, parsing them returns, and returns the transfers of the logs that
  encode one, in order.\<close>

lemma garbage_logs_are_skipped:
  assumes "list_all node_log logs"
  shows "parseTransferLogs logs = Inr (List.map_filter log_transfer logs)"
  using assms
proof (induction logs)
  case (Cons lg logs)
  then obtain t where "parseTransferLog lg = Inr t" using parseTransferLog_total [of lg] by (auto simp: is_ok_iff)
  with Cons show ?case by (cases t) (simp_all add: log_transfer_def List.map_filter_def)
qed (simp add: List.map_filter_def)

definition sample_garbage :: raw_evm_log where
  "sample_garbage = \<lparr>rl_address = ZERO_ADDRESS, rl_topics = [TRANSFER_EVENT_TOPIC, ''0xff'', ''0x''], rl_data = ''zz'', rl_logIndex = 0\<rparr>"

text \<open>A topic that is not hexadecimal is not skipped: the error of the address is no \<open>TransferLogParseError\<close>.\<close>

lemma non_hex_topic_throws:
  "parseTransferLog \<lparr>rl_address = ZERO_ADDRESS, rl_topics = [TRANSFER_EVENT_TOPIC, ''0x'' @ replicate 63 (CHR ''0'') @ ''g'', []], rl_data = [], rl_logIndex = 0\<rparr> =
     Inl (OtherError (invalid_evm (''0x'' @ replicate 39 (CHR ''0'') @ ''g'')))"
  by code_simp

section \<open>Transfers are backed by the chain\<close>

lemma map_results_in:
  "map_results f xs = Inr ys \<Longrightarrow> y \<in> set ys \<Longrightarrow> \<exists>x \<in> set xs. f x = Inr y"
  by (induction xs arbitrary: ys) (auto simp: result_simps)

lemma parseTransferLogs_in:
  "parseTransferLogs logs = Inr ts \<Longrightarrow> t \<in> set ts \<Longrightarrow> \<exists>lg \<in> set logs. parseTransferLog lg = Inr (Some t)"
  by (induction logs arbitrary: ts) (auto simp: result_simps split: option.splits)

lemma nativeTransfer_Some:
  assumes "nativeTransfer f a v = Inr (Some t)"
  shows "0 < v" "isStructurallyValidEvmAddress a" "px_toAddress t = toLowerCase a" "px_amount t = v" "px_tokenContract t = None" "px_transferIndex t = -1"
  using assms by (auto simp: nativeTransfer_def result_simps normalize_or_throw_Inr split: if_splits)

lemma evm_getTransfers_cases:
  assumes "evm_getTransfers node h = Inr ts" "t \<in> set ts"
  obtains tx r where "en_getTransactionByHash node h = Inr (Some tx)" "en_getTransactionReceipt node h = Inr (Some r)" "ert_status r = ''0x1''"
    "(\<exists>a v. rx_to tx = Some a \<and> quantity (rx_value tx) = Inr v \<and> nativeTransfer (Some (rx_from tx)) a v = Inr (Some t)) \<or>
     (\<exists>lg \<in> set (ert_logs r). \<exists>raw. toRawEvmLog lg = Inr raw \<and> parseTransferLog raw = Inr (Some t))"
proof -
  obtain rawTx rawReceipt where n: "en_getTransactionByHash node h = Inr rawTx" "en_getTransactionReceipt node h = Inr rawReceipt"
    using assms(1) by (auto simp: evm_getTransfers_def result_simps)
  have "rawTx \<noteq> None" "rawReceipt \<noteq> None" using assms n by (auto simp: evm_getTransfers_def split: option.splits)
  then obtain tx r where 1: "en_getTransactionByHash node h = Inr (Some tx)" "en_getTransactionReceipt node h = Inr (Some r)" using n by auto
  then have 3: "ert_status r = ''0x1''" using assms by (auto simp: evm_getTransfers_def split: if_splits)
  with 1 obtain native raws logs where 2: "native_part tx = Inr native" "map_results toRawEvmLog (ert_logs r) = Inr raws"
    "parseTransferLogs raws = Inr logs" "ts = native @ logs"
    using assms(1) by (auto simp: evm_getTransfers_def result_simps)
  show thesis
  proof (cases "t \<in> set native")
    case True
    then have "\<exists>a v. rx_to tx = Some a \<and> quantity (rx_value tx) = Inr v \<and> nativeTransfer (Some (rx_from tx)) a v = Inr (Some t)"
      using 2(1) by (auto simp: native_part_def result_simps truthy_def split: if_splits option.splits)
    with 1 3 that show ?thesis by blast
  next
    case False
    then obtain raw where "raw \<in> set raws" "parseTransferLog raw = Inr (Some t)" using parseTransferLogs_in [OF 2(3)] assms(2) 2(4) by auto
    then show ?thesis using map_results_in [OF 2(2)] 1 3 that by blast
  qed
qed

lemma evm_transfer_sound:
  assumes "evm_getTransfers node h = Inr ts" "t \<in> set ts"
  shows "\<exists>tx r. en_getTransactionByHash node h = Inr (Some tx) \<and> en_getTransactionReceipt node h = Inr (Some r) \<and> ert_status r = ''0x1'' \<and>
    0 < px_amount t \<and> isStructurallyValidEvmAddress (px_toAddress t) \<and> toLowerCase (px_toAddress t) = px_toAddress t \<and>
    (px_tokenContract t = None \<and> px_transferIndex t = -1 \<and> quantity (rx_value tx) = Inr (px_amount t) \<and>
       map_option toLowerCase (rx_to tx) = Some (px_toAddress t) \<or>
     (\<exists>lg \<in> set (ert_logs r). px_tokenContract t = Some (toLowerCase (rg_address lg)) \<and> length (rg_topics lg) = 3 \<and>
       toLowerCase (rg_topics lg ! 0) = TRANSFER_EVENT_TOPIC \<and> addressFromTopic (rg_topics lg ! 2) = Inr (px_toAddress t) \<and>
       amountFromData (rg_data lg) = Inr (px_amount t)))"
proof -
  obtain tx r where 1: "en_getTransactionByHash node h = Inr (Some tx)" "en_getTransactionReceipt node h = Inr (Some r)" "ert_status r = ''0x1''"
    and c: "(\<exists>a v. rx_to tx = Some a \<and> quantity (rx_value tx) = Inr v \<and> nativeTransfer (Some (rx_from tx)) a v = Inr (Some t)) \<or>
     (\<exists>lg \<in> set (ert_logs r). \<exists>raw. toRawEvmLog lg = Inr raw \<and> parseTransferLog raw = Inr (Some t))"
    using evm_getTransfers_cases [OF assms] .
  from c show ?thesis
  proof
    assume "\<exists>a v. rx_to tx = Some a \<and> quantity (rx_value tx) = Inr v \<and> nativeTransfer (Some (rx_from tx)) a v = Inr (Some t)"
    then obtain a v where a: "rx_to tx = Some a" "quantity (rx_value tx) = Inr v" and n: "nativeTransfer (Some (rx_from tx)) a v = Inr (Some t)" by blast
    with 1 nativeTransfer_Some [OF n] evm_lower [of a] show ?thesis by auto
  next
    assume "\<exists>lg \<in> set (ert_logs r). \<exists>raw. toRawEvmLog lg = Inr raw \<and> parseTransferLog raw = Inr (Some t)"
    then obtain lg raw where lg: "lg \<in> set (ert_logs r)" "toRawEvmLog lg = Inr raw" and p: "parseTransferLog raw = Inr (Some t)" by blast
    have raw: "rl_address raw = rg_address lg" "rl_topics raw = rg_topics lg" "rl_data raw = rg_data lg"
      using lg(2) by (auto simp: toRawEvmLog_def result_simps)
    note f = parseTransferLog_Some [OF p, unfolded raw]
    have "0 < px_amount t" using f(4,5) amountFromData_nonneg by force
    with 1 lg(1) f(1-4,6) parsed_topic(1,2) [OF f(3)] show ?thesis by blast
  qed
qed

text \<open>C25: every transfer the EVM adapter reports happened. It is of a transaction that the node has mined and that
  succeeded; its amount is positive and its recipient in normal form; and it is the native value of the
  transaction, sent to the transaction's recipient, or a log of the receipt, with the contract that emitted it,
  the recipient of its third topic and the amount of its data.\<close>

theorem evm_transfers_happened:
  assumes "evm_getTransfers node h = Inr ts" "t \<in> set ts"
  shows "\<exists>tx r. en_getTransactionByHash node h = Inr (Some tx) \<and> en_getTransactionReceipt node h = Inr (Some r) \<and> ert_status r = ''0x1'' \<and>
    0 < px_amount t \<and> isStructurallyValidEvmAddress (px_toAddress t) \<and> toLowerCase (px_toAddress t) = px_toAddress t \<and>
    (px_tokenContract t = None \<and> px_transferIndex t = -1 \<and> quantity (rx_value tx) = Inr (px_amount t) \<and>
       map_option toLowerCase (rx_to tx) = Some (px_toAddress t) \<or>
     (\<exists>lg \<in> set (ert_logs r). px_tokenContract t = Some (toLowerCase (rg_address lg)) \<and> length (rg_topics lg) = 3 \<and>
       toLowerCase (rg_topics lg ! 0) = TRANSFER_EVENT_TOPIC \<and> addressFromTopic (rg_topics lg ! 2) = Inr (px_toAddress t) \<and>
       amountFromData (rg_data lg) = Inr (px_amount t)))"
  by (rule evm_transfer_sound [OF assms])

definition sample_evm_node :: evm_node where
  "sample_evm_node = \<lparr>
     en_getTransactionByHash = (\<lambda>h. Inr (Some \<lparr>rx_hash = h, rx_blockNumber = Some ''0x10'', rx_blockHash = Some ''0xaa'', rx_transactionIndex = Some ''0x0'',
       rx_from = ZERO_ADDRESS, rx_to = Some ZERO_ADDRESS, rx_value = ''0xff'', rx_gasPrice = None\<rparr>)),
     en_getTransactionReceipt = (\<lambda>_. Inr (Some \<lparr>ert_status = ''0x1'', ert_gasUsed = ''0x5208'', ert_effectiveGasPrice = Some ''0x2'', ert_logs = []\<rparr>)),
     en_blockNumber = Inr ''0x12'', en_getBalance = (\<lambda>_. Inr ''0x0''), en_getBlockByNumber = (\<lambda>_. Inr None), en_getBlockByHash = (\<lambda>_. Inr None),
     en_getLogs = (\<lambda>_ _ _ _ _. Inr [])\<rparr>"

definition sample_native :: parsed_transfer where
  "sample_native = \<lparr>px_transferIndex = -1, px_tokenContract = None, px_fromAddress = Some ZERO_ADDRESS, px_toAddress = ZERO_ADDRESS, px_amount = 255\<rparr>"

lemma sample_native_read: "evm_getTransfers sample_evm_node ''0xcd'' = Inr [sample_native]"
  by code_simp

theorem evm_transfers_happened_witness:
  "\<exists>tx r. en_getTransactionByHash sample_evm_node ''0xcd'' = Inr (Some tx) \<and> en_getTransactionReceipt sample_evm_node ''0xcd'' = Inr (Some r) \<and>
    ert_status r = ''0x1'' \<and> 0 < px_amount sample_native"
  using evm_transfers_happened [OF sample_native_read, of sample_native] by auto

section \<open>Two views of the confirmations of a transaction\<close>

text \<open>A transaction as it is read and its confirmations as they are asked for later, from a chain that answers the
  same both times.\<close>

locale confirmation_source =
  fixes transaction :: "string \<Rightarrow> chain_error + chain_transaction option"
    and confirmations :: "string \<Rightarrow> chain_error + confirmation_info"
  assumes views: "transaction h = Inr (Some t) \<Longrightarrow> \<exists>i. confirmations h = Inr i \<and> ci_confirmations i = cx_confirmations t \<and>
    (0 < cx_confirmations t \<longrightarrow> ci_blockNumber i = cx_blockNumber t)"
    and mined: "transaction h = Inr (Some t) \<Longrightarrow> 0 < cx_confirmations t \<Longrightarrow> cx_blockNumber t \<noteq> None"
begin

lemma deep_enough:
  assumes "transaction h = Inr (Some t)" "0 < required"
  shows "\<exists>i. confirmations h = Inr i \<and> (required \<le> ci_confirmations i \<longleftrightarrow> required \<le> cx_confirmations t) \<and>
    (required \<le> ci_confirmations i \<longrightarrow> ci_blockNumber i \<noteq> None \<and> ci_blockNumber i = cx_blockNumber t)"
proof -
  obtain i where i: "confirmations h = Inr i" "ci_confirmations i = cx_confirmations t" "0 < cx_confirmations t \<longrightarrow> ci_blockNumber i = cx_blockNumber t"
    using views [OF assms(1)] by blast
  with assms(2) mined [OF assms(1)] show ?thesis by auto
qed

end

interpretation evm_source: confirmation_source "evm_getTransaction node" "evm_getConfirmations node" for node
proof unfold_locales
  fix h t assume "evm_getTransaction node h = Inr (Some t)"
  then obtain tx tip chainTip b where f: "en_getTransactionByHash node h = Inr (Some tx)" "en_blockNumber node = Inr tip" "quantity tip = Inr chainTip"
    "hexToBigInt (rx_blockNumber tx) = Inr b" "cx_blockNumber t = b" "cx_confirmations t = confirmations_of b chainTip"
    by (auto simp: evm_getTransaction_def evm_toChainTransaction_def result_simps split: option.splits)
  then show "\<exists>i. evm_getConfirmations node h = Inr i \<and> ci_confirmations i = cx_confirmations t \<and> (0 < cx_confirmations t \<longrightarrow> ci_blockNumber i = cx_blockNumber t)"
    by (simp add: evm_getConfirmations_def)
  show "0 < cx_confirmations t \<Longrightarrow> cx_blockNumber t \<noteq> None" using f(5,6) by (auto simp: confirmations_of_def split: option.splits)
qed

interpretation bitcoin_source: confirmation_source "bitcoin_getTransaction node" "bitcoin_getConfirmations node" for node
proof unfold_locales
  fix h t assume "bitcoin_getTransaction node h = Inr (Some t)"
  then obtain tx tip where f: "getRawTransaction node h = Inr (Some tx)" "bn_getblockcount node = Inr tip" "t = bitcoin_toChainTransaction tx tip None"
    by (auto simp: bitcoin_getTransaction_def result_simps split: option.splits)
  then show "\<exists>i. bitcoin_getConfirmations node h = Inr i \<and> ci_confirmations i = cx_confirmations t \<and> (0 < cx_confirmations t \<longrightarrow> ci_blockNumber i = cx_blockNumber t)"
    by (simp add: bitcoin_getConfirmations_def bitcoin_toChainTransaction_def Let_def split: option.splits)
  show "0 < cx_confirmations t \<Longrightarrow> cx_blockNumber t \<noteq> None" using f(3) by (auto simp: bitcoin_toChainTransaction_def Let_def)
qed



section \<open>Amounts of outputs\<close>

lemma normalized_is_valid: "normalizeBitcoinAddress sha a k = Inr n \<Longrightarrow> isValidBitcoinAddress sha n k"
  using segwit_lower [of a k]
  by (auto simp: normalizeBitcoinAddress_def isValidBitcoinAddress_def toLowerCase_def split: if_splits)

lemma output_transfer_Some:
  assumes "output_transfer sha k v = Some t"
  shows "px_transferIndex t = rv_n v" "px_amount t = btcToSatoshis (rv_value v)" "isValidBitcoinAddress sha (px_toAddress t) k"
    "px_tokenContract t = None"
  using assms normalized_is_valid by (auto simp: output_transfer_def split: if_splits sum.splits)

lemma output_transfer_valid:
  assumes "truthy (output_address v)" "isValidBitcoinAddress sha (the (output_address v)) k"
  shows "\<exists>t. output_transfer sha k v = Some t"
  using assms by (simp add: output_transfer_def normalizeBitcoinAddress_def)

lemma value_sum: "foldl (\<lambda>sum v. sum + f v) (z :: int) vs = z + sum_list (map f vs)"
  by (induction vs arbitrary: z) simp_all

text \<open>C26: the Bitcoin adapter reports the outputs of a mined transaction exactly. Where the node gives the amounts as
  the doubles nearest to their eight decimals, a transaction's value is the sum of the satoshis of its
  outputs, every transfer is one output with its satoshis and a valid address, and every output with a valid
  address is reported; a transaction in no block has no transfers.\<close>

theorem bitcoin_outputs_exact:
  assumes node: "bn_getrawtransaction node h = Inr tx"
    and amounts: "map rv_value (bx_vout tx) = map (\<lambda>n. to_double (of_int n / 10 ^ 8)) ns"
    and bounded: "list_all (\<lambda>n. 0 \<le> n \<and> n \<le> 21 * 10 ^ 14) ns"
  shows "cx_value (bitcoin_toChainTransaction tx tip i) = sum_list ns \<and>
    (\<not> truthy (bx_blockhash tx) \<longrightarrow> bitcoin_getTransfers sha network node h = Inr []) \<and>
    (truthy (bx_blockhash tx) \<longrightarrow> (\<exists>ts. bitcoin_getTransfers sha network node h = Inr ts \<and>
      (\<forall>t \<in> set ts. isValidBitcoinAddress sha (px_toAddress t) (bitcoin_kind network) \<and>
        (\<exists>j < length ns. px_transferIndex t = rv_n (bx_vout tx ! j) \<and> px_amount t = ns ! j)) \<and>
      (\<forall>j < length ns. truthy (output_address (bx_vout tx ! j)) \<and>
        isValidBitcoinAddress sha (the (output_address (bx_vout tx ! j))) (bitcoin_kind network) \<longrightarrow>
        (\<exists>t \<in> set ts. px_transferIndex t = rv_n (bx_vout tx ! j) \<and> px_amount t = ns ! j))))"
proof -
  let ?o = "output_transfer sha (bitcoin_kind network)"
  have len: "length ns = length (bx_vout tx)" using arg_cong [OF amounts, of length] by simp
  have sat: "btcToSatoshis (rv_value (bx_vout tx ! j)) = ns ! j" if "j < length ns" for j
  proof -
    have "rv_value (bx_vout tx ! j) = map rv_value (bx_vout tx) ! j" using that len by simp
    also have "\<dots> = to_double (of_int (ns ! j) / 10 ^ 8)" unfolding amounts using that by simp
    finally show ?thesis using btcToSatoshis_exact bounded that by (simp add: list_all_length)
  qed
  have "map (\<lambda>v. btcToSatoshis (rv_value v)) (bx_vout tx) = ns" by (rule nth_equalityI) (simp_all add: len sat)
  then have total: "cx_value (bitcoin_toChainTransaction tx tip i) = sum_list ns" by (simp add: bitcoin_toChainTransaction_def Let_def value_sum)
  have raw: "getRawTransaction node h = Inr (Some tx)" by (simp add: getRawTransaction_def node unless_not_found_def)
  have 1: "isValidBitcoinAddress sha (px_toAddress t) (bitcoin_kind network) \<and>
      (\<exists>j < length ns. px_transferIndex t = rv_n (bx_vout tx ! j) \<and> px_amount t = ns ! j)" if t: "t \<in> set (List.map_filter ?o (bx_vout tx))" for t
  proof -
    from t obtain j where "j < length (bx_vout tx)" "?o (bx_vout tx ! j) = Some t" by (auto simp: List.map_filter_def in_set_conv_nth)
    with sat [of j] len output_transfer_Some [of sha _ "bx_vout tx ! j" t] show ?thesis by auto
  qed
  have 2: "\<exists>t \<in> set (List.map_filter ?o (bx_vout tx)). px_transferIndex t = rv_n (bx_vout tx ! j) \<and> px_amount t = ns ! j"
    if j: "j < length ns" "truthy (output_address (bx_vout tx ! j))" "isValidBitcoinAddress sha (the (output_address (bx_vout tx ! j))) (bitcoin_kind network)" for j
  proof -
    obtain t where t: "?o (bx_vout tx ! j) = Some t" using output_transfer_valid [OF j(2,3)] by blast
    moreover have "bx_vout tx ! j \<in> set (bx_vout tx)" using j(1) len by simp
    ultimately have "t \<in> set (List.map_filter ?o (bx_vout tx))" by (force simp: List.map_filter_def)
    with output_transfer_Some(1,2) [OF t] sat [OF j(1)] show ?thesis by auto
  qed
  show ?thesis using total 1 2 by (simp add: bitcoin_getTransfers_def raw)
qed

definition sample_output :: raw_vout where
  "sample_output = \<lparr>rv_value = to_double (29 / 10 ^ 2), rv_n = 0, rv_address = None, rv_addresses = None\<rparr>"

definition sample_bitcoin_tx :: raw_bitcoin_tx where
  "sample_bitcoin_tx = \<lparr>bx_txid = ''ab'', bx_vout = [sample_output], bx_confirmations = Some 1, bx_blockhash = Some ''cd''\<rparr>"

definition sample_bitcoin_node :: bitcoin_node where
  "sample_bitcoin_node = \<lparr>bn_getrawtransaction = (\<lambda>_. Inr sample_bitcoin_tx), bn_getblockcount = Inr 100,
     bn_getblockhash = (\<lambda>_. Inl (RpcError (-8) ''Block height out of range'')), bn_getblock = (\<lambda>_. Inr None), bn_getbestblockhash = Inr ''cd'',
     bn_getblockheader = (\<lambda>_. Inl (RpcError (-5) ''Block not found'')), bn_scantxoutset = (\<lambda>_. Inr 0)\<rparr>"

theorem bitcoin_outputs_exact_witness: "cx_value (bitcoin_toChainTransaction sample_bitcoin_tx 100 None) = 29000000"
  using bitcoin_outputs_exact [of sample_bitcoin_node "''ab''" sample_bitcoin_tx "[29000000]" 100 None id BITCOIN]
  by (simp add: sample_bitcoin_node_def sample_bitcoin_tx_def sample_output_def)

section \<open>What the monitor writes\<close>

lemma confirmations_nonneg: "0 \<le> confirmations_of b tip"
  by (auto simp: confirmations_of_def Number_nonneg split: option.splits)

text \<open>The transfers of the EVM adapter satisfy the constraints of the table they are written to, where the node numbers
  the logs with hexadecimal quantities.\<close>

lemma evm_transfers_recordable:
  assumes "evm_getTransaction node h = Inr (Some cx)" "evm_getTransfers node h = Inr ts" "t \<in> set ts"
    and "\<And>r lg. en_getTransactionReceipt node h = Inr (Some r) \<Longrightarrow> lg \<in> set (ert_logs r) \<Longrightarrow> startsWith (rg_logIndex lg) ''0x''"
  shows "check_transfer t cx s = Inr ((), s)"
proof -
  obtain tx r where "en_getTransactionByHash node h = Inr (Some tx)" and r: "en_getTransactionReceipt node h = Inr (Some r)" and "ert_status r = ''0x1''"
    and c: "(\<exists>a v. rx_to tx = Some a \<and> quantity (rx_value tx) = Inr v \<and> nativeTransfer (Some (rx_from tx)) a v = Inr (Some t)) \<or>
     (\<exists>lg \<in> set (ert_logs r). \<exists>raw. toRawEvmLog lg = Inr raw \<and> parseTransferLog raw = Inr (Some t))"
    using evm_getTransfers_cases [OF assms(2,3)] .
  have conf: "0 \<le> cx_confirmations cx"
    using assms(1) by (auto simp: evm_getTransaction_def evm_toChainTransaction_def result_simps confirmations_nonneg split: option.splits)
  from c have "0 < px_amount t \<and> - 1 \<le> px_transferIndex t"
  proof
    assume "\<exists>a v. rx_to tx = Some a \<and> quantity (rx_value tx) = Inr v \<and> nativeTransfer (Some (rx_from tx)) a v = Inr (Some t)"
    then obtain a v where n: "nativeTransfer (Some (rx_from tx)) a v = Inr (Some t)" by blast
    from nativeTransfer_Some [OF n] show ?thesis by simp
  next
    assume "\<exists>lg \<in> set (ert_logs r). \<exists>raw. toRawEvmLog lg = Inr raw \<and> parseTransferLog raw = Inr (Some t)"
    then obtain lg raw where lg: "lg \<in> set (ert_logs r)" "toRawEvmLog lg = Inr raw" and p: "parseTransferLog raw = Inr (Some t)" by blast
    obtain i where i: "BigInt_of (rg_logIndex lg) = Inr i" "rl_logIndex raw = Number_of_bigint i"
      using lg(2) by (auto simp: toRawEvmLog_def hexToNumber_def hexToBigInt_def result_simps)
    have "0 \<le> rl_logIndex raw" unfolding i(2) using quantity_nonneg [OF assms(4) [OF r lg(1)] i(1)] by (rule Number_nonneg)
    then have "- 1 \<le> px_transferIndex t" using parseTransferLog_Some(7) [OF p] by simp
    moreover have "0 < px_amount t" using parseTransferLog_Some(4,5) [OF p] amountFromData_nonneg by force
    ultimately show ?thesis by blast
  qed
  with conf show ?thesis by (simp add: check_transfer_def)
qed

section \<open>Where the adapters fall short\<close>

text \<open>A transfer of nothing violates a constraint of the table, so the transaction is not recorded at all: an output
  of value zero, which the Bitcoin adapter does not leave out as the EVM adapter does, keeps the other outputs from
  being credited.\<close>

lemma chain_row_transfers: "recordChainTransaction gen now n cx s = Inr (i, s') \<Longrightarrow> token_transfers s' = token_transfers s"
  by (auto simp: recordChainTransaction_def Let_def result_simps update_chain_tx_def fresh_id_def split: option.splits if_splits)

lemma worthless_transfer_refused:
  assumes "ad_getTransaction ad h = Inr (Some cx)" "ad_getTransfers ad h = Inr (t # ts)" "px_amount t \<le> 0"
    and "find_transfer n (cx_hash cx) (px_transferIndex t) s = None"
  shows "\<exists>e. processTransaction gen grace now ad n h s = (Inl e, s)"
proof -
  have "\<exists>e. bind_op (recordChainTransaction gen now n cx) (\<lambda>i. for_each (recordTransfer gen grace now n i cx) (t # ts)) s = Inl e"
  proof (cases "recordChainTransaction gen now n cx s")
    case (Inr p)
    obtain i s' where p: "p = (i, s')" by (cases p)
    have "find_transfer n (cx_hash cx) (px_transferIndex t) s' = None"
      using assms(4) chain_row_transfers [of gen now n cx s i s'] Inr p by (simp add: find_transfer_def)
    then have "\<exists>e. recordTransfer gen grace now n i cx t s' = Inl e"
      using assms(3) by (cases "recordTransfer gen grace now n i cx t s'")
        (auto simp: recordTransfer_def Let_def result_simps write_transfer_def check_transfer_def)
    with Inr p show ?thesis by (auto simp: result_simps)
  qed (simp add: result_simps)
  then show ?thesis using assms(1,2) by (auto simp: processTransaction_def pbind_def atomically_def)
qed

lemma zero_output_blocks_transaction:
  assumes "BitcoinRpcAdapter sha n node = Inr ad" "bn_getrawtransaction node h = Inr tx" "bn_getblockcount node = Inr tip"
    and "truthy (bx_blockhash tx)" "bx_vout tx = v # vs" "output_transfer sha (bitcoin_kind n) v = Some t" "rv_value v = 0"
    and "find_transfer n (bx_txid tx) (rv_n v) s = None"
  shows "\<exists>e. processTransaction gen grace now (monitor_adapter ad) n h s = (Inl e, s)"
proof -
  have raw: "getRawTransaction node h = Inr (Some tx)" by (simp add: getRawTransaction_def assms(2) unless_not_found_def)
  have ad: "ad_getTransaction ad h = chain_failure (bitcoin_getTransaction node h)" "ad_getTransfers ad h = chain_failure (bitcoin_getTransfers sha n node h)"
    using assms(1) by (auto simp: BitcoinRpcAdapter_def split: if_splits)
  have "ad_getTransaction (monitor_adapter ad) h = Inr (Some (bitcoin_toChainTransaction tx tip None))"
    by (simp add: monitor_adapter_def adapter.truncate_def ad bitcoin_getTransaction_def raw assms(3) chain_failure_def map_error_def)
  moreover have "ad_getTransfers (monitor_adapter ad) h = Inr (t # List.map_filter (output_transfer sha (bitcoin_kind n)) vs)"
    by (simp add: monitor_adapter_def adapter.truncate_def ad bitcoin_getTransfers_def raw assms(4-6) chain_failure_def map_error_def List.map_filter_def)
  ultimately show ?thesis
    using worthless_transfer_refused [of "monitor_adapter ad" h "bitcoin_toChainTransaction tx tip None" t _ n s gen grace now]
      output_transfer_Some(1,2) [OF assms(6)] assms(7,8) by (simp add: bitcoin_toChainTransaction_def Let_def)
qed

text \<open>Bitcoin Core answers a height above the tip with error -8, which the adapter throws, where the interface
  promises that a block that is not found is \<open>null\<close>.\<close>

lemma height_above_tip_throws:
  "bitcoin_getBlock sample_bitcoin_node (BlockNumber 101) = Inl (RpcError (-8) ''Block height out of range'')"
  by (simp add: bitcoin_getBlock_def blockHashAt_def unless_not_found_def sample_bitcoin_node_def RPC_INVALID_ADDRESS_OR_KEY_def)

text \<open>The height of a Bitcoin transaction is computed from a tip that is read after the transaction: with a block
  found in between, it is one too high.\<close>

lemma height_drifts:
  assumes "bx_confirmations tx = Some c" "0 < c"
  shows "cx_blockNumber (bitcoin_toChainTransaction tx (tip + 1) i) = map_option (\<lambda>b. b + 1) (cx_blockNumber (bitcoin_toChainTransaction tx tip i))"
  using assms by (simp add: bitcoin_toChainTransaction_def Let_def)

end
