(* ===== verification/Rates.thy ===== *)
theory Rates
  imports Invoices Doubles
begin

text \<open>
  Exchange rates (\<open>packages/exchange-rate/src\<close>): the two price sources, and the service that asks them in
  order, caches what they answer, refuses old observations and lets concurrent requests for one pair share
  one lookup. The HTTP client is a parameter: what it answers, and when. A source is a function of the pair and of
  the time it is asked, which gives its answer and the time of the answer.
\<close>

section \<open>JSON bodies and numbers\<close>

datatype price_json =
    PNumber rat
  | PString string
  | PObject "(string \<times> price_json) list"
  | POther

definition field :: "price_json \<Rightarrow> string \<Rightarrow> price_json option" where
  "field body name = (case body of PObject fs \<Rightarrow> map_of fs name | _ \<Rightarrow> None)"

text \<open>\<open>Number(s)\<close> for a string: an optional sign, digits with an optional fraction and exponent, or an integer with
  the prefix of its base; the empty string is zero. \<open>None\<close> is a result that is not finite.\<close>

definition exponent_value :: "string \<Rightarrow> int option" where
  "exponent_value s = (let body = (if s \<noteq> [] \<and> hd s \<in> {CHR ''+'', CHR ''-''} then tl s else s) in
     if body \<noteq> [] \<and> list_all is_digit body then Some ((if s \<noteq> [] \<and> hd s = CHR ''-'' then -1 else 1) * digits_value body) else None)"

definition mantissa_value :: "string \<Rightarrow> rat option" where
  "mantissa_value s = (let whole = takeWhile is_digit s; rest = dropWhile is_digit s;
       fraction = (case rest of [] \<Rightarrow> [] | _ # f \<Rightarrow> f) in
     if (rest = [] \<or> hd rest = CHR ''.'') \<and> list_all is_digit fraction \<and> whole @ fraction \<noteq> []
     then Some (of_int (digits_value (whole @ fraction)) / 10 ^ length fraction) else None)"

definition ten_to :: "int \<Rightarrow> rat" where
  "ten_to e = (if 0 \<le> e then 10 ^ nat e else 1 / 10 ^ nat (- e))"

definition unsigned_number :: "string \<Rightarrow> rat option" where
  "unsigned_number s =
     (let m = takeWhile (\<lambda>c. c \<notin> {CHR ''e'', CHR ''E''}) s; rest = dropWhile (\<lambda>c. c \<notin> {CHR ''e'', CHR ''E''}) s in
      case mantissa_value m of None \<Rightarrow> None
      | Some v \<Rightarrow> (case rest of [] \<Rightarrow> Some v
        | _ # x \<Rightarrow> map_option (\<lambda>e. v * ten_to e) (exponent_value x)))"

definition prefixed_integer :: "int \<Rightarrow> string \<Rightarrow> string \<Rightarrow> rat option" where
  "prefixed_integer base digits s =
     (if s \<noteq> [] \<and> set s \<subseteq> set digits then Some (of_int (foldl (\<lambda>a c. a * base + int (hex_val (lower_char c))) 0 s)) else None)"

definition Number_text :: "string \<Rightarrow> rat option" where
  "Number_text s = (let t = js_trim s; p = toLowerCase (take 2 t) in
     if t = [] then Some 0
     else if p = ''0x'' then prefixed_integer 16 ''0123456789abcdefABCDEF'' (drop 2 t)
     else if p = ''0o'' then prefixed_integer 8 ''01234567'' (drop 2 t)
     else if p = ''0b'' then prefixed_integer 2 ''01'' (drop 2 t)
     else if hd t = CHR ''-'' then map_option uminus (unsigned_number (tl t))
     else unsigned_number (if hd t = CHR ''+'' then tl t else t))"

definition finite_number :: "rat option \<Rightarrow> rat option" where
  "finite_number v = (case v of None \<Rightarrow> None | Some x \<Rightarrow> let d = to_double x in if \<bar>d\<bar> < 2 ^ 1024 then Some d else None)"

text \<open>\<open>toString\<close> for a positive number: the fewest digits from which the number is read back, without an exponent from
  \<open>10 ^ -6\<close> up to \<open>10 ^ 21\<close>.\<close>

fun decimal_exponent :: "nat \<Rightarrow> rat \<Rightarrow> int \<Rightarrow> int" where
  "decimal_exponent 0 x n = n"
| "decimal_exponent (Suc fuel) x n = (if x < 1 / 10 then decimal_exponent fuel (x * 10) (n - 1)
     else if x \<ge> 1 then decimal_exponent fuel (x / 10) (n + 1) else n)"

definition digits_of_length :: "rat \<Rightarrow> int \<Rightarrow> nat \<Rightarrow> int" where
  "digits_of_length x n k = round_half_even (x * ten_to (int k - n))"

definition shortest :: "rat \<Rightarrow> int \<Rightarrow> nat" where
  "shortest x n = (case find (\<lambda>k. to_double (of_int (digits_of_length x n k) * ten_to (n - int k)) = x) [1..<17] of
     None \<Rightarrow> 17 | Some k \<Rightarrow> k)"

definition number_text :: "rat \<Rightarrow> string" where
  "number_text x =
     (let n = decimal_exponent 400 x 0; k = int (shortest x n); ds = show_int (digits_of_length x n (nat k)) in
      if k \<le> n \<and> n \<le> 21 then ds @ replicate (nat (n - k)) (CHR ''0'')
      else if 0 < n \<and> n \<le> 21 then take (nat n) ds @ ''.'' @ drop (nat n) ds
      else if - 6 < n \<and> n \<le> 0 then ''0.'' @ replicate (nat (- n)) (CHR ''0'') @ ds
      else let e = (if n - 1 < 0 then ''-'' else ''+'') @ show_int \<bar>n - 1\<bar> in
        if k = 1 then ds @ ''e'' @ e else take 1 ds @ ''.'' @ drop 1 ds @ ''e'' @ e)"

section \<open>Sources\<close>

text \<open>\<open>ExchangeRateProviderError\<close> with its provider, message and whether to try again, or any other error by its message.\<close>

datatype provider_failure = ProviderError string string bool | OtherFailure string

fun failure_message :: "provider_failure \<Rightarrow> string" where
  "failure_message (ProviderError p m r) = m"
| "failure_message (OtherFailure m) = m"

record price_response =
  pr_ok :: bool
  pr_status :: int
  pr_json :: "price_json option"

text \<open>The client: an exception, or a response whose body may not be JSON. A timeout is an exception.\<close>

type_synonym price_fetch = "string \<Rightarrow> price_response option"

definition fetchWithTimeout :: "price_fetch \<Rightarrow> string \<Rightarrow> provider_failure + price_json" where
  "fetchWithTimeout fetchImpl url =
     (case fetchImpl url of
        None \<Rightarrow> Inl (ProviderError ''unknown'' ''request failed or timed out'' True)
      | Some response \<Rightarrow>
          if \<not> pr_ok response
          then Inl (ProviderError ''unknown'' (''upstream returned HTTP '' @ show_int (pr_status response))
            (pr_status response \<ge> 500 \<or> pr_status response = 429))
          else of_option (ProviderError ''unknown'' ''request failed or timed out'' True) (pr_json response))"

fun money_message :: "money_error \<Rightarrow> string" where
  "money_message (BadDecimals d) = ''decimals must be an integer in [0, '' @ show_int MAX_DECIMALS @ ''], received '' @ show_int d"
| "money_message (Pow10OutOfRange e) = ''pow10 exponent out of range: '' @ show_int e"
| "money_message (InvalidDecimal v) = ''invalid decimal amount: \"'' @ v @ ''\"''"
| "money_message (TooManyPlaces v n d) =
     ''amount \"'' @ v @ ''\" has '' @ show_int (int n) @ '' decimal places but the asset supports '' @ show_int d"
| "money_message DivisionByZero = ''division by zero''"
| "money_message (CannotCombine a m b n) = ''cannot combine '' @ a @ ''('' @ show_int m @ '') with '' @ b @ ''('' @ show_int n @ '')''"
| "money_message DenominatorZero = ''denominator must not be zero''"
| "money_message (RateNotPositive n) = ''exchange rate must be positive, received '' @ show_int n"
| "money_message (CannotPrice b q a) = ''rate '' @ b @ ''/'' @ q @ '' cannot price an amount denominated in '' @ a"
| "money_message (CannotValue b q a) = ''rate '' @ b @ ''/'' @ q @ '' cannot value an amount denominated in '' @ a"

definition observed :: "money_error + exchange_rate \<Rightarrow> provider_failure + exchange_rate" where
  "observed r = map_error (\<lambda>e. OtherFailure (money_message e)) r"

definition BINANCE_SYMBOLS :: "(string \<times> string) list" where
  "BINANCE_SYMBOLS = [(''BTC'', ''BTC''), (''ETH'', ''ETH''), (''BNB'', ''BNB''), (''POL'', ''POL''), (''MATIC'', ''MATIC'')]"

definition USD_LIKE :: "string list" where "USD_LIKE = [''USD'', ''USDT'']"

definition binance_extractPrice :: "price_json \<Rightarrow> string option" where
  "binance_extractPrice body =
     (case field body ''price'' of
        Some (PString raw) \<Rightarrow> (case finite_number (Number_text raw) of Some v \<Rightarrow> if v > 0 then Some raw else None | None \<Rightarrow> None)
      | _ \<Rightarrow> None)"

definition binance_getRate :: "price_fetch \<Rightarrow> string \<Rightarrow> string \<Rightarrow> string \<Rightarrow> int \<Rightarrow> provider_failure + exchange_rate" where
  "binance_getRate fetchImpl baseUrl baseAsset quoteAsset now =
     (let base = toUpperCase baseAsset; qt = toUpperCase quoteAsset in
      if base = ''USDT'' \<or> base = ''USDC''
      then if qt \<notin> set USD_LIKE then Inl (ProviderError ''binance'' (''cannot price '' @ base @ '' against '' @ qt) False)
           else observed (rate_fromDecimal base qt ''1.00'' ''binance'' now)
      else case map_of BINANCE_SYMBOLS base of
        None \<Rightarrow> Inl (ProviderError ''binance'' (''no Binance mapping for '' @ base @ ''/'' @ qt) False)
      | Some symbolBase \<Rightarrow>
          if qt \<notin> set USD_LIKE then Inl (ProviderError ''binance'' (''no Binance mapping for '' @ base @ ''/'' @ qt) False)
          else let symbol = symbolBase @ ''USDT'' in
            bind_result (fetchWithTimeout fetchImpl (baseUrl @ ''/api/v3/ticker/price?symbol='' @ symbol)) (\<lambda>body.
            case binance_extractPrice body of
              None \<Rightarrow> Inl (ProviderError ''binance'' (''no price returned for '' @ symbol) True)
            | Some p \<Rightarrow> observed (rate_fromDecimal base qt p ''binance'' now)))"

definition COINGECKO_IDS :: "(string \<times> string) list" where
  "COINGECKO_IDS = [(''BTC'', ''bitcoin''), (''ETH'', ''ethereum''), (''USDT'', ''tether''), (''USDC'', ''usd-coin''),
     (''BNB'', ''binancecoin''), (''POL'', ''matic-network''), (''MATIC'', ''matic-network'')]"

definition FIAT_VS_CURRENCIES :: "string list" where
  "FIAT_VS_CURRENCIES = [''usd'', ''eur'', ''gbp'', ''sgd'', ''idr'', ''jpy'']"

definition coingecko_extractPrice :: "price_json \<Rightarrow> string \<Rightarrow> string \<Rightarrow> string option" where
  "coingecko_extractPrice body coinId vsCurrency =
     (case field body coinId of None \<Rightarrow> None
      | Some coin \<Rightarrow> (case field coin vsCurrency of
          Some (PNumber raw) \<Rightarrow> if raw > 0 then Some (number_text raw) else None
        | _ \<Rightarrow> None))"

definition coingecko_getRate :: "price_fetch \<Rightarrow> string \<Rightarrow> string option \<Rightarrow> string \<Rightarrow> string \<Rightarrow> int \<Rightarrow> provider_failure + exchange_rate" where
  "coingecko_getRate fetchImpl baseUrl apiKey baseAsset quoteAsset now =
     (case map_of COINGECKO_IDS (toUpperCase baseAsset) of
        None \<Rightarrow> Inl (ProviderError ''coingecko'' (''no CoinGecko mapping for asset '' @ baseAsset) False)
      | Some coinId \<Rightarrow>
          let vsCurrency = toLowerCase quoteAsset in
          if vsCurrency \<notin> set FIAT_VS_CURRENCIES \<and> map_of COINGECKO_IDS (toUpperCase quoteAsset) = None
          then Inl (ProviderError ''coingecko'' (''no CoinGecko mapping for quote '' @ quoteAsset) False)
          else
            bind_result (fetchWithTimeout fetchImpl (baseUrl @ ''/simple/price?ids='' @ coinId @ ''&vs_currencies='' @ vsCurrency @
              (if truthy apiKey then ''&x_cg_demo_api_key='' @ the apiKey else []))) (\<lambda>body.
            case coingecko_extractPrice body coinId vsCurrency of
              None \<Rightarrow> Inl (ProviderError ''coingecko'' (''no price returned for '' @ baseAsset @ ''/'' @ quoteAsset) True)
            | Some p \<Rightarrow> observed (rate_fromDecimal (toUpperCase baseAsset) (toUpperCase quoteAsset) p ''coingecko'' now)))"

section \<open>The service\<close>

text \<open>A source, asked for a pair at a time: its answer and the time of the answer.\<close>

record rate_provider =
  rp_name :: string
  rp_getRate :: "string \<Rightarrow> string \<Rightarrow> int \<Rightarrow> (provider_failure + exchange_rate) \<times> int"

record rate_options =
  ro_providers :: "rate_provider list"
  ro_maxAgeMs :: int
  ro_cacheTtlMs :: int

definition ExchangeRateService :: "rate_provider list \<Rightarrow> int option \<Rightarrow> int option \<Rightarrow> string + rate_options" where
  "ExchangeRateService providers maxAgeMs cacheTtlMs =
     (if providers = [] then Inl ''ExchangeRateService requires at least one provider''
      else Inr \<lparr>ro_providers = providers, ro_maxAgeMs = (case maxAgeMs of None \<Rightarrow> 120000 | Some m \<Rightarrow> m),
        ro_cacheTtlMs = (case cacheTtlMs of None \<Rightarrow> 30000 | Some c \<Rightarrow> c)\<rparr>)"

definition seconds :: "int \<Rightarrow> int" where
  "seconds ms = Math_round (to_double (of_int ms / 1000))"

definition RateStaleError :: "string \<Rightarrow> string \<Rightarrow> int \<Rightarrow> int \<Rightarrow> app_error" where
  "RateStaleError base qt age limit = AppError RATE_STALE 422
     (''exchange rate for '' @ base @ ''/'' @ qt @ '' is '' @ show_int (seconds age) @ ''s old, exceeding the '' @ show_int (seconds limit) @ ''s limit'')
     (Some [(''base'', JStr base), (''quote'', JStr qt), (''ageMs'', JNum age), (''maxAgeMs'', JNum limit)])"

definition RateUnavailableError :: "string \<Rightarrow> string \<Rightarrow> (string \<times> string) list \<Rightarrow> app_error" where
  "RateUnavailableError base qt attempts = AppError RATE_UNAVAILABLE 422
     (''no exchange rate provider could price '' @ base @ ''/'' @ qt)
     (Some [(''base'', JStr base), (''quote'', JStr qt),
       (''attempts'', JArr (map (\<lambda>(p, e). JObj [(''provider'', JStr p), (''error'', JStr e)]) attempts))])"

definition assertFresh :: "int \<Rightarrow> exchange_rate \<Rightarrow> string \<Rightarrow> string \<Rightarrow> int \<Rightarrow> app_error + unit" where
  "assertFresh maxAgeMs rate base qt now =
     (let age = now - er_observedAt rate in if age > maxAgeMs then Inl (RateStaleError base qt age maxAgeMs) else Inr ())"

text \<open>The loop of \<open>fetchFresh\<close>, with the failures so far: its result, and the time at which it ends.\<close>

fun try_providers :: "int \<Rightarrow> string \<Rightarrow> string \<Rightarrow> rate_provider list \<Rightarrow> (string \<times> string) list \<Rightarrow> int \<Rightarrow> (app_error + exchange_rate) \<times> int" where
  "try_providers maxAgeMs base qt [] attempts now = (Inl (RateUnavailableError base qt attempts), now)"
| "try_providers maxAgeMs base qt (provider # rest) attempts now =
     (case rp_getRate provider base qt now of
        (Inr rate, later) \<Rightarrow> (bind_result (assertFresh maxAgeMs rate base qt later) (\<lambda>_. Inr rate), later)
      | (Inl e, later) \<Rightarrow> try_providers maxAgeMs base qt rest (attempts @ [(rp_name provider, failure_message e)]) later)"

definition fetchFresh :: "rate_options \<Rightarrow> string \<Rightarrow> string \<Rightarrow> int \<Rightarrow> (app_error + exchange_rate) \<times> int" where
  "fetchFresh options base qt now = try_providers (ro_maxAgeMs options) base qt (ro_providers options) [] now"

section \<open>Requests, the cache and lookups under way\<close>

text \<open>A lookup under way, under its cache key: the pair, when it began, and the requests that wait for it, the first of
  which began it. An answer has its request, the pair as asked, the result and the time.\<close>

record lookup =
  lk_base :: string
  lk_quote :: string
  lk_started :: int
  lk_waiting :: "(nat \<times> string \<times> string) list"

record answer =
  an_request :: nat
  an_base :: string
  an_quote :: string
  an_result :: "app_error + exchange_rate"
  an_at :: int

record rates =
  rt_cache :: "string \<rightharpoonup> exchange_rate \<times> int"
  rt_inFlight :: "string \<rightharpoonup> lookup"
  rt_fetches :: "string list"
  rt_answers :: "answer list"

definition no_rates :: rates where
  "no_rates = \<lparr>rt_cache = Map.empty, rt_inFlight = Map.empty, rt_fetches = [], rt_answers = []\<rparr>"

definition cacheKey :: "string \<Rightarrow> string \<Rightarrow> string" where
  "cacheKey base qt = base @ ''/'' @ qt"

definition reply :: "nat \<Rightarrow> string \<Rightarrow> string \<Rightarrow> app_error + exchange_rate \<Rightarrow> int \<Rightarrow> rates \<Rightarrow> rates" where
  "reply r baseAsset quoteAsset result time s = s\<lparr>rt_answers := rt_answers s @
     [\<lparr>an_request = r, an_base = baseAsset, an_quote = quoteAsset, an_result = result, an_at = time\<rparr>]\<rparr>"

text \<open>\<open>getRate\<close> up to where it waits.\<close>

definition getRate :: "rate_options \<Rightarrow> nat \<Rightarrow> string \<Rightarrow> string \<Rightarrow> int \<Rightarrow> rates \<Rightarrow> rates" where
  "getRate options r baseAsset quoteAsset now s =
     (let base = toUpperCase baseAsset; qt = toUpperCase quoteAsset; key = cacheKey base qt;
          join = (case rt_inFlight s key of
            Some l \<Rightarrow> s\<lparr>rt_inFlight := (rt_inFlight s)(key \<mapsto> l\<lparr>lk_waiting := lk_waiting l @ [(r, baseAsset, quoteAsset)]\<rparr>)\<rparr>
          | None \<Rightarrow> s\<lparr>rt_inFlight := (rt_inFlight s)(key \<mapsto> \<lparr>lk_base = base, lk_quote = qt, lk_started = now,
              lk_waiting = [(r, baseAsset, quoteAsset)]\<rparr>), rt_fetches := rt_fetches s @ [key]\<rparr>) in
      if base = qt then reply r baseAsset quoteAsset (map_error (\<lambda>e. AppError INTERNAL_ERROR 500 (money_message e) None) (rate_identity base ''identity'' now)) now s
      else case rt_cache s key of
        Some (rate, cachedAt) \<Rightarrow>
          if now - cachedAt < ro_cacheTtlMs options
          then reply r baseAsset quoteAsset (bind_result (assertFresh (ro_maxAgeMs options) rate base qt now) (\<lambda>_. Inr rate)) now s
          else join
      | None \<Rightarrow> join)"

text \<open>The end of a lookup: a rate is cached, the lookup is no longer under way, and every request that waits is answered.\<close>

definition settle_lookup :: "rate_options \<Rightarrow> string \<Rightarrow> rates \<Rightarrow> rates" where
  "settle_lookup options key s =
     (case rt_inFlight s key of None \<Rightarrow> s
      | Some l \<Rightarrow>
          let (result, finished) = fetchFresh options (lk_base l) (lk_quote l) (lk_started l);
              s' = s\<lparr>rt_cache := (case result of Inr rate \<Rightarrow> (rt_cache s)(key \<mapsto> (rate, finished)) | Inl _ \<Rightarrow> rt_cache s),
                rt_inFlight := (rt_inFlight s)(key := None), rt_fetches := remove1 key (rt_fetches s)\<rparr>
          in fold (\<lambda>(r, b, q). reply r b q result finished) (lk_waiting l) s')"

definition clearCache :: "rates \<Rightarrow> rates" where
  "clearCache s = s\<lparr>rt_cache := Map.empty\<rparr>"

inductive serving :: "rate_options \<Rightarrow> rates \<Rightarrow> bool" for options where
  begin_serving: "serving options no_rates"
| ask: "serving options s \<Longrightarrow> serving options (getRate options r baseAsset quoteAsset now s)"
| ended: "serving options s \<Longrightarrow> serving options (settle_lookup options key s)"
| clear: "serving options s \<Longrightarrow> serving options (clearCache s)"

section \<open>What is answered\<close>

definition from_source :: "rate_options \<Rightarrow> string \<Rightarrow> string \<Rightarrow> exchange_rate \<Rightarrow> bool" where
  "from_source options b q rate \<longleftrightarrow> (\<exists>p st. p \<in> set (ro_providers options) \<and> fst (rp_getRate p b q st) = Inr rate)"

lemma assertFresh_Inr [result_simps]: "assertFresh m rate b q now = Inr u \<longleftrightarrow> now - er_observedAt rate \<le> m"
  by (auto simp: assertFresh_def Let_def)

lemma try_providers_Inr:
  "try_providers m b q ps attempts now = (Inr rate, t) \<Longrightarrow>
     t - er_observedAt rate \<le> m \<and> (\<exists>p \<in> set ps. \<exists>st. rp_getRate p b q st = (Inr rate, t))"
proof (induction ps arbitrary: attempts now)
  case (Cons p ps)
  show ?case
  proof (cases "fst (rp_getRate p b q now)")
    case (Inl e)
    then have "try_providers m b q ps (attempts @ [(rp_name p, failure_message e)]) (snd (rp_getRate p b q now)) = (Inr rate, t)"
      using Cons.prems by (cases "rp_getRate p b q now") simp
    from Cons.IH [OF this] show ?thesis by auto
  next
    case (Inr r)
    then have "rp_getRate p b q now = (Inr rate, t)" "t - er_observedAt rate \<le> m"
      using Cons.prems by (cases "rp_getRate p b q now"; auto simp: result_simps)+
    then show ?thesis by auto
  qed
qed simp

lemma fetchFresh_Inr:
  assumes "fetchFresh options b q now = (Inr rate, t)"
  shows "t - er_observedAt rate \<le> ro_maxAgeMs options" "from_source options b q rate"
proof -
  obtain p st where "t - er_observedAt rate \<le> ro_maxAgeMs options" "p \<in> set (ro_providers options)" "rp_getRate p b q st = (Inr rate, t)"
    using try_providers_Inr [OF assms [unfolded fetchFresh_def]] by blast
  then show "t - er_observedAt rate \<le> ro_maxAgeMs options" "from_source options b q rate" unfolding from_source_def by (simp, metis fst_conv)
qed

text \<open>The answer to a request is the rate of a pair to itself, or an observation of a source for the pair, not too old.\<close>

definition good_answer :: "rate_options \<Rightarrow> answer \<Rightarrow> bool" where
  "good_answer options a \<longleftrightarrow> (\<forall>rate. an_result a = Inr rate \<longrightarrow>
     (toUpperCase (an_base a) = toUpperCase (an_quote a) \<and> er_base rate = toUpperCase (an_base a) \<and> er_quote rate = er_base rate \<and> er_numerator rate = 10 ^ 18) \<or>
     (an_at a - er_observedAt rate \<le> ro_maxAgeMs options \<and>
       (\<exists>b q. cacheKey b q = cacheKey (toUpperCase (an_base a)) (toUpperCase (an_quote a)) \<and> from_source options b q rate)))"

definition good_lookup :: "string \<Rightarrow> lookup \<Rightarrow> bool" where
  "good_lookup key l \<longleftrightarrow> cacheKey (lk_base l) (lk_quote l) = key \<and>
     (\<forall>(r, b, q) \<in> set (lk_waiting l). cacheKey (toUpperCase b) (toUpperCase q) = key)"

definition rates_ok :: "rate_options \<Rightarrow> rates \<Rightarrow> bool" where
  "rates_ok options s \<longleftrightarrow> distinct (rt_fetches s) \<and> set (rt_fetches s) = dom (rt_inFlight s) \<and>
     (\<forall>key l. rt_inFlight s key = Some l \<longrightarrow> good_lookup key l) \<and>
     (\<forall>key rate c. rt_cache s key = Some (rate, c) \<longrightarrow> (\<exists>b q. cacheKey b q = key \<and> from_source options b q rate)) \<and>
     (\<forall>a \<in> set (rt_answers s). good_answer options a)"

lemma reply_simps [simp]:
  "rt_cache (reply r b q x t s) = rt_cache s" "rt_inFlight (reply r b q x t s) = rt_inFlight s" "rt_fetches (reply r b q x t s) = rt_fetches s"
  "rt_answers (reply r b q x t s) = rt_answers s @ [\<lparr>an_request = r, an_base = b, an_quote = q, an_result = x, an_at = t\<rparr>]"
  by (simp_all add: reply_def)

lemma replies:
  "rt_cache (fold (\<lambda>(r, b, q). reply r b q x t) ws s) = rt_cache s"
  "rt_inFlight (fold (\<lambda>(r, b, q). reply r b q x t) ws s) = rt_inFlight s"
  "rt_fetches (fold (\<lambda>(r, b, q). reply r b q x t) ws s) = rt_fetches s"
  "rt_answers (fold (\<lambda>(r, b, q). reply r b q x t) ws s) =
     rt_answers s @ map (\<lambda>(r, b, q). \<lparr>an_request = r, an_base = b, an_quote = q, an_result = x, an_at = t\<rparr>) ws"
  by (induction ws arbitrary: s) auto

lemma identity_answer:
  "rate_identity b p now = Inr rate \<Longrightarrow> er_base rate = b \<and> er_quote rate = b \<and> er_numerator rate = 10 ^ 18"
  by (auto simp: rate_identity_def result_simps pow10_def RATE_SCALE_def MAX_DECIMALS_def)

lemma ok_reply:
  assumes "rates_ok options s" "good_answer options \<lparr>an_request = r, an_base = b, an_quote = q, an_result = x, an_at = t\<rparr>"
  shows "rates_ok options (reply r b q x t s)"
  using assms by (simp add: rates_ok_def)

lemma ok_join:
  assumes "rates_ok options s" "key = cacheKey (toUpperCase b) (toUpperCase q)"
  shows "rates_ok options (case rt_inFlight s key of
      Some l \<Rightarrow> s\<lparr>rt_inFlight := (rt_inFlight s)(key \<mapsto> l\<lparr>lk_waiting := lk_waiting l @ [(r, b, q)]\<rparr>)\<rparr>
    | None \<Rightarrow> s\<lparr>rt_inFlight := (rt_inFlight s)(key \<mapsto> \<lparr>lk_base = toUpperCase b, lk_quote = toUpperCase q, lk_started = now,
        lk_waiting = [(r, b, q)]\<rparr>), rt_fetches := rt_fetches s @ [key]\<rparr>)"
proof (cases "rt_inFlight s key")
  case None
  then have "key \<notin> set (rt_fetches s)" using assms(1) by (auto simp: rates_ok_def)
  with None assms show ?thesis by (simp add: rates_ok_def good_lookup_def)
next
  case (Some l)
  then have "good_lookup key l" "key \<in> dom (rt_inFlight s)" using assms(1) by (auto simp: rates_ok_def)
  with Some assms show ?thesis by (auto simp: rates_ok_def good_lookup_def insert_absorb)
qed

lemma ok_getRate:
  assumes "rates_ok options s"
  shows "rates_ok options (getRate options r b q now s)"
proof -
  let ?b = "toUpperCase b" and ?q = "toUpperCase q"
  have id: "good_answer options \<lparr>an_request = r, an_base = b, an_quote = q,
      an_result = map_error (\<lambda>e. AppError INTERNAL_ERROR 500 (money_message e) None) (rate_identity ?b ''identity'' now), an_at = now\<rparr>" if "?b = ?q"
    using identity_answer [of ?b _ now] that by (auto simp: good_answer_def map_error_def split: sum.splits)
  have hit: "good_answer options \<lparr>an_request = r, an_base = b, an_quote = q,
      an_result = bind_result (assertFresh (ro_maxAgeMs options) rate ?b ?q now) (\<lambda>_. Inr rate), an_at = now\<rparr>"
    if "rt_cache s (cacheKey ?b ?q) = Some (rate, c)" for rate c
    using that assms by (auto simp: good_answer_def rates_ok_def result_simps)
  show ?thesis unfolding getRate_def Let_def
    using ok_reply [OF assms id] ok_reply [OF assms hit] ok_join [OF assms refl] by (auto split: option.split prod.split)
qed

lemma ok_settle:
  assumes "rates_ok options s"
  shows "rates_ok options (settle_lookup options key s)"
proof (cases "rt_inFlight s key")
  case None with assms show ?thesis by (simp add: settle_lookup_def)
next
  case (Some l)
  obtain x t where f: "fetchFresh options (lk_base l) (lk_quote l) (lk_started l) = (x, t)" by fastforce
  have l: "good_lookup key l" using assms Some by (auto simp: rates_ok_def)
  have src: "t - er_observedAt rate \<le> ro_maxAgeMs options" "from_source options (lk_base l) (lk_quote l) rate" if "x = Inr rate" for rate
    using fetchFresh_Inr f that by metis+
  have answers: "good_answer options \<lparr>an_request = r, an_base = b, an_quote = q, an_result = x, an_at = t\<rparr>" if "(r, b, q) \<in> set (lk_waiting l)" for r b q
  proof -
    have "cacheKey (lk_base l) (lk_quote l) = cacheKey (toUpperCase b) (toUpperCase q)" using l that by (auto simp: good_lookup_def)
    with src show ?thesis by (auto simp: good_answer_def)
  qed
  have "distinct (rt_fetches s)" "set (rt_fetches s) = dom (rt_inFlight s)" using assms by (auto simp: rates_ok_def)
  then have "set (remove1 key (rt_fetches s)) = dom ((rt_inFlight s)(key := None))" "distinct (remove1 key (rt_fetches s))" by auto
  moreover have "\<exists>b q. cacheKey b q = k \<and> from_source options b q rate"
    if "(case x of Inr r \<Rightarrow> (rt_cache s)(key \<mapsto> (r, t)) | Inl _ \<Rightarrow> rt_cache s) k = Some (rate, c)" for k rate c
    using that assms l src by (auto simp: rates_ok_def good_lookup_def split: sum.splits if_splits)
  moreover have "\<forall>k m. ((rt_inFlight s)(key := None)) k = Some m \<longrightarrow> good_lookup k m" using assms by (auto simp: rates_ok_def)
  moreover have "\<forall>a \<in> set (rt_answers s). good_answer options a" using assms by (auto simp: rates_ok_def)
  ultimately show ?thesis using Some f answers by (auto simp: settle_lookup_def rates_ok_def replies)
qed

lemma serving_ok: "serving options s \<Longrightarrow> rates_ok options s"
proof (induction rule: serving.induct)
  case begin_serving show ?case by (simp add: rates_ok_def no_rates_def)
next
  case (clear s) then show ?case by (simp add: rates_ok_def clearCache_def)
qed (simp_all add: ok_getRate ok_settle)

lemma cacheKey_inj:
  assumes "cacheKey b q = cacheKey b' q'" "CHR ''/'' \<notin> set b" "CHR ''/'' \<notin> set b'"
  shows "b = b' \<and> q = q'"
proof -
  have split: "takeWhile (\<lambda>c. c \<noteq> CHR ''/'') (x @ CHR ''/'' # y) = x" if "CHR ''/'' \<notin> set x" for x y
    using that by (induction x) auto
  have "b @ CHR ''/'' # q = b' @ CHR ''/'' # q'" using assms(1) by (simp add: cacheKey_def)
  with split assms(2,3) show ?thesis by (metis append_same_eq list.inject same_append_eq)
qed

lemma settle_answers:
  assumes "rt_inFlight s key = Some l"
  shows "\<exists>x t. rt_answers (settle_lookup options key s) = rt_answers s @
      map (\<lambda>(r, b, q). \<lparr>an_request = r, an_base = b, an_quote = q, an_result = x, an_at = t\<rparr>) (lk_waiting l) \<and>
    rt_inFlight (settle_lookup options key s) key = None"
proof -
  obtain x t where "fetchFresh options (lk_base l) (lk_quote l) (lk_started l) = (x, t)" by fastforce
  with assms show ?thesis by (auto simp: settle_lookup_def replies)
qed


definition sample_quote :: exchange_rate where
  "sample_quote = \<lparr>er_base = ''ETH'', er_quote = ''USD'', er_numerator = 3000, er_provider = ''coingecko'', er_observedAt = 900\<rparr>"

definition sample_sources :: rate_options where
  "sample_sources = \<lparr>ro_providers = [\<lparr>rp_name = ''binance'', rp_getRate = (\<lambda>_ _ now. (Inl (OtherFailure ''down''), now + 5))\<rparr>,
     \<lparr>rp_name = ''coingecko'', rp_getRate = (\<lambda>_ _ now. (Inr sample_quote, now + 5))\<rparr>], ro_maxAgeMs = 120000, ro_cacheTtlMs = 30000\<rparr>"

definition sample_serving :: rates where
  "sample_serving = settle_lookup sample_sources ''ETH/USD'' (getRate sample_sources 1 ''ETH'' ''usd'' 1003 (getRate sample_sources 0 ''eth'' ''USD'' 1000 no_rates))"

lemma sample_serving_runs: "serving sample_sources sample_serving" "length (rt_answers sample_serving) = 2"
  "list_all (\<lambda>a. an_result a = Inr sample_quote \<and> an_at a = 1010) (rt_answers sample_serving)"
proof -
  show "serving sample_sources sample_serving" unfolding sample_serving_def by (intro ended ask begin_serving)
qed code_simp+


text \<open>A cached rate that is past the maximum age but not past the time it is cached for is refused, not looked up
  again, whatever the sources would answer.\<close>

lemma stale_cache_refuses:
  assumes "toUpperCase b \<noteq> toUpperCase q" "rt_cache s (cacheKey (toUpperCase b) (toUpperCase q)) = Some (rate, c)"
    and "now - c < ro_cacheTtlMs options" "now - er_observedAt rate > ro_maxAgeMs options"
  shows "getRate options r b q now s = reply r b q (Inl (RateStaleError (toUpperCase b) (toUpperCase q) (now - er_observedAt rate) (ro_maxAgeMs options))) now s"
  using assms by (simp add: getRate_def Let_def assertFresh_def)

text \<open>The sources are asked in order, and the first that answers is used.\<close>

lemma first_source_wins:
  assumes "list_all (\<lambda>p. \<forall>st. \<exists>e t. rp_getRate p b q st = (Inl e, t)) ps"
    and "\<And>st. \<exists>t. rp_getRate p b q st = (Inr rate, t) \<and> t - er_observedAt rate \<le> m"
  shows "\<exists>t. try_providers m b q (ps @ p # rest) attempts now = (Inr rate, t)"
  using assms(1)
proof (induction ps arbitrary: attempts now)
  case Nil
  obtain t where "rp_getRate p b q now = (Inr rate, t)" "t - er_observedAt rate \<le> m" using assms(2) by blast
  then show ?case by (simp add: assertFresh_def)
next
  case (Cons x ps)
  then have "\<forall>st. \<exists>e t. rp_getRate x b q st = (Inl e, t)" by simp
  then obtain e t where "rp_getRate x b q now = (Inl e, t)" by blast
  with Cons show ?case by simp
qed

end
