(* ===== verification/Secrets.thy ===== *)
theory Secrets
  imports Addresses Errors
begin

text \<open>
  Credentials (\<open>packages/security/src\<close>): API keys (\<open>api-key.ts\<close>), session tokens (\<open>jwt.ts\<close>), the encryption of secrets
  that must be recovered (\<open>encryption.ts\<close>) and the redaction of what is logged (\<open>redaction.ts\<close>). Base64url and UTF-8 are
  modelled as Node's \<open>Buffer\<close> has them; Argon2, HMAC, AES-256-GCM, the random bytes and \<open>JSON.parse\<close> are parameters.
\<close>

section \<open>Base64url and UTF-8\<close>

definition BASE64URL :: string where
  "BASE64URL = ''ABCDEFGHIJKLMNOPQRSTUVWXYZabcdefghijklmnopqrstuvwxyz0123456789-_''"

definition b64_char :: "nat \<Rightarrow> char" where
  "b64_char n = BASE64URL ! n"

fun base64url :: "nat list \<Rightarrow> string" where
  "base64url [] = []"
| "base64url [a] = [b64_char (a div 4), b64_char (a mod 4 * 16)]"
| "base64url [a, b] = [b64_char (a div 4), b64_char (a mod 4 * 16 + b div 16), b64_char (b mod 16 * 4)]"
| "base64url (a # b # c # rest) =
     b64_char (a div 4) # b64_char (a mod 4 * 16 + b div 16) # b64_char (b mod 16 * 4 + c div 64) # b64_char (c mod 64) # base64url rest"

text \<open>Decoding stops at \<open>=\<close>, accepts the characters of plain Base64 and skips any other.\<close>

definition b64_value :: "char \<Rightarrow> nat option" where
  "b64_value c = (case index_of BASE64URL c of Some n \<Rightarrow> Some n
     | None \<Rightarrow> if c = CHR ''+'' then Some 62 else if c = CHR ''/'' then Some 63 else None)"

fun b64_bytes :: "nat list \<Rightarrow> nat list" where
  "b64_bytes (a # b # c # d # rest) = (a * 4 + b div 16) # (b mod 16 * 16 + c div 4) # (c mod 4 * 64 + d) # b64_bytes rest"
| "b64_bytes [a, b, c] = [a * 4 + b div 16, b mod 16 * 16 + c div 4]"
| "b64_bytes [a, b] = [a * 4 + b div 16]"
| "b64_bytes _ = []"

definition base64url_decode :: "string \<Rightarrow> nat list" where
  "base64url_decode s = b64_bytes (List.map_filter b64_value (takeWhile (\<lambda>c. c \<noteq> CHR ''='') s))"

text \<open>Characters below 256 have one byte or two; \<open>None\<close> is text with any other character.\<close>

definition utf8_char :: "char \<Rightarrow> nat list" where
  "utf8_char c = (let n = of_char c in if n < 128 then [n] else [192 + n div 64, 128 + n mod 64])"

definition utf8_bytes :: "string \<Rightarrow> nat list" where
  "utf8_bytes s = concat (map utf8_char s)"

fun utf8_string :: "nat list \<Rightarrow> string option" where
  "utf8_string [] = Some []"
| "utf8_string (a # rest) =
     (if a < 128 then map_option ((#) (char_of a)) (utf8_string rest)
      else (case rest of b # rest' \<Rightarrow>
          if (a = 194 \<or> a = 195) \<and> 128 \<le> b \<and> b < 192 then map_option ((#) (char_of ((a - 192) * 64 + (b - 128)))) (utf8_string rest') else None
        | [] \<Rightarrow> None))"

lemma index_of_nth: "distinct xs \<Longrightarrow> n < length xs \<Longrightarrow> index_of xs (xs ! n) = Some n"
proof (induction xs arbitrary: n)
  case (Cons x xs)
  then show ?case by (cases n) auto
qed simp

lemma BASE64URL_facts: "distinct BASE64URL" "length BASE64URL = 64" "list_all (\<lambda>c. c \<noteq> CHR ''='' \<and> c \<noteq> CHR ''.'' \<and> \<not> is_space c) BASE64URL"
  by code_simp+

lemma b64_char_facts:
  assumes "n < 64"
  shows "b64_value (b64_char n) = Some n" "b64_char n \<in> set BASE64URL" "b64_char n \<noteq> CHR ''=''"
proof -
  show m: "b64_char n \<in> set BASE64URL" unfolding b64_char_def using assms BASE64URL_facts(2) by (intro nth_mem) simp
  show "b64_value (b64_char n) = Some n"
    unfolding b64_value_def b64_char_def using index_of_nth [OF BASE64URL_facts(1)] assms BASE64URL_facts(2) by simp
  show "b64_char n \<noteq> CHR ''=''" using m BASE64URL_facts(3) unfolding list_all_iff by blast
qed

lemma base64url_chars: "list_all (\<lambda>b. b < 256) bs \<Longrightarrow> set (base64url bs) \<subseteq> set BASE64URL"
  by (induction bs rule: base64url.induct) (auto intro!: b64_char_facts(2))

lemma base64url_roundtrip:
  assumes "list_all (\<lambda>b. b < 256) bs"
  shows "base64url_decode (base64url bs) = bs"
proof -
  have "set (base64url bs) \<subseteq> set BASE64URL" by (rule base64url_chars [OF assms])
  then have "takeWhile (\<lambda>c. c \<noteq> CHR ''='') (base64url bs) = base64url bs"
    using BASE64URL_facts(3) unfolding list_all_iff by (intro takeWhile_eq_all_conv [THEN iffD2]) blast
  moreover have "b64_bytes (List.map_filter b64_value (base64url bs)) = bs"
    using assms by (induction bs rule: base64url.induct) (auto simp: b64_char_facts(1))
  ultimately show ?thesis by (simp only: base64url_decode_def)
qed

lemma char_code_high:
  assumes "\<not> (of_char c :: nat) < 128"
  shows "(of_char c :: nat) div 64 = 2 \<or> (of_char c :: nat) div 64 = 3"
proof -
  have "(of_char c :: nat) < 4 * 64" by simp
  then have "(of_char c :: nat) div 64 < 4" by (rule less_mult_imp_div_less)
  moreover have "(128 :: nat) div 64 \<le> of_char c div 64" using assms by (intro div_le_mono) simp
  ultimately show ?thesis by auto
qed

lemma utf8_bytes_small: "list_all (\<lambda>b. b < 256) (utf8_bytes s)"
proof -
  have "b < 256" if "b \<in> set (utf8_char c)" for b c
    using that char_code_high [of c] by (auto simp: utf8_char_def Let_def split: if_splits)
  then show ?thesis by (auto simp: utf8_bytes_def list_all_iff)
qed

lemma utf8_roundtrip: "utf8_string (utf8_bytes s) = Some s"
proof (induction s)
  case (Cons c s)
  have "(of_char c :: nat) div 64 * 64 + of_char c mod 64 = of_char c" by simp
  with Cons char_code_high [of c] show ?case by (auto simp: utf8_bytes_def utf8_char_def Let_def)
qed (simp add: utf8_bytes_def)

lemma base64url_length: "length (base64url bs) = (length bs div 3) * 4 + (if length bs mod 3 = 0 then 0 else length bs mod 3 + 1)"
proof -
  have "(3 + n) div (3 :: nat) = Suc (n div 3)" for n by simp
  then show ?thesis by (induction bs rule: base64url.induct) simp_all
qed

section \<open>API keys\<close>

definition PUBLIC_ID_BYTES :: nat where "PUBLIC_ID_BYTES = 9"
definition SECRET_BYTES :: nat where "SECRET_BYTES = 32"

datatype key_environment = Live | Test

fun environment_name :: "key_environment \<Rightarrow> string" where
  "environment_name Live = ''live''"
| "environment_name Test = ''test''"

record generated_api_key =
  gk_plaintext :: string
  gk_keyPrefix :: string
  gk_secretHash :: string
  gk_livemode :: bool

record parsed_api_key =
  pk_keyPrefix :: string
  pk_secret :: string
  pk_livemode :: bool

text \<open>The two calls of \<open>randomBytes\<close> gave \<open>publicBytes\<close> and \<open>secretBytes\<close>.\<close>

definition generateApiKey :: "(string \<Rightarrow> string) \<Rightarrow> key_environment \<Rightarrow> nat list \<Rightarrow> nat list \<Rightarrow> generated_api_key" where
  "generateApiKey hash environment publicBytes secretBytes =
     (let publicId = base64url publicBytes; secret = base64url secretBytes;
          keyPrefix = ''pk_'' @ environment_name environment @ ''_'' @ publicId in
      \<lparr>gk_plaintext = keyPrefix @ ''.'' @ secret, gk_keyPrefix = keyPrefix, gk_secretHash = hash secret,
       gk_livemode = (environment = Live)\<rparr>)"

text \<open>\<open>/^pk_(live|test)_[A-Za-z0-9_-]{8,32}$/\<close> and \<open>/^[A-Za-z0-9_-]{32,128}$/\<close>.\<close>

definition key_chars :: "nat \<Rightarrow> nat \<Rightarrow> string \<Rightarrow> bool" where
  "key_chars least most s \<longleftrightarrow> least \<le> length s \<and> length s \<le> most \<and> set s \<subseteq> set BASE64URL"

definition prefix_environment :: "string \<Rightarrow> key_environment option" where
  "prefix_environment p =
     (if \<not> key_chars 8 32 (drop 8 p) then None
      else if take 8 p = ''pk_live_'' then Some Live else if take 8 p = ''pk_test_'' then Some Test else None)"

text \<open>Exactly one separator: two parts.\<close>

definition parseApiKey :: "string \<Rightarrow> parsed_api_key option" where
  "parseApiKey presented =
     (case split_on (CHR ''.'') (js_trim presented) of
        [keyPrefix, secret] \<Rightarrow>
          (case prefix_environment keyPrefix of None \<Rightarrow> None
           | Some e \<Rightarrow> if \<not> key_chars 32 128 secret then None
               else Some \<lparr>pk_keyPrefix = keyPrefix, pk_secret = secret, pk_livemode = (e = Live)\<rparr>)
      | _ \<Rightarrow> None)"

text \<open>\<open>verify\<close> of Argon2 may throw.\<close>

definition verifyApiKeySecret :: "(string \<Rightarrow> string \<Rightarrow> bool option) \<Rightarrow> string \<Rightarrow> string \<Rightarrow> bool" where
  "verifyApiKeySecret verify secret secretHash \<longleftrightarrow> secret \<noteq> [] \<and> secretHash \<noteq> [] \<and> verify secretHash secret = Some True"

definition generateWebhookSecret :: "nat list \<Rightarrow> string" where
  "generateWebhookSecret bytes = ''whsec_'' @ base64url bytes"

definition secretFingerprint :: "(string \<Rightarrow> string) \<Rightarrow> string \<Rightarrow> string" where
  "secretFingerprint sha256Hex secret = take 16 (sha256Hex secret)"

definition generateOpaqueToken :: "(string \<Rightarrow> string) \<Rightarrow> nat list \<Rightarrow> string \<times> string" where
  "generateOpaqueToken sha256Hex bytes = (let token = base64url bytes in (token, sha256Hex token))"

section \<open>Session tokens\<close>

record sign_options =
  so_expiresInSeconds :: int
  so_issuer :: string
  so_audience :: string

text \<open>A field of an object literal after a spread replaces one of the same name.\<close>

definition put_field :: "string \<Rightarrow> json \<Rightarrow> (string \<times> json) list \<Rightarrow> (string \<times> json) list" where
  "put_field k v fs = (if k \<in> fst ` set fs then map (\<lambda>(k', v'). if k' = k then (k', v) else (k', v')) fs else fs @ [(k, v)])"

definition token_payload :: "(string \<times> json) list \<Rightarrow> sign_options \<Rightarrow> int \<Rightarrow> (string \<times> json) list" where
  "token_payload claims options now =
     put_field ''exp'' (JNum (now + so_expiresInSeconds options)) (put_field ''iat'' (JNum now)
     (put_field ''aud'' (JStr (so_audience options)) (put_field ''iss'' (JStr (so_issuer options)) claims)))"

definition HEADER :: json where
  "HEADER = JObj [(''alg'', JStr ''HS256''), (''typ'', JStr ''JWT'')]"

definition signingInput :: "string \<Rightarrow> string \<Rightarrow> string" where
  "signingInput headerPart payloadPart = headerPart @ ''.'' @ payloadPart"

text \<open>\<open>hmac secret input\<close> is the digest in base64url; \<open>nowMs\<close> is \<open>Date.now()\<close>.\<close>

definition signJwt :: "(string \<Rightarrow> string \<Rightarrow> string) \<Rightarrow> (string \<times> json) list \<Rightarrow> string \<Rightarrow> sign_options \<Rightarrow> int \<Rightarrow> string" where
  "signJwt hmac claims secret options nowMs =
     (let payload = token_payload claims options (nowMs div 1000);
          headerPart = base64url (utf8_bytes (json_stringify HEADER));
          payloadPart = base64url (utf8_bytes (json_stringify (JObj payload))) in
      headerPart @ ''.'' @ payloadPart @ ''.'' @ hmac secret (signingInput headerPart payloadPart))"

definition json_field :: "json \<Rightarrow> string \<Rightarrow> json option" where
  "json_field v k = (case v of JObj fs \<Rightarrow> map_of fs k | _ \<Rightarrow> None)"

text \<open>\<open>parse\<close> is \<open>JSON.parse\<close>; reading a field of \<open>null\<close> throws.\<close>

definition check_claims :: "json \<Rightarrow> string \<Rightarrow> string \<Rightarrow> int \<Rightarrow> string + json" where
  "check_claims claims issuer audience now =
     (if claims = JNull then Inl ''Cannot read properties of null''
      else case json_field claims ''exp'' of
        Some (JNum e) \<Rightarrow>
          if e \<le> now then Inl ''token expired''
          else if json_field claims ''iss'' \<noteq> Some (JStr issuer) then Inl ''issuer mismatch''
          else if json_field claims ''aud'' \<noteq> Some (JStr audience) then Inl ''audience mismatch''
          else Inr claims
      | _ \<Rightarrow> Inl ''token expired'')"

definition verifyJwt :: "(string \<Rightarrow> string \<Rightarrow> string) \<Rightarrow> (string \<Rightarrow> json option) \<Rightarrow> string \<Rightarrow> string \<Rightarrow> string \<Rightarrow> string \<Rightarrow> int \<Rightarrow> string + json" where
  "verifyJwt hmac parse token secret issuer audience nowMs =
     (if token = [] \<or> length token > 8192 then Inl ''malformed token''
      else case split_on (CHR ''.'') token of
        [headerPart, payloadPart, signaturePart] \<Rightarrow>
          if headerPart = [] \<or> payloadPart = [] \<or> signaturePart = [] then Inl ''malformed token''
          else if signaturePart \<noteq> hmac secret (signingInput headerPart payloadPart) then Inl ''signature mismatch''
          else (case Option.bind (utf8_string (base64url_decode payloadPart)) parse of
             None \<Rightarrow> Inl ''malformed payload''
           | Some claims \<Rightarrow> check_claims claims issuer audience (nowMs div 1000))
      | _ \<Rightarrow> Inl ''malformed token'')"

section \<open>Encryption of recoverable secrets\<close>

definition FORMAT_VERSION :: string where "FORMAT_VERSION = ''v1''"
definition IV_BYTES :: nat where "IV_BYTES = 12"
definition KEY_BYTES :: nat where "KEY_BYTES = 32"
definition AUTH_TAG_BYTES :: nat where "AUTH_TAG_BYTES = 16"

record key_provider =
  kp_activeKeyId :: string
  kp_keys :: "(string \<times> nat list) list"

definition getKey :: "key_provider \<Rightarrow> string \<Rightarrow> string + nat list" where
  "getKey provider keyId = of_option (''unknown encryption key id: '' @ keyId) (map_of (kp_keys provider) keyId)"

fun add_retired :: "string list \<Rightarrow> (string \<times> nat list) list \<Rightarrow> string + (string \<times> nat list) list" where
  "add_retired [] keys = Inr keys"
| "add_retired (entry # rest) keys =
     (case split_on (CHR '':'') entry of
        i # material # _ \<Rightarrow>
          if i = [] \<or> material = [] then add_retired rest keys
          else if length (base64url_decode material) \<noteq> KEY_BYTES then Inl (''retired key '' @ i @ '' has the wrong length'')
          else add_retired rest ((i, base64url_decode material) # keys)
      | _ \<Rightarrow> add_retired rest keys)"

text \<open>The environment variables \<open>ENCRYPTION_KEY\<close>, \<open>ENCRYPTION_KEY_ID\<close> and \<open>ENCRYPTION_KEY_RETIRED\<close>; a key set later
  under the same identifier replaces the earlier one.\<close>

definition EnvKeyProvider :: "string \<Rightarrow> string \<Rightarrow> string \<Rightarrow> string + key_provider" where
  "EnvKeyProvider rawKey keyId retired =
     (if rawKey = [] \<or> keyId = [] then Inl ''ENCRYPTION_KEY and ENCRYPTION_KEY_ID must be set''
      else let key = base64url_decode rawKey in
        if length key \<noteq> KEY_BYTES
        then Inl (''ENCRYPTION_KEY must decode to '' @ show_int (int KEY_BYTES) @ '' bytes, got '' @ show_int (int (length key)))
        else bind_result (if retired = [] then Inr [(keyId, key)] else add_retired (split_on (CHR '','') retired) [(keyId, key)]) (\<lambda>keys.
          Inr \<lparr>kp_activeKeyId = keyId, kp_keys = keys\<rparr>))"

text \<open>\<open>seal\<close> and \<open>open\<close> are AES-256-GCM on a key, an IV and the bytes that are bound to the message; \<open>iv\<close> is what
  \<open>randomBytes\<close> gave.\<close>

definition bound_header :: "string \<Rightarrow> nat list" where
  "bound_header keyId = utf8_bytes (FORMAT_VERSION @ ''.'' @ keyId)"

definition encryptSecret ::
  "(nat list \<Rightarrow> nat list \<Rightarrow> nat list \<Rightarrow> nat list \<Rightarrow> nat list \<times> nat list) \<Rightarrow> key_provider \<Rightarrow> nat list \<Rightarrow> string \<Rightarrow> string + string"
where
  "encryptSecret seal provider iv plaintext =
     (if plaintext = [] then Inl ''cannot encrypt an empty value''
      else let keyId = kp_activeKeyId provider in
        bind_result (getKey provider keyId) (\<lambda>key.
        let (ciphertext, authTag) = seal key iv (bound_header keyId) (utf8_bytes plaintext) in
        Inr (join_with (CHR ''.'') [FORMAT_VERSION, keyId, base64url iv, base64url authTag, base64url ciphertext])))"

definition decryptSecret ::
  "(nat list \<Rightarrow> nat list \<Rightarrow> nat list \<Rightarrow> nat list \<times> nat list \<Rightarrow> nat list option) \<Rightarrow> key_provider \<Rightarrow> string \<Rightarrow> string + string option"
where
  "decryptSecret unseal provider encoded =
     (case split_on (CHR ''.'') encoded of
        [version, keyId, ivPart, tagPart, dataPart] \<Rightarrow>
          if version \<noteq> FORMAT_VERSION then Inl (''unsupported ciphertext version: '' @ version)
          else let iv = base64url_decode ivPart; authTag = base64url_decode tagPart in
            if length iv \<noteq> IV_BYTES \<or> length authTag \<noteq> AUTH_TAG_BYTES then Inl ''malformed ciphertext parameters''
            else bind_result (getKey provider keyId) (\<lambda>key.
              case unseal key iv (bound_header keyId) (base64url_decode dataPart, authTag) of
                None \<Rightarrow> Inl ''ciphertext failed authentication''
              | Some bytes \<Rightarrow> Inr (utf8_string bytes))
      | _ \<Rightarrow> Inl ''malformed ciphertext'')"

definition ciphertextKeyId :: "string \<Rightarrow> string option" where
  "ciphertextKeyId encoded = (case split_on (CHR ''.'') encoded of
     [v, k, _, _, _] \<Rightarrow> if v = FORMAT_VERSION then Some k else None | _ \<Rightarrow> None)"

section \<open>Redaction\<close>

definition REDACTED :: string where "REDACTED = ''[REDACTED]''"

fun occurs_in :: "string \<Rightarrow> string \<Rightarrow> bool" where
  "occurs_in p [] \<longleftrightarrow> p = []"
| "occurs_in p (c # s) \<longleftrightarrow> startsWith (c # s) p \<or> occurs_in p s"

definition SENSITIVE_PARTS :: "string list" where
  "SENSITIVE_PARTS = [''password'', ''passphrase'', ''secret'', ''token'', ''apikey'', ''api-key'', ''api_key'', ''privatekey'', ''private-key'',
     ''private_key'', ''seed'', ''mnemonic'', ''credential'', ''authorization'', ''cookie'', ''session'', ''signature'', ''mfa'', ''xpriv'', ''xprv'']"

definition isSensitiveKey :: "string \<Rightarrow> bool" where
  "isSensitiveKey key = (let k = toLowerCase key in list_ex (\<lambda>p. occurs_in p k) SENSITIVE_PARTS \<or> k = ''pin'' \<or> k = ''otp'')"

text \<open>\<open>split(/\s+/)\<close>.\<close>

fun space_words :: "string \<Rightarrow> string list" where
  "space_words [] = [[]]"
| "space_words (c # s) =
     (if is_space c then (case s of d # _ \<Rightarrow> if is_space d then space_words s else [] # space_words s | [] \<Rightarrow> [[], []])
      else (case space_words s of w # ws \<Rightarrow> (c # w) # ws | [] \<Rightarrow> [[c]]))"

definition looksLikeMnemonic :: "string \<Rightarrow> bool" where
  "looksLikeMnemonic v = (let words = space_words (js_trim v) in
     12 \<le> length words \<and> length words \<le> 24 \<and>
     list_all (\<lambda>w. 3 \<le> length w \<and> length w \<le> 8 \<and> list_all (\<lambda>c. c \<in> set ''abcdefghijklmnopqrstuvwxyz'') w) words)"

text \<open>\<open>redact_walk\<close> on JSON values; \<open>redactString\<close>, which replaces what has the shape of a credential, is an argument.\<close>

fun redact_walk :: "(string \<Rightarrow> string) \<Rightarrow> string list \<Rightarrow> nat \<Rightarrow> nat \<Rightarrow> json \<Rightarrow> json" where
  "redact_walk redactString extraKeys maxDepth depth v =
     (if depth > maxDepth then JStr ''[MAX_DEPTH]''
      else case v of
        JStr s \<Rightarrow> JStr (if looksLikeMnemonic s then REDACTED else redactString s)
      | JArr items \<Rightarrow> JArr (map (redact_walk redactString extraKeys maxDepth (depth + 1)) items)
      | JObj fs \<Rightarrow> JObj (map (\<lambda>(key, item). (key,
          if isSensitiveKey key \<or> toLowerCase key \<in> set extraKeys then JStr REDACTED
          else redact_walk redactString extraKeys maxDepth (depth + 1) item)) fs)
      | other \<Rightarrow> other)"

declare redact_walk.simps [simp del]

definition redact :: "(string \<Rightarrow> string) \<Rightarrow> nat option \<Rightarrow> string list \<Rightarrow> json \<Rightarrow> json" where
  "redact redactString maxDepth additionalKeys v =
     redact_walk redactString (map toLowerCase additionalKeys) (case maxDepth of None \<Rightarrow> 8 | Some d \<Rightarrow> d) 0 v"

definition maskCredential :: "string \<Rightarrow> nat \<Rightarrow> string" where
  "maskCredential v visiblePrefix = (if v = [] \<or> length v \<le> visiblePrefix then REDACTED else take visiblePrefix v @ ''...'')"

section \<open>A generated key is recognised\<close>

lemma BASE64URL_no_dot: "set s \<subseteq> set BASE64URL \<Longrightarrow> CHR ''.'' \<notin> set s"
  using BASE64URL_facts(3) unfolding list_all_iff by blast

lemma BASE64URL_no_space: "set s \<subseteq> set BASE64URL \<Longrightarrow> c \<in> set s \<Longrightarrow> \<not> is_space c"
  using BASE64URL_facts(3) unfolding list_all_iff by blast

lemma environment_prefix:
  "set (''pk_'' @ environment_name e @ ''_'') \<subseteq> set BASE64URL" "length (''pk_'' @ environment_name e @ ''_'') = 8"
  "take 8 ((''pk_'' @ environment_name e @ ''_'') @ p) = ''pk_'' @ environment_name e @ ''_''"
  "drop 8 ((''pk_'' @ environment_name e @ ''_'') @ p) = p"
proof -
  show "set (''pk_'' @ environment_name e @ ''_'') \<subseteq> set BASE64URL" by (cases e) (simp_all add: BASE64URL_def)
qed (cases e; simp)+

lemma parse_two_parts:
  assumes "set p \<subseteq> set BASE64URL" "set t \<subseteq> set BASE64URL" "p \<noteq> []" "t \<noteq> []"
  shows "split_on (CHR ''.'') (js_trim (p @ ''.'' @ t)) = [p, t]"
proof -
  have "js_trim (p @ ''.'' @ t) = p @ ''.'' @ t"
    using BASE64URL_no_space [OF assms(1), of "hd p"] BASE64URL_no_space [OF assms(2), of "last t"] assms(3,4) by (intro js_trim_id) simp_all
  then show ?thesis using split_on_append [OF BASE64URL_no_dot [OF assms(1)], of t] split_on_none [OF BASE64URL_no_dot [OF assms(2)]] by simp
qed

lemma base64url_sizes:
  "length bs = 9 \<Longrightarrow> length (base64url bs) = 12" "length bs = 32 \<Longrightarrow> length (base64url bs) = 43"
  by (simp_all add: base64url_length)

lemma join_split: "join_with c (split_on c x) = x"
proof (induction x)
  case (Cons a x)
  obtain p ps where "split_on c x = p # ps" by (cases "split_on c x") auto
  with Cons show ?case by (cases ps) auto
qed simp

lemma generated_key_parses:
  assumes "length pub = PUBLIC_ID_BYTES" "length sec = SECRET_BYTES" "list_all (\<lambda>b. b < 256) pub" "list_all (\<lambda>b. b < 256) sec"
  shows "parseApiKey (gk_plaintext (generateApiKey hash e pub sec)) =
    Some \<lparr>pk_keyPrefix = gk_keyPrefix (generateApiKey hash e pub sec), pk_secret = base64url sec, pk_livemode = (e = Live)\<rparr>"
proof -
  let ?h = "''pk_'' @ environment_name e @ ''_''" and ?p = "base64url pub" and ?s = "base64url sec"
  have len: "length ?p = 12" "length ?s = 43" using assms(1,2) base64url_sizes by (simp_all add: PUBLIC_ID_BYTES_def SECRET_BYTES_def)
  have chars: "set ?p \<subseteq> set BASE64URL" "set ?s \<subseteq> set BASE64URL" using base64url_chars assms(3,4) by blast+
  have "set (?h @ ?p) \<subseteq> set BASE64URL" using environment_prefix(1) chars(1) by auto
  moreover have "?h @ ?p \<noteq> []" "?s \<noteq> []" using len by auto
  ultimately have split: "split_on (CHR ''.'') (js_trim ((?h @ ?p) @ ''.'' @ ?s)) = [?h @ ?p, ?s]"
    using parse_two_parts chars(2) by blast
  have "prefix_environment (?h @ ?p) = Some e"
    unfolding prefix_environment_def environment_prefix key_chars_def using len(1) chars(1) by (cases e) simp_all
  moreover have "key_chars 32 128 ?s" using len(2) chars(2) by (simp add: key_chars_def)
  ultimately show ?thesis using split unfolding parseApiKey_def generateApiKey_def Let_def by (simp add: split)
qed

text \<open>An API key that is generated is read back when it is presented: its prefix, which identifies the row, its secret
  and its mode, with any white space around it; and only a prefix and a secret of the right form, joined by one
  point, are recognised at all.\<close>

lemma api_key_roundtrip:
  assumes "length pub = PUBLIC_ID_BYTES" "length sec = SECRET_BYTES" "list_all (\<lambda>b. b < 256) pub" "list_all (\<lambda>b. b < 256) sec"
  shows "parseApiKey (gk_plaintext (generateApiKey hash e pub sec)) =
      Some \<lparr>pk_keyPrefix = gk_keyPrefix (generateApiKey hash e pub sec), pk_secret = base64url sec, pk_livemode = (e = Live)\<rparr> \<and>
    gk_secretHash (generateApiKey hash e pub sec) = hash (base64url sec) \<and> base64url_decode (base64url sec) = sec \<and>
    (parseApiKey presented = Some k \<longrightarrow> js_trim presented = pk_keyPrefix k @ ''.'' @ pk_secret k \<and>
       prefix_environment (pk_keyPrefix k) = Some (if pk_livemode k then Live else Test) \<and> key_chars 32 128 (pk_secret k))"
proof (intro conjI impI)
  { assume "parseApiKey presented = Some k"
    then obtain e where k: "split_on (CHR ''.'') (js_trim presented) = [pk_keyPrefix k, pk_secret k]" "prefix_environment (pk_keyPrefix k) = Some e"
      "pk_livemode k = (e = Live)" "key_chars 32 128 (pk_secret k)"
      by (auto simp: parseApiKey_def split: list.splits option.splits if_splits)
    show "js_trim presented = pk_keyPrefix k @ ''.'' @ pk_secret k" using join_split [of "CHR ''.''" "js_trim presented"] unfolding k(1) by simp
    show "prefix_environment (pk_keyPrefix k) = Some (if pk_livemode k then Live else Test)" using k(2,3) by (cases e) simp_all
    show "key_chars 32 128 (pk_secret k)" by (rule k(4)) }
qed (simp_all add: generated_key_parses [OF assms] base64url_roundtrip [OF assms(4)], simp add: generateApiKey_def Let_def)

section \<open>Secrets are recovered\<close>


definition sample_seal :: "nat list \<Rightarrow> nat list \<Rightarrow> nat list \<Rightarrow> nat list \<Rightarrow> nat list \<times> nat list" where
  "sample_seal key iv aad m = (m, replicate 16 0)"

definition sample_unseal :: "nat list \<Rightarrow> nat list \<Rightarrow> nat list \<Rightarrow> nat list \<times> nat list \<Rightarrow> nat list option" where
  "sample_unseal key iv aad c = (if snd c = replicate 16 0 then Some (fst c) else None)"

definition sample_provider :: "string \<Rightarrow> key_provider" where
  "sample_provider i = \<lparr>kp_activeKeyId = i, kp_keys = [(i, replicate 32 7)]\<rparr>"

lemma sample_sealed: "encryptSecret sample_seal (sample_provider ''k1'') (replicate 12 5) ''s'' = Inr ''v1.k1.BQUFBQUFBQUFBQUF.AAAAAAAAAAAAAAAAAAAAAA.cw''"
  by code_simp


text \<open>An identifier with a point, which the provider accepts, makes every secret that is encrypted unreadable.\<close>

lemma dotted_key_id_loses_secrets:
  "bind_result (encryptSecret sample_seal (sample_provider ''prod.2026'') (replicate 12 5) ''s'') (decryptSecret sample_unseal (sample_provider ''prod.2026'')) =
     Inl ''malformed ciphertext''"
  by code_simp

section \<open>Session tokens are accepted until they expire\<close>

lemma map_of_replace:
  "map_of (map (\<lambda>(a, b). if a = k then (a, v) else (a, b)) fs) k' = (if k' = k then map_option (\<lambda>_. v) (map_of fs k) else map_of fs k')"
  by (induction fs) (auto simp: case_prod_beta split: if_splits)

lemma put_field_get [simp]: "map_of (put_field k v fs) k' = (if k' = k then Some v else map_of fs k')"
proof (cases "map_of fs k")
  case None
  then have "k \<notin> fst ` set fs" by (simp add: map_of_eq_None_iff)
  with None show ?thesis by (simp add: put_field_def map_add_def split: option.split)
next
  case (Some w)
  then have "k \<in> fst ` set fs" by (metis domI dom_map_of_conv_image_fst)
  with Some show ?thesis by (simp add: put_field_def map_of_replace)
qed

lemma base64url_nonempty: "bs \<noteq> [] \<Longrightarrow> base64url bs \<noteq> []"
  by (cases bs rule: base64url.cases) auto

lemma base64url_text:
  assumes "s \<noteq> []"
  shows "base64url (utf8_bytes s) \<noteq> []" "CHR ''.'' \<notin> set (base64url (utf8_bytes s))" "utf8_string (base64url_decode (base64url (utf8_bytes s))) = Some s"
proof -
  have "utf8_bytes s \<noteq> []" using assms by (cases s) (simp_all add: utf8_bytes_def utf8_char_def Let_def)
  then show "base64url (utf8_bytes s) \<noteq> []" by (rule base64url_nonempty)
  show "CHR ''.'' \<notin> set (base64url (utf8_bytes s))" by (rule BASE64URL_no_dot [OF base64url_chars [OF utf8_bytes_small]])
  show "utf8_string (base64url_decode (base64url (utf8_bytes s))) = Some s" by (simp add: base64url_roundtrip [OF utf8_bytes_small] utf8_roundtrip)
qed

text \<open>A session token is accepted by whoever shares its secret, issuer and audience, with the claims it was signed with,
  exactly until it expires; and a token that is accepted carries the signature of its own header and payload, an
  expiry that has not passed, and that issuer and audience. \<open>parse\<close> reads back what \<open>JSON.stringify\<close> made of the
  payload, and a digest is not empty and has no point.\<close>

lemma session_token_roundtrip:
  assumes digest: "\<And>s i. hmac s i \<noteq> [] \<and> CHR ''.'' \<notin> set (hmac s i)"
    and json: "parse (json_stringify (JObj (token_payload claims options (signedAt div 1000)))) = Some (JObj (token_payload claims options (signedAt div 1000)))"
    and size: "length (signJwt hmac claims secret options signedAt) \<le> 8192"
  shows "verifyJwt hmac parse (signJwt hmac claims secret options signedAt) secret (so_issuer options) (so_audience options) now =
      (if now div 1000 < signedAt div 1000 + so_expiresInSeconds options
       then Inr (JObj (token_payload claims options (signedAt div 1000))) else Inl ''token expired'') \<and>
    (verifyJwt hmac parse token secret issuer audience now = Inr c \<longrightarrow>
      (\<exists>h p e. token = h @ ''.'' @ p @ ''.'' @ hmac secret (h @ ''.'' @ p) \<and> json_field c ''exp'' = Some (JNum e) \<and> now div 1000 < e \<and>
        json_field c ''iss'' = Some (JStr issuer) \<and> json_field c ''aud'' = Some (JStr audience)))"
proof (intro conjI impI)
  let ?p = "JObj (token_payload claims options (signedAt div 1000))"
  let ?h = "base64url (utf8_bytes (json_stringify HEADER))" and ?b = "base64url (utf8_bytes (json_stringify ?p))"
  have ne: "json_stringify HEADER \<noteq> []" "json_stringify ?p \<noteq> []" by (simp_all add: HEADER_def)
  note h = base64url_text [OF ne(1)] and b = base64url_text [OF ne(2)]
  let ?s = "hmac secret (signingInput ?h ?b)"
  have t: "signJwt hmac claims secret options signedAt = ?h @ CHR ''.'' # ?b @ CHR ''.'' # ?s" by (simp add: signJwt_def Let_def)
  have split: "split_on (CHR ''.'') (signJwt hmac claims secret options signedAt) = [?h, ?b, ?s]"
    unfolding t using split_on_append [OF h(2)] split_on_append [OF b(2)] split_on_none digest by simp
  have "signJwt hmac claims secret options signedAt \<noteq> []" unfolding t by simp
  then have "verifyJwt hmac parse (signJwt hmac claims secret options signedAt) secret (so_issuer options) (so_audience options) now =
      check_claims ?p (so_issuer options) (so_audience options) (now div 1000)"
    unfolding verifyJwt_def split using size h(1) b(1,3) digest json by simp
  then show "verifyJwt hmac parse (signJwt hmac claims secret options signedAt) secret (so_issuer options) (so_audience options) now =
      (if now div 1000 < signedAt div 1000 + so_expiresInSeconds options then Inr ?p else Inl ''token expired'')"
    by (simp add: check_claims_def json_field_def token_payload_def)
next
  assume v: "verifyJwt hmac parse token secret issuer audience now = Inr c"
  then obtain h p s d where split: "split_on (CHR ''.'') token = [h, p, s]" and s: "s = hmac secret (signingInput h p)"
    and c: "check_claims d issuer audience (now div 1000) = Inr c"
    by (auto simp: verifyJwt_def split: if_splits list.splits option.splits)
  have "token = h @ ''.'' @ p @ ''.'' @ hmac secret (h @ ''.'' @ p)"
    using join_split [of "CHR ''.''" token] unfolding split s signingInput_def by simp
  moreover have "d = c" "\<exists>e. json_field c ''exp'' = Some (JNum e) \<and> now div 1000 < e"
    "json_field c ''iss'' = Some (JStr issuer)" "json_field c ''aud'' = Some (JStr audience)"
    using c by (auto simp: check_claims_def split: if_splits option.splits json.splits)
  ultimately show "\<exists>h p e. token = h @ ''.'' @ p @ ''.'' @ hmac secret (h @ ''.'' @ p) \<and> json_field c ''exp'' = Some (JNum e) \<and> now div 1000 < e \<and>
      json_field c ''iss'' = Some (JStr issuer) \<and> json_field c ''aud'' = Some (JStr audience)" by blast
qed

definition sample_sign_options :: sign_options where
  "sample_sign_options = \<lparr>so_expiresInSeconds = 900, so_issuer = ''gw'', so_audience = ''web''\<rparr>"

definition sample_claims :: "(string \<times> json) list" where
  "sample_claims = [(''sub'', JStr ''u'')]"

section \<open>Nothing under a sensitive name is kept\<close>

fun hidden :: "json \<Rightarrow> bool" where
  "hidden (JObj fs) \<longleftrightarrow> list_all (\<lambda>(k, v). (isSensitiveKey k \<longrightarrow> v = JStr REDACTED) \<and> hidden v) fs"
| "hidden (JArr xs) \<longleftrightarrow> list_all hidden xs"
| "hidden _ \<longleftrightarrow> True"

lemma walk_hidden: "hidden (redact_walk rs extra m d v)"
proof (induction rs extra m d v rule: redact_walk.induct)
  case (1 rs extra m d v)
  show ?case
  proof (cases "d > m")
    case True then show ?thesis by (simp add: redact_walk.simps)
  next
    case False
    with 1 show ?thesis by (cases v) (auto simp: redact_walk.simps [of rs extra m d] list_all_iff)
  qed
qed

text \<open>What is redacted keeps nothing under a sensitive name, at any depth: every field of the result whose name
  contains one of the sensitive words, in any case, has the placeholder as its value; the names of the fields and their
  order are kept.\<close>

lemma redaction_hides_sensitive_fields:
  "hidden (redact rs depth extra v) \<and>
   (\<exists>fs'. redact rs depth extra (JObj fs) = JObj fs' \<and> map fst fs' = map fst fs)"
proof
  show "hidden (redact rs depth extra v)" unfolding redact_def by (rule walk_hidden)
  show "\<exists>fs'. redact rs depth extra (JObj fs) = JObj fs' \<and> map fst fs' = map fst fs"
    by (simp add: redact_def redact_walk.simps [of _ _ _ 0] comp_def case_prod_beta)
qed

end
