(* ===== verification/Accounts.thy ===== *)
theory Accounts
  imports Invoices Secrets
begin

text \<open>
  Who may do what (\<open>apps/api/src/auth\<close>, \<open>merchant/api-keys.service.ts\<close>, \<open>merchant/members.service.ts\<close>,
  \<open>common/audit-log.service.ts\<close>): sessions with their rotation and lockout, API keys, membership of merchants, the
  permissions of roles and the guards in front of the routes. The state is the tables these parts use; a call outside
  a transaction commits at once, and the parts of an operation that others can run between are definitions of their own.
  Argon2, SHA-256, HMAC, \<open>JSON.parse\<close> and the random bytes are parameters.
\<close>

section \<open>State\<close>

datatype user_status = UserActive | UserSuspended | UserDisabled
datatype platform_role = RoleUser | RoleSupport | RoleComplianceOfficer | RoleAdmin
datatype merchant_role = Owner | Admin | Developer | Viewer
datatype merchant_status = MerchantPending | MerchantActive | MerchantSuspended | MerchantClosed
datatype api_key_status = KeyActive | KeyRotating | KeyRevoked | KeyExpired

fun platform_role_name :: "platform_role \<Rightarrow> string" where
  "platform_role_name RoleUser = ''USER''"
| "platform_role_name RoleSupport = ''SUPPORT''"
| "platform_role_name RoleComplianceOfficer = ''COMPLIANCE_OFFICER''"
| "platform_role_name RoleAdmin = ''ADMIN''"

fun merchant_role_name :: "merchant_role \<Rightarrow> string" where
  "merchant_role_name Owner = ''OWNER''"
| "merchant_role_name Admin = ''ADMIN''"
| "merchant_role_name Developer = ''DEVELOPER''"
| "merchant_role_name Viewer = ''VIEWER''"

fun merchant_status_name :: "merchant_status \<Rightarrow> string" where
  "merchant_status_name MerchantPending = ''PENDING_VERIFICATION''"
| "merchant_status_name MerchantActive = ''ACTIVE''"
| "merchant_status_name MerchantSuspended = ''SUSPENDED''"
| "merchant_status_name MerchantClosed = ''CLOSED''"

fun key_status_name :: "api_key_status \<Rightarrow> string" where
  "key_status_name KeyActive = ''ACTIVE''"
| "key_status_name KeyRotating = ''ROTATING''"
| "key_status_name KeyRevoked = ''REVOKED''"
| "key_status_name KeyExpired = ''EXPIRED''"

record user =
  us_id :: string
  us_email :: string
  us_passwordHash :: string
  us_fullName :: "string option"
  us_platformRole :: platform_role
  us_status :: user_status
  us_failedLoginCount :: int
  us_lockedUntil :: "int option"
  us_lastLoginAt :: "int option"

record session =
  se_id :: string
  se_userId :: string
  se_tokenHash :: string
  se_ipAddress :: string
  se_userAgent :: "string option"
  se_expiresAt :: int
  se_revokedAt :: "int option"

record api_key =
  ak_id :: string
  ak_merchantId :: string
  ak_name :: string
  ak_keyPrefix :: string
  ak_secretHash :: string
  ak_livemode :: bool
  ak_scopes :: "string list"
  ak_ipAllowlist :: "string list"
  ak_status :: api_key_status
  ak_graceExpiresAt :: "int option"
  ak_lastUsedAt :: "int option"
  ak_lastUsedIp :: "string option"
  ak_expiresAt :: "int option"
  ak_revokedAt :: "int option"
  ak_revokedBy :: "string option"
  ak_createdAt :: int

record merchant_member =
  mm_id :: string
  mm_merchantId :: string
  mm_userId :: string
  mm_role :: merchant_role
  mm_createdAt :: int

record merchant_account =
  ma_id :: string
  ma_name :: string
  ma_slug :: string
  ma_status :: merchant_status
  ma_countryCode :: "string option"
  ma_walletMode :: string
  ma_kybStatus :: string
  ma_feeBps :: int
  ma_createdAt :: int

record audit_meta =
  am_ip :: string
  am_userAgent :: "string option"

record audit_entry =
  ae_actorUserId :: "string option"
  ae_action :: string
  ae_resourceType :: string
  ae_resourceId :: "string option"
  ae_merchantId :: "string option"
  ae_before :: "(string \<times> json) list option"
  ae_after :: "(string \<times> json) list option"
  ae_metadata :: "(string \<times> json) list option"
  ae_meta :: "audit_meta option"

record audit_log =
  al_id :: string
  al_actorType :: string
  al_actorId :: "string option"
  al_userId :: "string option"
  al_merchantId :: "string option"
  al_action :: string
  al_resourceType :: string
  al_resourceId :: "string option"
  al_ipAddress :: "string option"
  al_userAgent :: "string option"
  al_before :: json
  al_after :: json
  al_metadata :: json

record accounts =
  acc_users :: "user list"
  acc_sessions :: "session list"
  acc_keys :: "api_key list"
  acc_members :: "merchant_member list"
  acc_merchants :: "merchant_account list"
  acc_audit :: "audit_log list"
  acc_ulids :: nat

type_synonym 'a acc_op = "(accounts, failure, 'a) op"
type_synonym 'a acc_proc = "(accounts, failure, 'a) proc"

definition account_id :: "(nat \<Rightarrow> string) \<Rightarrow> id_kind \<Rightarrow> string acc_op" where
  "account_id gen kind = (\<lambda>s. Inr (newId (gen (acc_ulids s)) kind, s\<lparr>acc_ulids := Suc (acc_ulids s)\<rparr>))"

section \<open>Audit log\<close>

definition audit_record :: "(nat \<Rightarrow> string) \<Rightarrow> (string \<Rightarrow> string) \<Rightarrow> audit_entry \<Rightarrow> unit acc_op" where
  "audit_record gen redactString entry =
     bind_op (account_id gen AuditLogId) (\<lambda>i.
     modify (\<lambda>s. s\<lparr>acc_audit := acc_audit s @ [\<lparr>al_id = i,
       al_actorType = (if truthy (ae_actorUserId entry) then ''user'' else ''system''),
       al_actorId = ae_actorUserId entry, al_userId = ae_actorUserId entry, al_merchantId = ae_merchantId entry,
       al_action = ae_action entry, al_resourceType = ae_resourceType entry, al_resourceId = ae_resourceId entry,
       al_ipAddress = map_option am_ip (ae_meta entry),
       al_userAgent = (case ae_meta entry of None \<Rightarrow> None | Some m \<Rightarrow> am_userAgent m),
       al_before = (case ae_before entry of None \<Rightarrow> JNull | Some b \<Rightarrow> redact redactString None [] (JObj b)),
       al_after = (case ae_after entry of None \<Rightarrow> JNull | Some a \<Rightarrow> redact redactString None [] (JObj a)),
       al_metadata = JObj (case ae_metadata entry of None \<Rightarrow> [] | Some m \<Rightarrow> m)\<rparr>]\<rparr>))"

section \<open>Sessions\<close>

definition MAX_FAILED_LOGIN_ATTEMPTS :: int where "MAX_FAILED_LOGIN_ATTEMPTS = 5"
definition LOCKOUT_DURATION_MS :: int where "LOCKOUT_DURATION_MS = 15 * 60 * 1000"

text \<open>What the service uses of the configuration and of the libraries.\<close>

record auth_env =
  au_verify :: "string \<Rightarrow> string \<Rightarrow> bool option"
  au_sha256Hex :: "string \<Rightarrow> string"
  au_hmac :: "string \<Rightarrow> string \<Rightarrow> string"
  au_accessSecret :: string
  au_accessTtlSeconds :: int
  au_refreshTtlSeconds :: int
  au_issuer :: string
  au_audience :: string

record auth_tokens =
  at_accessToken :: string
  at_refreshToken :: string

record public_user =
  pu_id :: string
  pu_email :: string
  pu_full_name :: "string option"
  pu_platform_role :: string

definition invalidCredentials :: failure where
  "invalidCredentials = RequestError (UnauthenticatedError ''invalid email or password'' INVALID_CREDENTIALS)"

definition invalidSession :: failure where
  "invalidSession = RequestError (UnauthenticatedError ''invalid or expired session'' INVALID_CREDENTIALS)"

definition toPublicUser :: "user \<Rightarrow> public_user" where
  "toPublicUser u = \<lparr>pu_id = us_id u, pu_email = us_email u, pu_full_name = us_fullName u, pu_platform_role = platform_role_name (us_platformRole u)\<rparr>"

definition signAccessToken :: "auth_env \<Rightarrow> int \<Rightarrow> string \<Rightarrow> string \<Rightarrow> string \<Rightarrow> string" where
  "signAccessToken env now userId email platformRole =
     signJwt (au_hmac env) [(''sub'', JStr userId), (''email'', JStr email), (''platform_role'', JStr platformRole)] (au_accessSecret env)
       \<lparr>so_expiresInSeconds = au_accessTtlSeconds env, so_issuer = au_issuer env, so_audience = au_audience env\<rparr> now"

definition verifyPassword :: "(string \<Rightarrow> string \<Rightarrow> bool option) \<Rightarrow> string \<Rightarrow> string \<Rightarrow> bool" where
  "verifyPassword verify plaintext encodedHash \<longleftrightarrow> plaintext \<noteq> [] \<and> encodedHash \<noteq> [] \<and> verify encodedHash plaintext = Some True"

definition find_user :: "string \<Rightarrow> accounts \<Rightarrow> user option" where
  "find_user i s = find (\<lambda>u. us_id u = i) (acc_users s)"

definition update_user :: "string \<Rightarrow> (user \<Rightarrow> user) \<Rightarrow> unit acc_op" where
  "update_user i f = bind_op (find_or_throw (RecordNotFound ''user'' i) (find_user i)) (\<lambda>_.
     modify (\<lambda>s. s\<lparr>acc_users := update_rows (\<lambda>u. us_id u = i) f (acc_users s)\<rparr>))"

text \<open>The hash of a session's token is unique.\<close>

definition create_session :: "session \<Rightarrow> unit acc_op" where
  "create_session x = (\<lambda>s. if list_ex (\<lambda>y. se_tokenHash y = se_tokenHash x) (acc_sessions s) then Inl (UniqueViolation ''sessions_token_hash_key'')
     else Inr ((), s\<lparr>acc_sessions := acc_sessions s @ [x]\<rparr>))"

definition new_session :: "auth_env \<Rightarrow> int \<Rightarrow> string \<Rightarrow> string \<Rightarrow> audit_meta \<Rightarrow> string \<Rightarrow> session" where
  "new_session env now userId tokenHash meta i =
     \<lparr>se_id = i, se_userId = userId, se_tokenHash = tokenHash, se_ipAddress = am_ip meta, se_userAgent = am_userAgent meta,
      se_expiresAt = now + au_refreshTtlSeconds env * 1000, se_revokedAt = None\<rparr>"

definition count_failure :: "int \<Rightarrow> user \<Rightarrow> unit acc_op" where
  "count_failure now user =
     (let failedCount = us_failedLoginCount user + 1; locking = failedCount \<ge> MAX_FAILED_LOGIN_ATTEMPTS in
      update_user (us_id user) (\<lambda>u. u\<lparr>us_failedLoginCount := (if locking then 0 else failedCount),
        us_lockedUntil := (if locking then Some (now + LOCKOUT_DURATION_MS) else None)\<rparr>))"

definition login :: "(nat \<Rightarrow> string) \<Rightarrow> auth_env \<Rightarrow> int \<Rightarrow> nat list \<Rightarrow> string \<Rightarrow> string \<Rightarrow> audit_meta \<Rightarrow> (auth_tokens \<times> public_user) acc_proc" where
  "login gen env now tokenBytes email password meta =
     pbind (preads (\<lambda>s. find (\<lambda>u. us_email u = js_trim (toLowerCase email)) (acc_users s))) (\<lambda>found.
     case found of None \<Rightarrow> pthrow invalidCredentials
     | Some user \<Rightarrow>
         if us_status user \<noteq> UserActive then pthrow invalidCredentials
         else if (case us_lockedUntil user of None \<Rightarrow> False | Some t \<Rightarrow> t > now) then pthrow invalidCredentials
         else if \<not> verifyPassword (au_verify env) password (us_passwordHash user)
         then pbind (atomically (count_failure now user)) (\<lambda>_. pthrow invalidCredentials)
         else
           let (refreshToken, tokenHash) = generateOpaqueToken (au_sha256Hex env) tokenBytes in
           pbind (atomically (
             seq_op (update_user (us_id user) (\<lambda>u. u\<lparr>us_failedLoginCount := 0, us_lockedUntil := None, us_lastLoginAt := Some now\<rparr>))
             (bind_op (account_id gen SessionId) (\<lambda>i. create_session (new_session env now (us_id user) tokenHash meta i))))) (\<lambda>_.
           pret (\<lparr>at_accessToken = signAccessToken env now (us_id user) (us_email user) (platform_role_name (us_platformRole user)),
             at_refreshToken = refreshToken\<rparr>, toPublicUser user)))"

text \<open>\<open>refresh\<close>: what it reads first, and its transaction.\<close>

definition refresh_read :: "auth_env \<Rightarrow> int \<Rightarrow> string \<Rightarrow> (session \<times> user) acc_proc" where
  "refresh_read env now presented =
     pbind (preads (\<lambda>s. find (\<lambda>x. se_tokenHash x = au_sha256Hex env presented) (acc_sessions s))) (\<lambda>found.
     case found of None \<Rightarrow> pthrow invalidSession
     | Some session \<Rightarrow>
         if se_revokedAt session \<noteq> None \<or> se_expiresAt session \<le> now then pthrow invalidSession
         else pbind (preads (find_user (se_userId session))) (\<lambda>user.
           case user of None \<Rightarrow> pthrow invalidSession
           | Some u \<Rightarrow> if us_status u \<noteq> UserActive then pthrow invalidSession else pret (session, u)))"

definition update_session :: "string \<Rightarrow> (session \<Rightarrow> session) \<Rightarrow> unit acc_op" where
  "update_session i f = bind_op (find_or_throw (RecordNotFound ''session'' i) (\<lambda>s. find (\<lambda>x. se_id x = i) (acc_sessions s))) (\<lambda>_.
     modify (\<lambda>s. s\<lparr>acc_sessions := update_rows (\<lambda>x. se_id x = i) f (acc_sessions s)\<rparr>))"

definition refresh_write :: "(nat \<Rightarrow> string) \<Rightarrow> auth_env \<Rightarrow> int \<Rightarrow> nat list \<Rightarrow> audit_meta \<Rightarrow> session \<times> user \<Rightarrow> auth_tokens acc_proc" where
  "refresh_write gen env now tokenBytes meta = (\<lambda>(session, u).
     let (newRefreshToken, newTokenHash) = generateOpaqueToken (au_sha256Hex env) tokenBytes in
     pbind (atomically (
       seq_op (update_session (se_id session) (\<lambda>x. x\<lparr>se_revokedAt := Some now\<rparr>))
       (bind_op (account_id gen SessionId) (\<lambda>i. create_session (new_session env now (us_id u) newTokenHash meta i))))) (\<lambda>_.
     pret \<lparr>at_accessToken = signAccessToken env now (us_id u) (us_email u) (platform_role_name (us_platformRole u)),
       at_refreshToken = newRefreshToken\<rparr>))"

definition refresh :: "(nat \<Rightarrow> string) \<Rightarrow> auth_env \<Rightarrow> int \<Rightarrow> nat list \<Rightarrow> string \<Rightarrow> audit_meta \<Rightarrow> auth_tokens acc_proc" where
  "refresh gen env now tokenBytes presented meta = pbind (refresh_read env now presented) (refresh_write gen env now tokenBytes meta)"

definition logout :: "auth_env \<Rightarrow> int \<Rightarrow> string option \<Rightarrow> unit acc_proc" where
  "logout env now presented =
     (if \<not> truthy presented then pret ()
      else pmodify (\<lambda>s. s\<lparr>acc_sessions := update_rows (\<lambda>x. se_tokenHash x = au_sha256Hex env (the presented) \<and> se_revokedAt x = None)
        (\<lambda>x. x\<lparr>se_revokedAt := Some now\<rparr>) (acc_sessions s)\<rparr>))"

record membership_view =
  mv_merchant_id :: string
  mv_merchant_name :: string
  mv_merchant_slug :: string
  mv_merchant_status :: string
  mv_role :: string

definition me :: "string \<Rightarrow> (public_user \<times> membership_view list) acc_proc" where
  "me userId =
     pbind (atomically (find_or_throw (RecordNotFound ''user'' userId) (find_user userId))) (\<lambda>u.
     preads (\<lambda>s. (toPublicUser u, List.map_filter (\<lambda>m. map_option (\<lambda>a. \<lparr>mv_merchant_id = ma_id a, mv_merchant_name = ma_name a, mv_merchant_slug = ma_slug a,
       mv_merchant_status = merchant_status_name (ma_status a), mv_role = merchant_role_name (mm_role m)\<rparr>)
       (find (\<lambda>a. ma_id a = mm_merchantId m) (acc_merchants s))) (filter (\<lambda>m. mm_userId m = userId) (acc_members s)))))"

section \<open>API keys\<close>

definition ALL_API_KEY_SCOPES :: "string list" where
  "ALL_API_KEY_SCOPES = [''invoices:read'', ''invoices:write'', ''addresses:read'', ''addresses:write'', ''transactions:read'', ''balance:read'',
     ''webhooks:write'']"

record create_key_dto =
  ck_name :: string
  ck_livemode :: "bool option"
  ck_scopes :: "string list option"

record api_key_response =
  kr_id :: string
  kr_name :: string
  kr_key_prefix :: string
  kr_livemode :: bool
  kr_scopes :: "string list"
  kr_status :: string
  kr_last_used_at :: "int option"
  kr_created_at :: int

definition key_toResponse :: "api_key \<Rightarrow> api_key_response" where
  "key_toResponse row = \<lparr>kr_id = ak_id row, kr_name = ak_name row, kr_key_prefix = ak_keyPrefix row, kr_livemode = ak_livemode row,
     kr_scopes = ak_scopes row, kr_status = key_status_name (ak_status row), kr_last_used_at = ak_lastUsedAt row, kr_created_at = ak_createdAt row\<rparr>"

definition keys_list :: "string \<Rightarrow> accounts \<Rightarrow> api_key_response list" where
  "keys_list merchantId s = map key_toResponse (rev (sort_key ak_createdAt (filter (\<lambda>k. ak_merchantId k = merchantId) (acc_keys s))))"

text \<open>The prefix of a key is unique.\<close>

definition create_key_row :: "api_key \<Rightarrow> api_key acc_op" where
  "create_key_row k = (\<lambda>s. if list_ex (\<lambda>x. ak_keyPrefix x = ak_keyPrefix k) (acc_keys s) then Inl (UniqueViolation ''api_keys_key_prefix_key'')
     else Inr (k, s\<lparr>acc_keys := acc_keys s @ [k]\<rparr>))"

definition user_entry :: "string \<Rightarrow> string \<Rightarrow> string \<Rightarrow> string \<Rightarrow> string \<Rightarrow> (string \<times> json) list option \<Rightarrow> (string \<times> json) list option \<Rightarrow> audit_meta \<Rightarrow> audit_entry" where
  "user_entry userId action resourceType resourceId merchantId before after meta =
     \<lparr>ae_actorUserId = Some userId, ae_action = action, ae_resourceType = resourceType, ae_resourceId = Some resourceId,
      ae_merchantId = Some merchantId, ae_before = before, ae_after = after, ae_metadata = None, ae_meta = Some meta\<rparr>"

definition keys_create :: "(nat \<Rightarrow> string) \<Rightarrow> (string \<Rightarrow> string) \<Rightarrow> (string \<Rightarrow> string) \<Rightarrow> int \<Rightarrow> nat list \<Rightarrow> nat list \<Rightarrow> string \<Rightarrow> string \<Rightarrow>
  create_key_dto \<Rightarrow> audit_meta \<Rightarrow> (api_key_response \<times> string) acc_proc" where
  "keys_create gen redactString hash now publicBytes secretBytes merchantId userId dto meta =
     (let generated = generateApiKey hash (if ck_livemode dto = Some True then Live else Test) publicBytes secretBytes in
      pbind (atomically (
        bind_op (account_id gen ApiKeyId) (\<lambda>i.
        bind_op (create_key_row \<lparr>ak_id = i, ak_merchantId = merchantId, ak_name = ck_name dto, ak_keyPrefix = gk_keyPrefix generated,
          ak_secretHash = gk_secretHash generated, ak_livemode = gk_livemode generated,
          ak_scopes = (case ck_scopes dto of None \<Rightarrow> ALL_API_KEY_SCOPES | Some sc \<Rightarrow> sc), ak_ipAllowlist = [], ak_status = KeyActive,
          ak_graceExpiresAt = None, ak_lastUsedAt = None, ak_lastUsedIp = None, ak_expiresAt = None, ak_revokedAt = None, ak_revokedBy = None,
          ak_createdAt = now\<rparr>) (\<lambda>row.
        seq_op (audit_record gen redactString (user_entry userId ''api_key.created'' ''api_key'' (ak_id row) merchantId None
          (Some [(''name'', JStr (ak_name row)), (''key_prefix'', JStr (ak_keyPrefix row)), (''livemode'', JBool (ak_livemode row)),
            (''scopes'', JArr (map JStr (ak_scopes row)))]) meta))
        (ret row))))) (\<lambda>created.
      pret (key_toResponse created, gk_plaintext generated)))"

definition find_key_row :: "string \<Rightarrow> accounts \<Rightarrow> api_key option" where
  "find_key_row i s = find (\<lambda>k. ak_id k = i) (acc_keys s)"

definition update_key :: "string \<Rightarrow> (api_key \<Rightarrow> api_key) \<Rightarrow> unit acc_op" where
  "update_key i f = bind_op (find_or_throw (RecordNotFound ''apiKey'' i) (find_key_row i)) (\<lambda>_.
     modify (\<lambda>s. s\<lparr>acc_keys := update_rows (\<lambda>k. ak_id k = i) f (acc_keys s)\<rparr>))"

definition keys_revoke :: "(nat \<Rightarrow> string) \<Rightarrow> (string \<Rightarrow> string) \<Rightarrow> int \<Rightarrow> string \<Rightarrow> string \<Rightarrow> string \<Rightarrow> audit_meta \<Rightarrow> api_key_response acc_proc" where
  "keys_revoke gen redactString now merchantId userId apiKeyId meta =
     pbind (preads (\<lambda>s. find (\<lambda>k. ak_id k = apiKeyId \<and> ak_merchantId k = merchantId) (acc_keys s))) (\<lambda>found.
     case found of None \<Rightarrow> pthrow (RequestError (NotFoundError ''api key'' (Some apiKeyId)))
     | Some existing \<Rightarrow>
         pbind (atomically (
           seq_op (update_key apiKeyId (\<lambda>k. k\<lparr>ak_status := KeyRevoked, ak_revokedAt := Some now, ak_revokedBy := Some userId\<rparr>))
           (seq_op (audit_record gen redactString (user_entry userId ''api_key.revoked'' ''api_key'' apiKeyId merchantId
             (Some [(''status'', JStr (key_status_name (ak_status existing)))]) (Some [(''status'', JStr ''REVOKED'')]) meta))
           (find_or_throw (RecordNotFound ''apiKey'' apiKeyId) (find_key_row apiKeyId))))) (\<lambda>row.
         pret (key_toResponse row)))"

section \<open>Members of a merchant\<close>

record member_response =
  mb_id :: string
  mb_user_id :: string
  mb_email :: string
  mb_full_name :: "string option"
  mb_role :: string
  mb_created_at :: int

definition toMemberResponse :: "merchant_member \<Rightarrow> user \<Rightarrow> member_response" where
  "toMemberResponse row user = \<lparr>mb_id = mm_id row, mb_user_id = mm_userId row, mb_email = us_email user, mb_full_name = us_fullName user,
     mb_role = merchant_role_name (mm_role row), mb_created_at = mm_createdAt row\<rparr>"

text \<open>\<open>INCLUDE_USER\<close>: the row of the member with its user, which the foreign key promises.\<close>

definition include_user :: "merchant_member \<Rightarrow> (merchant_member \<times> user) acc_op" where
  "include_user m = bind_op (find_or_throw (RecordNotFound ''user'' (mm_userId m)) (find_user (mm_userId m))) (\<lambda>u. ret (m, u))"

definition members_list :: "string \<Rightarrow> accounts \<Rightarrow> member_response list" where
  "members_list merchantId s = List.map_filter (\<lambda>m. map_option (toMemberResponse m) (find_user (mm_userId m) s))
     (sort_key mm_createdAt (filter (\<lambda>m. mm_merchantId m = merchantId) (acc_members s)))"

text \<open>The identifier is the primary key, and a user is a member of a merchant once.\<close>

definition create_member :: "merchant_member \<Rightarrow> merchant_member acc_op" where
  "create_member m = (\<lambda>s.
     if list_ex (\<lambda>x. mm_id x = mm_id m) (acc_members s) then Inl (UniqueViolation ''merchant_members_pkey'')
     else if list_ex (\<lambda>x. mm_merchantId x = mm_merchantId m \<and> mm_userId x = mm_userId m) (acc_members s)
     then Inl (UniqueViolation ''merchant_members_merchant_id_user_id_key'')
     else Inr (m, s\<lparr>acc_members := acc_members s @ [m]\<rparr>))"

definition members_add :: "(nat \<Rightarrow> string) \<Rightarrow> (string \<Rightarrow> string) \<Rightarrow> int \<Rightarrow> string \<Rightarrow> string \<Rightarrow> string \<Rightarrow> merchant_role \<Rightarrow> audit_meta \<Rightarrow> member_response acc_proc" where
  "members_add gen redactString now merchantId actorUserId email role meta =
     pbind (preads (\<lambda>s. find (\<lambda>u. us_email u = js_trim (toLowerCase email)) (acc_users s))) (\<lambda>found.
     case found of None \<Rightarrow> pthrow (RequestError (NotFoundError ''user with that email - they must already have an account'' None))
     | Some user \<Rightarrow>
         pbind (preads (\<lambda>s. find (\<lambda>m. mm_merchantId m = merchantId \<and> mm_userId m = us_id user) (acc_members s))) (\<lambda>existing.
         if existing \<noteq> None then pthrow (RequestError (ConflictError ''this user is already a member of this merchant'' CONFLICT None))
         else pbind (atomically (
           bind_op (account_id gen MerchantMemberId) (\<lambda>i.
           bind_op (create_member \<lparr>mm_id = i, mm_merchantId = merchantId, mm_userId = us_id user, mm_role = role, mm_createdAt = now\<rparr>) (\<lambda>row.
           seq_op (audit_record gen redactString (user_entry actorUserId ''merchant_member.added'' ''merchant_member'' (mm_id row) merchantId None
             (Some [(''user_id'', JStr (us_id user)), (''email'', JStr (us_email user)), (''role'', JStr (merchant_role_name role))]) meta))
           (include_user row))))) (\<lambda>(row, u). pret (toMemberResponse row u))))"

definition requireMember :: "string \<Rightarrow> string \<Rightarrow> merchant_member acc_proc" where
  "requireMember merchantId memberId =
     pbind (preads (\<lambda>s. find (\<lambda>m. mm_id m = memberId \<and> mm_merchantId m = merchantId) (acc_members s))) (\<lambda>found.
     case found of None \<Rightarrow> pthrow (RequestError (NotFoundError ''merchant member'' (Some memberId))) | Some m \<Rightarrow> pret m)"

definition assertNotLastOwner :: "string \<Rightarrow> string \<Rightarrow> unit acc_proc" where
  "assertNotLastOwner merchantId excludingMemberId =
     pbind (preads (\<lambda>s. length (filter (\<lambda>m. mm_merchantId m = merchantId \<and> mm_role m = Owner \<and> mm_id m \<noteq> excludingMemberId) (acc_members s)))) (\<lambda>remainingOwners.
     if remainingOwners = 0 then pthrow (RequestError (ConflictError ''cannot remove the last owner of a merchant'' CONFLICT None)) else pret ())"

definition find_member :: "string \<Rightarrow> accounts \<Rightarrow> merchant_member option" where
  "find_member i s = find (\<lambda>m. mm_id m = i) (acc_members s)"

text \<open>\<open>updateRole\<close> and \<open>remove\<close>: the checks, and the transaction.\<close>

definition role_check :: "string \<Rightarrow> string \<Rightarrow> merchant_role \<Rightarrow> merchant_member acc_proc" where
  "role_check merchantId memberId role =
     pbind (requireMember merchantId memberId) (\<lambda>existing.
     pbind (if mm_role existing = Owner \<and> role \<noteq> Owner then assertNotLastOwner merchantId memberId else pret ()) (\<lambda>_. pret existing))"

definition role_write :: "(nat \<Rightarrow> string) \<Rightarrow> (string \<Rightarrow> string) \<Rightarrow> string \<Rightarrow> string \<Rightarrow> string \<Rightarrow> merchant_role \<Rightarrow> audit_meta \<Rightarrow> merchant_member \<Rightarrow> member_response acc_proc" where
  "role_write gen redactString merchantId actorUserId memberId role meta existing =
     pbind (atomically (
       seq_op (bind_op (find_or_throw (RecordNotFound ''merchantMember'' memberId) (find_member memberId)) (\<lambda>_.
         modify (\<lambda>s. s\<lparr>acc_members := update_rows (\<lambda>m. mm_id m = memberId) (\<lambda>m. m\<lparr>mm_role := role\<rparr>) (acc_members s)\<rparr>)))
       (seq_op (audit_record gen redactString (user_entry actorUserId ''merchant_member.role_changed'' ''merchant_member'' memberId merchantId
         (Some [(''role'', JStr (merchant_role_name (mm_role existing)))]) (Some [(''role'', JStr (merchant_role_name role))]) meta))
       (bind_op (find_or_throw (RecordNotFound ''merchantMember'' memberId) (find_member memberId)) include_user)))) (\<lambda>(row, u). pret (toMemberResponse row u))"

definition members_updateRole :: "(nat \<Rightarrow> string) \<Rightarrow> (string \<Rightarrow> string) \<Rightarrow> string \<Rightarrow> string \<Rightarrow> string \<Rightarrow> merchant_role \<Rightarrow> audit_meta \<Rightarrow> member_response acc_proc" where
  "members_updateRole gen redactString merchantId actorUserId memberId role meta =
     pbind (role_check merchantId memberId role) (role_write gen redactString merchantId actorUserId memberId role meta)"

definition remove_check :: "string \<Rightarrow> string \<Rightarrow> merchant_member acc_proc" where
  "remove_check merchantId memberId =
     pbind (requireMember merchantId memberId) (\<lambda>existing.
     pbind (if mm_role existing = Owner then assertNotLastOwner merchantId memberId else pret ()) (\<lambda>_. pret existing))"

definition remove_write :: "(nat \<Rightarrow> string) \<Rightarrow> (string \<Rightarrow> string) \<Rightarrow> string \<Rightarrow> string \<Rightarrow> string \<Rightarrow> audit_meta \<Rightarrow> merchant_member \<Rightarrow> unit acc_proc" where
  "remove_write gen redactString merchantId actorUserId memberId meta existing =
     atomically (
       seq_op (bind_op (find_or_throw (RecordNotFound ''merchantMember'' memberId) (find_member memberId)) (\<lambda>_.
         modify (\<lambda>s. s\<lparr>acc_members := filter (\<lambda>m. mm_id m \<noteq> memberId) (acc_members s)\<rparr>)))
       (audit_record gen redactString (user_entry actorUserId ''merchant_member.removed'' ''merchant_member'' memberId merchantId
         (Some [(''user_id'', JStr (mm_userId existing)), (''role'', JStr (merchant_role_name (mm_role existing)))]) None meta)))"

definition members_remove :: "(nat \<Rightarrow> string) \<Rightarrow> (string \<Rightarrow> string) \<Rightarrow> string \<Rightarrow> string \<Rightarrow> string \<Rightarrow> audit_meta \<Rightarrow> unit acc_proc" where
  "members_remove gen redactString merchantId actorUserId memberId meta =
     pbind (remove_check merchantId memberId) (remove_write gen redactString merchantId actorUserId memberId meta)"

section \<open>Permissions\<close>

datatype platform_permission =
    MERCHANTS_READ | MERCHANTS_MANAGE | COMPLIANCE_READ | COMPLIANCE_REVIEW | RECONCILIATION_READ | RECONCILIATION_RESOLVE
  | REFUNDS_READ | REFUNDS_DECIDE | SETTLEMENTS_READ | AUDIT_LOGS_READ | SIGNING_READ | SIGNING_DECIDE

definition PlatformPermission :: "platform_permission list" where
  "PlatformPermission = [MERCHANTS_READ, MERCHANTS_MANAGE, COMPLIANCE_READ, COMPLIANCE_REVIEW, RECONCILIATION_READ, RECONCILIATION_RESOLVE,
     REFUNDS_READ, REFUNDS_DECIDE, SETTLEMENTS_READ, AUDIT_LOGS_READ, SIGNING_READ, SIGNING_DECIDE]"

definition READ_ONLY_PLATFORM_PERMISSIONS :: "platform_permission list" where
  "READ_ONLY_PLATFORM_PERMISSIONS = [MERCHANTS_READ, COMPLIANCE_READ, RECONCILIATION_READ, REFUNDS_READ, SETTLEMENTS_READ, SIGNING_READ]"

fun PLATFORM_ROLE_PERMISSIONS :: "platform_role \<Rightarrow> platform_permission list" where
  "PLATFORM_ROLE_PERMISSIONS RoleUser = []"
| "PLATFORM_ROLE_PERMISSIONS RoleSupport = READ_ONLY_PLATFORM_PERMISSIONS"
| "PLATFORM_ROLE_PERMISSIONS RoleComplianceOfficer = READ_ONLY_PLATFORM_PERMISSIONS @ [COMPLIANCE_REVIEW, AUDIT_LOGS_READ]"
| "PLATFORM_ROLE_PERMISSIONS RoleAdmin = PlatformPermission"

definition platformRolesWith :: "platform_permission list \<Rightarrow> platform_role list" where
  "platformRolesWith permissions =
     filter (\<lambda>role. list_all (\<lambda>p. p \<in> set (PLATFORM_ROLE_PERMISSIONS role)) permissions) [RoleUser, RoleSupport, RoleComplianceOfficer, RoleAdmin]"

datatype merchant_permission =
    INVOICES_READ | BALANCE_READ | TRANSACTIONS_READ | SETTINGS_READ | API_KEYS_READ | API_KEYS_MANAGE | WEBHOOKS_READ | WEBHOOKS_MANAGE
  | MEMBERS_READ | MEMBERS_MANAGE

definition MerchantPermission :: "merchant_permission list" where
  "MerchantPermission = [INVOICES_READ, BALANCE_READ, TRANSACTIONS_READ, SETTINGS_READ, API_KEYS_READ, API_KEYS_MANAGE, WEBHOOKS_READ,
     WEBHOOKS_MANAGE, MEMBERS_READ, MEMBERS_MANAGE]"

definition READ_ONLY_MERCHANT_PERMISSIONS :: "merchant_permission list" where
  "READ_ONLY_MERCHANT_PERMISSIONS = [INVOICES_READ, BALANCE_READ, TRANSACTIONS_READ, SETTINGS_READ, API_KEYS_READ, WEBHOOKS_READ, MEMBERS_READ]"

fun MERCHANT_ROLE_PERMISSIONS :: "merchant_role \<Rightarrow> merchant_permission list" where
  "MERCHANT_ROLE_PERMISSIONS Viewer = READ_ONLY_MERCHANT_PERMISSIONS"
| "MERCHANT_ROLE_PERMISSIONS Developer = READ_ONLY_MERCHANT_PERMISSIONS @ [API_KEYS_MANAGE, WEBHOOKS_MANAGE]"
| "MERCHANT_ROLE_PERMISSIONS Admin = READ_ONLY_MERCHANT_PERMISSIONS @ [API_KEYS_MANAGE, WEBHOOKS_MANAGE]"
| "MERCHANT_ROLE_PERMISSIONS Owner = MerchantPermission"

definition merchantRolesWith :: "merchant_permission list \<Rightarrow> merchant_role list" where
  "merchantRolesWith permissions =
     filter (\<lambda>role. list_all (\<lambda>p. p \<in> set (MERCHANT_ROLE_PERMISSIONS role)) permissions) [Viewer, Developer, Admin, Owner]"

section \<open>Guards\<close>

record user_context =
  uc_userId :: string
  uc_email :: string
  uc_platformRole :: string

record guarded_request =
  hq_authorization :: "string option"
  hq_accessCookie :: "string option"
  hq_merchantId :: "string option"
  hq_ip :: string

text \<open>The metadata of the handler, else of its class.\<close>

definition metadata :: "'a option \<Rightarrow> 'a option \<Rightarrow> 'a option" where
  "metadata handler cls = (case handler of Some x \<Rightarrow> Some x | None \<Rightarrow> cls)"

definition expired :: "int option \<Rightarrow> int \<Rightarrow> bool" where
  "expired moment now = (case moment of None \<Rightarrow> False | Some t \<Rightarrow> t \<le> now)"

definition key_state_error :: "api_key \<Rightarrow> int \<Rightarrow> app_error option" where
  "key_state_error record now =
     (if ak_status record = KeyRevoked then Some (UnauthenticatedError ''this API key has been revoked'' API_KEY_REVOKED)
      else if expired (ak_expiresAt record) now then Some (UnauthenticatedError ''this API key has expired'' API_KEY_EXPIRED)
      else if ak_status record = KeyRotating \<and> expired (ak_graceExpiresAt record) now
      then Some (UnauthenticatedError ''this API key rotation grace period has ended'' API_KEY_EXPIRED)
      else None)"

definition ApiKeyGuard :: "(string \<Rightarrow> string \<Rightarrow> bool option) \<Rightarrow> int \<Rightarrow> guarded_request \<Rightarrow> accounts \<Rightarrow> app_error + merchant_context" where
  "ApiKeyGuard verify now request s =
     (case hq_authorization request of
        None \<Rightarrow> Inl (UnauthenticatedError ''missing Authorization: Bearer <api_key> header'' UNAUTHENTICATED)
      | Some header \<Rightarrow>
          if \<not> startsWith header ''Bearer '' then Inl (UnauthenticatedError ''missing Authorization: Bearer <api_key> header'' UNAUTHENTICATED)
          else (case parseApiKey (js_trim (drop 7 header)) of
            None \<Rightarrow> Inl (UnauthenticatedError ''malformed API key'' INVALID_CREDENTIALS)
          | Some parsed \<Rightarrow>
              (case find (\<lambda>k. ak_keyPrefix k = pk_keyPrefix parsed) (acc_keys s) of
                 None \<Rightarrow> Inl (UnauthenticatedError ''invalid API key'' INVALID_CREDENTIALS)
               | Some record \<Rightarrow>
                   (case key_state_error record now of Some e \<Rightarrow> Inl e
                    | None \<Rightarrow>
                        if \<not> verifyApiKeySecret verify (pk_secret parsed) (ak_secretHash record)
                        then Inl (UnauthenticatedError ''invalid API key'' INVALID_CREDENTIALS)
                        else if ak_ipAllowlist record \<noteq> [] \<and> hq_ip request \<notin> set (ak_ipAllowlist record)
                        then Inl (AppError IP_NOT_ALLOWED 403 ''source IP is not permitted for this API key'' None)
                        else (case find (\<lambda>a. ma_id a = ak_merchantId record) (acc_merchants s) of
                            None \<Rightarrow> Inl (ForbiddenError ''merchant account is not active'' None)
                          | Some m \<Rightarrow>
                              if ma_status m \<noteq> MerchantActive then Inl (ForbiddenError ''merchant account is not active'' None)
                              else Inr \<lparr>mc_merchantId = ak_merchantId record, mc_apiKeyId = ak_id record, mc_livemode = ak_livemode record,
                                mc_scopes = ak_scopes record\<rparr>)))))"

text \<open>The write of the last use, which may be lost.\<close>

definition track_use :: "int \<Rightarrow> string \<Rightarrow> string \<Rightarrow> accounts \<Rightarrow> accounts" where
  "track_use now ip keyId s =
     s\<lparr>acc_keys := update_rows (\<lambda>k. ak_id k = keyId) (\<lambda>k. k\<lparr>ak_lastUsedAt := Some now, ak_lastUsedIp := Some ip\<rparr>) (acc_keys s)\<rparr>"

definition ApiKeyScopeGuard :: "string list option \<Rightarrow> string list option \<Rightarrow> merchant_context option \<Rightarrow> app_error + unit" where
  "ApiKeyScopeGuard handler cls merchant =
     (case merchant of None \<Rightarrow> Inl (UnauthenticatedError ''missing API key context'' UNAUTHENTICATED)
      | Some m \<Rightarrow>
          (case metadata handler cls of None \<Rightarrow> Inr ()
           | Some required \<Rightarrow>
               let missing = filter (\<lambda>sc. sc \<notin> set (mc_scopes m)) required in
               if missing \<noteq> []
               then Inl (ForbiddenError (''this API key is missing required scope(s): '' @ join_comma missing)
                 (Some [(''required_scopes'', JArr (map JStr required)), (''missing_scopes'', JArr (map JStr missing))]))
               else Inr ()))"

text \<open>The claims of a token that the service signed are strings.\<close>

definition claim_text :: "json \<Rightarrow> string \<Rightarrow> string" where
  "claim_text claims k = (case json_field claims k of Some (JStr v) \<Rightarrow> v | _ \<Rightarrow> [])"

definition JwtAuthGuard :: "auth_env \<Rightarrow> (string \<Rightarrow> json option) \<Rightarrow> int \<Rightarrow> guarded_request \<Rightarrow> app_error + user_context" where
  "JwtAuthGuard env parse now request =
     (if \<not> truthy (hq_accessCookie request) then Inl (UnauthenticatedError ''missing session'' UNAUTHENTICATED)
      else case verifyJwt (au_hmac env) parse (the (hq_accessCookie request)) (au_accessSecret env) (au_issuer env) (au_audience env) now of
        Inl _ \<Rightarrow> Inl (UnauthenticatedError ''invalid or expired session'' UNAUTHENTICATED)
      | Inr claims \<Rightarrow> Inr \<lparr>uc_userId = claim_text claims ''sub'', uc_email = claim_text claims ''email'',
          uc_platformRole = claim_text claims ''platform_role''\<rparr>)"

definition PlatformRoleGuard :: "string list option \<Rightarrow> string list option \<Rightarrow> user_context option \<Rightarrow> app_error + unit" where
  "PlatformRoleGuard handler cls user =
     (case user of None \<Rightarrow> Inl (UnauthenticatedError ''missing session'' UNAUTHENTICATED)
      | Some u \<Rightarrow>
          (case metadata handler cls of None \<Rightarrow> Inr ()
           | Some required \<Rightarrow> if required = [] then Inr ()
               else if uc_platformRole u \<notin> set required then Inl (ForbiddenError ''insufficient platform role'' None) else Inr ()))"

definition MerchantRoleGuard :: "string list option \<Rightarrow> string list option \<Rightarrow> guarded_request \<Rightarrow> user_context option \<Rightarrow> accounts \<Rightarrow> app_error + string \<times> merchant_role" where
  "MerchantRoleGuard handler cls request user s =
     (case user of None \<Rightarrow> Inl (UnauthenticatedError ''missing session'' UNAUTHENTICATED)
      | Some u \<Rightarrow>
          if \<not> truthy (hq_merchantId request) then Inl (ValidationError ''the x-merchant-id header is required'' None)
          else let merchantId = the (hq_merchantId request) in
            (case find (\<lambda>m. mm_merchantId m = merchantId \<and> mm_userId m = uc_userId u) (acc_members s) of
               None \<Rightarrow> Inl (ForbiddenError ''you are not a member of this merchant'' None)
             | Some membership \<Rightarrow>
                 if \<not> list_ex (\<lambda>a. ma_id a = merchantId \<and> ma_status a = MerchantActive) (acc_merchants s)
                 then Inl (ForbiddenError ''this merchant account is not active'' None)
                 else if (case metadata handler cls of None \<Rightarrow> False | Some required \<Rightarrow> required \<noteq> [] \<and> merchant_role_name (mm_role membership) \<notin> set required)
                 then Inl (ForbiddenError ''insufficient merchant role'' None)
                 else Inr (merchantId, mm_role membership)))"

section \<open>A refresh token is used once\<close>

lemma find_Some_in: "find P xs = Some x \<Longrightarrow> x \<in> set xs \<and> P x"
  by (auto simp: find_Some_iff)

lemma find_by_key: "distinct (map f xs) \<Longrightarrow> x \<in> set xs \<Longrightarrow> find (\<lambda>y. f y = f x) xs = Some x"
  by (induction xs) (auto simp: image_iff)

definition sessions_grow :: "accounts \<Rightarrow> accounts \<Rightarrow> bool" where
  "sessions_grow s t \<longleftrightarrow>
     (\<forall>x \<in> set (acc_sessions s). se_revokedAt x \<noteq> None \<longrightarrow> (\<exists>y \<in> set (acc_sessions t). se_tokenHash y = se_tokenHash x \<and> se_revokedAt y \<noteq> None)) \<and>
     (distinct (map se_tokenHash (acc_sessions s)) \<longrightarrow> distinct (map se_tokenHash (acc_sessions t)))"

text \<open>The steps of the services. The first relation has the operations that are one step for the tables of sessions, keys and
  members; \<open>account_step\<close> adds the transactions of \<open>updateRole\<close> and \<open>remove\<close>, which other operations can
  precede after the checks.\<close>

inductive table_step :: "accounts \<Rightarrow> accounts \<Rightarrow> bool" where
  step_login: "table_step s (snd (login gen env now bytes email password meta s))"
| step_refresh: "table_step s (snd (refresh_write gen env now bytes meta p s))"
| step_logout: "table_step s (snd (logout env now presented s))"
| step_key: "table_step s (snd (keys_create gen rs hash now pub sec m u dto meta s))"
| step_revoke: "table_step s (snd (keys_revoke gen rs now m u k meta s))"
| step_use: "table_step s (track_use now ip k s)"
| step_add: "table_step s (snd (members_add gen rs now m u email role meta s))"

inductive account_step :: "accounts \<Rightarrow> accounts \<Rightarrow> bool" where
  step_table: "table_step s t \<Longrightarrow> account_step s t"
| step_role: "account_step s (snd (role_write gen rs m u i role meta x s))"
| step_remove: "account_step s (snd (remove_write gen rs m u i meta x s))"

text \<open>A relation that the single writes keep is kept by every step.\<close>

locale account_relation = step_relation R for R :: "accounts \<Rightarrow> accounts \<Rightarrow> bool" +
  assumes R_frame: "acc_sessions t = acc_sessions s \<Longrightarrow> acc_keys t = acc_keys s \<Longrightarrow> acc_members t = acc_members s \<Longrightarrow>
      acc_merchants t = acc_merchants s \<Longrightarrow> R s t"
    and R_session_added: "\<not> list_ex (\<lambda>y. se_tokenHash y = se_tokenHash x) (acc_sessions s) \<Longrightarrow> R s (s\<lparr>acc_sessions := acc_sessions s @ [x]\<rparr>)"
    and R_session_revoked: "R s (s\<lparr>acc_sessions := update_rows p (\<lambda>x. x\<lparr>se_revokedAt := Some now\<rparr>) (acc_sessions s)\<rparr>)"
    and R_key_added: "\<not> list_ex (\<lambda>x. ak_keyPrefix x = ak_keyPrefix k) (acc_keys s) \<Longrightarrow> R s (s\<lparr>acc_keys := acc_keys s @ [k]\<rparr>)"
    and R_key_revoked: "R s (s\<lparr>acc_keys := update_rows q (\<lambda>k. k\<lparr>ak_status := KeyRevoked, ak_revokedAt := Some now, ak_revokedBy := Some u\<rparr>) (acc_keys s)\<rparr>)"
    and R_key_used: "R s (s\<lparr>acc_keys := update_rows q (\<lambda>k. k\<lparr>ak_lastUsedAt := Some now, ak_lastUsedIp := Some ip\<rparr>) (acc_keys s)\<rparr>)"
    and R_member_added: "\<not> list_ex (\<lambda>x. mm_id x = mm_id m) (acc_members s) \<Longrightarrow> R s (s\<lparr>acc_members := acc_members s @ [m]\<rparr>)"
begin

lemma steps_account_id: "steps R (account_id gen k)"
  by (auto simp: steps_def account_id_def intro: R_frame)

lemma steps_update_user: "steps R (update_user i f)"
  unfolding update_user_def by (intro steps_bind steps_pure steps_modify R_frame) simp_all

lemma steps_audit: "steps R (audit_record gen rs en)"
  unfolding audit_record_def by (intro steps_bind steps_account_id steps_modify R_frame) simp_all

lemma steps_include: "steps R (include_user m)"
  unfolding include_user_def by (intro steps_bind steps_pure)

lemma psteps_response: "psteps R (case p of (row, u) \<Rightarrow> pret (toMemberResponse row u))"
  by (cases p) (simp add: psteps_pure)

lemma steps_rows: "steps R (create_session x)" "steps R (create_key_row k)" "steps R (create_member m)"
  by (auto simp: steps_def create_session_def create_key_row_def create_member_def intro: R_session_added R_key_added R_member_added split: if_splits)

lemma steps_session_revoked: "steps R (update_session i (\<lambda>x. x\<lparr>se_revokedAt := Some now\<rparr>))"
  unfolding update_session_def by (intro steps_bind steps_pure steps_modify R_session_revoked)

lemma steps_key_revoked: "steps R (update_key i (\<lambda>k. k\<lparr>ak_status := KeyRevoked, ak_revokedAt := Some now, ak_revokedBy := Some u\<rparr>))"
  unfolding update_key_def by (intro steps_bind steps_pure steps_modify R_key_revoked)

lemmas account_rules = steps_pure steps_bind steps_seq steps_if steps_option psteps_pure psteps_atomically psteps_bind psteps_option psteps_if
  steps_account_id steps_update_user steps_audit steps_include psteps_response steps_rows steps_session_revoked steps_key_revoked

lemma table_step_kept: "table_step s t \<Longrightarrow> R s t"
proof (induction rule: table_step.induct)
  case (step_login s gen env now bytes email password meta)
  have "psteps R (login gen env now bytes email password meta)"
    unfolding login_def generateOpaqueToken_def Let_def prod.case count_failure_def by (intro account_rules)
  then show ?case by (simp add: psteps_def)
next
  case (step_refresh s gen env now bytes meta p)
  have "psteps R (refresh_write gen env now bytes meta p)"
    unfolding refresh_write_def generateOpaqueToken_def Let_def by (cases p) (simp, intro account_rules)
  then show ?case by (simp add: psteps_def)
next
  case (step_logout s env now presented)
  show ?case by (simp add: logout_def R_session_revoked R_refl)
next
  case (step_key s gen rs hash now pub sec m u dto meta)
  have "psteps R (keys_create gen rs hash now pub sec m u dto meta)" unfolding keys_create_def Let_def by (intro account_rules)
  then show ?case by (simp add: psteps_def)
next
  case (step_revoke s gen rs now m u k meta)
  have "psteps R (keys_revoke gen rs now m u k meta)" unfolding keys_revoke_def by (intro account_rules)
  then show ?case by (simp add: psteps_def)
next
  case (step_use s now ip k)
  show ?case unfolding track_use_def by (rule R_key_used)
next
  case (step_add s gen rs now m u email role meta)
  have "psteps R (members_add gen rs now m u email role meta)" unfolding members_add_def by (intro account_rules)
  then show ?case by (simp add: psteps_def)
qed

end

text \<open>A relation that looks only at the sessions and the keys is kept by the transactions on members too.\<close>

locale member_blind_relation = account_relation +
  assumes R_members: "acc_sessions t = acc_sessions s \<Longrightarrow> acc_keys t = acc_keys s \<Longrightarrow> acc_merchants t = acc_merchants s \<Longrightarrow> R s t"
begin

lemma account_step_kept: "account_step s t \<Longrightarrow> R s t"
proof (induction rule: account_step.induct)
  case (step_role s gen rs m u i role meta x)
  have "psteps R (role_write gen rs m u i role meta x)" unfolding role_write_def by (intro account_rules steps_modify R_members) simp_all
  then show ?case by (simp add: psteps_def)
next
  case (step_remove s gen rs m u i meta x)
  have "psteps R (remove_write gen rs m u i meta x)" unfolding remove_write_def by (intro account_rules steps_modify R_members) simp_all
  then show ?case by (simp add: psteps_def)
qed (rule table_step_kept)

lemma account_steps_kept: "account_step\<^sup>*\<^sup>* s t \<Longrightarrow> R s t"
  by (induction rule: rtranclp_induct) (blast intro: R_refl R_trans account_step_kept)+

end

lemma grow_same [intro]: "acc_sessions t = acc_sessions s \<Longrightarrow> sessions_grow s t"
  by (auto simp: sessions_grow_def)

lemma grow_revoke:
  assumes "acc_sessions t = update_rows p (\<lambda>x. x\<lparr>se_revokedAt := Some now\<rparr>) (acc_sessions s)"
  shows "sessions_grow s t"
proof -
  let ?f = "\<lambda>x. if p x then x\<lparr>se_revokedAt := Some now\<rparr> else x"
  have "map se_tokenHash (acc_sessions t) = map se_tokenHash (acc_sessions s)" unfolding assms by (rule map_update_rows) simp
  moreover have "\<exists>y \<in> set (acc_sessions t). se_tokenHash y = se_tokenHash x \<and> se_revokedAt y \<noteq> None" if "x \<in> set (acc_sessions s)" "se_revokedAt x \<noteq> None" for x
    using that unfolding assms set_update_rows by (intro bexI [of _ "?f x"]) auto
  ultimately show ?thesis by (simp add: sessions_grow_def)
qed

interpretation session_steps: member_blind_relation sessions_grow
proof
  show "sessions_grow s s" for s by (auto simp: sessions_grow_def)
  show "sessions_grow s t \<Longrightarrow> sessions_grow t u \<Longrightarrow> sessions_grow s u" for s t u unfolding sessions_grow_def by metis
  show "\<not> list_ex (\<lambda>y. se_tokenHash y = se_tokenHash x) (acc_sessions s) \<Longrightarrow> sessions_grow s (s\<lparr>acc_sessions := acc_sessions s @ [x]\<rparr>)" for x s
    by (auto simp: sessions_grow_def list_ex_iff)
qed (auto intro: grow_revoke)

lemma refresh_parts:
  assumes "refresh gen env now bytes presented meta s = (Inr tokens, s')"
  obtains x u where "find (\<lambda>y. se_tokenHash y = au_sha256Hex env presented) (acc_sessions s) = Some x" "se_revokedAt x = None" "now < se_expiresAt x"
    "find_user (se_userId x) s = Some u" "us_status u = UserActive"
    "acc_sessions s' = update_rows (\<lambda>y. se_id y = se_id x) (\<lambda>y. y\<lparr>se_revokedAt := Some now\<rparr>) (acc_sessions s) @
      [new_session env now (us_id u) (au_sha256Hex env (base64url bytes)) meta (newId (gen (acc_ulids s)) SessionId)]"
    "at_refreshToken tokens = base64url bytes" "acc_users s' = acc_users s"
    "au_sha256Hex env (base64url bytes) \<notin> se_tokenHash ` set (acc_sessions s)"
proof -
  from assms obtain x u s1 where r: "refresh_read env now presented s = (Inr (x, u), s1)" and w: "refresh_write gen env now bytes meta (x, u) s1 = (Inr tokens, s')"
    unfolding refresh_def pbind_Inr_iff by auto
  have read: "find (\<lambda>y. se_tokenHash y = au_sha256Hex env presented) (acc_sessions s) = Some x" "se_revokedAt x = None" "now < se_expiresAt x"
    "find_user (se_userId x) s = Some u" "us_status u = UserActive" "s1 = s"
    using r by (auto simp: refresh_read_def split: option.splits if_splits)
  have f: "find (\<lambda>y. se_id y = se_id x) (acc_sessions s) \<noteq> None"
    using find_Some_in [OF read(1)] by (auto simp: find_None_iff)
  have m: "map se_tokenHash (update_rows (\<lambda>y. se_id y = se_id x) (\<lambda>y. y\<lparr>se_revokedAt := Some now\<rparr>) (acc_sessions s)) = map se_tokenHash (acc_sessions s)"
    by (rule map_update_rows) simp
  have "list_ex (\<lambda>y. se_tokenHash y = h) rows \<longleftrightarrow> h \<in> set (map se_tokenHash rows)" for h and rows :: "session list" by (auto simp: list_ex_iff)
  note ex = this
  have hashes: "list_ex (\<lambda>y. se_tokenHash y = h) (update_rows (\<lambda>y. se_id y = se_id x) (\<lambda>y. y\<lparr>se_revokedAt := Some now\<rparr>) (acc_sessions s)) \<longleftrightarrow>
      h \<in> se_tokenHash ` set (acc_sessions s)" for h unfolding ex m list.set_map by (rule refl)
  show thesis
    by (rule that [OF read(1-5)])
      (use w f hashes read(6) in \<open>auto simp: refresh_write_def generateOpaqueToken_def Let_def pbind_def atomically_def seq_op_def bind_op_def update_session_def
        find_or_throw_def account_id_def create_session_def new_session_def split: sum.splits option.splits if_splits\<close>)
qed

text \<open>C32: a refresh token is used once. After it was exchanged, no refresh accepts it again, whatever logins, refreshes,
  logouts and changes of keys and members follow and however their parts interleave; and the token it was exchanged for is
  accepted in its place until it expires, if nothing happened in between.\<close>

theorem refresh_token_single_use:
  assumes "distinct (map se_tokenHash (acc_sessions s))" "refresh gen env now bytes presented meta s = (Inr tokens, s')"
  shows "(account_step\<^sup>*\<^sup>* s' t \<longrightarrow> refresh gen' env now' bytes' presented meta' t = (Inl invalidSession, t)) \<and>
    (later < now + au_refreshTtlSeconds env * 1000 \<and> 0 < au_refreshTtlSeconds env \<longrightarrow>
      (\<exists>x u. refresh_read env later (at_refreshToken tokens) s' = (Inr (x, u), s') \<and> se_tokenHash x = au_sha256Hex env (at_refreshToken tokens)))"
proof -
  obtain x u where x: "find (\<lambda>y. se_tokenHash y = au_sha256Hex env presented) (acc_sessions s) = Some x"
    and "se_revokedAt x = None" "now < se_expiresAt x" and u: "find_user (se_userId x) s = Some u" and active: "us_status u = UserActive"
    and s': "acc_sessions s' = update_rows (\<lambda>y. se_id y = se_id x) (\<lambda>y. y\<lparr>se_revokedAt := Some now\<rparr>) (acc_sessions s) @
      [new_session env now (us_id u) (au_sha256Hex env (base64url bytes)) meta (newId (gen (acc_ulids s)) SessionId)]"
      "at_refreshToken tokens = base64url bytes" "acc_users s' = acc_users s" "au_sha256Hex env (base64url bytes) \<notin> se_tokenHash ` set (acc_sessions s)"
    using refresh_parts [OF assms(2)] .
  let ?n = "new_session env now (us_id u) (au_sha256Hex env (base64url bytes)) meta (newId (gen (acc_ulids s)) SessionId)"
  have hashes: "map se_tokenHash (acc_sessions s') = map se_tokenHash (acc_sessions s) @ [au_sha256Hex env (base64url bytes)]"
    unfolding s'(1) by (simp add: map_update_rows new_session_def)
  then have d: "distinct (map se_tokenHash (acc_sessions s'))" using assms(1) s'(4) by auto
  have "x\<lparr>se_revokedAt := Some now\<rparr> \<in> set (acc_sessions s')" "se_tokenHash x = au_sha256Hex env presented"
    using find_Some_in [OF x] unfolding s'(1) by (auto simp: set_update_rows)
  then have revoked: "\<exists>y \<in> set (acc_sessions s'). se_tokenHash y = au_sha256Hex env presented \<and> se_revokedAt y \<noteq> None"
    by (intro bexI [of _ "x\<lparr>se_revokedAt := Some now\<rparr>"]) simp_all
  have "refresh gen' env now' bytes' presented meta' t = (Inl invalidSession, t)" if "account_step\<^sup>*\<^sup>* s' t"
  proof -
    have g: "sessions_grow s' t" by (rule session_steps.account_steps_kept [OF that])
    then obtain y where y: "y \<in> set (acc_sessions t)" "se_tokenHash y = au_sha256Hex env presented" "se_revokedAt y \<noteq> None"
      using revoked unfolding sessions_grow_def by metis
    have "distinct (map se_tokenHash (acc_sessions t))" using g d by (simp add: sessions_grow_def)
    from find_by_key [OF this y(1)] have "find (\<lambda>z. se_tokenHash z = au_sha256Hex env presented) (acc_sessions t) = Some y" unfolding y(2) .
    with y(3) show ?thesis by (simp add: refresh_def refresh_read_def pbind_def)
  qed
  moreover have "\<exists>x u. refresh_read env later (at_refreshToken tokens) s' = (Inr (x, u), s') \<and> se_tokenHash x = au_sha256Hex env (at_refreshToken tokens)"
    if l: "later < now + au_refreshTtlSeconds env * 1000"
  proof -
    have "find (\<lambda>z. se_tokenHash z = au_sha256Hex env (base64url bytes)) (acc_sessions s') = Some ?n"
      using find_by_key [OF d, of ?n] unfolding s'(1) by (simp add: new_session_def)
    moreover have "us_id u = se_userId x" using find_Some_in [OF u [unfolded find_user_def]] by simp
    then have "find_user (us_id u) s' = Some u" using u by (simp add: find_user_def s'(3))
    ultimately show ?thesis using l active by (simp add: refresh_read_def s'(2)) (simp add: new_session_def)
  qed
  ultimately show ?thesis by blast
qed

definition sample_auth :: auth_env where
  "sample_auth = \<lparr>au_verify = (\<lambda>h p. Some (h = p)), au_sha256Hex = id, au_hmac = (\<lambda>_ _. ''sig''), au_accessSecret = ''k'', au_accessTtlSeconds = 900,
     au_refreshTtlSeconds = 3600, au_issuer = ''gw'', au_audience = ''web''\<rparr>"

definition sample_user :: user where
  "sample_user = \<lparr>us_id = ''u1'', us_email = ''a@b.c'', us_passwordHash = ''pw'', us_fullName = None, us_platformRole = RoleUser, us_status = UserActive,
     us_failedLoginCount = 0, us_lockedUntil = None, us_lastLoginAt = None\<rparr>"

definition sample_accounts :: accounts where
  "sample_accounts = \<lparr>acc_users = [sample_user, sample_user\<lparr>us_id := ''u2'', us_email := ''d@e.f''\<rparr>],
     acc_sessions = [\<lparr>se_id = ''s1'', se_userId = ''u1'', se_tokenHash = ''tok'', se_ipAddress = [], se_userAgent = None, se_expiresAt = 5000, se_revokedAt = None\<rparr>],
     acc_keys = [], acc_members = [\<lparr>mm_id = ''m1'', mm_merchantId = ''mch'', mm_userId = ''u1'', mm_role = Owner, mm_createdAt = 0\<rparr>,
       \<lparr>mm_id = ''m2'', mm_merchantId = ''mch'', mm_userId = ''u2'', mm_role = Owner, mm_createdAt = 1\<rparr>],
     acc_merchants = [\<lparr>ma_id = ''mch'', ma_name = ''M'', ma_slug = ''m'', ma_status = MerchantActive, ma_countryCode = None,
       ma_walletMode = ''MERCHANT_CONTROLLED'', ma_kybStatus = ''PASSED'', ma_feeBps = 0, ma_createdAt = 0\<rparr>], acc_audit = [], acc_ulids = 0\<rparr>"

definition sample_meta :: audit_meta where "sample_meta = \<lparr>am_ip = ''1.2.3.4'', am_userAgent = None\<rparr>"

definition sample_gen :: "nat \<Rightarrow> string" where "sample_gen n = show_int (int n)"

lemma sample_refresh: "is_ok (fst (refresh sample_gen sample_auth 1000 [1, 2, 3] ''tok'' sample_meta sample_accounts))"
  "distinct (map se_tokenHash (acc_sessions sample_accounts))"
  by code_simp+

theorem refresh_token_single_use_witness:
  "\<exists>tokens s'. refresh sample_gen sample_auth 1000 [1, 2, 3] ''tok'' sample_meta sample_accounts = (Inr tokens, s') \<and>
     refresh sample_gen sample_auth 2000 [4, 5, 6] ''tok'' sample_meta s' = (Inl invalidSession, s')"
proof -
  obtain tokens s' where r: "refresh sample_gen sample_auth 1000 [1, 2, 3] ''tok'' sample_meta sample_accounts = (Inr tokens, s')"
    using sample_refresh(1) by (metis is_ok_iff prod.collapse)
  from refresh_token_single_use [OF sample_refresh(2) r, of s' sample_gen 2000 "[4, 5, 6]" sample_meta] r show ?thesis by blast
qed

text \<open>Two refreshes that read the session before either of them wrote are both granted: the update does not ask again
  whether the session is revoked.\<close>

lemma concurrent_refreshes_both_granted:
  "case refresh_read sample_auth 1000 ''tok'' sample_accounts of
     (Inl _, _) \<Rightarrow> False
   | (Inr p, s) \<Rightarrow> let (a, s1) = refresh_write sample_gen sample_auth 1000 [1, 2, 3] sample_meta p s;
       (b, s2) = refresh_write sample_gen sample_auth 1001 [4, 5, 6] sample_meta p s1 in
       is_ok a \<and> is_ok b \<and> length (filter (\<lambda>x. se_revokedAt x = None) (acc_sessions s2)) = 2"
  by code_simp

section \<open>Five failures lock an account\<close>

definition by_email :: "string \<Rightarrow> accounts \<Rightarrow> user option" where
  "by_email email s = find (\<lambda>u. us_email u = js_trim (toLowerCase email)) (acc_users s)"

definition locked :: "user \<Rightarrow> int \<Rightarrow> bool" where
  "locked u now = (case us_lockedUntil u of None \<Rightarrow> False | Some t \<Rightarrow> t > now)"

lemma login_locked:
  "by_email email s = Some u \<Longrightarrow> locked u now \<Longrightarrow> login gen env now bytes email password meta s = (Inl invalidCredentials, s)"
  by (simp add: login_def by_email_def locked_def pbind_def)

definition after_failure :: "int \<Rightarrow> user \<Rightarrow> user" where
  "after_failure now u = (let failedCount = us_failedLoginCount u + 1 in
     u\<lparr>us_failedLoginCount := (if failedCount \<ge> 5 then 0 else failedCount), us_lockedUntil := (if failedCount \<ge> 5 then Some (now + 900000) else None)\<rparr>)"

lemma login_wrong:
  assumes "by_email email s = Some u" "us_status u = UserActive" "\<not> locked u now" "\<not> verifyPassword (au_verify env) password (us_passwordHash u)"
  shows "\<exists>t. login gen env now bytes email password meta s = (Inl invalidCredentials, t) \<and> by_email email t = Some (after_failure now u)"
proof -
  let ?f = "\<lambda>v. v\<lparr>us_failedLoginCount := us_failedLoginCount (after_failure now u), us_lockedUntil := us_lockedUntil (after_failure now u)\<rparr>"
  let ?t = "s\<lparr>acc_users := update_rows (\<lambda>v. us_id v = us_id u) ?f (acc_users s)\<rparr>"
  have "find_user (us_id u) s \<noteq> None" using find_Some_in [OF assms(1) [unfolded by_email_def]] by (auto simp: find_user_def find_None_iff)
  then obtain w where w: "find_user (us_id u) s = Some w" by blast
  then have "atomically (count_failure now u) s = (Inr (), ?t)"
    by (simp add: count_failure_def Let_def update_user_def atomically_def after_failure_def MAX_FAILED_LOGIN_ATTEMPTS_def LOCKOUT_DURATION_MS_def bind_op_def
      find_or_throw_def)
  then have "login gen env now bytes email password meta s = (Inl invalidCredentials, ?t)"
    using assms by (simp add: login_def by_email_def locked_def pbind_def)
  moreover have "by_email email ?t = Some (?f u)"
    using find_update_rows [of us_email ?f "js_trim (toLowerCase email)" "\<lambda>v. us_id v = us_id u" "acc_users s"] assms(1) by (simp add: by_email_def)
  ultimately show ?thesis by (auto simp: after_failure_def Let_def)
qed

definition attempts_run :: "(nat \<Rightarrow> string) \<Rightarrow> auth_env \<Rightarrow> nat list \<Rightarrow> string \<Rightarrow> audit_meta \<Rightarrow> (int \<times> string) list \<Rightarrow> accounts \<Rightarrow> accounts" where
  "attempts_run gen env bytes email meta attempts s = fold (\<lambda>(now, password) s. snd (login gen env now bytes email password meta s)) attempts s"

lemma attempts_lock:
  assumes "by_email email s = Some u" "us_status u = UserActive" "\<not> locked u (fst (hd attempts))" "attempts \<noteq> []"
    and "us_failedLoginCount u + int (length attempts) = 5"
    and "list_all (\<lambda>(_, p). \<not> verifyPassword (au_verify env) p (us_passwordHash u)) attempts"
  shows "\<exists>v. by_email email (attempts_run gen env bytes email meta attempts s) = Some v \<and> us_lockedUntil v = Some (fst (last attempts) + 900000)"
  using assms
proof (induction attempts arbitrary: s u)
  case (Cons a rest)
  obtain now p where a: "a = (now, p)" by (cases a)
  obtain t where t: "login gen env now bytes email p meta s = (Inl invalidCredentials, t)" "by_email email t = Some (after_failure now u)"
    using login_wrong [of email s u now env p gen bytes meta] Cons.prems a by auto
  have run: "attempts_run gen env bytes email meta (a # rest) s = attempts_run gen env bytes email meta rest t" by (simp add: attempts_run_def a t(1))
  show ?case
  proof (cases "rest = []")
    case True
    then show ?thesis unfolding run using t(2) Cons.prems(5) a by (simp add: attempts_run_def after_failure_def)
  next
    case False
    then have "us_failedLoginCount u + 1 < 5" using Cons.prems(5) by (cases rest) auto
    then have "us_failedLoginCount (after_failure now u) = us_failedLoginCount u + 1" "us_lockedUntil (after_failure now u) = None"
      "us_status (after_failure now u) = us_status u" "us_passwordHash (after_failure now u) = us_passwordHash u" by (simp_all add: after_failure_def)
    with Cons.IH [OF t(2)] Cons.prems False a show ?thesis unfolding run by (simp add: locked_def)
  qed
qed simp

text \<open>Five wrong passwords lock an account for a quarter of an hour. From an active account without failures that is not
  locked, after five attempts with passwords that do not verify, every login before fifteen minutes from the fifth have passed
  is refused without a change of the state, also one with the right password, and with the error that a wrong password
  gets.\<close>

lemma five_failures_lock:
  assumes "by_email email s = Some u" "us_status u = UserActive" "us_failedLoginCount u = 0" "\<not> locked u (fst (hd attempts))"
    and "length attempts = 5" "list_all (\<lambda>(_, p). \<not> verifyPassword (au_verify env) p (us_passwordHash u)) attempts"
    and "now < fst (last attempts) + 15 * 60 * 1000"
  shows "login gen env now bytes email password meta (attempts_run gen env bytes email meta attempts s) =
    (Inl invalidCredentials, attempts_run gen env bytes email meta attempts s)"
proof -
  have "attempts \<noteq> []" using assms(5) by auto
  then obtain v where "by_email email (attempts_run gen env bytes email meta attempts s) = Some v" "us_lockedUntil v = Some (fst (last attempts) + 900000)"
    using attempts_lock [OF assms(1,2,4), of env gen bytes meta] assms(3,5,6) by auto
  with assms(7) show ?thesis by (intro login_locked) (auto simp: locked_def)
qed

definition sample_attempts :: "(int \<times> string) list" where
  "sample_attempts = [(1, ''a''), (2, ''b''), (3, ''c''), (4, ''d''), (5, ''e'')]"

section \<open>A merchant keeps an owner\<close>

definition has_owner :: "string \<Rightarrow> accounts \<Rightarrow> bool" where
  "has_owner merchantId s \<longleftrightarrow> (\<exists>m \<in> set (acc_members s). mm_merchantId m = merchantId \<and> mm_role m = Owner)"

definition owners_kept :: "accounts \<Rightarrow> accounts \<Rightarrow> bool" where
  "owners_kept s t \<longleftrightarrow> (distinct (map mm_id (acc_members s)) \<longrightarrow>
     distinct (map mm_id (acc_members t)) \<and> (\<forall>m. has_owner m s \<longrightarrow> has_owner m t))"

lemma owners_same: "acc_members t = acc_members s \<Longrightarrow> owners_kept s t"
  by (simp add: owners_kept_def has_owner_def)

interpretation owner_steps: account_relation owners_kept
proof
  show "owners_kept s t \<Longrightarrow> owners_kept t u \<Longrightarrow> owners_kept s u" for s t u by (simp add: owners_kept_def)
  show "\<not> list_ex (\<lambda>x. mm_id x = mm_id m) (acc_members s) \<Longrightarrow> owners_kept s (s\<lparr>acc_members := acc_members s @ [m]\<rparr>)" for m s
    by (auto simp: owners_kept_def has_owner_def list_ex_iff)
qed (auto intro: owners_same)

lemma member_check:
  assumes "requireMember merchantId memberId s = (Inr existing, t)"
  shows "t = s" "existing \<in> set (acc_members s)" "mm_id existing = memberId" "mm_merchantId existing = merchantId"
  using assms find_Some_in by (auto simp: requireMember_def split: option.splits dest!: find_Some_in)

lemma requireMember_state: "snd (requireMember merchantId memberId s) = s"
  by (simp add: requireMember_def split: option.split)

lemma not_last_owner:
  assumes "assertNotLastOwner merchantId memberId s = (r, t)"
  shows "t = s" "is_ok r \<Longrightarrow> \<exists>o' \<in> set (acc_members s). mm_merchantId o' = merchantId \<and> mm_role o' = Owner \<and> mm_id o' \<noteq> memberId"
  using assms by (auto simp: assertNotLastOwner_def filter_empty_conv split: if_splits)

text \<open>What passes the checks: the member has the role it keeps, or another owner remains.\<close>

definition may_lose :: "string \<Rightarrow> string \<Rightarrow> accounts \<Rightarrow> merchant_member \<Rightarrow> bool" where
  "may_lose merchantId memberId s existing \<longleftrightarrow> existing \<in> set (acc_members s) \<and> mm_id existing = memberId \<and> mm_merchantId existing = merchantId \<and>
     (mm_role existing = Owner \<longrightarrow> (\<exists>o' \<in> set (acc_members s). mm_merchantId o' = merchantId \<and> mm_role o' = Owner \<and> mm_id o' \<noteq> memberId))"

lemma remove_check_result:
  "remove_check merchantId memberId s = (r, t) \<Longrightarrow> t = s \<and> (\<forall>x. r = Inr x \<longrightarrow> may_lose merchantId memberId s x)"
  using member_check [of merchantId memberId s] requireMember_state [of merchantId memberId s] not_last_owner [of merchantId memberId s]
  by (cases "requireMember merchantId memberId s"; cases "assertNotLastOwner merchantId memberId s")
    (auto simp: remove_check_def pbind_def may_lose_def split: sum.splits if_splits)

lemma role_check_result:
  "role_check merchantId memberId role s = (r, t) \<Longrightarrow> t = s \<and> (\<forall>x. r = Inr x \<longrightarrow> role = Owner \<or> may_lose merchantId memberId s x)"
  using member_check [of merchantId memberId s] requireMember_state [of merchantId memberId s] not_last_owner [of merchantId memberId s]
  by (cases "requireMember merchantId memberId s"; cases "assertNotLastOwner merchantId memberId s")
    (auto simp: role_check_def pbind_def may_lose_def split: sum.splits if_splits)

lemma audit_keeps_tables: "audit_record gen rs en s = Inr (a, t) \<Longrightarrow> acc_members t = acc_members s \<and> acc_keys t = acc_keys s \<and> acc_merchants t = acc_merchants s"
  by (auto simp: audit_record_def account_id_def result_simps)

lemma role_write_members:
  "acc_members (snd (role_write gen rs m u i role meta x s)) \<in> {acc_members s, update_rows (\<lambda>m. mm_id m = i) (\<lambda>m. m\<lparr>mm_role := role\<rparr>) (acc_members s)}"
proof -
  have "snd (pbind (atomically op) (\<lambda>(row, u). pret (toMemberResponse row u)) s) = (case op s of Inl _ \<Rightarrow> s | Inr (_, t) \<Rightarrow> t)"
    for op :: "(merchant_member \<times> user) acc_op"
    by (auto simp: pbind_def atomically_def split: sum.splits prod.splits)
  then show ?thesis unfolding role_write_def include_user_def
    by (auto simp: result_simps dest!: audit_keeps_tables split: sum.splits)
qed

lemma remove_write_members:
  "acc_members (snd (remove_write gen rs m u i meta x s)) \<in> {acc_members s, filter (\<lambda>m. mm_id m \<noteq> i) (acc_members s)}"
  unfolding remove_write_def atomically_def
  by (auto simp: result_simps dest!: audit_keeps_tables split: sum.splits)

lemma owner_survives:
  assumes "distinct (map mm_id (acc_members s))" "may_lose merchantId i s x" "has_owner m s"
  shows "\<exists>o' \<in> set (acc_members s). mm_merchantId o' = m \<and> mm_role o' = Owner \<and> mm_id o' \<noteq> i"
proof -
  obtain o1 where o1: "o1 \<in> set (acc_members s)" "mm_merchantId o1 = m" "mm_role o1 = Owner" using assms(3) by (auto simp: has_owner_def)
  show ?thesis
  proof (cases "mm_id o1 = i")
    case True
    with assms(1,2) o1 have "o1 = x" by (auto simp: may_lose_def distinct_map dest: inj_onD)
    then show ?thesis using assms(2) o1 by (auto simp: may_lose_def)
  qed (use o1 in blast)
qed

lemma updated_row: "r \<in> set rs \<Longrightarrow> (if p r then f r else r) \<in> set (update_rows p f rs)"
  by (simp add: set_update_rows)

lemma removal_keeps_owners:
  assumes "may_lose merchantId i s x" "acc_members t \<in> {acc_members s, filter (\<lambda>m. mm_id m \<noteq> i) (acc_members s)}"
  shows "owners_kept s t"
proof (cases "acc_members t = acc_members s")
  case False
  then have t: "acc_members t = filter (\<lambda>m. mm_id m \<noteq> i) (acc_members s)" using assms(2) by simp
  have "has_owner m t" if "distinct (map mm_id (acc_members s))" "has_owner m s" for m
    using owner_survives [OF that(1) assms(1) that(2)] by (auto simp: has_owner_def t)
  then show ?thesis by (simp add: owners_kept_def t distinct_map_filter)
qed (rule owners_same)

lemma role_keeps_owners:
  assumes "role = Owner \<or> may_lose merchantId i s x"
    and "acc_members t \<in> {acc_members s, update_rows (\<lambda>m. mm_id m = i) (\<lambda>m. m\<lparr>mm_role := role\<rparr>) (acc_members s)}"
  shows "owners_kept s t"
proof (cases "acc_members t = acc_members s")
  case False
  then have t: "acc_members t = update_rows (\<lambda>m. mm_id m = i) (\<lambda>m. m\<lparr>mm_role := role\<rparr>) (acc_members s)" using assms(2) by simp
  have "map mm_id (acc_members t) = map mm_id (acc_members s)" unfolding t by (rule map_update_rows) simp
  moreover have "has_owner m t" if d: "distinct (map mm_id (acc_members s))" and h: "has_owner m s" for m
  proof (cases "role = Owner")
    case True
    obtain o1 where "o1 \<in> set (acc_members s)" "mm_merchantId o1 = m" "mm_role o1 = Owner" using h by (auto simp: has_owner_def)
    with updated_row [of o1 "acc_members s" "\<lambda>m. mm_id m = i" "\<lambda>m. m\<lparr>mm_role := role\<rparr>"] True show ?thesis
      unfolding has_owner_def t by (intro bexI [of _ "if mm_id o1 = i then o1\<lparr>mm_role := role\<rparr> else o1"]) auto
  next
    case False
    then obtain o1 where "o1 \<in> set (acc_members s)" "mm_merchantId o1 = m" "mm_role o1 = Owner" "mm_id o1 \<noteq> i"
      using owner_survives [OF d _ h] assms(1) by blast
    then show ?thesis by (force simp: has_owner_def t set_update_rows)
  qed
  ultimately show ?thesis by (simp add: owners_kept_def)
qed (rule owners_same)

text \<open>Operations that run one after the other.\<close>

inductive served_step :: "accounts \<Rightarrow> accounts \<Rightarrow> bool" where
  serve_table: "table_step s t \<Longrightarrow> served_step s t"
| serve_role: "served_step s (snd (members_updateRole gen rs m u i role meta s))"
| serve_remove: "served_step s (snd (members_remove gen rs m u i meta s))"

lemma served_step_owners: "served_step s t \<Longrightarrow> owners_kept s t"
proof (induction rule: served_step.induct)
  case (serve_role s gen rs m u i role meta)
  obtain r s' where c: "role_check m i role s = (r, s')" by fastforce
  have "owners_kept s (snd (role_write gen rs m u i role meta x s))" if "r = Inr x" for x
    using role_keeps_owners [OF _ role_write_members] role_check_result [OF c] that by blast
  with c role_check_result [OF c] show ?case by (cases r) (auto simp: members_updateRole_def pbind_def owners_same)
next
  case (serve_remove s gen rs m u i meta)
  obtain r s' where c: "remove_check m i s = (r, s')" by fastforce
  have "owners_kept s (snd (remove_write gen rs m u i meta x s))" if "r = Inr x" for x
    using removal_keeps_owners [OF _ remove_write_members] remove_check_result [OF c] that by blast
  with c remove_check_result [OF c] show ?case by (cases r) (auto simp: members_remove_def pbind_def owners_same)
qed (rule owner_steps.table_step_kept)

text \<open>C34: a merchant keeps an owner. Whatever logins, refreshes, logouts, changes of keys, additions, changes and removals of
  members follow one another, by whomever and whether they succeed or not, a merchant that has an owner has one
  afterwards.\<close>

theorem merchant_keeps_an_owner:
  assumes "distinct (map mm_id (acc_members s))" "served_step\<^sup>*\<^sup>* s t" "has_owner m s"
  shows "has_owner m t"
proof -
  from assms(2) have "owners_kept s t"
    by (induction rule: rtranclp_induct) (blast intro: owner_steps.R_refl owner_steps.R_trans served_step_owners)+
  with assms(1,3) show ?thesis by (simp add: owners_kept_def)
qed

theorem merchant_keeps_an_owner_witness:
  "has_owner ''mch'' (snd (members_remove sample_gen id ''mch'' ''u1'' ''m2'' sample_meta (snd (members_updateRole sample_gen id ''mch'' ''u2'' ''m1'' Viewer sample_meta sample_accounts))))"
proof (rule merchant_keeps_an_owner)
  show "distinct (map mm_id (acc_members sample_accounts))" by code_simp
  show "has_owner ''mch'' sample_accounts" by (simp add: has_owner_def sample_accounts_def)
qed (blast intro: converse_rtranclp_into_rtranclp serve_role serve_remove)

text \<open>The check and the change are not one transaction: two owners that demote each other at the same time leave none.\<close>

lemma owners_demote_each_other:
  "case (role_check ''mch'' ''m1'' Viewer sample_accounts, role_check ''mch'' ''m2'' Viewer sample_accounts) of
     ((Inr a, _), (Inr b, _)) \<Rightarrow>
       let s1 = snd (role_write sample_gen id ''mch'' ''u2'' ''m1'' Viewer sample_meta a sample_accounts);
           s2 = snd (role_write sample_gen id ''mch'' ''u1'' ''m2'' Viewer sample_meta b s1) in
       map mm_role (acc_members s2) = [Viewer, Viewer]
   | _ \<Rightarrow> False"
  by code_simp

section \<open>A revoked key is refused\<close>

definition keys_stay_revoked :: "accounts \<Rightarrow> accounts \<Rightarrow> bool" where
  "keys_stay_revoked s t \<longleftrightarrow>
     (\<forall>k \<in> set (acc_keys s). ak_status k = KeyRevoked \<longrightarrow> (\<exists>j \<in> set (acc_keys t). ak_keyPrefix j = ak_keyPrefix k \<and> ak_status j = KeyRevoked)) \<and>
     (distinct (map ak_keyPrefix (acc_keys s)) \<longrightarrow> distinct (map ak_keyPrefix (acc_keys t)))"

lemma keys_stay_same: "acc_keys t = acc_keys s \<Longrightarrow> keys_stay_revoked s t"
  by (auto simp: keys_stay_revoked_def)

lemma keys_stay_updated:
  assumes "acc_keys t = update_rows q f (acc_keys s)" "\<And>k. ak_keyPrefix (f k) = ak_keyPrefix k"
    and "\<And>k. ak_status k = KeyRevoked \<Longrightarrow> ak_status (f k) = KeyRevoked"
  shows "keys_stay_revoked s t"
proof -
  have "map ak_keyPrefix (acc_keys t) = map ak_keyPrefix (acc_keys s)" unfolding assms(1) by (rule map_update_rows) (rule assms(2))
  moreover have "\<exists>j \<in> set (acc_keys t). ak_keyPrefix j = ak_keyPrefix k \<and> ak_status j = KeyRevoked"
    if "k \<in> set (acc_keys s)" "ak_status k = KeyRevoked" for k
    using updated_row [OF that(1), of q f] that(2) assms(2,3) unfolding assms(1) by (cases "q k") force+
  ultimately show ?thesis by (simp add: keys_stay_revoked_def)
qed

interpretation key_steps: member_blind_relation keys_stay_revoked
proof
  show "keys_stay_revoked s t \<Longrightarrow> keys_stay_revoked t u \<Longrightarrow> keys_stay_revoked s u" for s t u unfolding keys_stay_revoked_def by metis
  show "\<not> list_ex (\<lambda>x. ak_keyPrefix x = ak_keyPrefix k) (acc_keys s) \<Longrightarrow> keys_stay_revoked s (s\<lparr>acc_keys := acc_keys s @ [k]\<rparr>)" for k s
    by (auto simp: keys_stay_revoked_def list_ex_iff)
qed (auto intro: keys_stay_same keys_stay_updated)

definition bearer :: "string \<Rightarrow> string \<Rightarrow> guarded_request" where
  "bearer key ip = \<lparr>hq_authorization = Some (''Bearer '' @ key), hq_accessCookie = None, hq_merchantId = None, hq_ip = ip\<rparr>"

lemma revoked_row:
  assumes "keys_revoke gen rs now m u i meta s = (Inr r, s')"
  shows "\<exists>k \<in> set (acc_keys s'). ak_keyPrefix k = kr_key_prefix r \<and> ak_status k = KeyRevoked"
proof -
  let ?f = "\<lambda>k. k\<lparr>ak_status := KeyRevoked, ak_revokedAt := Some now, ak_revokedBy := Some u\<rparr>"
  obtain k where keys: "acc_keys s' = update_rows (\<lambda>k. ak_id k = i) ?f (acc_keys s)" and k: "find_key_row i s' = Some k" and r: "r = key_toResponse k"
  proof -
    from assms obtain x where "find (\<lambda>k. ak_id k = i \<and> ak_merchantId k = m) (acc_keys s) = Some x" by (auto simp: keys_revoke_def split: option.splits)
    with assms obtain k where "(seq_op (update_key i ?f) (seq_op (audit_record gen rs (user_entry u ''api_key.revoked'' ''api_key'' i m
        (Some [(''status'', JStr (key_status_name (ak_status x)))]) (Some [(''status'', JStr ''REVOKED'')]) meta))
        (find_or_throw (RecordNotFound ''apiKey'' i) (find_key_row i)))) s = Inr (k, s')" and r: "r = key_toResponse k"
      by (auto simp: keys_revoke_def proc_Inr_iff)
    then have a: "audit_record gen rs (user_entry u ''api_key.revoked'' ''api_key'' i m
        (Some [(''status'', JStr (key_status_name (ak_status x)))]) (Some [(''status'', JStr ''REVOKED'')]) meta)
        (s\<lparr>acc_keys := update_rows (\<lambda>k. ak_id k = i) ?f (acc_keys s)\<rparr>) = Inr ((), s')" and k: "find_key_row i s' = Some k"
      by (auto simp: update_key_def result_simps)
    have "acc_keys s' = update_rows (\<lambda>k. ak_id k = i) ?f (acc_keys s)" using audit_keeps_tables [OF a] by simp
    from that [OF this k r] show ?thesis .
  qed
  have in_keys: "k \<in> set (acc_keys s')" and "ak_id k = i" using find_Some_in [OF k [unfolded find_key_row_def]] by simp_all
  moreover obtain y where "k = (if ak_id y = i then ?f y else y)" using in_keys unfolding keys set_update_rows by (elim imageE)
  ultimately have "ak_status k = KeyRevoked" by (cases "ak_id y = i") simp_all
  with in_keys r show ?thesis by (intro bexI [of _ k]) (simp_all add: key_toResponse_def)
qed

lemma guard_refuses_revoked:
  assumes "k \<in> set (acc_keys s)" "ak_status k = KeyRevoked" "distinct (map ak_keyPrefix (acc_keys s))"
    and "parseApiKey (js_trim key) = Some parsed" "pk_keyPrefix parsed = ak_keyPrefix k"
  shows "ApiKeyGuard verify now (bearer key ip) s = Inl (UnauthenticatedError ''this API key has been revoked'' API_KEY_REVOKED)"
  using find_by_key [OF assms(3,1)] assms(2,4,5)
  by (simp add: ApiKeyGuard_def bearer_def startsWith_def key_state_error_def)

lemma created_row:
  assumes "keys_create gen rs hash now pub sec m u dto meta s = (Inr (resp, plaintext), s')"
  shows "\<exists>k. acc_keys s' = acc_keys s @ [k] \<and> \<not> list_ex (\<lambda>x. ak_keyPrefix x = ak_keyPrefix k) (acc_keys s) \<and> resp = key_toResponse k \<and>
    plaintext = gk_plaintext (generateApiKey hash (if ck_livemode dto = Some True then Live else Test) pub sec) \<and>
    ak_keyPrefix k = gk_keyPrefix (generateApiKey hash (if ck_livemode dto = Some True then Live else Test) pub sec) \<and>
    ak_secretHash k = hash (base64url sec) \<and> ak_merchantId k = m \<and> ak_livemode k = (ck_livemode dto = Some True) \<and>
    ak_scopes k = (case ck_scopes dto of None \<Rightarrow> ALL_API_KEY_SCOPES | Some sc \<Rightarrow> sc) \<and>
    ak_status k = KeyActive \<and> ak_expiresAt k = None \<and> ak_ipAllowlist k = [] \<and> acc_merchants s' = acc_merchants s"
  using assms
  by (auto simp: keys_create_def Let_def create_key_row_def account_id_def proc_Inr_iff result_simps generateApiKey_def
    dest!: audit_keeps_tables split: if_splits)

lemma js_trim_idem: "js_trim (js_trim s) = js_trim s"
proof (cases "js_trim s = []")
  case False
  let ?d = "dropWhile is_space s"
  have "js_trim s = take (length (js_trim s)) ?d" unfolding js_trim_def
    by (metis rev_rev_ident dropWhile_eq_drop rev_drop length_rev length_drop)
  then have "hd (js_trim s) = hd ?d" using False by (metis hd_take length_greater_0_conv)
  moreover have "?d \<noteq> []" "dropWhile is_space (rev ?d) \<noteq> []" using False by (auto simp: js_trim_def simp del: dropWhile_eq_Nil_conv)
  then have "\<not> is_space (hd ?d)" "\<not> is_space (last (js_trim s))"
    using hd_dropWhile [of is_space s] hd_dropWhile [of is_space "rev ?d"] by (simp_all add: js_trim_def last_rev del: dropWhile_eq_Nil_conv)
  ultimately show ?thesis using False by (intro js_trim_id) simp_all
next
  case True
  then show ?thesis by (simp only: True) (simp add: js_trim_def)
qed

lemma parse_trimmed: "parseApiKey (js_trim s) = parseApiKey s"
  by (simp add: parseApiKey_def js_trim_idem)

text \<open>C33: an API key works until it is revoked, and never after. A key that was created authenticates a request that carries
  it, for its merchant, in its mode and with its scopes, while the merchant is active; and once a revocation
  answered with that key, the guard refuses it as revoked, whatever else was done before and is done afterwards, also between the
  checks and the transactions of changes of members. Argon2 verifies a text against its own hash, which is not empty.\<close>

theorem key_works_until_revoked:
  assumes unique: "distinct (map ak_keyPrefix (acc_keys s))"
    and create: "keys_create gen rs hash now pub sec m u dto meta s = (Inr (resp, plaintext), s1)"
    and bytes: "length pub = PUBLIC_ID_BYTES" "length sec = SECRET_BYTES" "list_all (\<lambda>b. b < 256) pub" "list_all (\<lambda>b. b < 256) sec"
    and argon: "\<And>x. hash x \<noteq> [] \<and> verify (hash x) x = Some True"
    and active: "find (\<lambda>a. ma_id a = m) (acc_merchants s) = Some a" "ma_status a = MerchantActive"
  shows "ApiKeyGuard verify later (bearer plaintext ip) s1 = Inr \<lparr>mc_merchantId = m, mc_apiKeyId = kr_id resp, mc_livemode = (ck_livemode dto = Some True),
      mc_scopes = (case ck_scopes dto of None \<Rightarrow> ALL_API_KEY_SCOPES | Some sc \<Rightarrow> sc)\<rparr> \<and>
    (account_step\<^sup>*\<^sup>* s1 s2 \<and> keys_revoke gen' rs' now' m' u' i meta' s2 = (Inr r, s3) \<and> kr_key_prefix r = kr_key_prefix resp \<and> account_step\<^sup>*\<^sup>* s3 t \<longrightarrow>
      ApiKeyGuard verify later (bearer plaintext ip) t = Inl (UnauthenticatedError ''this API key has been revoked'' API_KEY_REVOKED))"
proof (intro conjI impI)
  let ?e = "if ck_livemode dto = Some True then Live else Test"
  let ?g = "generateApiKey hash ?e pub sec"
  obtain k where k: "acc_keys s1 = acc_keys s @ [k]" "\<not> list_ex (\<lambda>x. ak_keyPrefix x = ak_keyPrefix k) (acc_keys s)" "resp = key_toResponse k"
    "plaintext = gk_plaintext ?g" "ak_keyPrefix k = gk_keyPrefix ?g" "ak_secretHash k = hash (base64url sec)" "ak_merchantId k = m"
    "ak_livemode k = (ck_livemode dto = Some True)" "ak_scopes k = (case ck_scopes dto of None \<Rightarrow> ALL_API_KEY_SCOPES | Some sc \<Rightarrow> sc)"
    "ak_status k = KeyActive" "ak_expiresAt k = None" "ak_ipAllowlist k = []" "acc_merchants s1 = acc_merchants s"
    using created_row [OF create] by blast
  have parsed: "parseApiKey (js_trim plaintext) = Some \<lparr>pk_keyPrefix = ak_keyPrefix k, pk_secret = base64url sec, pk_livemode = (?e = Live)\<rparr>"
    unfolding parse_trimmed k(4,5) by (rule generated_key_parses [OF bytes])
  have d1: "distinct (map ak_keyPrefix (acc_keys s1))" using unique k(2) by (auto simp: k(1) list_ex_iff)
  have "find (\<lambda>x. ak_keyPrefix x = ak_keyPrefix k) (acc_keys s1) = Some k" by (rule find_by_key [OF d1]) (simp add: k(1))
  moreover have "verifyApiKeySecret verify (base64url sec) (ak_secretHash k)"
    using argon [of "base64url sec"] base64url_sizes(2) [of sec] bytes(2) by (auto simp: verifyApiKeySecret_def k(6) SECRET_BYTES_def)
  ultimately show "ApiKeyGuard verify later (bearer plaintext ip) s1 = Inr \<lparr>mc_merchantId = m, mc_apiKeyId = kr_id resp,
      mc_livemode = (ck_livemode dto = Some True), mc_scopes = (case ck_scopes dto of None \<Rightarrow> ALL_API_KEY_SCOPES | Some sc \<Rightarrow> sc)\<rparr>"
    using parsed active k by (simp add: ApiKeyGuard_def bearer_def startsWith_def key_state_error_def expired_def key_toResponse_def)
  assume steps: "account_step\<^sup>*\<^sup>* s1 s2 \<and> keys_revoke gen' rs' now' m' u' i meta' s2 = (Inr r, s3) \<and> kr_key_prefix r = kr_key_prefix resp \<and> account_step\<^sup>*\<^sup>* s3 t"
  have "account_step s2 (snd (keys_revoke gen' rs' now' m' u' i meta' s2))" by (intro step_table step_revoke)
  then have "keys_stay_revoked s1 s3" using steps key_steps.account_steps_kept key_steps.account_step_kept key_steps.R_trans by (metis snd_conv)
  then have d3: "distinct (map ak_keyPrefix (acc_keys s3))" using d1 by (simp add: keys_stay_revoked_def)
  obtain j where "j \<in> set (acc_keys s3)" "ak_keyPrefix j = ak_keyPrefix k" "ak_status j = KeyRevoked"
    using revoked_row steps k(3) by (fastforce simp: key_toResponse_def)
  moreover have "keys_stay_revoked s3 t" using steps key_steps.account_steps_kept by blast
  ultimately obtain l where "l \<in> set (acc_keys t)" "ak_keyPrefix l = ak_keyPrefix k" "ak_status l = KeyRevoked" "distinct (map ak_keyPrefix (acc_keys t))"
    using d3 unfolding keys_stay_revoked_def by metis
  then show "ApiKeyGuard verify later (bearer plaintext ip) t = Inl (UnauthenticatedError ''this API key has been revoked'' API_KEY_REVOKED)"
    using guard_refuses_revoked parsed by fastforce
qed

definition sample_dto :: create_key_dto where
  "sample_dto = \<lparr>ck_name = ''till'', ck_livemode = Some True, ck_scopes = Some [''invoices:read'']\<rparr>"

lemma sample_key_created: "is_ok (fst (keys_create sample_gen id (\<lambda>x. CHR ''h'' # x) 0 (replicate 9 0) (replicate 32 255) ''mch'' ''u1'' sample_dto sample_meta sample_accounts))"
  by code_simp

theorem key_works_until_revoked_witness:
  "\<exists>resp plaintext s1. keys_create sample_gen id (\<lambda>x. CHR ''h'' # x) 0 (replicate 9 0) (replicate 32 255) ''mch'' ''u1'' sample_dto sample_meta sample_accounts =
      (Inr (resp, plaintext), s1) \<and>
    ApiKeyGuard (\<lambda>h x. Some (h = CHR ''h'' # x)) 5 (bearer plaintext ''1.2.3.4'') s1 =
      Inr \<lparr>mc_merchantId = ''mch'', mc_apiKeyId = kr_id resp, mc_livemode = True, mc_scopes = [''invoices:read'']\<rparr>"
proof -
  obtain resp plaintext s1 where c: "keys_create sample_gen id (\<lambda>x. CHR ''h'' # x) 0 (replicate 9 0) (replicate 32 255) ''mch'' ''u1'' sample_dto sample_meta sample_accounts =
      (Inr (resp, plaintext), s1)" using sample_key_created by (metis is_ok_iff prod.collapse)
  have "find (\<lambda>a. ma_id a = ''mch'') (acc_merchants sample_accounts) = Some \<lparr>ma_id = ''mch'', ma_name = ''M'', ma_slug = ''m'', ma_status = MerchantActive, ma_countryCode = None,
       ma_walletMode = ''MERCHANT_CONTROLLED'', ma_kybStatus = ''PASSED'', ma_feeBps = 0, ma_createdAt = 0\<rparr>"
    by (simp add: sample_accounts_def)
  from key_works_until_revoked [OF _ c _ _ _ _ _ this, of "\<lambda>h x. Some (h = CHR ''h'' # x)" 5 "''1.2.3.4''", THEN conjunct1] c show ?thesis
    by (simp add: PUBLIC_ID_BYTES_def SECRET_BYTES_def list_all_iff sample_dto_def) (simp add: sample_accounts_def)
qed

text \<open>The guard looks at the state of a key before it looks at the secret, so anyone who sends a prefix with any secret learns
  whether that key exists and was revoked. A key with the status \<open>EXPIRED\<close> is not refused by its status.\<close>

lemma guard_tells_revoked_prefixes:
  "ApiKeyGuard verify now (bearer (''pk_live_AAAAAAAAAAAA.'' @ replicate 40 (CHR ''x'')) ip) (sample_accounts\<lparr>acc_keys :=
     [\<lparr>ak_id = ''k'', ak_merchantId = ''mch'', ak_name = [], ak_keyPrefix = ''pk_live_AAAAAAAAAAAA'', ak_secretHash = h, ak_livemode = True, ak_scopes = [],
       ak_ipAllowlist = [], ak_status = KeyRevoked, ak_graceExpiresAt = None, ak_lastUsedAt = None, ak_lastUsedIp = None, ak_expiresAt = None, ak_revokedAt = None,
       ak_revokedBy = None, ak_createdAt = 0\<rparr>]\<rparr>) = Inl (UnauthenticatedError ''this API key has been revoked'' API_KEY_REVOKED)"
proof -
  have "parseApiKey (js_trim (''pk_live_AAAAAAAAAAAA.'' @ replicate 40 (CHR ''x''))) =
    Some \<lparr>pk_keyPrefix = ''pk_live_AAAAAAAAAAAA'', pk_secret = replicate 40 (CHR ''x''), pk_livemode = True\<rparr>" by code_simp
  then show ?thesis by (intro guard_refuses_revoked) (auto simp del: replicate.simps)
qed

section \<open>Guards enforce permissions\<close>

lemma roles_with_permission:
  "role \<in> set (merchantRolesWith ps) \<longleftrightarrow> set ps \<subseteq> set (MERCHANT_ROLE_PERMISSIONS role)"
  "prole \<in> set (platformRolesWith qs) \<longleftrightarrow> set qs \<subseteq> set (PLATFORM_ROLE_PERMISSIONS prole)"
  by (cases role; auto simp: merchantRolesWith_def list_all_iff) (cases prole; auto simp: platformRolesWith_def list_all_iff)

lemma all_permissions: "p \<in> set MerchantPermission" "q \<in> set PlatformPermission"
  by (cases p; simp add: MerchantPermission_def) (cases q; simp add: PlatformPermission_def)

lemma some_role_has: "merchantRolesWith ps \<noteq> []" "platformRolesWith qs \<noteq> []"
proof -
  have "Owner \<in> set (merchantRolesWith ps)" "RoleAdmin \<in> set (platformRolesWith qs)"
    using all_permissions by (auto simp: roles_with_permission)
  then show "merchantRolesWith ps \<noteq> []" "platformRolesWith qs \<noteq> []" by force+
qed

lemma role_names_inj: "merchant_role_name r = merchant_role_name q \<longleftrightarrow> r = q" "platform_role_name a = platform_role_name b \<longleftrightarrow> a = b"
  by (cases r; cases q; simp) (cases a; cases b; simp)

text \<open>The guards admit exactly those who have the required permissions. On a route that requires merchant permissions the
  guard lets a user act for a merchant exactly when the user is a member of it, it is active and the member's role has all of
  them; on a route that requires platform permissions exactly when the role of the session has all of them. Managing members is
  left to owners, deciding on signing requests and refunds to administrators, reviewing compliance to compliance officers
  and administrators.\<close>

lemma guards_enforce_permissions:
  "(MerchantRoleGuard (Some (map merchant_role_name (merchantRolesWith ps))) cls request (Some u) s = Inr (m, role) \<longleftrightarrow>
      truthy (hq_merchantId request) \<and> m = the (hq_merchantId request) \<and>
      (\<exists>x. find (\<lambda>x. mm_merchantId x = m \<and> mm_userId x = uc_userId u) (acc_members s) = Some x \<and> mm_role x = role) \<and>
      list_ex (\<lambda>a. ma_id a = m \<and> ma_status a = MerchantActive) (acc_merchants s) \<and> set ps \<subseteq> set (MERCHANT_ROLE_PERMISSIONS role)) \<and>
   (PlatformRoleGuard (Some (map platform_role_name (platformRolesWith qs))) cls (Some (u\<lparr>uc_platformRole := platform_role_name prole\<rparr>)) = Inr () \<longleftrightarrow>
      set qs \<subseteq> set (PLATFORM_ROLE_PERMISSIONS prole)) \<and>
   merchantRolesWith [MEMBERS_MANAGE] = [Owner] \<and> platformRolesWith [SIGNING_DECIDE] = [RoleAdmin] \<and> platformRolesWith [REFUNDS_DECIDE] = [RoleAdmin] \<and>
   platformRolesWith [COMPLIANCE_REVIEW] = [RoleComplianceOfficer, RoleAdmin]"
proof (intro conjI)
  have "merchant_role_name r \<in> set (map merchant_role_name (merchantRolesWith ps)) \<longleftrightarrow> set ps \<subseteq> set (MERCHANT_ROLE_PERMISSIONS r)" for r
    using roles_with_permission(1) by (auto simp: role_names_inj)
  then show "MerchantRoleGuard (Some (map merchant_role_name (merchantRolesWith ps))) cls request (Some u) s = Inr (m, role) \<longleftrightarrow>
      truthy (hq_merchantId request) \<and> m = the (hq_merchantId request) \<and>
      (\<exists>x. find (\<lambda>x. mm_merchantId x = m \<and> mm_userId x = uc_userId u) (acc_members s) = Some x \<and> mm_role x = role) \<and>
      list_ex (\<lambda>a. ma_id a = m \<and> ma_status a = MerchantActive) (acc_merchants s) \<and> set ps \<subseteq> set (MERCHANT_ROLE_PERMISSIONS role)"
    using some_role_has(1) [of ps] by (auto simp: MerchantRoleGuard_def metadata_def Let_def split: option.splits if_splits)
  have "platform_role_name prole \<in> set (map platform_role_name (platformRolesWith qs)) \<longleftrightarrow> set qs \<subseteq> set (PLATFORM_ROLE_PERMISSIONS prole)"
    using roles_with_permission(2) by (auto simp: role_names_inj)
  then show "PlatformRoleGuard (Some (map platform_role_name (platformRolesWith qs))) cls (Some (u\<lparr>uc_platformRole := platform_role_name prole\<rparr>)) = Inr () \<longleftrightarrow>
      set qs \<subseteq> set (PLATFORM_ROLE_PERMISSIONS prole)"
    using some_role_has(2) [of qs] by (auto simp: PlatformRoleGuard_def metadata_def)
qed (simp_all add: merchantRolesWith_def platformRolesWith_def READ_ONLY_MERCHANT_PERMISSIONS_def READ_ONLY_PLATFORM_PERMISSIONS_def
    MerchantPermission_def PlatformPermission_def)

text \<open>None of these operations changes a merchant.\<close>

definition merchants_kept :: "accounts \<Rightarrow> accounts \<Rightarrow> bool" where
  "merchants_kept s t \<longleftrightarrow> acc_merchants t = acc_merchants s"

interpretation merchant_steps: member_blind_relation merchants_kept
  by unfold_locales (simp_all add: merchants_kept_def)

end
