(* ===== verification/Http.thy ===== *)
theory Http
  imports Accounts Rates
begin

text \<open>
  What every request passes through (\<open>packages/security/src/rate-limiter.ts\<close>, \<open>apps/api/src/common\<close>: \<open>rate-limit.guard.ts\<close>,
  \<open>http-exception.filter.ts\<close>, \<open>pagination.ts\<close>): the limiter and its guard, the error boundary and the pages of
  lists. Redis is a parameter: its three commands, with what its documentation says of counters that
  expire as the hypothesis \<open>redis_counts\<close>. The order of identifiers in the database is any linear order.
\<close>

section \<open>The rate limiter\<close>

text \<open>The commands at a time: \<open>INCR\<close>, \<open>PEXPIRE\<close>, \<open>PTTL\<close>.\<close>

record 's redis =
  rd_incr :: "int \<Rightarrow> string \<Rightarrow> 's \<Rightarrow> int \<times> 's"
  rd_pexpire :: "int \<Rightarrow> string \<Rightarrow> int \<Rightarrow> 's \<Rightarrow> 's"
  rd_pttl :: "int \<Rightarrow> string \<Rightarrow> 's \<Rightarrow> int"

definition FIXED_WINDOW_SCRIPT :: "'s redis \<Rightarrow> int \<Rightarrow> string \<Rightarrow> int \<Rightarrow> 's \<Rightarrow> (int \<times> int) \<times> 's" where
  "FIXED_WINDOW_SCRIPT redis now key windowMs s =
     (let (current, s1) = rd_incr redis now key s;
          s2 = (if current = 1 then rd_pexpire redis now key windowMs s1 else s1) in
      ((current, rd_pttl redis now key s2), s2))"

record rate_limit_result =
  lr_allowed :: bool
  lr_remaining :: int
  lr_retryAfterSeconds :: int

definition ceil_seconds :: "int \<Rightarrow> int" where
  "ceil_seconds ms = - ((- ms) div 1000)"

definition consume :: "'s redis \<Rightarrow> int \<Rightarrow> string \<Rightarrow> int \<Rightarrow> int \<Rightarrow> 's \<Rightarrow> rate_limit_result \<times> 's" where
  "consume redis now key limit windowSeconds s =
     (let windowMs = windowSeconds * 1000; ((current, ttlMs), s') = FIXED_WINDOW_SCRIPT redis now key windowMs s in
      (\<lparr>lr_allowed = (current \<le> limit), lr_remaining = max 0 (limit - current),
        lr_retryAfterSeconds = max 1 (ceil_seconds (if ttlMs > 0 then ttlMs else windowMs))\<rparr>, s'))"

datatype rate_limit_profile = ApiProfile | AuthProfile | InvoiceCreateProfile

fun profile_name :: "rate_limit_profile \<Rightarrow> string" where
  "profile_name ApiProfile = ''api''"
| "profile_name AuthProfile = ''auth''"
| "profile_name InvoiceCreateProfile = ''invoiceCreate''"

definition WINDOW_SECONDS :: int where "WINDOW_SECONDS = 60"

record rate_config =
  rateLimitApiPerMinute :: int
  rateLimitAuthPerMinute :: int
  rateLimitInvoiceCreatePerMinute :: int

record limited_request =
  lq_merchantContext :: "merchant_context option"
  lq_userContext :: "user_context option"
  lq_ip :: string

definition resolve :: "rate_config \<Rightarrow> rate_limit_profile \<Rightarrow> limited_request \<Rightarrow> int \<times> string" where
  "resolve config profile request =
     (case profile of
        AuthProfile \<Rightarrow> (rateLimitAuthPerMinute config, lq_ip request)
      | InvoiceCreateProfile \<Rightarrow> (rateLimitInvoiceCreatePerMinute config,
          case lq_merchantContext request of Some m \<Rightarrow> mc_merchantId m | None \<Rightarrow> lq_ip request)
      | ApiProfile \<Rightarrow> (rateLimitApiPerMinute config,
          case lq_merchantContext request of Some m \<Rightarrow> mc_apiKeyId m
          | None \<Rightarrow> (case lq_userContext request of Some u \<Rightarrow> uc_userId u | None \<Rightarrow> lq_ip request)))"

definition bucket :: "rate_limit_profile \<Rightarrow> string \<Rightarrow> string" where
  "bucket profile identity = ''ratelimit:'' @ profile_name profile @ '':'' @ identity"

definition route_profile :: "rate_limit_profile option \<Rightarrow> rate_limit_profile option \<Rightarrow> rate_limit_profile" where
  "route_profile handler cls = (case metadata handler cls of None \<Rightarrow> ApiProfile | Some p \<Rightarrow> p)"

definition RateLimitGuard :: "'s redis \<Rightarrow> rate_config \<Rightarrow> int \<Rightarrow> rate_limit_profile option \<Rightarrow> rate_limit_profile option \<Rightarrow> limited_request \<Rightarrow> 's \<Rightarrow>
  (app_error + unit) \<times> 's" where
  "RateLimitGuard redis config now handler cls request s =
     (let profile = route_profile handler cls; (limit, identity) = resolve config profile request;
          (result, s') = consume redis now (bucket profile identity) limit WINDOW_SECONDS s in
      (if \<not> lr_allowed result then Inl (RateLimitError (lr_retryAfterSeconds result) ''Too many requests'') else Inr (), s'))"

section \<open>Any minute\<close>

text \<open>What Redis promises of counters. A stored counter is seen with the time it expires, if it does; it counts until
  that time has passed.\<close>

definition live :: "int \<Rightarrow> (int \<times> int option) option \<Rightarrow> (int \<times> int option) option" where
  "live now v = (case v of Some (_, Some e) \<Rightarrow> if e < now then None else v | _ \<Rightarrow> v)"

definition redis_counts :: "'s redis \<Rightarrow> ('s \<Rightarrow> string \<Rightarrow> (int \<times> int option) option) \<Rightarrow> bool" where
  "redis_counts redis view \<longleftrightarrow>
     (\<forall>now k s. case live now (view s k) of
        None \<Rightarrow> fst (rd_incr redis now k s) = 1 \<and> view (snd (rd_incr redis now k s)) k = Some (1, None)
      | Some (n, e) \<Rightarrow> fst (rd_incr redis now k s) = n + 1 \<and> view (snd (rd_incr redis now k s)) k = Some (n + 1, e)) \<and>
     (\<forall>now k j s. j \<noteq> k \<longrightarrow> view (snd (rd_incr redis now k s)) j = view s j) \<and>
     (\<forall>now k ms s n e. view s k = Some (n, e) \<longrightarrow> view (rd_pexpire redis now k ms s) k = Some (n, Some (now + ms))) \<and>
     (\<forall>now k j ms s. j \<noteq> k \<longrightarrow> view (rd_pexpire redis now k ms s) j = view s j)"

text \<open>Requests to routes with their profile, one after the other, and which of them were let through.\<close>

record arrival =
  av_now :: int
  av_profile :: rate_limit_profile
  av_request :: limited_request

fun guard_run :: "'s redis \<Rightarrow> rate_config \<Rightarrow> arrival list \<Rightarrow> 's \<Rightarrow> (arrival \<times> bool) list" where
  "guard_run redis config [] s = []"
| "guard_run redis config (a # rest) s =
     (case RateLimitGuard redis config (av_now a) (Some (av_profile a)) None (av_request a) s of
        (r, s') \<Rightarrow> (a, is_ok r) # guard_run redis config rest s')"

definition caller :: "rate_config \<Rightarrow> arrival \<Rightarrow> rate_limit_profile \<times> string" where
  "caller config a = (av_profile a, snd (resolve config (av_profile a) (av_request a)))"

definition profile_limit :: "rate_config \<Rightarrow> rate_limit_profile \<Rightarrow> int" where
  "profile_limit config p = (case p of ApiProfile \<Rightarrow> rateLimitApiPerMinute config | AuthProfile \<Rightarrow> rateLimitAuthPerMinute config
     | InvoiceCreateProfile \<Rightarrow> rateLimitInvoiceCreatePerMinute config)"

definition admitted :: "rate_config \<Rightarrow> rate_limit_profile \<times> string \<Rightarrow> (int \<Rightarrow> bool) \<Rightarrow> (arrival \<times> bool) list \<Rightarrow> int" where
  "admitted config c during outcomes = int (length (filter (\<lambda>(a, ok). ok \<and> caller config a = c \<and> during (av_now a)) outcomes))"

lemma bucket_inj: "bucket p i = bucket q j \<longleftrightarrow> p = q \<and> i = j"
  by (cases p; cases q) (simp_all add: bucket_def)

lemma resolve_limit: "fst (resolve config p r) = profile_limit config p"
  by (cases p) (simp_all add: resolve_def profile_limit_def)

text \<open>One request: the counter of its bucket goes up, or begins a new window.\<close>

lemma guard_step:
  fixes view :: "'s \<Rightarrow> string \<Rightarrow> (int \<times> int option) option"
  assumes redis: "redis_counts redis view"
    and run: "RateLimitGuard redis config (av_now a) (Some (av_profile a)) None (av_request a) s = (r, s')"
  shows "caller config a = (p, i) \<Longrightarrow> live (av_now a) (view s (bucket p i)) = Some (n, e) \<Longrightarrow> 0 < n \<Longrightarrow>
      view s' (bucket p i) = Some (n + 1, e) \<and> (is_ok r \<longleftrightarrow> n + 1 \<le> profile_limit config p)"
    and "caller config a = (p, i) \<Longrightarrow> live (av_now a) (view s (bucket p i)) = None \<Longrightarrow>
      view s' (bucket p i) = Some (1, Some (av_now a + 60000)) \<and> (is_ok r \<longleftrightarrow> 1 \<le> profile_limit config p)"
    and "caller config a \<noteq> (p, i) \<Longrightarrow> view s' (bucket p i) = view s (bucket p i)"
proof -
  let ?k = "bucket (av_profile a) (snd (resolve config (av_profile a) (av_request a)))"
  obtain c s1 where incr: "rd_incr redis (av_now a) ?k s = (c, s1)" by fastforce
  have s': "s' = (if c = 1 then rd_pexpire redis (av_now a) ?k 60000 s1 else s1)"
    and ok: "is_ok r \<longleftrightarrow> c \<le> profile_limit config (av_profile a)"
    using run incr
    by (auto simp: RateLimitGuard_def route_profile_def metadata_def consume_def FIXED_WINDOW_SCRIPT_def WINDOW_SECONDS_def Let_def resolve_limit
      case_prod_beta split: if_splits)
  note laws = redis [unfolded redis_counts_def]
  { assume "caller config a = (p, i)" and l: "live (av_now a) (view s (bucket p i)) = Some (n, e)" "0 < n"
    then have k: "?k = bucket p i" "av_profile a = p" by (auto simp: caller_def)
    have "c = n + 1" "view s1 (bucket p i) = Some (n + 1, e)"
      using laws [THEN conjunct1, rule_format, of "av_now a" "bucket p i" s] l incr k by simp_all
    with s' ok k l(2) show "view s' (bucket p i) = Some (n + 1, e) \<and> (is_ok r \<longleftrightarrow> n + 1 \<le> profile_limit config p)" by simp }
  { assume "caller config a = (p, i)" and l: "live (av_now a) (view s (bucket p i)) = None"
    then have k: "?k = bucket p i" "av_profile a = p" by (auto simp: caller_def)
    have "c = 1" "view s1 (bucket p i) = Some (1, None)"
      using laws [THEN conjunct1, rule_format, of "av_now a" "bucket p i" s] l incr k by simp_all
    with s' ok k laws show "view s' (bucket p i) = Some (1, Some (av_now a + 60000)) \<and> (is_ok r \<longleftrightarrow> 1 \<le> profile_limit config p)" by simp }
  { assume "caller config a \<noteq> (p, i)"
    then have "?k \<noteq> bucket p i" by (auto simp: caller_def bucket_inj)
    then show "view s' (bucket p i) = view s (bucket p i)" using s' laws incr by (metis snd_conv) }
qed

lemma admitted_simps [simp]:
  "admitted config c P [] = 0"
  "admitted config c P ((a, ok) # rest) = (if ok \<and> caller config a = c \<and> P (av_now a) then 1 else 0) + admitted config c P rest"
  by (simp_all add: admitted_def)

lemma admitted_mono: "(\<And>x. P x \<Longrightarrow> Q x) \<Longrightarrow> admitted config c P outcomes \<le> admitted config c Q outcomes"
  by (induction outcomes) auto

lemma admitted_none: "list_all (\<lambda>a. \<not> P (av_now a)) as \<Longrightarrow> admitted config c P (guard_run redis config as s) = 0"
  by (induction as arbitrary: s) (auto split: prod.splits)

lemma sorted_after: "sorted (map av_now (a # rest)) \<Longrightarrow> e < av_now a \<Longrightarrow> list_all (\<lambda>b. \<not> av_now b \<le> e) rest"
  by (force simp: list_all_iff)

text \<open>A window with \<open>n\<close> requests admits what is left of the limit, and the next one the limit.\<close>

lemma rest_of_window:
  assumes "redis_counts redis view" "view s (bucket p i) = Some (n, Some e)" "0 < n" "sorted (map av_now as)"
  shows "admitted config (p, i) (\<lambda>x. x \<le> e) (guard_run redis config as s) \<le> max 0 (profile_limit config p - n)"
  using assms(2-4)
proof (induction as arbitrary: s n)
  case (Cons a rest)
  obtain r s' where g: "RateLimitGuard redis config (av_now a) (Some (av_profile a)) None (av_request a) s = (r, s')" by fastforce
  note step = guard_step [OF assms(1) g, where p = p and i = i]
  have sorted: "sorted (map av_now rest)" using Cons.prems(3) by simp
  show ?case
  proof (cases "av_now a \<le> e")
    case False
    then have "admitted config (p, i) (\<lambda>x. x \<le> e) (guard_run redis config rest s') = 0"
      using sorted_after [OF Cons.prems(3), of e] by (intro admitted_none) simp
    with False g show ?thesis by simp
  next
    case before: True
    show ?thesis
    proof (cases "caller config a = (p, i)")
      case True
      then have "view s' (bucket p i) = Some (n + 1, Some e)" "is_ok r \<longleftrightarrow> n + 1 \<le> profile_limit config p"
        using step(1) [of n "Some e"] Cons.prems before by (simp_all add: live_def)
      with Cons.IH [of s' "n + 1"] Cons.prems(2) sorted g True before show ?thesis by (auto simp: max_def split: if_splits)
    qed (use Cons.IH [of s' n] Cons.prems step(3) sorted g in simp)
  qed
qed simp

lemma window_and_next:
  assumes "redis_counts redis view" "view s (bucket p i) = Some (n, Some e)" "0 < n" "sorted (map av_now as)" "0 \<le> profile_limit config p"
  shows "admitted config (p, i) (\<lambda>x. x \<le> e + 60000) (guard_run redis config as s) \<le> max 0 (profile_limit config p - n) + profile_limit config p"
  using assms(2-4)
proof (induction as arbitrary: s n)
  case (Cons a rest)
  obtain r s' where g: "RateLimitGuard redis config (av_now a) (Some (av_profile a)) None (av_request a) s = (r, s')" by fastforce
  note step = guard_step [OF assms(1) g, where p = p and i = i]
  have sorted: "sorted (map av_now rest)" using Cons.prems(3) by simp
  show ?case
  proof (cases "caller config a = (p, i)")
    case mine: True
    show ?thesis
    proof (cases "av_now a \<le> e")
      case True
      then have "view s' (bucket p i) = Some (n + 1, Some e)" "is_ok r \<longleftrightarrow> n + 1 \<le> profile_limit config p"
        using step(1) [of n "Some e"] Cons.prems mine by (simp_all add: live_def)
      with Cons.IH [of s' "n + 1"] Cons.prems(2) sorted g True mine show ?thesis by (auto simp: max_def split: if_splits)
    next
      case False
      then have v: "view s' (bucket p i) = Some (1, Some (av_now a + 60000))" "is_ok r \<longleftrightarrow> 1 \<le> profile_limit config p"
        using step(2) Cons.prems mine by (simp_all add: live_def)
      have "admitted config (p, i) (\<lambda>x. x \<le> e + 60000) (guard_run redis config rest s') \<le>
        admitted config (p, i) (\<lambda>x. x \<le> av_now a + 60000) (guard_run redis config rest s')" using False by (intro admitted_mono) simp
      with rest_of_window [OF assms(1) v(1) _ sorted, of config] v(2) assms(5) g mine show ?thesis by (auto simp: max_def split: if_splits)
    qed
  qed (use Cons.IH [of s' n] Cons.prems step(3) sorted g in simp)
qed (use assms(5) in simp)

text \<open>Counters that the guard made expire.\<close>

definition expiring :: "('s \<Rightarrow> string \<Rightarrow> (int \<times> int option) option) \<Rightarrow> 's \<Rightarrow> string \<Rightarrow> bool" where
  "expiring view s k \<longleftrightarrow> (case view s k of None \<Rightarrow> True | Some (n, e) \<Rightarrow> 0 < n \<and> e \<noteq> None)"

lemma minute_bound:
  assumes "redis_counts redis view" "expiring view s (bucket p i)" "sorted (map av_now as)" "0 \<le> profile_limit config p"
  shows "admitted config (p, i) (\<lambda>x. t \<le> x \<and> x < t + 60000) (guard_run redis config as s) \<le> 2 * profile_limit config p"
  using assms(2,3)
proof (induction as arbitrary: s)
  case (Cons a rest)
  obtain r s' where g: "RateLimitGuard redis config (av_now a) (Some (av_profile a)) None (av_request a) s = (r, s')" by fastforce
  note step = guard_step [OF assms(1) g, where p = p and i = i]
  let ?in = "\<lambda>x. t \<le> x \<and> x < t + 60000" and ?L = "profile_limit config p"
  have sorted: "sorted (map av_now rest)" using Cons.prems(2) by simp
  show ?case
  proof (cases "caller config a = (p, i)")
    case mine: True
    show ?thesis
    proof (cases "live (av_now a) (view s (bucket p i))")
      case None
      then have v: "view s' (bucket p i) = Some (1, Some (av_now a + 60000))" "is_ok r \<longleftrightarrow> 1 \<le> ?L" using step(2) mine by simp_all
      show ?thesis
      proof (cases "t \<le> av_now a")
        case True
        have "admitted config (p, i) ?in (guard_run redis config rest s') \<le> admitted config (p, i) (\<lambda>x. x \<le> av_now a + 60000) (guard_run redis config rest s')"
          using True by (intro admitted_mono) simp
        with rest_of_window [OF assms(1) v(1) _ sorted, of config] v(2) assms(4) g mine show ?thesis by (auto simp: max_def split: if_splits)
      qed (use Cons.IH [of s'] v(1) sorted g in \<open>simp add: expiring_def\<close>)
    next
      case (Some ne)
      obtain n e where ne: "ne = (n, Some e)" "view s (bucket p i) = Some (n, Some e)" "0 < n" "av_now a \<le> e"
        using Some Cons.prems(1) by (auto simp: live_def expiring_def split: option.splits if_splits prod.splits)
      have v: "view s' (bucket p i) = Some (n + 1, Some e)" using step(1) mine Some ne by simp
      show ?thesis
      proof (cases "t \<le> av_now a")
        case True
        have "admitted config (p, i) ?in (guard_run redis config (a # rest) s) \<le> admitted config (p, i) (\<lambda>x. x \<le> e + 60000) (guard_run redis config (a # rest) s)"
          using True ne(4) by (intro admitted_mono) simp
        with window_and_next [OF assms(1) ne(2,3) Cons.prems(2) assms(4)] ne(3) assms(4) show ?thesis by (auto simp: max_def split: if_splits)
      qed (use Cons.IH [of s'] v ne(3) sorted g in \<open>simp add: expiring_def\<close>)
    qed
  qed (use Cons.IH [of s'] Cons.prems step(3) sorted g in \<open>simp add: expiring_def\<close>)
qed (use assms(4) in simp)

text \<open>The store after a number of requests.\<close>

fun guard_state :: "'s redis \<Rightarrow> rate_config \<Rightarrow> arrival list \<Rightarrow> 's \<Rightarrow> 's" where
  "guard_state redis config [] s = s"
| "guard_state redis config (a # rest) s =
     guard_state redis config rest (snd (RateLimitGuard redis config (av_now a) (Some (av_profile a)) None (av_request a) s))"

definition requests_since :: "rate_config \<Rightarrow> rate_limit_profile \<times> string \<Rightarrow> int \<Rightarrow> arrival list \<Rightarrow> int" where
  "requests_since config c t as = int (length (filter (\<lambda>a. caller config a = c \<and> t \<le> av_now a) as))"

lemma guard_state_append: "guard_state redis config (as @ [a]) s =
    snd (RateLimitGuard redis config (av_now a) (Some (av_profile a)) None (av_request a) (guard_state redis config as s))"
  by (induction as arbitrary: s) simp_all

lemma counter_counts:
  assumes "redis_counts redis view" "view s (bucket p i) = None" "sorted (map av_now as)"
  shows "view (guard_state redis config as s) (bucket p i) = None \<or>
    (\<exists>n e. view (guard_state redis config as s) (bucket p i) = Some (n, Some e) \<and> 0 < n \<and> n \<le> requests_since config (p, i) (e - 60000) as \<and>
      e - 60000 \<in> av_now ` set as)"
  using assms(3)
proof (induction as rule: rev_induct)
  case (snoc a as)
  let ?s = "guard_state redis config as s" and ?k = "bucket p i"
  obtain r s' where g: "RateLimitGuard redis config (av_now a) (Some (av_profile a)) None (av_request a) ?s = (r, s')" by fastforce
  note step = guard_step [OF assms(1) g, where p = p and i = i]
  have more: "requests_since config (p, i) t (as @ [a]) = requests_since config (p, i) t as + (if caller config a = (p, i) \<and> t \<le> av_now a then 1 else 0)" for t
    by (simp add: requests_since_def)
  have nonneg: "0 \<le> requests_since config (p, i) t as" for t by (simp add: requests_since_def)
  have IH: "view ?s ?k = None \<or> (\<exists>n e. view ?s ?k = Some (n, Some e) \<and> 0 < n \<and> n \<le> requests_since config (p, i) (e - 60000) as \<and> e - 60000 \<in> av_now ` set as)"
    using snoc by (simp add: sorted_append)
  show ?case
  proof (cases "caller config a = (p, i)")
    case mine: True
    show ?thesis
    proof (cases "live (av_now a) (view ?s ?k)")
      case None
      then show ?thesis using step(2) mine g nonneg [of "av_now a"] by (simp add: guard_state_append more)
    next
      case (Some ne)
      with IH obtain n e where ne: "view ?s ?k = Some (n, Some e)" "0 < n" "n \<le> requests_since config (p, i) (e - 60000) as" "e - 60000 \<in> av_now ` set as"
        and l: "live (av_now a) (view ?s ?k) = Some (n, Some e)" by (auto simp: live_def split: if_splits)
      have "e - 60000 \<le> av_now a" using ne(4) snoc.prems by (auto simp: sorted_append)
      with step(1) [OF mine l ne(2)] ne mine g show ?thesis by (simp add: guard_state_append more)
    qed
  next
    case False
    with step(3) g IH show ?thesis by (auto simp: guard_state_append more)
  qed
qed (use assms(2) in simp)


text \<open>Redis as a map of counters, to try the guard on.\<close>

definition map_redis :: "(string \<rightharpoonup> int \<times> int option) redis" where
  "map_redis = \<lparr>rd_incr = (\<lambda>now k s. case live now (s k) of None \<Rightarrow> (1, s(k \<mapsto> (1, None))) | Some (n, e) \<Rightarrow> (n + 1, s(k \<mapsto> (n + 1, e)))),
     rd_pexpire = (\<lambda>now k ms s. case s k of None \<Rightarrow> s | Some (n, e) \<Rightarrow> s(k \<mapsto> (n, Some (now + ms)))),
     rd_pttl = (\<lambda>now k s. case s k of Some (_, Some e) \<Rightarrow> e - now | Some (_, None) \<Rightarrow> -1 | None \<Rightarrow> -2)\<rparr>"

lemma map_redis_counts: "redis_counts map_redis id"
  by (auto simp: redis_counts_def map_redis_def split: option.splits)

definition sample_arrival :: "int \<Rightarrow> arrival" where
  "sample_arrival now = \<lparr>av_now = now, av_profile = AuthProfile, av_request = \<lparr>lq_merchantContext = None, lq_userContext = None, lq_ip = ''1.2.3.4''\<rparr>\<rparr>"

definition sample_limits :: rate_config where
  "sample_limits = \<lparr>rateLimitApiPerMinute = 120, rateLimitAuthPerMinute = 1, rateLimitInvoiceCreatePerMinute = 60\<rparr>"


section \<open>The error boundary\<close>

text \<open>What can be thrown: an \<open>AppError\<close>, with the seconds of a \<open>RateLimitError\<close>; Nest's \<open>HttpException\<close> with the response it
  carries; an \<open>Error\<close>, which Fastify gives a \<open>statusCode\<close>; or a value that is no error.\<close>

datatype thrown =
    ThrownApp "int option" app_error
  | ThrownHttp int "string + json option" string
  | ThrownError "int option" string string
  | ThrownValue string

record http_reply =
  hr_status :: int
  hr_retryAfter :: "string option"
  hr_body :: json

definition error_body :: "string \<Rightarrow> json \<Rightarrow> string \<Rightarrow> json" where
  "error_body code message requestId = JObj [(''error'', JObj [(''code'', JStr code), (''message'', message), (''request_id'', JStr requestId)])]"

definition reply_id :: "string option \<Rightarrow> string option \<Rightarrow> string \<Rightarrow> string" where
  "reply_id attached header fresh = (case attached of Some r \<Rightarrow> r | None \<Rightarrow> (case header of Some r \<Rightarrow> r | None \<Rightarrow> fresh))"

text \<open>The reply and what is logged.\<close>

definition AppExceptionFilter :: "(string \<Rightarrow> string) \<Rightarrow> string \<Rightarrow> thrown \<Rightarrow> http_reply \<times> json list" where
  "AppExceptionFilter redactString requestId exception =
     (case exception of
        ThrownApp retryAfterSeconds e \<Rightarrow>
          (\<lparr>hr_status = ae_httpStatus e, hr_retryAfter = map_option show_int retryAfterSeconds, hr_body = toPublicJSON e (Some requestId)\<rparr>,
           if \<not> ae_operational e
           then [redact redactString None [] (JObj [(''message'', JStr (ae_message e)), (''code'', JStr (ErrorCode (ae_code e))), (''requestId'', JStr requestId)])]
           else [])
      | ThrownHttp status body message \<Rightarrow>
          (\<lparr>hr_status = status, hr_retryAfter = None,
            hr_body = error_body (if status = 400 then ''validation_failed'' else ''http_error'')
              (case body of Inl text \<Rightarrow> JStr text | Inr (Some m) \<Rightarrow> m | Inr None \<Rightarrow> JStr message) requestId\<rparr>, [])
      | ThrownError (Some code) message stack \<Rightarrow>
          if 400 \<le> code \<and> code < 500
          then (\<lparr>hr_status = code, hr_retryAfter = None, hr_body = error_body ''http_error'' (JStr message) requestId\<rparr>, [])
          else (\<lparr>hr_status = 500, hr_retryAfter = None, hr_body = error_body ''internal_error'' (JStr ''Internal server error'') requestId\<rparr>,
            [redact redactString None [] (JObj [(''message'', JStr message), (''stack'', JStr stack), (''requestId'', JStr requestId)])])
      | ThrownError None message stack \<Rightarrow>
          (\<lparr>hr_status = 500, hr_retryAfter = None, hr_body = error_body ''internal_error'' (JStr ''Internal server error'') requestId\<rparr>,
            [redact redactString None [] (JObj [(''message'', JStr message), (''stack'', JStr stack), (''requestId'', JStr requestId)])])
      | ThrownValue text \<Rightarrow>
          (\<lparr>hr_status = 500, hr_retryAfter = None, hr_body = error_body ''internal_error'' (JStr ''Internal server error'') requestId\<rparr>,
            [redact redactString None [] (JObj [(''message'', JStr text), (''requestId'', JStr requestId)])]))"

text \<open>Who sees what of a failure: an unexpected error is answered with the same reply whatever it says, the cause of an \<open>AppError\<close>
  never matters, and what is logged is redacted.\<close>

definition unexpected :: "thrown \<Rightarrow> bool" where
  "unexpected x = (case x of ThrownError (Some code) _ _ \<Rightarrow> \<not> (400 \<le> code \<and> code < 500) | ThrownError None _ _ \<Rightarrow> True | ThrownValue _ \<Rightarrow> True | _ \<Rightarrow> False)"

lemma unexpected_errors_are_opaque:
  "unexpected x \<Longrightarrow> fst (AppExceptionFilter rs i x) =
     \<lparr>hr_status = 500, hr_retryAfter = None, hr_body = error_body ''internal_error'' (JStr ''Internal server error'') i\<rparr>"
proof (cases x)
  case (ThrownError code message stack)
  then show "unexpected x \<Longrightarrow> ?thesis" by (cases code) (simp_all add: AppExceptionFilter_def unexpected_def)
qed (simp_all add: AppExceptionFilter_def unexpected_def)

lemma cause_never_answered:
  "fst (AppExceptionFilter rs i (ThrownApp n (e\<lparr>ae_cause := c\<rparr>))) = fst (AppExceptionFilter rs i (ThrownApp n e))"
  by (simp add: AppExceptionFilter_def toPublicJSON_def)

text \<open>A refused request is told when to come back: at least one second later.\<close>

lemma refusal_says_when:
  assumes "fst (RateLimitGuard redis config now handler cls request s) = Inl e"
  shows "\<exists>n \<ge> 1. e = RateLimitError n ''Too many requests'' \<and> hr_status (fst (AppExceptionFilter rs i (ThrownApp (Some n) e))) = 429 \<and>
    hr_retryAfter (fst (AppExceptionFilter rs i (ThrownApp (Some n) e))) = Some (show_int n)"
  using assms
  by (auto simp: RateLimitGuard_def consume_def AppExceptionFilter_def RateLimitError_def AppError_def AppError_new_def Let_def split: prod.splits if_splits)

section \<open>Pages of a list\<close>

definition DEFAULT_PAGE_LIMIT :: int where "DEFAULT_PAGE_LIMIT = 20"
definition MAX_PAGE_LIMIT :: int where "MAX_PAGE_LIMIT = 100"

definition parseLimit :: "string option \<Rightarrow> int option \<Rightarrow> int option \<Rightarrow> app_error + int" where
  "parseLimit raw usual most =
     (let fallback = (case usual of None \<Rightarrow> DEFAULT_PAGE_LIMIT | Some d \<Rightarrow> d); highest = (case most of None \<Rightarrow> MAX_PAGE_LIMIT | Some m \<Rightarrow> m);
          refuse = Inl (ValidationError (''limit must be an integer between 1 and '' @ show_int highest) None) in
      case raw of None \<Rightarrow> Inr fallback
      | Some text \<Rightarrow> (case finite_number (Number_text text) of None \<Rightarrow> refuse
        | Some parsed \<Rightarrow> if parsed \<noteq> of_int \<lfloor>parsed\<rfloor> \<or> parsed < 1 \<or> parsed > of_int highest then refuse else Inr \<lfloor>parsed\<rfloor>))"

definition paginate :: "('a \<Rightarrow> 'k) \<Rightarrow> 'a list \<Rightarrow> nat \<Rightarrow> 'a list \<times> 'k option" where
  "paginate ident rows limit =
     (let items = take limit rows in (items, if length rows > limit \<and> items \<noteq> [] then Some (ident (last items)) else None))"

text \<open>The query of a list: the matching rows after the cursor in the order of their identifiers, one more than a page.\<close>

definition list_page :: "('a \<Rightarrow> 'k::linorder) \<Rightarrow> ('a \<Rightarrow> bool) \<Rightarrow> 'k option \<Rightarrow> nat \<Rightarrow> 'a list \<Rightarrow> 'a list \<times> 'k option" where
  "list_page ident matching cursor limit rows =
     paginate ident (take (limit + 1) (sort_key ident (filter (\<lambda>r. matching r \<and> (case cursor of None \<Rightarrow> True | Some c \<Rightarrow> ident r > c)) rows))) limit"

text \<open>A client that follows the cursors, for as many pages as it is willing to ask for.\<close>

fun follow :: "nat \<Rightarrow> ('k option \<Rightarrow> 'a list \<times> 'k option) \<Rightarrow> 'k option \<Rightarrow> 'a list list option" where
  "follow 0 page cursor = None"
| "follow (Suc n) page cursor = (case page cursor of
     (items, None) \<Rightarrow> Some [items]
   | (items, Some c) \<Rightarrow> map_option ((#) items) (follow n page (Some c)))"

lemma sorted_distinct_less:
  fixes ident :: "'a \<Rightarrow> 'k::linorder"
  assumes "sorted (map ident xs)" "distinct (map ident xs)" "i < j" "j < length xs"
  shows "ident (xs ! i) < ident (xs ! j)"
proof -
  have "map ident xs ! i \<le> map ident xs ! j" using assms(1,3,4) by (intro sorted_nth_mono) simp_all
  moreover have "map ident xs ! i \<noteq> map ident xs ! j" using assms(2-4) nth_eq_iff_index_eq [OF assms(2), of i j] by simp
  ultimately show ?thesis using assms(3,4) by simp
qed

lemma after_cursor:
  fixes ident :: "'a \<Rightarrow> 'k::linorder"
  assumes "sorted (map ident xs)" "distinct (map ident xs)" "0 < limit" "limit < length xs"
  shows "filter (\<lambda>r. ident r > ident (xs ! (limit - 1))) xs = drop limit xs"
proof -
  let ?P = "\<lambda>r. ident r > ident (xs ! (limit - 1))"
  note less = sorted_distinct_less [OF assms(1,2)]
  have "\<not> ?P (xs ! j)" if "j < limit" for j
  proof (cases "j = limit - 1")
    case False
    then have "ident (xs ! j) < ident (xs ! (limit - 1))" using that assms(4) by (intro less) linarith+
    then show ?thesis by (simp add: not_less)
  qed simp
  then have "list_all (\<lambda>r. \<not> ?P r) (take limit xs)" using assms(4) by (simp add: list_all_length)
  then have "filter ?P (take limit xs) = []" by (simp add: filter_empty_conv list_all_iff)
  moreover have "?P (drop limit xs ! j)" if "j < length (drop limit xs)" for j
    using less [of "limit - 1" "limit + j"] that assms(3) by simp
  then have "list_all ?P (drop limit xs)" unfolding list_all_length by blast
  then have "filter ?P (drop limit xs) = drop limit xs" by (simp add: filter_id_conv list_all_iff)
  ultimately show ?thesis using filter_append [of ?P "take limit xs" "drop limit xs"] by (simp only: append_take_drop_id append_Nil)
qed

text \<open>The rows after a cursor, and that following it loses none of them.\<close>

definition remaining :: "('a \<Rightarrow> 'k::linorder) \<Rightarrow> ('a \<Rightarrow> bool) \<Rightarrow> 'k option \<Rightarrow> 'a list \<Rightarrow> 'a list" where
  "remaining ident matching cursor rows = sort_key ident (filter (\<lambda>r. matching r \<and> (case cursor of None \<Rightarrow> True | Some c \<Rightarrow> ident r > c)) rows)"

lemma remaining_sorted:
  "sorted (map ident (remaining ident matching c rows))" "distinct (map ident rows) \<Longrightarrow> distinct (map ident (remaining ident matching c rows))"
proof -
  show "sorted (map ident (remaining ident matching c rows))" by (simp add: remaining_def)
  assume "distinct (map ident rows)"
  then have "distinct (map ident (filter P rows))" for P by (rule distinct_map_filter)
  then show "distinct (map ident (remaining ident matching c rows))" by (simp add: remaining_def distinct_map)
qed

lemma remaining_next:
  assumes "distinct (map ident rows)" "0 < limit" "limit < length (remaining ident matching cursor rows)"
  shows "remaining ident matching (Some (ident (remaining ident matching cursor rows ! (limit - 1)))) rows = drop limit (remaining ident matching cursor rows)"
proof -
  let ?R = "remaining ident matching cursor rows"
  let ?c = "ident (?R ! (limit - 1))"
  have "?R ! (limit - 1) \<in> set ?R" using assms(3) by (intro nth_mem) simp
  then have c: "case cursor of None \<Rightarrow> True | Some c \<Rightarrow> c < ?c" by (simp add: remaining_def split: option.splits)
  have "(matching r \<and> ?c < ident r) = ((matching r \<and> (case cursor of None \<Rightarrow> True | Some c \<Rightarrow> ident r > c)) \<and> ?c < ident r)" for r
    using c by (auto split: option.splits)
  then have "remaining ident matching (Some ?c) rows = filter (\<lambda>r. ident r > ?c) ?R"
    unfolding remaining_def [of ident matching "Some ?c"] option.case
    by (subst remaining_def [of ident matching cursor]) (simp add: filter_sort conj_commute)
  then show ?thesis using after_cursor [OF remaining_sorted(1) remaining_sorted(2) [OF assms(1)] assms(2,3)] by simp
qed

lemma list_page_remaining:
  assumes "0 < limit"
  shows "list_page ident matching cursor limit rows =
    (let R = remaining ident matching cursor rows in (take limit R, if limit < length R then Some (ident (R ! (limit - 1))) else None))"
proof -
  let ?R = "remaining ident matching cursor rows"
  have "take limit (take (limit + 1) ?R) = take limit ?R" by (simp add: min_def)
  moreover have "limit < length ?R \<Longrightarrow> last (take limit ?R) = ?R ! (limit - 1)" using assms by (subst last_conv_nth) auto
  ultimately show ?thesis using assms
    unfolding list_page_def paginate_def remaining_def [symmetric] Let_def by (auto simp: min_def)
qed

lemma follow_remaining:
  assumes "distinct (map ident rows)" "0 < limit" "length (remaining ident matching cursor rows) < n"
  shows "\<exists>pages. follow n (\<lambda>c. list_page ident matching c limit rows) cursor = Some pages \<and> concat pages = remaining ident matching cursor rows \<and>
    list_all (\<lambda>p. length p \<le> limit) pages"
  using assms(3)
proof (induction n arbitrary: cursor)
  case (Suc n)
  let ?R = "remaining ident matching cursor rows"
  show ?case
  proof (cases "limit < length ?R")
    case True
    let ?c = "Some (ident (?R ! (limit - 1)))"
    have onward: "remaining ident matching ?c rows = drop limit ?R" by (rule remaining_next [OF assms(1,2) True])
    have "length (remaining ident matching ?c rows) < n" unfolding onward using Suc.prems True assms(2) by simp
    from Suc.IH [OF this] obtain pages where "follow n (\<lambda>c. list_page ident matching c limit rows) ?c = Some pages"
      "concat pages = drop limit ?R" "list_all (\<lambda>p. length p \<le> limit) pages" unfolding onward by blast
    with True show ?thesis by (intro exI [of _ "take limit ?R # pages"]) (simp add: list_page_remaining [OF assms(2)] Let_def)
  next
    case False
    then show ?thesis by (intro exI [of _ "[?R]"]) (simp add: list_page_remaining [OF assms(2)] Let_def)
  qed
qed simp

text \<open>C40: following the cursors of a list gives every matching row once, in order. A client that asks for page after page until there is
  no cursor stops after at most one page more than there are rows, its pages have at most the requested number of rows, and
  together they are the matching rows in the order of their identifiers.\<close>

theorem pages_enumerate_rows:
  assumes "distinct (map ident rows)" "parseLimit raw None None = Inr limit"
  shows "1 \<le> limit \<and> limit \<le> 100 \<and>
    (\<exists>pages. follow (Suc (length rows)) (\<lambda>c. list_page ident matching c (nat limit) rows) None = Some pages \<and>
      concat pages = sort_key ident (filter matching rows) \<and> list_all (\<lambda>p. length p \<le> nat limit) pages)"
proof -
  have limit: "1 \<le> limit" "limit \<le> 100"
    using assms(2) by (auto simp: parseLimit_def DEFAULT_PAGE_LIMIT_def MAX_PAGE_LIMIT_def Let_def floor_le_iff le_floor_iff not_less split: option.splits if_splits)
  have all: "remaining ident matching None rows = sort_key ident (filter matching rows)" by (simp add: remaining_def)
  have "length (remaining ident matching None rows) < Suc (length rows)" unfolding all by (simp add: le_imp_less_Suc)
  with limit follow_remaining [OF assms(1), of "nat limit" matching None "Suc (length rows)"] show ?thesis unfolding all by simp
qed

theorem pages_enumerate_rows_witness:
  "\<exists>pages. follow 4 (\<lambda>c. list_page (\<lambda>x. x) (\<lambda>_. True) c 20 [3, 1, 2 :: int]) None = Some pages \<and> concat pages = sort_key (\<lambda>x. x) [3, 1, 2]"
proof -
  have "parseLimit None None None = Inr 20" by (simp add: parseLimit_def DEFAULT_PAGE_LIMIT_def)
  from pages_enumerate_rows [OF _ this, of "\<lambda>x. x" "[3, 1, 2 :: int]" "\<lambda>_. True"] show ?thesis by (auto simp: eval_nat_numeral simp del: follow.simps)
qed

end
