(* ===== verification/Admin.thy ===== *)
theory Admin
  imports Http Adapters "HOL-Library.List_Lexorder" "HOL-Library.Char_ord"
begin

text \<open>
  The services of the operators (\<open>apps/api/src/admin\<close>) and of a merchant's webhook endpoints
  (\<open>merchant/webhook-endpoints.service.ts\<close>): deciding on refunds, reviewing compliance checks, resolving discrepancies,
  suspending and reactivating merchants, each with its record in the audit log, and the lists. The state adds their tables to
  those of \<open>Accounts\<close>. Every operation checks a row that it reads first and then writes in a transaction; the two parts are
  definitions of their own. Identifiers are ordered by their characters.
\<close>

section \<open>State\<close>

datatype refund_status = REFUND_REQUESTED | REFUND_COMPLIANCE_REVIEW | REFUND_APPROVED | REFUND_REJECTED | REFUND_PROCESSING | REFUND_BROADCAST
  | REFUND_COMPLETED | REFUND_FAILED

fun refund_status_name :: "refund_status \<Rightarrow> string" where
  "refund_status_name REFUND_REQUESTED = ''REQUESTED''"
| "refund_status_name REFUND_COMPLIANCE_REVIEW = ''COMPLIANCE_REVIEW''"
| "refund_status_name REFUND_APPROVED = ''APPROVED''"
| "refund_status_name REFUND_REJECTED = ''REJECTED''"
| "refund_status_name REFUND_PROCESSING = ''PROCESSING''"
| "refund_status_name REFUND_BROADCAST = ''BROADCAST''"
| "refund_status_name REFUND_COMPLETED = ''COMPLETED''"
| "refund_status_name REFUND_FAILED = ''FAILED''"

datatype compliance_status = NOT_REQUIRED | CHECK_PENDING | PASSED | FLAGGED | BLOCKED

fun compliance_status_name :: "compliance_status \<Rightarrow> string" where
  "compliance_status_name NOT_REQUIRED = ''NOT_REQUIRED''"
| "compliance_status_name CHECK_PENDING = ''PENDING''"
| "compliance_status_name PASSED = ''PASSED''"
| "compliance_status_name FLAGGED = ''FLAGGED''"
| "compliance_status_name BLOCKED = ''BLOCKED''"

record refund =
  rf_id :: string
  rf_invoiceId :: string
  rf_merchantId :: string
  rf_network :: network
  rf_assetSymbol :: string
  rf_assetDecimals :: int
  rf_amount :: int
  rf_destinationAddress :: string
  rf_status :: refund_status
  rf_complianceStatus :: compliance_status
  rf_reason :: "string option"
  rf_requestedBy :: string
  rf_approvedBy :: "string option"
  rf_approvedAt :: "int option"
  rf_rejectedBy :: "string option"
  rf_rejectedAt :: "int option"
  rf_createdAt :: int

record compliance_check =
  cm_id :: string
  cm_subjectType :: string
  cm_subjectId :: string
  cm_checkType :: string
  cm_provider :: string
  cm_status :: compliance_status
  cm_riskScore :: "int option"
  cm_reviewedBy :: "string option"
  cm_reviewedAt :: "int option"
  cm_notes :: "string option"
  cm_createdAt :: int

record open_discrepancy =
  od_id :: string
  od_runId :: string
  od_kind :: string
  od_severity :: string
  od_subjectType :: string
  od_subjectId :: string
  od_network :: "network option"
  od_expectedValue :: "string option"
  od_actualValue :: "string option"
  od_resolvedBy :: "string option"
  od_resolvedAt :: "int option"
  od_resolutionNote :: "string option"
  od_createdAt :: int

record endpoint_row =
  er_id :: string
  er_merchantId :: string
  er_url :: string
  er_eventTypes :: "string list"
  er_secretEncrypted :: string
  er_secretFingerprint :: string
  er_previousSecretEncrypted :: "string option"
  er_secretRotatedAt :: "int option"
  er_enabled :: bool
  er_disabledAt :: "int option"
  er_disabledReason :: "string option"
  er_consecutiveFailures :: int
  er_deletedAt :: "int option"
  er_createdAt :: int

record office =
  of_accounts :: accounts
  of_refunds :: "refund list"
  of_checks :: "compliance_check list"
  of_discrepancies :: "open_discrepancy list"
  of_endpoints :: "endpoint_row list"

type_synonym 'a office_op = "(office, failure, 'a) op"
type_synonym 'a office_proc = "(office, failure, 'a) proc"

text \<open>An operation on the tables of accounts, the audit log among them, as one on all tables.\<close>

definition on_accounts :: "'a acc_op \<Rightarrow> 'a office_op" where
  "on_accounts m = (\<lambda>s. case m (of_accounts s) of Inl e \<Rightarrow> Inl e | Inr (a, t) \<Rightarrow> Inr (a, s\<lparr>of_accounts := t\<rparr>))"

text \<open>\<open>update\<close> of the row with an identifier, which returns the row.\<close>

definition update_row :: "string \<Rightarrow> ('r \<Rightarrow> string) \<Rightarrow> (office \<Rightarrow> 'r list) \<Rightarrow> (('r list \<Rightarrow> 'r list) \<Rightarrow> office \<Rightarrow> office) \<Rightarrow> string \<Rightarrow> ('r \<Rightarrow> 'r) \<Rightarrow> 'r office_op" where
  "update_row model key table put i f =
     bind_op (find_or_throw (RecordNotFound model i) (\<lambda>s. find (\<lambda>r. key r = i) (table s))) (\<lambda>row.
     seq_op (modify (put (update_rows (\<lambda>r. key r = i) f))) (ret (f row)))"

definition admin_entry :: "string \<Rightarrow> string \<Rightarrow> string \<Rightarrow> string \<Rightarrow> string option \<Rightarrow> (string \<times> json) list option \<Rightarrow> (string \<times> json) list option \<Rightarrow>
  (string \<times> json) list option \<Rightarrow> audit_meta \<Rightarrow> audit_entry" where
  "admin_entry actorUserId action resourceType resourceId merchantId before after extra meta =
     \<lparr>ae_actorUserId = Some actorUserId, ae_action = action, ae_resourceType = resourceType, ae_resourceId = Some resourceId,
      ae_merchantId = merchantId, ae_before = before, ae_after = after, ae_metadata = extra, ae_meta = Some meta\<rparr>"

section \<open>Refunds\<close>

record admin_refund_response =
  xr_id :: string
  xr_invoice_id :: string
  xr_merchant_id :: string
  xr_network :: string
  xr_asset :: string
  xr_amount :: string
  xr_destination_address :: string
  xr_status :: string
  xr_compliance_status :: string
  xr_reason :: "string option"
  xr_requested_by :: string
  xr_approved_by :: "string option"
  xr_approved_at :: "int option"
  xr_rejected_by :: "string option"
  xr_rejected_at :: "int option"
  xr_created_at :: int

definition toAdminRefundResponse :: "refund \<Rightarrow> failure + admin_refund_response" where
  "toAdminRefundResponse row =
     bind_result (map_error MoneyFailure (toDecimalString (fromUnits (rf_amount row) (rf_assetSymbol row) (rf_assetDecimals row)))) (\<lambda>amount.
     Inr \<lparr>xr_id = rf_id row, xr_invoice_id = rf_invoiceId row, xr_merchant_id = rf_merchantId row, xr_network = network_name (rf_network row),
       xr_asset = rf_assetSymbol row, xr_amount = amount, xr_destination_address = rf_destinationAddress row,
       xr_status = refund_status_name (rf_status row), xr_compliance_status = compliance_status_name (rf_complianceStatus row),
       xr_reason = rf_reason row, xr_requested_by = rf_requestedBy row, xr_approved_by = rf_approvedBy row, xr_approved_at = rf_approvedAt row,
       xr_rejected_by = rf_rejectedBy row, xr_rejected_at = rf_rejectedAt row, xr_created_at = rf_createdAt row\<rparr>)"

definition APPROVABLE_STATUSES :: "refund_status list" where
  "APPROVABLE_STATUSES = [REFUND_REQUESTED, REFUND_COMPLIANCE_REVIEW]"

definition decide_check :: "string \<Rightarrow> refund office_proc" where
  "decide_check refundId =
     pbind (preads (\<lambda>s. find (\<lambda>r. rf_id r = refundId) (of_refunds s))) (\<lambda>found.
     case found of None \<Rightarrow> pthrow (RequestError (NotFoundError ''refund'' (Some refundId)))
     | Some existing \<Rightarrow>
         if rf_status existing \<notin> set APPROVABLE_STATUSES
         then pthrow (RequestError (ConflictError (''refund cannot be decided from status '' @ refund_status_name (rf_status existing)) CONFLICT None))
         else pret existing)"

definition decided :: "bool \<Rightarrow> string \<Rightarrow> int \<Rightarrow> refund \<Rightarrow> refund" where
  "decided approve actorUserId now r =
     (if approve then r\<lparr>rf_status := REFUND_APPROVED, rf_approvedBy := Some actorUserId, rf_approvedAt := Some now\<rparr>
      else r\<lparr>rf_status := REFUND_REJECTED, rf_rejectedBy := Some actorUserId, rf_rejectedAt := Some now\<rparr>)"

definition decide_write :: "(nat \<Rightarrow> string) \<Rightarrow> (string \<Rightarrow> string) \<Rightarrow> int \<Rightarrow> string \<Rightarrow> string \<Rightarrow> bool \<Rightarrow> audit_meta \<Rightarrow> refund \<Rightarrow> admin_refund_response office_proc" where
  "decide_write gen redactString now actorUserId refundId approve meta existing =
     pbind (atomically (
       bind_op (update_row ''refund'' rf_id of_refunds of_refunds_update refundId (decided approve actorUserId now)) (\<lambda>row.
       seq_op (on_accounts (audit_record gen redactString (admin_entry actorUserId (if approve then ''refund.approved'' else ''refund.rejected'') ''refund''
         refundId (Some (rf_merchantId existing)) (Some [(''status'', JStr (refund_status_name (rf_status existing)))])
         (Some [(''status'', JStr (if approve then ''APPROVED'' else ''REJECTED''))]) None meta)))
       (ret row)))) (\<lambda>updated.
     pfrom_result (toAdminRefundResponse updated))"

definition decide :: "(nat \<Rightarrow> string) \<Rightarrow> (string \<Rightarrow> string) \<Rightarrow> int \<Rightarrow> string \<Rightarrow> string \<Rightarrow> bool \<Rightarrow> audit_meta \<Rightarrow> admin_refund_response office_proc" where
  "decide gen redactString now actorUserId refundId approve meta =
     pbind (decide_check refundId) (decide_write gen redactString now actorUserId refundId approve meta)"

section \<open>Merchants\<close>

record admin_merchant_response =
  xm_id :: string
  xm_name :: string
  xm_slug :: string
  xm_status :: string
  xm_country_code :: "string option"
  xm_wallet_mode :: string
  xm_kyb_status :: string
  xm_fee_bps :: int
  xm_created_at :: int

definition toAdminMerchantResponse :: "merchant_account \<Rightarrow> admin_merchant_response" where
  "toAdminMerchantResponse m = \<lparr>xm_id = ma_id m, xm_name = ma_name m, xm_slug = ma_slug m, xm_status = merchant_status_name (ma_status m),
     xm_country_code = ma_countryCode m, xm_wallet_mode = ma_walletMode m, xm_kyb_status = ma_kybStatus m, xm_fee_bps = ma_feeBps m,
     xm_created_at = ma_createdAt m\<rparr>"

definition office_merchants :: "office \<Rightarrow> merchant_account list" where
  "office_merchants s = acc_merchants (of_accounts s)"

definition put_merchants :: "(merchant_account list \<Rightarrow> merchant_account list) \<Rightarrow> office \<Rightarrow> office" where
  "put_merchants f s = s\<lparr>of_accounts := (of_accounts s)\<lparr>acc_merchants := f (acc_merchants (of_accounts s))\<rparr>\<rparr>"

definition merchants_get :: "string \<Rightarrow> office \<Rightarrow> failure + admin_merchant_response" where
  "merchants_get merchantId s = (case find (\<lambda>m. ma_id m = merchantId) (office_merchants s) of
     None \<Rightarrow> Inl (RequestError (NotFoundError ''merchant'' (Some merchantId))) | Some m \<Rightarrow> Inr (toAdminMerchantResponse m))"

definition transition_check :: "string \<Rightarrow> merchant_status \<Rightarrow> merchant_account office_proc" where
  "transition_check merchantId status =
     pbind (preads (\<lambda>s. find (\<lambda>m. ma_id m = merchantId) (office_merchants s))) (\<lambda>found.
     case found of None \<Rightarrow> pthrow (RequestError (NotFoundError ''merchant'' (Some merchantId)))
     | Some existing \<Rightarrow>
         if ma_status existing = status
         then pthrow (RequestError (ConflictError (''merchant is already '' @ toLowerCase (merchant_status_name status)) CONFLICT None))
         else pret existing)"

definition transition_write :: "(nat \<Rightarrow> string) \<Rightarrow> (string \<Rightarrow> string) \<Rightarrow> string \<Rightarrow> string \<Rightarrow> merchant_status \<Rightarrow> string \<Rightarrow> audit_meta \<Rightarrow> merchant_account \<Rightarrow>
  admin_merchant_response office_proc" where
  "transition_write gen redactString actorUserId merchantId status action meta existing =
     pbind (atomically (
       bind_op (update_row ''merchant'' ma_id office_merchants put_merchants merchantId (\<lambda>m. m\<lparr>ma_status := status\<rparr>)) (\<lambda>row.
       seq_op (on_accounts (audit_record gen redactString (admin_entry actorUserId action ''merchant'' merchantId (Some merchantId)
         (Some [(''status'', JStr (merchant_status_name (ma_status existing)))]) (Some [(''status'', JStr (merchant_status_name status))]) None meta)))
       (ret row)))) (\<lambda>updated.
     pret (toAdminMerchantResponse updated))"

definition suspend :: "(nat \<Rightarrow> string) \<Rightarrow> (string \<Rightarrow> string) \<Rightarrow> string \<Rightarrow> string \<Rightarrow> audit_meta \<Rightarrow> admin_merchant_response office_proc" where
  "suspend gen redactString actorUserId merchantId meta = pbind (transition_check merchantId MerchantSuspended)
     (transition_write gen redactString actorUserId merchantId MerchantSuspended ''merchant.suspended'' meta)"

definition reactivate :: "(nat \<Rightarrow> string) \<Rightarrow> (string \<Rightarrow> string) \<Rightarrow> string \<Rightarrow> string \<Rightarrow> audit_meta \<Rightarrow> admin_merchant_response office_proc" where
  "reactivate gen redactString actorUserId merchantId meta = pbind (transition_check merchantId MerchantActive)
     (transition_write gen redactString actorUserId merchantId MerchantActive ''merchant.reactivated'' meta)"

section \<open>Compliance checks\<close>

record admin_compliance_response =
  xc_id :: string
  xc_subject_type :: string
  xc_subject_id :: string
  xc_check_type :: string
  xc_provider :: string
  xc_status :: string
  xc_risk_score :: "int option"
  xc_reviewed_by :: "string option"
  xc_reviewed_at :: "int option"
  xc_notes :: "string option"
  xc_created_at :: int

definition toAdminComplianceCheckResponse :: "compliance_check \<Rightarrow> admin_compliance_response" where
  "toAdminComplianceCheckResponse row = \<lparr>xc_id = cm_id row, xc_subject_type = cm_subjectType row, xc_subject_id = cm_subjectId row,
     xc_check_type = cm_checkType row, xc_provider = cm_provider row, xc_status = compliance_status_name (cm_status row), xc_risk_score = cm_riskScore row,
     xc_reviewed_by = cm_reviewedBy row, xc_reviewed_at = cm_reviewedAt row, xc_notes = cm_notes row, xc_created_at = cm_createdAt row\<rparr>"

definition review_check :: "string \<Rightarrow> compliance_check office_proc" where
  "review_check checkId =
     pbind (preads (\<lambda>s. find (\<lambda>c. cm_id c = checkId) (of_checks s))) (\<lambda>found.
     case found of None \<Rightarrow> pthrow (RequestError (NotFoundError ''compliance check'' (Some checkId)))
     | Some existing \<Rightarrow>
         if cm_status existing \<noteq> CHECK_PENDING
         then pthrow (RequestError (ConflictError (''compliance check is already '' @ toLowerCase (compliance_status_name (cm_status existing))) CONFLICT None))
         else pret existing)"

definition review_write :: "(nat \<Rightarrow> string) \<Rightarrow> (string \<Rightarrow> string) \<Rightarrow> int \<Rightarrow> string \<Rightarrow> string \<Rightarrow> bool \<Rightarrow> string option \<Rightarrow> audit_meta \<Rightarrow> compliance_check \<Rightarrow>
  admin_compliance_response office_proc" where
  "review_write gen redactString now actorUserId checkId approve note meta existing =
     (let status = (if approve then PASSED else FLAGGED) in
      pbind (atomically (
        bind_op (update_row ''complianceCheck'' cm_id of_checks of_checks_update checkId (\<lambda>c. c\<lparr>cm_status := status, cm_reviewedBy := Some actorUserId,
          cm_reviewedAt := Some now, cm_notes := (case note of Some n \<Rightarrow> Some n | None \<Rightarrow> cm_notes existing)\<rparr>)) (\<lambda>row.
        seq_op (on_accounts (audit_record gen redactString (admin_entry actorUserId ''compliance_check.reviewed'' ''compliance_check'' checkId None
          (Some [(''status'', JStr (compliance_status_name (cm_status existing)))])
          (Some [(''status'', JStr (compliance_status_name status)), (''decision'', JStr (if approve then ''APPROVE'' else ''REJECT''))])
          (if truthy note then Some [(''note'', JStr (the note))] else None) meta)))
        (ret row)))) (\<lambda>updated.
      pret (toAdminComplianceCheckResponse updated)))"

definition review :: "(nat \<Rightarrow> string) \<Rightarrow> (string \<Rightarrow> string) \<Rightarrow> int \<Rightarrow> string \<Rightarrow> string \<Rightarrow> bool \<Rightarrow> string option \<Rightarrow> audit_meta \<Rightarrow> admin_compliance_response office_proc" where
  "review gen redactString now actorUserId checkId approve note meta =
     pbind (review_check checkId) (review_write gen redactString now actorUserId checkId approve note meta)"

section \<open>Discrepancies\<close>

definition resolve_check :: "string \<Rightarrow> open_discrepancy office_proc" where
  "resolve_check discrepancyId =
     pbind (preads (\<lambda>s. find (\<lambda>d. od_id d = discrepancyId) (of_discrepancies s))) (\<lambda>found.
     case found of None \<Rightarrow> pthrow (RequestError (NotFoundError ''reconciliation discrepancy'' (Some discrepancyId)))
     | Some existing \<Rightarrow>
         if od_resolvedAt existing \<noteq> None then pthrow (RequestError (ConflictError ''discrepancy is already resolved'' CONFLICT None))
         else pret existing)"

definition resolve_write :: "(nat \<Rightarrow> string) \<Rightarrow> (string \<Rightarrow> string) \<Rightarrow> int \<Rightarrow> string \<Rightarrow> string \<Rightarrow> string \<Rightarrow> audit_meta \<Rightarrow> open_discrepancy office_proc" where
  "resolve_write gen redactString now actorUserId discrepancyId note meta =
     atomically (
       bind_op (update_row ''reconciliationDiscrepancy'' od_id of_discrepancies of_discrepancies_update discrepancyId
         (\<lambda>d. d\<lparr>od_resolvedBy := Some actorUserId, od_resolvedAt := Some now, od_resolutionNote := Some note\<rparr>)) (\<lambda>row.
       seq_op (on_accounts (audit_record gen redactString (admin_entry actorUserId ''reconciliation_discrepancy.resolved'' ''reconciliation_discrepancy''
         discrepancyId None None None (Some [(''resolution_note'', JStr note)]) meta)))
       (ret row)))"

text \<open>The response has the fields of the row, with its moments as text.\<close>

definition resolve_discrepancy :: "(nat \<Rightarrow> string) \<Rightarrow> (string \<Rightarrow> string) \<Rightarrow> int \<Rightarrow> string \<Rightarrow> string \<Rightarrow> string \<Rightarrow> audit_meta \<Rightarrow> open_discrepancy office_proc" where
  "resolve_discrepancy gen redactString now actorUserId discrepancyId note meta =
     pbind (resolve_check discrepancyId) (\<lambda>_. resolve_write gen redactString now actorUserId discrepancyId note meta)"

section \<open>Lists\<close>

definition refunds_list :: "string option \<Rightarrow> refund_status option \<Rightarrow> string option \<Rightarrow> office \<Rightarrow> failure + admin_refund_response list \<times> string option" where
  "refunds_list limit status cursor s =
     bind_result (map_error RequestError (parseLimit limit None None)) (\<lambda>limit.
     case list_page rf_id (\<lambda>r. case status of None \<Rightarrow> True | Some x \<Rightarrow> rf_status r = x) (if truthy cursor then cursor else None) (nat limit) (of_refunds s) of
       (items, nextCursor) \<Rightarrow> bind_result (map_results toAdminRefundResponse items) (\<lambda>refunds. Inr (refunds, nextCursor)))"

definition merchants_list :: "string option \<Rightarrow> merchant_status option \<Rightarrow> string option \<Rightarrow> office \<Rightarrow> failure + admin_merchant_response list \<times> string option" where
  "merchants_list limit status cursor s =
     bind_result (map_error RequestError (parseLimit limit None None)) (\<lambda>limit.
     case list_page ma_id (\<lambda>r. case status of None \<Rightarrow> True | Some x \<Rightarrow> ma_status r = x) (if truthy cursor then cursor else None) (nat limit) (office_merchants s) of
       (items, nextCursor) \<Rightarrow> Inr (map toAdminMerchantResponse items, nextCursor))"

definition compliance_list :: "string option \<Rightarrow> compliance_status option \<Rightarrow> string option \<Rightarrow> office \<Rightarrow> failure + admin_compliance_response list \<times> string option" where
  "compliance_list limit status cursor s =
     bind_result (map_error RequestError (parseLimit limit None None)) (\<lambda>limit.
     case list_page cm_id (\<lambda>r. case status of None \<Rightarrow> True | Some x \<Rightarrow> cm_status r = x) (if truthy cursor then cursor else None) (nat limit) (of_checks s) of
       (items, nextCursor) \<Rightarrow> Inr (map toAdminComplianceCheckResponse items, nextCursor))"

definition discrepancies_list :: "string option \<Rightarrow> string option \<Rightarrow> string option \<Rightarrow> office \<Rightarrow> failure + open_discrepancy list \<times> string option" where
  "discrepancies_list limit severity cursor s =
     bind_result (map_error RequestError (parseLimit limit None None)) (\<lambda>limit.
     Inr (list_page od_id (\<lambda>d. truthy severity \<longrightarrow> od_severity d = toUpperCase (the severity)) (if truthy cursor then cursor else None) (nat limit)
       (of_discrepancies s)))"

text \<open>The audit log is listed newest first.\<close>

record audit_filters =
  af_merchantId :: "string option"
  af_actorId :: "string option"
  af_action :: "string option"
  af_resourceType :: "string option"

definition audit_logs_list :: "string option \<Rightarrow> audit_filters \<Rightarrow> string option \<Rightarrow> office \<Rightarrow> failure + audit_log list \<times> string option" where
  "audit_logs_list limit filters cursor s =
     bind_result (map_error RequestError (parseLimit limit None None)) (\<lambda>limit.
     Inr (paginate al_id (take (nat limit + 1) (rev (sort_key al_id (filter (\<lambda>l.
       (truthy (af_merchantId filters) \<longrightarrow> al_merchantId l = af_merchantId filters) \<and> (truthy (af_actorId filters) \<longrightarrow> al_actorId l = af_actorId filters) \<and>
       (truthy (af_action filters) \<longrightarrow> al_action l = the (af_action filters)) \<and>
       (truthy (af_resourceType filters) \<longrightarrow> al_resourceType l = the (af_resourceType filters)) \<and>
       (truthy cursor \<longrightarrow> al_id l < the cursor)) (acc_audit (of_accounts s)))))) (nat limit)))"

section \<open>Webhook endpoints of a merchant\<close>

record endpoint_response =
  xe_id :: string
  xe_url :: string
  xe_event_types :: "string list"
  xe_enabled :: bool
  xe_secret_fingerprint :: string
  xe_consecutive_failures :: int
  xe_disabled_reason :: "string option"
  xe_created_at :: int

definition endpoint_toResponse :: "endpoint_row \<Rightarrow> endpoint_response" where
  "endpoint_toResponse row = \<lparr>xe_id = er_id row, xe_url = er_url row, xe_event_types = er_eventTypes row, xe_enabled = er_enabled row,
     xe_secret_fingerprint = er_secretFingerprint row, xe_consecutive_failures = er_consecutiveFailures row, xe_disabled_reason = er_disabledReason row,
     xe_created_at = er_createdAt row\<rparr>"

definition endpoints_list :: "string \<Rightarrow> office \<Rightarrow> endpoint_response list" where
  "endpoints_list merchantId s = map endpoint_toResponse
     (rev (sort_key er_createdAt (filter (\<lambda>e. er_merchantId e = merchantId \<and> er_deletedAt e = None) (of_endpoints s))))"

text \<open>What the service uses of the libraries: AES-GCM, SHA-256 and the key provider. A failed encryption is an error.\<close>

record endpoint_env =
  ee_seal :: "nat list \<Rightarrow> nat list \<Rightarrow> nat list \<Rightarrow> nat list \<Rightarrow> nat list \<times> nat list"
  ee_provider :: key_provider
  ee_sha256Hex :: "string \<Rightarrow> string"

definition encrypted :: "endpoint_env \<Rightarrow> nat list \<Rightarrow> string \<Rightarrow> failure + string" where
  "encrypted env iv secret = map_error AdapterFailure (encryptSecret (ee_seal env) (ee_provider env) iv secret)"

definition endpoints_create :: "(nat \<Rightarrow> string) \<Rightarrow> (string \<Rightarrow> string) \<Rightarrow> endpoint_env \<Rightarrow> int \<Rightarrow> nat list \<Rightarrow> nat list \<Rightarrow> string \<Rightarrow> string \<Rightarrow> string \<Rightarrow>
  string list option \<Rightarrow> audit_meta \<Rightarrow> (endpoint_response \<times> string) office_proc" where
  "endpoints_create gen redactString env now secretBytes iv merchantId userId url eventTypes meta =
     (let secret = generateWebhookSecret secretBytes in
      pbind (atomically (
        bind_op (on_accounts (account_id gen WebhookEndpointId)) (\<lambda>i.
        bind_op (from_result (encrypted env iv secret)) (\<lambda>sealed.
        let row = \<lparr>er_id = i, er_merchantId = merchantId, er_url = url, er_eventTypes = (case eventTypes of None \<Rightarrow> [] | Some e \<Rightarrow> e),
          er_secretEncrypted = sealed, er_secretFingerprint = secretFingerprint (ee_sha256Hex env) secret, er_previousSecretEncrypted = None,
          er_secretRotatedAt = None, er_enabled = True, er_disabledAt = None, er_disabledReason = None, er_consecutiveFailures = 0, er_deletedAt = None,
          er_createdAt = now\<rparr> in
        seq_op (modify (of_endpoints_update (\<lambda>es. es @ [row])))
        (seq_op (on_accounts (audit_record gen redactString (admin_entry userId ''webhook_endpoint.created'' ''webhook_endpoint'' i (Some merchantId) None
          (Some [(''url'', JStr url), (''event_types'', JArr (map JStr (er_eventTypes row)))]) None meta)))
        (ret row)))))) (\<lambda>created.
      pret (endpoint_toResponse created, secret)))"

definition requireOwned :: "string \<Rightarrow> string \<Rightarrow> endpoint_row office_proc" where
  "requireOwned merchantId i =
     pbind (preads (\<lambda>s. find (\<lambda>e. er_id e = i \<and> er_merchantId e = merchantId \<and> er_deletedAt e = None) (of_endpoints s))) (\<lambda>found.
     case found of None \<Rightarrow> pthrow (RequestError (NotFoundError ''webhook endpoint'' (Some i))) | Some e \<Rightarrow> pret e)"

definition endpoint_change :: "int \<Rightarrow> bool option \<Rightarrow> string list option \<Rightarrow> endpoint_row \<Rightarrow> endpoint_row" where
  "endpoint_change now enabled eventTypes e =
     (let e1 = (case enabled of None \<Rightarrow> e | Some b \<Rightarrow> e\<lparr>er_enabled := b\<rparr>);
          e2 = (if enabled = Some False then e1\<lparr>er_disabledAt := Some now, er_disabledReason := Some ''disabled by merchant''\<rparr> else e1);
          e3 = (if enabled = Some True then e2\<lparr>er_disabledAt := None, er_disabledReason := None, er_consecutiveFailures := 0\<rparr> else e2) in
      case eventTypes of None \<Rightarrow> e3 | Some ts \<Rightarrow> e3\<lparr>er_eventTypes := ts\<rparr>)"

definition endpoints_update :: "(nat \<Rightarrow> string) \<Rightarrow> (string \<Rightarrow> string) \<Rightarrow> int \<Rightarrow> string \<Rightarrow> string \<Rightarrow> string \<Rightarrow> bool option \<Rightarrow> string list option \<Rightarrow> audit_meta \<Rightarrow>
  endpoint_response office_proc" where
  "endpoints_update gen redactString now merchantId userId i enabled eventTypes meta =
     pbind (requireOwned merchantId i) (\<lambda>existing.
     pbind (atomically (
       bind_op (update_row ''webhookEndpoint'' er_id of_endpoints of_endpoints_update i (endpoint_change now enabled eventTypes)) (\<lambda>row.
       seq_op (on_accounts (audit_record gen redactString (admin_entry userId ''webhook_endpoint.updated'' ''webhook_endpoint'' i (Some merchantId)
         (Some [(''enabled'', JBool (er_enabled existing)), (''event_types'', JArr (map JStr (er_eventTypes existing)))])
         (Some [(''enabled'', JBool (er_enabled row)), (''event_types'', JArr (map JStr (er_eventTypes row)))]) None meta)))
       (ret row)))) (\<lambda>updated.
     pret (endpoint_toResponse updated)))"

definition rotateSecret :: "(nat \<Rightarrow> string) \<Rightarrow> (string \<Rightarrow> string) \<Rightarrow> endpoint_env \<Rightarrow> int \<Rightarrow> nat list \<Rightarrow> nat list \<Rightarrow> string \<Rightarrow> string \<Rightarrow> string \<Rightarrow> audit_meta \<Rightarrow>
  (endpoint_response \<times> string) office_proc" where
  "rotateSecret gen redactString env now secretBytes iv merchantId userId i meta =
     pbind (requireOwned merchantId i) (\<lambda>existing.
     let secret = generateWebhookSecret secretBytes in
     pbind (atomically (
       bind_op (from_result (encrypted env iv secret)) (\<lambda>sealed.
       bind_op (update_row ''webhookEndpoint'' er_id of_endpoints of_endpoints_update i (\<lambda>e. e\<lparr>er_previousSecretEncrypted := Some (er_secretEncrypted existing),
         er_secretEncrypted := sealed, er_secretFingerprint := secretFingerprint (ee_sha256Hex env) secret, er_secretRotatedAt := Some now\<rparr>)) (\<lambda>row.
       seq_op (on_accounts (audit_record gen redactString (admin_entry userId ''webhook_endpoint.secret_rotated'' ''webhook_endpoint'' i (Some merchantId)
         None None None meta)))
       (ret row))))) (\<lambda>updated.
     pret (endpoint_toResponse updated, secret)))"

section \<open>Decisions are final and audited\<close>

lemma on_accounts_Inr_iff [result_simps]:
  "on_accounts m s = Inr (a, t) \<longleftrightarrow> (\<exists>u. m (of_accounts s) = Inr (a, u) \<and> t = s\<lparr>of_accounts := u\<rparr>)"
  by (auto simp: on_accounts_def split: sum.splits prod.splits)

lemma update_row_Inr_iff [result_simps]:
  "update_row model key table put i f s = Inr (row, t) \<longleftrightarrow>
    (\<exists>x. find (\<lambda>r. key r = i) (table s) = Some x \<and> row = f x \<and> t = put (update_rows (\<lambda>r. key r = i) f) s)"
  by (auto simp: update_row_def result_simps)

lemma committed:
  "snd (pbind (atomically m) (\<lambda>x. pfrom_result (g x)) s) = (case m s of Inl _ \<Rightarrow> s | Inr (_, t) \<Rightarrow> t)"
  "snd (pbind (atomically m) (\<lambda>x. pret (h x)) s) = (case m s of Inl _ \<Rightarrow> s | Inr (_, t) \<Rightarrow> t)"
  "snd (atomically m s) = (case m s of Inl _ \<Rightarrow> s | Inr (_, t) \<Rightarrow> t)"
  by (auto simp: pbind_def atomically_def split: sum.splits prod.splits)

text \<open>What a record in the audit log says.\<close>

definition logged_as :: "audit_log \<Rightarrow> string \<Rightarrow> string \<Rightarrow> string \<Rightarrow> bool" where
  "logged_as l actor action resource \<longleftrightarrow> al_actorType l = (if actor \<noteq> [] then ''user'' else ''system'') \<and> al_userId l = Some actor \<and>
     al_action l = action \<and> al_resourceId l = Some resource"

lemma audit_effect:
  assumes "audit_record gen rs (admin_entry actor action rtype rid m before after extra meta) s = Inr (a, t)"
  shows "\<exists>l. acc_audit t = acc_audit s @ [l] \<and> logged_as l actor action rid" "acc_merchants t = acc_merchants s"
  using assms by (auto simp: audit_record_def account_id_def admin_entry_def logged_as_def truthy_def result_simps)

text \<open>The tables keep what was decided.\<close>

definition rows_final :: "('r \<Rightarrow> string) \<Rightarrow> ('r \<Rightarrow> bool) \<Rightarrow> 'r list \<Rightarrow> 'r list \<Rightarrow> bool" where
  "rows_final key final rows rows' \<longleftrightarrow> (distinct (map key rows) \<longrightarrow> map key rows' = map key rows \<and> (\<forall>r \<in> set rows. final r \<longrightarrow> r \<in> set rows'))"

definition refund_final :: "refund \<Rightarrow> bool" where "refund_final r \<longleftrightarrow> rf_status r \<notin> set APPROVABLE_STATUSES"
definition check_final :: "compliance_check \<Rightarrow> bool" where "check_final c \<longleftrightarrow> cm_status c \<noteq> CHECK_PENDING"
definition discrepancy_final :: "open_discrepancy \<Rightarrow> bool" where "discrepancy_final d \<longleftrightarrow> od_resolvedAt d \<noteq> None"

definition records_kept :: "office \<Rightarrow> office \<Rightarrow> bool" where
  "records_kept s t \<longleftrightarrow> (\<exists>ls. acc_audit (of_accounts t) = acc_audit (of_accounts s) @ ls) \<and>
     rows_final rf_id refund_final (of_refunds s) (of_refunds t) \<and> rows_final cm_id check_final (of_checks s) (of_checks t) \<and>
     rows_final od_id discrepancy_final (of_discrepancies s) (of_discrepancies t)"

lemma rows_finalD:
  assumes "rows_final key final rows rows'" "distinct (map key rows)"
  shows "map key rows' = map key rows" "\<forall>r \<in> set rows. final r \<longrightarrow> r \<in> set rows'"
  using assms by (simp_all add: rows_final_def)

lemma rows_final_refl: "rows_final key final rows rows"
  by (simp add: rows_final_def)

lemma rows_final_trans: "rows_final key final a b \<Longrightarrow> rows_final key final b c \<Longrightarrow> rows_final key final a c"
  unfolding rows_final_def by metis

lemma records_kept_refl: "records_kept s s"
  by (simp add: records_kept_def rows_final_refl)

lemma records_kept_trans: "records_kept s t \<Longrightarrow> records_kept t u \<Longrightarrow> records_kept s u"
  unfolding records_kept_def by (auto intro: rows_final_trans)

lemma rows_final_update:
  assumes "find (\<lambda>r. key r = i) rows = Some x" "\<not> final x" "\<And>r. key (f r) = key r"
  shows "rows_final key final rows (update_rows (\<lambda>r. key r = i) f rows)"
proof -
  have "r \<in> set (update_rows (\<lambda>r. key r = i) f rows)" if "distinct (map key rows)" "r \<in> set rows" "final r" for r
  proof -
    have "x \<in> set rows" "key x = i" using find_Some_in [OF assms(1)] by simp_all
    with that assms(2) have "key r \<noteq> i" by (auto simp: distinct_map dest: inj_onD)
    with updated_row [OF that(2), of "\<lambda>r. key r = i" f] show ?thesis by simp
  qed
  then show ?thesis using map_update_rows [of "\<lambda>r. key r = i" key f rows] assms(3) by (simp add: rows_final_def)
qed

text \<open>What the transaction of an update with its record in the audit log does to the state.\<close>

lemma audited_update:
  assumes "bind_op (update_row model key table put i f) (\<lambda>row. seq_op (on_accounts (audit_record gen rs
      (admin_entry actor action rtype rid m (before row) (after row) (extra row) meta))) (ret row)) s = Inr (row, t)"
  obtains x u l where "find (\<lambda>r. key r = i) (table s) = Some x" "row = f x"
    "t = (put (update_rows (\<lambda>r. key r = i) f) s)\<lparr>of_accounts := u\<rparr>"
    "acc_audit u = acc_audit (of_accounts (put (update_rows (\<lambda>r. key r = i) f) s)) @ [l]" "logged_as l actor action rid"
    "acc_merchants u = acc_merchants (of_accounts (put (update_rows (\<lambda>r. key r = i) f) s))"
proof -
  obtain x u where a: "find (\<lambda>r. key r = i) (table s) = Some x" "row = f x" "t = (put (update_rows (\<lambda>r. key r = i) f) s)\<lparr>of_accounts := u\<rparr>"
    and b: "audit_record gen rs (admin_entry actor action rtype rid m (before (f x)) (after (f x)) (extra (f x)) meta)
      (of_accounts (put (update_rows (\<lambda>r. key r = i) f) s)) = Inr ((), u)"
    using assms by (auto simp: result_simps)
  from audit_effect [OF b] a that show thesis by blast
qed

lemma committed_kept:
  assumes "\<And>row t. m s = Inr (row, t) \<Longrightarrow> records_kept s t"
  shows "records_kept s (snd (pbind (atomically m) (\<lambda>x. pfrom_result (g x)) s))" "records_kept s (snd (pbind (atomically m) (\<lambda>x. pret (h x)) s))"
    "records_kept s (snd (atomically m s))"
  unfolding committed using assms by (auto simp: records_kept_refl split: sum.splits)

lemma checked_kept:
  assumes "snd (check s) = s" "\<And>x. check s = (Inr x, s) \<Longrightarrow> records_kept s (snd (k x s))"
  shows "records_kept s (snd (pbind check k s))"
  using assms by (auto simp: pbind_def records_kept_refl split: prod.splits sum.splits)

lemma check_reads:
  "snd (decide_check i s) = s" "snd (review_check i s) = s" "snd (resolve_check i s) = s" "snd (transition_check i status s) = s"
  by (auto simp: decide_check_def review_check_def resolve_check_def transition_check_def pbind_def preads_def pthrow_def pret_def split: option.splits)

lemma check_passed:
  "decide_check i s = (Inr x, t) \<Longrightarrow> find (\<lambda>r. rf_id r = i) (of_refunds s) = Some x \<and> \<not> refund_final x"
  "review_check i s = (Inr c, t) \<Longrightarrow> find (\<lambda>c. cm_id c = i) (of_checks s) = Some c \<and> \<not> check_final c"
  "resolve_check i s = (Inr d, t) \<Longrightarrow> find (\<lambda>d. od_id d = i) (of_discrepancies s) = Some d \<and> \<not> discrepancy_final d"
  "transition_check i status s = (Inr m, t) \<Longrightarrow> find (\<lambda>m. ma_id m = i) (office_merchants s) = Some m \<and> ma_status m \<noteq> status"
  by (auto simp: decide_check_def review_check_def resolve_check_def transition_check_def refund_final_def check_final_def discrepancy_final_def
    pbind_def preads_def pthrow_def pret_def split: option.splits if_splits)

lemma decided_id [simp]: "rf_id (decided approve actor now r) = rf_id r"
  by (simp add: decided_def)

lemma decide_keeps: "records_kept s (snd (decide gen rs now actor i approve meta s))"
  unfolding decide_def
proof (rule checked_kept [OF check_reads(1)])
  fix x assume "decide_check i s = (Inr x, s)"
  from check_passed(1) [OF this] have x: "find (\<lambda>r. rf_id r = i) (of_refunds s) = Some x" "\<not> refund_final x" by simp_all
  show "records_kept s (snd (decide_write gen rs now actor i approve meta x s))"
    unfolding decide_write_def
    by (rule committed_kept(1), erule audited_update)
      (simp add: records_kept_def rows_final_refl rows_final_update [where key = rf_id and final = refund_final, OF x])
qed

lemma review_keeps: "records_kept s (snd (review gen rs now actor i approve note meta s))"
  unfolding review_def
proof (rule checked_kept [OF check_reads(2)])
  fix x assume "review_check i s = (Inr x, s)"
  from check_passed(2) [OF this] have x: "find (\<lambda>r. cm_id r = i) (of_checks s) = Some x" "\<not> check_final x" by simp_all
  show "records_kept s (snd (review_write gen rs now actor i approve note meta x s))"
    unfolding review_write_def Let_def
    by (rule committed_kept(2), erule audited_update)
      (simp add: records_kept_def rows_final_refl rows_final_update [where key = cm_id and final = check_final, OF x])
qed

lemma resolve_keeps: "records_kept s (snd (resolve_discrepancy gen rs now actor i note meta s))"
  unfolding resolve_discrepancy_def
proof (rule checked_kept [OF check_reads(3)])
  fix x assume "resolve_check i s = (Inr x, s)"
  from check_passed(3) [OF this] have x: "find (\<lambda>r. od_id r = i) (of_discrepancies s) = Some x" "\<not> discrepancy_final x" by simp_all
  show "records_kept s (snd (resolve_write gen rs now actor i note meta s))"
    unfolding resolve_write_def
    by (rule committed_kept(3), erule audited_update)
      (simp add: records_kept_def rows_final_refl rows_final_update [where key = od_id and final = discrepancy_final, OF x])
qed

lemma transition_keeps: "records_kept s (snd (transition_write gen rs actor i status action meta x s))"
  unfolding transition_write_def
  by (rule committed_kept(2), erule audited_update)
    (simp add: records_kept_def rows_final_refl put_merchants_def)

lemma moved_keeps:
  "records_kept s (snd (suspend gen rs actor i meta s))" "records_kept s (snd (reactivate gen rs actor i meta s))"
  unfolding suspend_def reactivate_def
  by (rule checked_kept [OF check_reads(4) transition_keeps])+

lemma requireOwned_reads: "snd (requireOwned m i s) = s"
  by (auto simp: requireOwned_def pbind_def preads_def pthrow_def pret_def split: option.splits)

lemma endpoint_created_keeps: "records_kept s (snd (endpoints_create gen rs env now bytes iv m u url types meta s))"
  unfolding endpoints_create_def Let_def
  by (rule committed_kept(2))
    (auto simp: result_simps records_kept_def rows_final_refl account_id_def dest!: audit_effect(1))

lemma endpoint_updated_keeps: "records_kept s (snd (endpoints_update gen rs now m u i enabled types meta s))"
  unfolding endpoints_update_def
proof (rule checked_kept [OF requireOwned_reads])
  fix x :: endpoint_row
  show "records_kept s (snd (pbind (atomically (
       bind_op (update_row ''webhookEndpoint'' er_id of_endpoints of_endpoints_update i (endpoint_change now enabled types)) (\<lambda>row.
       seq_op (on_accounts (audit_record gen rs (admin_entry u ''webhook_endpoint.updated'' ''webhook_endpoint'' i (Some m)
         (Some [(''enabled'', JBool (er_enabled x)), (''event_types'', JArr (map JStr (er_eventTypes x)))])
         (Some [(''enabled'', JBool (er_enabled row)), (''event_types'', JArr (map JStr (er_eventTypes row)))]) None meta)))
       (ret row)))) (\<lambda>updated. pret (endpoint_toResponse updated)) s))"
    by (rule committed_kept(2), erule audited_update)
      (simp add: records_kept_def rows_final_refl)
qed

lemma rotated_keeps: "records_kept s (snd (rotateSecret gen rs env now bytes iv m u i meta s))"
  unfolding rotateSecret_def Let_def
proof (rule checked_kept [OF requireOwned_reads], rule committed_kept(2))
  fix x :: endpoint_row and row t
  assume "bind_op (from_result (encrypted env iv (generateWebhookSecret bytes))) (\<lambda>sealed.
       bind_op (update_row ''webhookEndpoint'' er_id of_endpoints of_endpoints_update i (\<lambda>e. e\<lparr>er_previousSecretEncrypted := Some (er_secretEncrypted x),
         er_secretEncrypted := sealed, er_secretFingerprint := secretFingerprint (ee_sha256Hex env) (generateWebhookSecret bytes), er_secretRotatedAt := Some now\<rparr>)) (\<lambda>row.
       seq_op (on_accounts (audit_record gen rs (admin_entry u ''webhook_endpoint.secret_rotated'' ''webhook_endpoint'' i (Some m)
         None None None meta))) (ret row))) s = Inr (row, t)"
  then show "records_kept s t"
    by (auto simp: result_simps records_kept_def rows_final_refl dest!: audit_effect(1))
qed

text \<open>The operations of these services, in any order.\<close>

inductive office_step :: "office \<Rightarrow> office \<Rightarrow> bool" where
  step_decide: "office_step s (snd (decide gen rs now actor i approve meta s))"
| step_review: "office_step s (snd (review gen rs now actor i approve note meta s))"
| step_resolve: "office_step s (snd (resolve_discrepancy gen rs now actor i text meta s))"
| step_suspend: "office_step s (snd (suspend gen rs actor i meta s))"
| step_reactivate: "office_step s (snd (reactivate gen rs actor i meta s))"
| step_endpoint_create: "office_step s (snd (endpoints_create gen rs env now bytes iv m u url types meta s))"
| step_endpoint_update: "office_step s (snd (endpoints_update gen rs now m u i enabled types meta s))"
| step_rotate: "office_step s (snd (rotateSecret gen rs env now bytes iv m u i meta s))"

lemma office_step_kept: "office_step s t \<Longrightarrow> records_kept s t"
  by (induction rule: office_step.induct)
    (rule decide_keeps review_keeps resolve_keeps moved_keeps endpoint_created_keeps endpoint_updated_keeps rotated_keeps)+

lemma office_steps_kept: "office_step\<^sup>*\<^sup>* s t \<Longrightarrow> records_kept s t"
  by (induction rule: rtranclp_induct) (blast intro: records_kept_refl records_kept_trans office_step_kept)+

lemma update_only_row:
  assumes "distinct (map key (before @ x # after))" "key x = i"
  shows "update_rows (\<lambda>r. key r = i) f (before @ x # after) = before @ f x # after"
proof -
  have "\<forall>r \<in> set before. key r \<noteq> i" "\<forall>r \<in> set after. key r \<noteq> i" using assms by (auto simp: image_iff)
  from this [THEN update_rows_none] show ?thesis using assms(2) by (simp add: update_rows_def)
qed

lemma decide_success:
  assumes "decide gen rs now actor i approve meta s = (Inr r, t)"
  obtains x u l where "find (\<lambda>r. rf_id r = i) (of_refunds s) = Some x" "rf_status x \<in> set APPROVABLE_STATUSES"
    "t = s\<lparr>of_refunds := update_rows (\<lambda>r. rf_id r = i) (decided approve actor now) (of_refunds s), of_accounts := u\<rparr>"
    "acc_audit u = acc_audit (of_accounts s) @ [l]" "logged_as l actor (if approve then ''refund.approved'' else ''refund.rejected'') i"
    "toAdminRefundResponse (decided approve actor now x) = Inr r"
proof -
  obtain x where x: "decide_check i s = (Inr x, s)" and w: "decide_write gen rs now actor i approve meta x s = (Inr r, t)"
    using assms check_reads(1) [of i s] by (auto simp: decide_def pbind_def split: prod.splits sum.splits)
  have f: "find (\<lambda>r. rf_id r = i) (of_refunds s) = Some x" "rf_status x \<in> set APPROVABLE_STATUSES"
    using check_passed(1) [OF x] by (simp_all add: refund_final_def)
  obtain row where m: "bind_op (update_row ''refund'' rf_id of_refunds of_refunds_update i (decided approve actor now)) (\<lambda>row.
       seq_op (on_accounts (audit_record gen rs (admin_entry actor (if approve then ''refund.approved'' else ''refund.rejected'') ''refund''
         i (Some (rf_merchantId x)) (Some [(''status'', JStr (refund_status_name (rf_status x)))])
         (Some [(''status'', JStr (if approve then ''APPROVED'' else ''REJECTED''))]) None meta))) (ret row)) s = Inr (row, t)"
    and r: "toAdminRefundResponse row = Inr r"
    using w unfolding decide_write_def pbind_def atomically_def pfrom_result_def by (auto split: sum.splits prod.splits)
  from m obtain x' u l where e: "find (\<lambda>r. rf_id r = i) (of_refunds s) = Some x'" "row = decided approve actor now x'"
    "t = (of_refunds_update (update_rows (\<lambda>r. rf_id r = i) (decided approve actor now)) s)\<lparr>of_accounts := u\<rparr>"
    "acc_audit u = acc_audit (of_accounts s) @ [l]" "logged_as l actor (if approve then ''refund.approved'' else ''refund.rejected'') i"
    by (rule audited_update) simp
  show thesis by (rule that [OF f]) (use e f r in simp_all)
qed

lemma decisions_kept:
  assumes ids: "distinct (map rf_id (of_refunds s))" "distinct (map cm_id (of_checks s))" "distinct (map od_id (of_discrepancies s))"
    and steps: "office_step\<^sup>*\<^sup>* s t"
  shows "{r \<in> set (of_refunds s). rf_status r \<notin> {REFUND_REQUESTED, REFUND_COMPLIANCE_REVIEW}} \<subseteq> set (of_refunds t)"
    and "{c \<in> set (of_checks s). cm_status c \<noteq> CHECK_PENDING} \<subseteq> set (of_checks t)"
    and "{d \<in> set (of_discrepancies s). od_resolvedAt d \<noteq> None} \<subseteq> set (of_discrepancies t)"
    and "map rf_id (of_refunds t) = map rf_id (of_refunds s)" "map cm_id (of_checks t) = map cm_id (of_checks s)"
      "map od_id (of_discrepancies t) = map od_id (of_discrepancies s)"
    and "take (length (acc_audit (of_accounts s))) (acc_audit (of_accounts t)) = acc_audit (of_accounts s)"
    and "decide gen rs now actor i approve meta t = (Inr r, u) \<Longrightarrow> \<exists>before x after l.
      of_refunds t = before @ x # after \<and> rf_id x = i \<and> rf_status x \<in> {REFUND_REQUESTED, REFUND_COMPLIANCE_REVIEW} \<and>
      of_refunds u = before @ decided approve actor now x # after \<and>
      acc_audit (of_accounts u) = acc_audit (of_accounts t) @ [l] \<and> al_resourceId l = Some i \<and> al_userId l = Some actor \<and>
      al_action l = (if approve then ''refund.approved'' else ''refund.rejected'')"
proof -
  have k: "records_kept s t" by (rule office_steps_kept [OF steps])
  then have kept: "rows_final rf_id refund_final (of_refunds s) (of_refunds t)" "rows_final cm_id check_final (of_checks s) (of_checks t)"
    "rows_final od_id discrepancy_final (of_discrepancies s) (of_discrepancies t)" unfolding records_kept_def by blast+
  have r: "map rf_id (of_refunds t) = map rf_id (of_refunds s)" "\<forall>r \<in> set (of_refunds s). refund_final r \<longrightarrow> r \<in> set (of_refunds t)"
    and c: "map cm_id (of_checks t) = map cm_id (of_checks s)" "\<forall>r \<in> set (of_checks s). check_final r \<longrightarrow> r \<in> set (of_checks t)"
    and d: "map od_id (of_discrepancies t) = map od_id (of_discrepancies s)"
      "\<forall>r \<in> set (of_discrepancies s). discrepancy_final r \<longrightarrow> r \<in> set (of_discrepancies t)"
    using rows_finalD [OF kept(1) ids(1)] rows_finalD [OF kept(2) ids(2)] rows_finalD [OF kept(3) ids(3)] by simp_all
  show "{r \<in> set (of_refunds s). rf_status r \<notin> {REFUND_REQUESTED, REFUND_COMPLIANCE_REVIEW}} \<subseteq> set (of_refunds t)"
    using r(2) unfolding refund_final_def APPROVABLE_STATUSES_def list.set by blast
  show "{c \<in> set (of_checks s). cm_status c \<noteq> CHECK_PENDING} \<subseteq> set (of_checks t)"
    using c(2) unfolding check_final_def by blast
  show "{d \<in> set (of_discrepancies s). od_resolvedAt d \<noteq> None} \<subseteq> set (of_discrepancies t)"
    using d(2) unfolding discrepancy_final_def by blast
  show m: "map rf_id (of_refunds t) = map rf_id (of_refunds s)" "map cm_id (of_checks t) = map cm_id (of_checks s)"
    "map od_id (of_discrepancies t) = map od_id (of_discrepancies s)" by (fact r(1) c(1) d(1))+
  obtain ls where "acc_audit (of_accounts t) = acc_audit (of_accounts s) @ ls" using k unfolding records_kept_def by blast
  then show "take (length (acc_audit (of_accounts s))) (acc_audit (of_accounts t)) = acc_audit (of_accounts s)" by simp
  assume "decide gen rs now actor i approve meta t = (Inr r, u)"
  then obtain x v l where x: "find (\<lambda>r. rf_id r = i) (of_refunds t) = Some x" "rf_status x \<in> set APPROVABLE_STATUSES"
    and u: "u = t\<lparr>of_refunds := update_rows (\<lambda>r. rf_id r = i) (decided approve actor now) (of_refunds t), of_accounts := v\<rparr>"
    and l: "acc_audit v = acc_audit (of_accounts t) @ [l]" "logged_as l actor (if approve then ''refund.approved'' else ''refund.rejected'') i"
    by (rule decide_success)
  from x(1) obtain before after where s: "of_refunds t = before @ x # after" "rf_id x = i"
    using find_Some_in [OF x(1)] split_list by fastforce
  have "distinct (map rf_id (of_refunds t))" using ids(1) r(1) by simp
  then have "update_rows (\<lambda>r. rf_id r = i) (decided approve actor now) (of_refunds t) = before @ decided approve actor now x # after"
    unfolding s(1) by (rule update_only_row [where key = rf_id, OF _ s(2)])
  then show "\<exists>before x after l. of_refunds t = before @ x # after \<and> rf_id x = i \<and> rf_status x \<in> {REFUND_REQUESTED, REFUND_COMPLIANCE_REVIEW} \<and>
      of_refunds u = before @ decided approve actor now x # after \<and>
      acc_audit (of_accounts u) = acc_audit (of_accounts t) @ [l] \<and> al_resourceId l = Some i \<and> al_userId l = Some actor \<and>
      al_action l = (if approve then ''refund.approved'' else ''refund.rejected'')"
    using s x(2) l unfolding u APPROVABLE_STATUSES_def logged_as_def list.set
    by (intro exI [of _ before] exI [of _ x] exI [of _ after] exI [of _ l] conjI) simp_all
qed


definition sample_refund :: refund where
  "sample_refund = \<lparr>rf_id = ''r1'', rf_invoiceId = ''i1'', rf_merchantId = ''mch'', rf_network = BITCOIN, rf_assetSymbol = ''BTC'', rf_assetDecimals = 8,
     rf_amount = 50000, rf_destinationAddress = ''bc1q'', rf_status = REFUND_REQUESTED, rf_complianceStatus = PASSED, rf_reason = None, rf_requestedBy = ''u1'',
     rf_approvedBy = None, rf_approvedAt = None, rf_rejectedBy = None, rf_rejectedAt = None, rf_createdAt = 0\<rparr>"

definition sample_office :: office where
  "sample_office = \<lparr>of_accounts = sample_accounts, of_refunds = [sample_refund, sample_refund\<lparr>rf_id := ''r2'', rf_status := REFUND_COMPLETED\<rparr>], of_checks = [],
     of_discrepancies = [], of_endpoints = []\<rparr>"

lemma sample_decision: "is_ok (fst (decide sample_gen id 9 ''op'' ''r1'' True sample_meta sample_office))"
  by code_simp


text \<open>The check is not part of the transaction: of two operators at the same time one approves and the other rejects, both are told that they
  did, and the refund ends rejected with the approval still recorded.\<close>

lemma refund_approved_and_rejected:
  "case (decide_check ''r1'' sample_office, decide_check ''r1'' sample_office) of
     ((Inr a, _), (Inr b, _)) \<Rightarrow>
       (case decide_write sample_gen id 9 ''op'' ''r1'' True sample_meta a sample_office of
          (Inr approval, s1) \<Rightarrow>
            (case decide_write sample_gen id 10 ''op2'' ''r1'' False sample_meta b s1 of
               (Inr rejection, s2) \<Rightarrow> xr_status approval = ''APPROVED'' \<and> xr_status rejection = ''REJECTED'' \<and>
                 map rf_approvedBy (of_refunds s2) = [Some ''op'', None] \<and> map rf_rejectedBy (of_refunds s2) = [Some ''op2'', None]
             | _ \<Rightarrow> False)
        | _ \<Rightarrow> False)
   | _ \<Rightarrow> False"
  by code_simp

section \<open>A suspended merchant is shut out\<close>

lemma transition_success:
  assumes "pbind (transition_check i status) (transition_write gen rs actor i status action meta) s = (Inr r, t)"
  shows "acc_merchants (of_accounts t) = update_rows (\<lambda>m. ma_id m = i) (\<lambda>m. m\<lparr>ma_status := status\<rparr>) (acc_merchants (of_accounts s))"
    and "\<exists>m. find (\<lambda>m. ma_id m = i) (acc_merchants (of_accounts s)) = Some m \<and> ma_status m \<noteq> status"
proof -
  obtain x where x: "transition_check i status s = (Inr x, s)" and w: "transition_write gen rs actor i status action meta x s = (Inr r, t)"
    using assms check_reads(4) [of i status s] by (auto simp: pbind_def split: prod.splits sum.splits)
  show "\<exists>m. find (\<lambda>m. ma_id m = i) (acc_merchants (of_accounts s)) = Some m \<and> ma_status m \<noteq> status"
    using check_passed(4) [OF x] by (simp add: office_merchants_def)
  obtain row where "bind_op (update_row ''merchant'' ma_id office_merchants put_merchants i (\<lambda>m. m\<lparr>ma_status := status\<rparr>)) (\<lambda>row.
       seq_op (on_accounts (audit_record gen rs (admin_entry actor action ''merchant'' i (Some i)
         (Some [(''status'', JStr (merchant_status_name (ma_status x)))]) (Some [(''status'', JStr (merchant_status_name status))]) None meta)))
       (ret row)) s = Inr (row, t)"
    using w unfolding transition_write_def pbind_def atomically_def pret_def by (auto split: sum.splits prod.splits)
  then show "acc_merchants (of_accounts t) = update_rows (\<lambda>m. ma_id m = i) (\<lambda>m. m\<lparr>ma_status := status\<rparr>) (acc_merchants (of_accounts s))"
    by (rule audited_update) (simp add: put_merchants_def)
qed

lemma moved_rows:
  "m \<in> set (update_rows (\<lambda>m. ma_id m = i) (\<lambda>m. m\<lparr>ma_status := status\<rparr>) ms) \<Longrightarrow> ma_id m = i \<Longrightarrow> ma_status m = status"
proof -
  assume m: "m \<in> set (update_rows (\<lambda>m. ma_id m = i) (\<lambda>m. m\<lparr>ma_status := status\<rparr>) ms)" "ma_id m = i"
  from m(1) obtain x where x: "m = (if ma_id x = i then x\<lparr>ma_status := status\<rparr> else x)" unfolding update_rows_def set_map by (rule imageE)
  show "ma_status m = status" by (cases "ma_id x = i") (use x m(2) in simp_all)
qed

lemma ApiKeyGuard_active:
  "ApiKeyGuard verify now request s = Inr ctx \<Longrightarrow> \<exists>m \<in> set (acc_merchants s). ma_id m = mc_merchantId ctx \<and> ma_status m = MerchantActive"
  by (auto simp: ApiKeyGuard_def dest!: find_Some_in split: option.splits if_splits)

lemma MerchantRoleGuard_active:
  "MerchantRoleGuard handler cls request user s = Inr (i, role) \<Longrightarrow> \<exists>m \<in> set (acc_merchants s). ma_id m = i \<and> ma_status m = MerchantActive"
  by (auto simp: MerchantRoleGuard_def Let_def list_ex_iff split: option.splits if_splits)

lemma suspended_shut_out:
  assumes "suspend gen rs actor i meta s = (Inr r, t)" "account_step\<^sup>*\<^sup>* (of_accounts t) u"
  shows "ApiKeyGuard verify now request u = Inr ctx \<Longrightarrow> mc_merchantId ctx \<noteq> i"
    and "MerchantRoleGuard handler cls request user u \<noteq> Inr (i, role)"
proof -
  have "acc_merchants u = update_rows (\<lambda>m. ma_id m = i) (\<lambda>m. m\<lparr>ma_status := MerchantSuspended\<rparr>) (acc_merchants (of_accounts s))"
    using transition_success(1) [OF assms(1) [unfolded suspend_def]] merchant_steps.account_steps_kept [OF assms(2)] by (simp add: merchants_kept_def)
  then have shut: "\<not> (\<exists>m \<in> set (acc_merchants u). ma_id m = i \<and> ma_status m = MerchantActive)"
    using moved_rows [where i = i and status = MerchantSuspended and ms = "acc_merchants (of_accounts s)"] by fastforce
  show "mc_merchantId ctx \<noteq> i" if "ApiKeyGuard verify now request u = Inr ctx"
    using ApiKeyGuard_active [OF that] shut by blast
  show "MerchantRoleGuard handler cls request user u \<noteq> Inr (i, role)"
    using MerchantRoleGuard_active [of handler cls request user u i role] shut by blast
qed

text \<open>C38: Suspending a merchant shuts it out of both doors. Once an operator has suspended a merchant, and whatever users then do with their sessions,
  API keys and memberships, no API key passes the guard of the public API in the name of that merchant, and no user passes the guard of the
  dashboard for it, whatever the request says.\<close>

theorem suspension_blocks_access:
  assumes "suspend gen rs actor i meta s = (Inr r, t)" "account_step\<^sup>*\<^sup>* (of_accounts t) u"
  shows "(\<forall>ctx. ApiKeyGuard verify now request u = Inr ctx \<longrightarrow> mc_merchantId ctx \<noteq> i) \<and>
    (\<forall>role. MerchantRoleGuard handler cls request user u \<noteq> Inr (i, role))"
  using suspended_shut_out [OF assms] by blast

lemma sample_suspended: "is_ok (fst (suspend sample_gen id ''op'' ''mch'' sample_meta sample_office))"
  by code_simp

theorem suspension_blocks_access_witness:
  "\<exists>r t. suspend sample_gen id ''op'' ''mch'' sample_meta sample_office = (Inr r, t) \<and>
     MerchantRoleGuard None None \<lparr>hq_authorization = None, hq_accessCookie = None, hq_merchantId = Some ''mch'', hq_ip = ''1.2.3.4''\<rparr>
       (Some \<lparr>uc_userId = ''u1'', uc_email = ''a@b.c'', uc_platformRole = ''USER''\<rparr>) (of_accounts t) \<noteq> Inr (''mch'', Owner)"
proof -
  obtain r t where d: "suspend sample_gen id ''op'' ''mch'' sample_meta sample_office = (Inr r, t)"
    using sample_suspended by (metis is_ok_iff prod.collapse)
  from suspension_blocks_access [OF this rtranclp.rtrancl_refl] this show ?thesis by blast
qed

text \<open>A merchant that waits for its verification, or that was closed, becomes active when it is ``reactivated''.\<close>

lemma reactivation_skips_verification:
  "case reactivate sample_gen id ''op'' ''mch'' sample_meta (put_merchants (map (\<lambda>m. m\<lparr>ma_status := MerchantPending\<rparr>)) sample_office) of
     (Inr m, s) \<Rightarrow> xm_status m = ''ACTIVE'' \<and> map ma_status (office_merchants s) = [MerchantActive] | _ \<Rightarrow> False"
  "case reactivate sample_gen id ''op'' ''mch'' sample_meta (put_merchants (map (\<lambda>m. m\<lparr>ma_status := MerchantClosed\<rparr>)) sample_office) of
     (Inr m, s) \<Rightarrow> xm_status m = ''ACTIVE'' \<and> map ma_status (office_merchants s) = [MerchantActive] | _ \<Rightarrow> False"
  by code_simp+

end
