(* ===== verification/MerchantApi.thy ===== *)
theory MerchantApi
  imports Monitor Ledger Invoices Adapters Http "HOL-Library.List_Lexorder" "HOL-Library.Char_ord"
begin

text \<open>
  What a merchant does with its deposit addresses and sees of its money (\<open>apps/api/src/merchant\<close>): registering and listing addresses
  (\<open>addresses.service.ts\<close>), balances (\<open>balance.service.ts\<close>), invoices (\<open>invoices-list.service.ts\<close>) and transfers
  (\<open>merchant-transactions.service.ts\<close>). The state is the database of \<open>Store\<close>; Keccak and SHA-256 are parameters. The registered address
  meets the adapters here: it is stored in the form in which the monitor looks transfers up.
\<close>

section \<open>Deposit addresses\<close>

text \<open>The label of a request is not used.\<close>

record register_address_dto =
  ra_network :: string
  ra_asset :: string
  ra_address :: string

record address_response =
  xa_id :: string
  xa_network :: string
  xa_asset :: string
  xa_address :: string
  xa_status :: string
  xa_created_at :: int

fun address_status_name :: "address_status \<Rightarrow> string" where
  "address_status_name AVAILABLE = ''AVAILABLE''"
| "address_status_name ASSIGNED = ''ASSIGNED''"
| "address_status_name RETIRED = ''RETIRED''"
| "address_status_name BLOCKED = ''BLOCKED''"

definition address_toResponse :: "payment_address \<Rightarrow> address_response" where
  "address_toResponse row = \<lparr>xa_id = pa_id row, xa_network = network_name (pa_network row),
     xa_asset = (case pa_assetSymbol row of None \<Rightarrow> ''ANY'' | Some a \<Rightarrow> a), xa_address = pa_address row,
     xa_status = address_status_name (pa_status row), xa_created_at = pa_createdAt row\<rparr>"

text \<open>\<open>String.prototype.includes\<close>.\<close>

fun js_includes :: "string \<Rightarrow> string \<Rightarrow> bool" where
  "js_includes [] part = (part = [])"
| "js_includes (c # s) part = (startsWith (c # s) part \<or> js_includes s part)"

definition invalid_address :: "string \<Rightarrow> failure" where
  "invalid_address message = RequestError (AppError INVALID_ADDRESS 400 message None)"

definition validateAndNormalize :: "(string \<Rightarrow> string) \<Rightarrow> (nat list \<Rightarrow> nat list) \<Rightarrow> network_family \<Rightarrow> string \<Rightarrow> string \<Rightarrow> failure + string" where
  "validateAndNormalize keccak sha256 family address network =
     (if family = EvmFamily then
        if \<not> isStructurallyValidEvmAddress address
        then Inl (invalid_address (''\"'' @ address @ ''\" is not a well-formed address for this network''))
        else if \<not> isValidEvmAddress keccak address
        then Inl (invalid_address (''\"'' @ address @ ''\" has an invalid EIP-55 checksum - check for a typo''))
        else map_error AdapterFailure (normalizeEvmAddress address)
      else
        let bitcoinNetwork = (if js_includes network ''TESTNET'' then Testnet else Mainnet) in
        if \<not> isValidBitcoinAddress sha256 address bitcoinNetwork
        then Inl (invalid_address (''\"'' @ address @ ''\" is not a valid Bitcoin '' @ network_kind_name bitcoinNetwork @ '' address''))
        else Inr address)"

text \<open>What the request asks for: the network, its asset and the address as it is looked up.\<close>

definition checked_address :: "(string \<Rightarrow> string) \<Rightarrow> (nat list \<Rightarrow> nat list) \<Rightarrow> bool \<Rightarrow> register_address_dto \<Rightarrow> failure + network \<times> asset_config \<times> string" where
  "checked_address keccak sha256 livemode dto =
     (case network_of_name (toUpperCase (ra_network dto)) of
        None \<Rightarrow> Inl (RequestError (AppError UNSUPPORTED_NETWORK 400 (''unsupported network: '' @ ra_network dto) None))
      | Some network \<Rightarrow>
          let networkConfig = getNetworkConfig network; assetSymbol = toUpperCase (ra_asset dto) in
          bind_result (map_error RequestError (assertNetworkMatchesLivemode livemode networkConfig)) (\<lambda>_.
          (case (case findAsset network assetSymbol of Some a \<Rightarrow> Some a | None \<Rightarrow> findNativeAsset network) of
             None \<Rightarrow> Inl (RequestError (AppError UNSUPPORTED_ASSET_CODE 400 (''asset '' @ assetSymbol @ '' is not supported on '' @ nc_displayName networkConfig) None))
           | Some asset \<Rightarrow>
               if ac_symbol asset \<noteq> assetSymbol
               then Inl (RequestError (AppError UNSUPPORTED_ASSET_CODE 400 (''asset '' @ assetSymbol @ '' is not supported on '' @ nc_displayName networkConfig) None))
               else bind_result (validateAndNormalize keccak sha256 (nc_family networkConfig) (ra_address dto) (network_name network)) (\<lambda>normalized.
                 Inr (network, asset, normalized)))))"

text \<open>The unique keys of the table.\<close>

definition create_address :: "payment_address \<Rightarrow> unit tx" where
  "create_address a = (\<lambda>s.
     if list_ex (\<lambda>r. pa_id r = pa_id a) (payment_addresses s) then Inl (UniqueViolation ''payment_addresses_pkey'')
     else if list_ex (\<lambda>r. pa_network r = pa_network a \<and> pa_addressNormalized r = pa_addressNormalized a) (payment_addresses s)
     then Inl (UniqueViolation ''payment_addresses_network_address_normalized_key'')
     else Inr ((), s\<lparr>payment_addresses := payment_addresses s @ [a]\<rparr>))"

definition already_registered :: "string \<Rightarrow> network \<Rightarrow> failure" where
  "already_registered address network = RequestError (AppError CONFLICT 409
     (''address '' @ address @ '' is already registered on '' @ nc_displayName (getNetworkConfig network)) None)"

definition register_address :: "(nat \<Rightarrow> string) \<Rightarrow> (string \<Rightarrow> string) \<Rightarrow> (nat list \<Rightarrow> nat list) \<Rightarrow> int \<Rightarrow> merchant_context \<Rightarrow> register_address_dto \<Rightarrow>
  address_response service" where
  "register_address gen keccak sha256 now merchant dto =
     pbind (pfrom_result (checked_address keccak sha256 (mc_livemode merchant) dto)) (\<lambda>(network, asset, normalized).
     pbind (atomically (fresh_id gen PaymentAddressId)) (\<lambda>i.
     pmap_error (\<lambda>e. case e of UniqueViolation _ \<Rightarrow> already_registered (ra_address dto) network | _ \<Rightarrow> e)
       (let row = \<lparr>pa_id = i, pa_merchantId = mc_merchantId merchant, pa_network = network, pa_address = ra_address dto, pa_addressNormalized = normalized,
          pa_assetSymbol = Some (ac_symbol asset), pa_status = AVAILABLE, pa_invoiceId = None, pa_assignedAt = None, pa_retiredAt = None, pa_createdAt = now\<rparr> in
        pbind (atomically (create_address row)) (\<lambda>_. pret (address_toResponse row)))))"

definition parseNetworkFilter :: "(string \<Rightarrow> app_error) \<Rightarrow> string option \<Rightarrow> app_error + network option" where
  "parseNetworkFilter refuse raw =
     (if \<not> truthy raw then Inr None
      else case network_of_name (toUpperCase (the raw)) of None \<Rightarrow> Inl (refuse (''unsupported network: '' @ the raw)) | Some n \<Rightarrow> Inr (Some n))"

definition unsupported_network :: "string \<Rightarrow> app_error" where
  "unsupported_network message = AppError UNSUPPORTED_NETWORK 400 message None"

definition addresses_list :: "merchant_context \<Rightarrow> string option \<Rightarrow> db \<Rightarrow> app_error + address_response list" where
  "addresses_list merchant network s =
     bind_result (parseNetworkFilter unsupported_network network) (\<lambda>key.
     Inr (map address_toResponse (take 200 (rev (sort_key pa_createdAt (filter (\<lambda>a. pa_merchantId a = mc_merchantId merchant \<and>
       (case key of None \<Rightarrow> True | Some n \<Rightarrow> pa_network a = n)) (payment_addresses s)))))))"

section \<open>Balances\<close>

record balance_entry =
  be_network :: string
  be_asset :: string
  be_available :: string

definition payable_accounts :: "string \<Rightarrow> network option \<Rightarrow> string option \<Rightarrow> db \<Rightarrow> ledger_account list" where
  "payable_accounts merchantId key asset s = filter (\<lambda>a. la_merchantId a = Some merchantId \<and> la_isActive a \<and> la_type a = LIABILITY \<and>
     (case key of None \<Rightarrow> True | Some n \<Rightarrow> la_network a = n) \<and> (truthy asset \<longrightarrow> la_assetSymbol a = toUpperCase (the asset))) (ledger_accounts s)"

fun balances_of :: "ledger_account list \<Rightarrow> balance_entry list tx" where
  "balances_of [] = ret []"
| "balances_of (account # accounts) =
     bind_op (computeAccountBalance (la_id account)) (\<lambda>computed.
     bind_op (money_result (toDecimalString (balance_toMoney computed))) (\<lambda>available.
     bind_op (balances_of accounts) (\<lambda>results.
     ret (\<lparr>be_network = network_name (la_network account), be_asset = la_assetSymbol account, be_available = available\<rparr> # results))))"

definition getBalances :: "string \<Rightarrow> string option \<Rightarrow> string option \<Rightarrow> balance_entry list service" where
  "getBalances merchantId network asset =
     pbind (pfrom_result (map_error RequestError (parseNetworkFilter unsupported_network network))) (\<lambda>key.
     pbind (preads (payable_accounts merchantId key asset)) (\<lambda>accounts.
     atomically (balances_of accounts)))"

section \<open>Invoices and transfers\<close>

definition invoices_list :: "string \<Rightarrow> string option \<Rightarrow> invoice_status option \<Rightarrow> string option \<Rightarrow> db \<Rightarrow> failure + invoice_response list \<times> string option" where
  "invoices_list merchantId limit status cursor s =
     bind_result (map_error RequestError (parseLimit limit None None)) (\<lambda>limit.
     case list_page inv_id (\<lambda>i. inv_merchantId i = merchantId \<and> (case status of None \<Rightarrow> True | Some x \<Rightarrow> inv_status i = x))
       (if truthy cursor then cursor else None) (nat limit) (invoices s) of
       (items, nextCursor) \<Rightarrow>
         bind_result (map_results (\<lambda>i. map_error MoneyFailure (toInvoiceResponse i (map_option pa_address (address_of (inv_id i) s)) None)) items) (\<lambda>found.
         Inr (found, nextCursor)))"

record transfer_response =
  xt_id :: string
  xt_network :: string
  xt_tx_hash :: string
  xt_transfer_index :: int
  xt_asset :: string
  xt_amount :: string
  xt_match_status :: match_status
  xt_confirmations :: int
  xt_invoice_id :: "string option"
  xt_detected_at :: int

definition toMerchantTransferResponse :: "token_transfer \<Rightarrow> failure + transfer_response" where
  "toMerchantTransferResponse t =
     bind_result (map_error MoneyFailure (toDecimalString (fromUnits (tt_amount t) (tt_assetSymbol t) (tt_assetDecimals t)))) (\<lambda>amount.
     Inr \<lparr>xt_id = tt_id t, xt_network = network_name (tt_network t), xt_tx_hash = tt_txHash t, xt_transfer_index = tt_transferIndex t,
       xt_asset = tt_assetSymbol t, xt_amount = amount, xt_match_status = tt_matchStatus t, xt_confirmations = tt_confirmations t,
       xt_invoice_id = tt_invoiceId t, xt_detected_at = tt_detectedAt t\<rparr>)"

definition transfer_belongs :: "string \<Rightarrow> db \<Rightarrow> token_transfer \<Rightarrow> bool" where
  "transfer_belongs merchantId s t \<longleftrightarrow>
     list_ex (\<lambda>a. tt_paymentAddressId t = Some (pa_id a) \<and> pa_merchantId a = merchantId) (payment_addresses s) \<or>
     list_ex (\<lambda>i. tt_invoiceId t = Some (inv_id i) \<and> inv_merchantId i = merchantId) (invoices s)"

definition transactions_list :: "string \<Rightarrow> string option \<Rightarrow> string option \<Rightarrow> string option \<Rightarrow> db \<Rightarrow> failure + transfer_response list \<times> string option" where
  "transactions_list merchantId limit network cursor s =
     bind_result (map_error RequestError (parseLimit limit None None)) (\<lambda>limit.
     bind_result (map_error RequestError (parseNetworkFilter (\<lambda>m. ValidationError m None) network)) (\<lambda>key.
     case list_page tt_id (\<lambda>t. transfer_belongs merchantId s t \<and> (case key of None \<Rightarrow> True | Some n \<Rightarrow> tt_network t = n))
       (if truthy cursor then cursor else None) (nat limit) (token_transfers s) of
       (items, nextCursor) \<Rightarrow> bind_result (map_results toMerchantTransferResponse items) (\<lambda>found. Inr (found, nextCursor))))"

section \<open>A registered address receives\<close>

lemma checked_address_Inr:
  assumes "checked_address keccak sha256 mode dto = Inr (n, asset, normalized)"
  shows "network_of_name (toUpperCase (ra_network dto)) = Some n"
    "validateAndNormalize keccak sha256 (nc_family (getNetworkConfig n)) (ra_address dto) (network_name n) = Inr normalized"
  using assms by (auto simp: checked_address_def Let_def result_simps split: option.splits if_splits)

lemma register_success:
  assumes "register_address gen keccak sha256 now merchant dto s = (Inr r, t)"
  obtains n asset normalized a where "checked_address keccak sha256 (mc_livemode merchant) dto = Inr (n, asset, normalized)"
    "payment_addresses t = payment_addresses s @ [a]" "r = address_toResponse a" "pa_network a = n" "pa_addressNormalized a = normalized"
    "pa_merchantId a = mc_merchantId merchant" "pa_address a = ra_address dto" "pa_status a = AVAILABLE"
    "\<forall>x \<in> set (payment_addresses s). \<not> (pa_network x = n \<and> pa_addressNormalized x = normalized)"
proof -
  obtain n asset normalized where c: "checked_address keccak sha256 (mc_livemode merchant) dto = Inr (n, asset, normalized)"
    using assms by (auto simp: register_address_def proc_Inr_iff pfrom_result_def split: prod.splits)
  define a where "a = \<lparr>pa_id = newId (gen (db_ulids s)) PaymentAddressId, pa_merchantId = mc_merchantId merchant, pa_network = n, pa_address = ra_address dto,
    pa_addressNormalized = normalized, pa_assetSymbol = Some (ac_symbol asset), pa_status = AVAILABLE, pa_invoiceId = None, pa_assignedAt = None,
    pa_retiredAt = None, pa_createdAt = now\<rparr>"
  have w: "atomically (create_address a) (s\<lparr>db_ulids := Suc (db_ulids s)\<rparr>) = (Inr (), t)" and r: "r = address_toResponse a"
    using assms c by (auto simp: register_address_def proc_Inr_iff pfrom_result_def fresh_id_def a_def pret_def Let_def)
  from w have "payment_addresses t = payment_addresses s @ [a]"
    "\<forall>x \<in> set (payment_addresses s). \<not> (pa_network x = pa_network a \<and> pa_addressNormalized x = pa_addressNormalized a)"
    by (auto simp: atomically_def create_address_def list_ex_iff split: if_splits)
  from that [OF c this(1) r] this(2) show thesis by (simp add: a_def)
qed

lemma evm_normalized:
  assumes "validateAndNormalize keccak sha256 EvmFamily address n = Inr normalized"
  shows "normalized = toLowerCase address"
  using assms by (auto simp: validateAndNormalize_def normalizeEvmAddress_def result_simps split: if_splits)

lemma find_registered:
  "\<forall>x \<in> set xs. \<not> P x \<Longrightarrow> P a \<Longrightarrow> find P (xs @ [a]) = Some a"
  by (induction xs) auto

text \<open>C35: A deposit to a registered address is found. After a merchant registered an address of an EVM network, a transfer that the adapter reports for any
  transaction, and whose destination is that address in any spelling, is matched by the monitor to the row of this registration and so to this
  merchant; the table keeps its addresses different; and no request of any merchant registers the address on this network again, in whatever spelling.\<close>

theorem registered_address_receives:
  assumes "register_address gen keccak sha256 now merchant dto s = (Inr r, t)"
    and "network_of_name (toUpperCase (ra_network dto)) = Some n" "nc_family (getNetworkConfig n) = EvmFamily"
  shows "(evm_getTransfers node h = Inr ts \<and> x \<in> set ts \<and> evmAddressesEqual (px_toAddress x) (ra_address dto) \<longrightarrow>
      (\<exists>a. find (\<lambda>a. pa_network a = n \<and> pa_addressNormalized a = px_toAddress x) (payment_addresses t) = Some a \<and>
         pa_id a = xa_id r \<and> pa_merchantId a = mc_merchantId merchant \<and> pa_address a = ra_address dto)) \<and>
    (distinct (map (\<lambda>a. (pa_network a, pa_addressNormalized a)) (payment_addresses s)) \<longrightarrow>
      distinct (map (\<lambda>a. (pa_network a, pa_addressNormalized a)) (payment_addresses t))) \<and>
    (network_of_name (toUpperCase (ra_network dto')) = Some n \<and> evmAddressesEqual (ra_address dto') (ra_address dto) \<longrightarrow>
      \<not> is_ok (fst (register_address gen' keccak sha256 now' merchant' dto' t)))"
proof -
  obtain n' asset normalized a where c: "checked_address keccak sha256 (mc_livemode merchant) dto = Inr (n', asset, normalized)"
    and t: "payment_addresses t = payment_addresses s @ [a]" "r = address_toResponse a"
    and a: "pa_network a = n'" "pa_addressNormalized a = normalized" "pa_merchantId a = mc_merchantId merchant" "pa_address a = ra_address dto"
    and new: "\<forall>x \<in> set (payment_addresses s). \<not> (pa_network x = n' \<and> pa_addressNormalized x = normalized)"
    by (rule register_success [OF assms(1)])
  have n: "n' = n" using checked_address_Inr(1) [OF c] assms(2) by simp
  have norm: "normalized = toLowerCase (ra_address dto)"
    using checked_address_Inr(2) [OF c] assms(3) unfolding n by (simp add: evm_normalized)
  show ?thesis
  proof (intro conjI impI)
    assume x: "evm_getTransfers node h = Inr ts \<and> x \<in> set ts \<and> evmAddressesEqual (px_toAddress x) (ra_address dto)"
    then have "toLowerCase (px_toAddress x) = px_toAddress x" using evm_transfer_sound [of node h ts x] by blast
    with x have "px_toAddress x = normalized" using norm by (simp add: evmAddressesEqual_def)
    with find_registered [OF new, of a] a n t show "\<exists>a. find (\<lambda>a. pa_network a = n \<and> pa_addressNormalized a = px_toAddress x) (payment_addresses t) = Some a \<and>
         pa_id a = xa_id r \<and> pa_merchantId a = mc_merchantId merchant \<and> pa_address a = ra_address dto" by (simp add: address_toResponse_def)
  next
    assume "distinct (map (\<lambda>a. (pa_network a, pa_addressNormalized a)) (payment_addresses s))"
    with new show "distinct (map (\<lambda>a. (pa_network a, pa_addressNormalized a)) (payment_addresses t))" using t a by auto
  next
    assume d: "network_of_name (toUpperCase (ra_network dto')) = Some n \<and> evmAddressesEqual (ra_address dto') (ra_address dto)"
    show "\<not> is_ok (fst (register_address gen' keccak sha256 now' merchant' dto' t))"
    proof (cases "fst (register_address gen' keccak sha256 now' merchant' dto' t)")
      case (Inr r')
      then obtain u where "register_address gen' keccak sha256 now' merchant' dto' t = (Inr r', u)" by (metis prod.collapse)
      then obtain m asset' norm' where e: "checked_address keccak sha256 (mc_livemode merchant') dto' = Inr (m, asset', norm')"
        and f: "\<forall>x \<in> set (payment_addresses t). \<not> (pa_network x = m \<and> pa_addressNormalized x = norm')" by (rule register_success)
      have "m = n" using checked_address_Inr(1) [OF e] d by simp
      moreover have "norm' = toLowerCase (ra_address dto')"
        using checked_address_Inr(2) [OF e] assms(3) \<open>m = n\<close> by (simp add: evm_normalized)
      ultimately show ?thesis using f t a n norm d by (simp add: evmAddressesEqual_def)
    qed simp
  qed
qed

definition sample_keccak :: "string \<Rightarrow> string" where "sample_keccak _ = replicate 64 (CHR ''0'')"

definition sample_registration :: register_address_dto where
  "sample_registration = \<lparr>ra_network = ''ethereum'', ra_asset = ''eth'', ra_address = ZERO_ADDRESS\<rparr>"

lemma sample_registered:
  "is_ok (fst (register_address counting_gen sample_keccak id 7 sample_context sample_registration (sample_db PAID ''USDT'' 1000)))"
  "network_of_name (toUpperCase (ra_network sample_registration)) = Some ETHEREUM" "nc_family (getNetworkConfig ETHEREUM) = EvmFamily"
  "evmAddressesEqual (px_toAddress sample_native) (ra_address sample_registration)"
  by code_simp+

theorem registered_address_receives_witness:
  "\<exists>r t a. register_address counting_gen sample_keccak id 7 sample_context sample_registration (sample_db PAID ''USDT'' 1000) = (Inr r, t) \<and>
     find (\<lambda>a. pa_network a = ETHEREUM \<and> pa_addressNormalized a = px_toAddress sample_native) (payment_addresses t) = Some a \<and> pa_id a = xa_id r \<and>
     \<not> is_ok (fst (register_address counting_gen sample_keccak id 8 sample_context sample_registration t))"
proof -
  obtain r t where r: "register_address counting_gen sample_keccak id 7 sample_context sample_registration (sample_db PAID ''USDT'' 1000) = (Inr r, t)"
    using sample_registered(1) by (metis is_ok_iff prod.collapse)
  from registered_address_receives [OF this sample_registered(2,3), of sample_evm_node "''0xcd''" _ sample_native sample_registration]
    sample_native_read sample_registered(2,4) r show ?thesis by (fastforce simp: evmAddressesEqual_def)
qed

text \<open>A Bitcoin address is stored as it was typed, but the adapter reports it in its canonical form: deposits to an address that was registered in capitals
  match no row, and the address can be registered twice.\<close>

lemma capital_address_unmatched:
  assumes "isValidSegwit a Mainnet" "\<not> isValidBase58Check sha256 a Mainnet" "toLowerCase a \<noteq> a"
  shows "validateAndNormalize keccak sha256 BitcoinFamily a ''BITCOIN'' = Inr a"
    "validateAndNormalize keccak sha256 BitcoinFamily (toLowerCase a) ''BITCOIN'' = Inr (toLowerCase a)"
    "normalizeBitcoinAddress sha256 a Mainnet = Inr (toLowerCase a)"
proof -
  have "a \<noteq> []" using assms(3) by (auto simp: toLowerCase_def)
  then have v: "isValidBitcoinAddress sha256 a Mainnet" "isValidBitcoinAddress sha256 (toLowerCase a) Mainnet"
    using assms(1) segwit_lower [of a Mainnet] by (simp_all add: isValidBitcoinAddress_def toLowerCase_def)
  moreover have "\<not> js_includes ''BITCOIN'' ''TESTNET''" by code_simp
  ultimately show "validateAndNormalize keccak sha256 BitcoinFamily a ''BITCOIN'' = Inr a"
    "validateAndNormalize keccak sha256 BitcoinFamily (toLowerCase a) ''BITCOIN'' = Inr (toLowerCase a)"
    by (simp_all add: validateAndNormalize_def Let_def)
  show "normalizeBitcoinAddress sha256 a Mainnet = Inr (toLowerCase a)" using v(1) assms(2) by (simp add: normalizeBitcoinAddress_def)
qed

lemma base58_rejects: "c \<in> set cs \<Longrightarrow> index_of BASE58_ALPHABET c = None \<Longrightarrow> base58_value v cs = None"
  by (induction v cs rule: base58_value.induct) (auto split: option.splits)

lemma capital_address_exists:
  "isValidSegwit ''BC1QW508D6QEJXTDG4Y5R3ZARVARY0C5XW7KV8F3T4'' Mainnet"
  "\<not> isValidBase58Check sha256 ''BC1QW508D6QEJXTDG4Y5R3ZARVARY0C5XW7KV8F3T4'' Mainnet"
proof -
  show "isValidSegwit ''BC1QW508D6QEJXTDG4Y5R3ZARVARY0C5XW7KV8F3T4'' Mainnet" by code_simp
  have "index_of BASE58_ALPHABET (CHR ''0'') = None" by code_simp
  then have "base58_value 0 ''BC1QW508D6QEJXTDG4Y5R3ZARVARY0C5XW7KV8F3T4'' = None" by (rule base58_rejects [rotated]) simp
  then show "\<not> isValidBase58Check sha256 ''BC1QW508D6QEJXTDG4Y5R3ZARVARY0C5XW7KV8F3T4'' Mainnet"
    by (simp add: isValidBase58Check_def base58Decode_def)
qed

section \<open>Balances are the ledger's\<close>

lemma find_account_row: "distinct (map la_id (ledger_accounts s)) \<Longrightarrow> a \<in> set (ledger_accounts s) \<Longrightarrow> find_account (la_id a) s = Some a"
  unfolding find_account_def by (rule find_by_key)

lemma balances_of_ok:
  assumes "distinct (map la_id (ledger_accounts s))" "set accounts \<subseteq> set (ledger_accounts s)"
    "list_all (\<lambda>a. 0 \<le> la_assetDecimals a \<and> la_assetDecimals a \<le> MAX_DECIMALS) accounts"
  shows "\<exists>bs. balances_of accounts s = Inr (bs, s) \<and> list_all2 (\<lambda>a b. be_network b = network_name (la_network a) \<and> be_asset b = la_assetSymbol a \<and>
    parseUnits (be_available b) (la_assetDecimals a) = Inr (true_balance a s)) accounts bs"
  using assms(2,3)
proof (induction accounts)
  case (Cons a accounts)
  obtain c where c: "computeAccountBalance (la_id a) s = Inr (c, s)" "cb_units c = true_balance a s" "cb_assetDecimals c = la_assetDecimals a"
    using computeAccountBalance_ok [OF find_account_row [OF assms(1), of a]] Cons.prems(1) by auto
  obtain shown where f: "formatUnits (true_balance a s) (la_assetDecimals a) = Inr shown" "parseUnits shown (la_assetDecimals a) = Inr (true_balance a s)"
    using parse_formatUnits [of "la_assetDecimals a" "true_balance a s"] Cons.prems(2) by (auto simp: MAX_DECIMALS_def result_simps)
  have m: "money_result (toDecimalString (balance_toMoney c)) s = Inr (shown, s)"
    using c f(1) by (simp add: money_result_def toDecimalString_def balance_toMoney_def fromUnits_def from_result_def)
  from Cons obtain bs where "balances_of accounts s = Inr (bs, s)" "list_all2 (\<lambda>a b. be_network b = network_name (la_network a) \<and> be_asset b = la_assetSymbol a \<and>
    parseUnits (be_available b) (la_assetDecimals a) = Inr (true_balance a s)) accounts bs" by auto
  with c m f(2) show ?case by (simp add: bind_op_def)
qed simp

text \<open>C36: The balances a merchant sees are those of the ledger. For a known network, or none, the request succeeds and changes nothing, and its answer has one
  entry per active liability account of the merchant that passes the filters, in their order; the decimal text of the entry parses back to exactly the
  sum of the entries of the account in the ledger, whatever the cached balance says. For an unknown network it is refused.\<close>

theorem balances_are_the_ledgers:
  assumes "distinct (map la_id (ledger_accounts s))"
    "list_all (\<lambda>a. 0 \<le> la_assetDecimals a \<and> la_assetDecimals a \<le> MAX_DECIMALS) (ledger_accounts s)"
  shows "case parseNetworkFilter unsupported_network network of
      Inl e \<Rightarrow> getBalances merchantId network asset s = (Inl (RequestError e), s)
    | Inr key \<Rightarrow> \<exists>bs. getBalances merchantId network asset s = (Inr bs, s) \<and>
        list_all2 (\<lambda>a b. be_network b = network_name (la_network a) \<and> be_asset b = la_assetSymbol a \<and>
          parseUnits (be_available b) (la_assetDecimals a) = Inr (balance_of (debitIncreases (la_type a)) (la_id a) (ledger_entries s)))
          (payable_accounts merchantId key asset s) bs"
proof (cases "parseNetworkFilter unsupported_network network")
  case (Inr key)
  have "set (payable_accounts merchantId key asset s) \<subseteq> set (ledger_accounts s)" by (auto simp: payable_accounts_def)
  moreover from this have "list_all (\<lambda>a. 0 \<le> la_assetDecimals a \<and> la_assetDecimals a \<le> MAX_DECIMALS) (payable_accounts merchantId key asset s)"
    using assms(2) unfolding list_all_iff by blast
  ultimately obtain bs where "balances_of (payable_accounts merchantId key asset s) s = Inr (bs, s)"
    "list_all2 (\<lambda>a b. be_network b = network_name (la_network a) \<and> be_asset b = la_assetSymbol a \<and>
      parseUnits (be_available b) (la_assetDecimals a) = Inr (true_balance a s)) (payable_accounts merchantId key asset s) bs"
    using balances_of_ok [OF assms(1)] by blast
  with Inr show ?thesis unfolding true_balance_def by (simp add: getBalances_def pbind_def pfrom_result_def preads_def atomically_def)
qed (simp add: getBalances_def pbind_def pfrom_result_def)

definition sample_payable :: ledger_account where
  "sample_payable = \<lparr>la_id = ''la_1'', la_code = ''merchant_payable:mch_1:ETHEREUM:USDT'', la_name = ''Payable'', la_type = LIABILITY, la_merchantId = Some ''mch_1'',
     la_assetSymbol = ''USDT'', la_assetDecimals = 6, la_network = ETHEREUM, la_cachedBalance = 0, la_cachedBalanceAt = None, la_cachedThroughSeq = None,
     la_isActive = True\<rparr>"

theorem balances_are_the_ledgers_witness:
  "\<exists>b. getBalances ''mch_1'' (Some ''ethereum'') None (empty_db\<lparr>ledger_accounts := [sample_payable]\<rparr>) = (Inr [b], empty_db\<lparr>ledger_accounts := [sample_payable]\<rparr>) \<and>
     be_asset b = ''USDT'' \<and> parseUnits (be_available b) 6 = Inr 0"
proof -
  have "parseNetworkFilter unsupported_network (Some ''ethereum'') = Inr (Some ETHEREUM)" by code_simp
  then show ?thesis
    using balances_are_the_ledgers [where s = "empty_db\<lparr>ledger_accounts := [sample_payable]\<rparr>" and network = "Some ''ethereum''" and
      merchantId = "''mch_1''" and asset = None]
    by (auto simp: sample_payable_def payable_accounts_def truthy_def MAX_DECIMALS_def balance_of_def empty_db_def list_all2_Cons1)
qed

end
