(* ===== verification/Spec2Isabelle.thy ===== *)
theory Spec2Isabelle
  imports Decimal Money Errors Registry StateMachine Payments Effects Store Database Ledger Monitor Settlement Expiry Invoices Invariants Scanner System Signing Webhooks Idempotency Adapters Rates Accounts Http Admin MerchantApi
begin

text \<open>
  A verification development for the cryptocurrency payment gateway: a merchant creates an invoice
  priced in fiat, a customer pays it on a blockchain, the blockchain monitor detects the transfer,
  counts its confirmations, evaluates the amount against the invoice and, when it is accepted,
  credits a double-entry ledger. The development models the code of that flow as executable
  functions and proves what the gateway relies on: exact money, a guarded invoice state machine,
  balanced and exactly-once crediting, and a pipeline that keeps these whatever the chain reports.

  The theories, in the order the code depends on itself:

  \<^item> \<open>Prelude\<close>: results as sums, JavaScript's string operations, integers as decimal text, rows, dates.
  \<^item> \<open>Decimal\<close> and \<open>Money\<close> (\<open>packages/shared/src/money\<close>): amounts are integers of smallest units
    with a precision; parsing, formatting, the rounding divisions, the \<open>Money\<close> class and the frozen
    exchange rate. BigInt is \<open>int\<close>; every throw is an error value. The rounding, round-trip and
    never-undercharging theorems are there.
  \<^item> \<open>Errors\<close> (\<open>errors/app-error.ts\<close>, \<open>ids/id.ts\<close>): error classes with code and HTTP status, prefixed
    identifiers. The ULID generator is a parameter \<open>gen\<close>, indexed by how many were drawn.
  \<^item> \<open>Registry\<close> (\<open>domain/network.ts\<close>, \<open>asset.ts\<close>, \<open>fiat.ts\<close>, \<open>payment-uri.ts\<close>): the allowlist tables
    and their lookups, and that they agree with each other.
  \<^item> \<open>StateMachine\<close> (\<open>domain/invoice-status.ts\<close>, \<open>payments/src/state-machine.ts\<close>): the transition table
    with its actors and the gate \<open>assertTransition\<close>. The locale \<open>guarded_table\<close> states what a gate over
    a table promises; \<open>reaches\<close> is the reachability of statuses by a set of actors.
  \<^item> \<open>Payments\<close> (\<open>payment-evaluation.ts\<close>, \<open>confirmations.ts\<close>, \<open>matcher.ts\<close>): the pure decisions.
  \<^item> \<open>Effects\<close>: a database transaction is an \<open>op\<close>, a function from a state to an error or a value with
    the next state, so a thrown error rolls back; code outside transactions is a \<open>proc\<close>, which keeps
    what was committed before an error. The locale \<open>step_relation\<close> proves once that a relation kept by
    every elementary write is kept by everything composed from them.
  \<^item> \<open>Store\<close> and \<open>Database\<close> (\<open>packages/database\<close>): the rows of the schema as records, the database as a
    record of tables, the failures a service can raise, the decimal columns, the account codes and
    the retry loop of \<open>runInTransaction\<close>. Prisma's decimal is a parameter with its documented law.
  \<^item> \<open>Ledger\<close> (\<open>packages/ledger/src\<close>): posting a credit, computing balances, reconciling. The locale
    \<open>exactly_once\<close> is the contract of an idempotent posting operation.
  \<^item> \<open>Monitor\<close> (\<open>apps/blockchain-monitor/src/monitor.service.ts\<close>): detection, confirmations, settlement
    and reorganisations over the database. The blockchain adapter is a parameter with no assumption.
    The locale \<open>pipeline_relation\<close> carries a relation from the writes the pipeline may make to all of
    its entry points; it is interpreted for the history, the books, the journals and the gate.
  \<^item> \<open>Settlement\<close>: what one finalisation of an invoice does, credits and refuses.
  \<^item> \<open>Expiry\<close> (\<open>apps/worker/src/expiry-sweep.ts\<close>) and \<open>Invoices\<close> (\<open>apps/api/src/invoices\<close>): the sweep of
    overdue invoices; creating an invoice with a frozen price and a claimed deposit address, reading
    it with lazy expiry, cancelling it. The exchange-rate service is a parameter here.
  \<^item> \<open>Invariants\<close>: the locale \<open>gateway_relation\<close> extends \<open>pipeline_relation\<close> by the writes of the sweep, the
    API and the scanner, and is interpreted for the history, the books, the journals, the gate with
    all automatic actors and the deposit addresses.
  \<^item> \<open>Scanner\<close> (\<open>apps/blockchain-monitor/src/scanner.ts\<close>): cursor, reorganisation check, both discovery
    paths and the tick; the scan refines a specification of what is to be discovered.
  \<^item> \<open>System\<close>: any run of the gateway, a sequence of calls of all these components, keeps the books,
    the history, the gate and the addresses.
  \<^item> \<open>Signing\<close> (\<open>packages/signing/src\<close>, \<open>apps/api/src/signing\<close>): submitting, approving and rejecting
    signing requests under the policy, both spend trackers, the approval stores in memory and in the
    database, the key store and the backend over it, and the admin service. Key generation, ECDSA
    and SHA-256 are parameters. What is signed was approved, within the ceilings, and at most once.
  \<^item> \<open>WebhookSecurity\<close> (\<open>webhook-signature.ts\<close>, \<open>ssrf-guard.ts\<close>): signing and verifying over HMAC as a
    parameter with the form of its digest as hypothesis; the guard over the URL parser and name
    resolution as parameters.
  \<^item> \<open>Webhooks\<close> (\<open>packages/webhooks/src\<close>): the dispatcher's poll over its tables and the backoff. The
    lifecycle of deliveries is a step relation between tables (\<open>outbox_step\<close>), an instance of
    \<open>step_relation\<close>, that every phase keeps, so that it holds over any number of polls.

  \<^item> \<open>Idempotency\<close> (\<open>common/idempotency.service.ts\<close>, \<open>invoices.controller.ts\<close>): claiming a key, running the
    handler, completing and replaying, as one call and as steps that interleave with those of other
    requests and with crashes; the endpoint that creates invoices under a key. The invariants of the
    gateway say that nothing else touches the keys (an interpretation of \<open>gateway_relation\<close>).
  \<^item> \<open>Addresses\<close>, \<open>Doubles\<close> and \<open>Adapters\<close> (\<open>packages/blockchain/src\<close>): validation and normalisation of EVM
    and Bitcoin addresses with the linear checksum of Bech32 at 32 bits, JavaScript's doubles as the
    rationals they denote, the JSON-RPC clients over \<open>fetch\<close>, transfer logs and both adapters over the
    answers of a node. The locale \<open>confirmation_source\<close> is what the monitor needs of two views of the
    confirmations of a transaction; both adapters are instances.
  \<^item> \<open>Rates\<close> (\<open>packages/exchange-rate/src\<close>): both price sources and the service with its cache and its
    coalesced lookups as a step relation. The digits of a printed double are found with fuel 400,
    more than the decimal exponents of doubles.
  \<^item> \<open>Secrets\<close> (\<open>packages/security/src\<close>): API keys, session tokens, encrypted secrets and redaction.
    HMAC, SHA-256, AES-GCM and Argon2 are parameters with their documented laws.
  \<^item> \<open>Accounts\<close> (\<open>apps/api/src/auth\<close>, \<open>merchant/api-keys.service.ts\<close>, \<open>merchant/members.service.ts\<close>,
    \<open>common/audit-log.service.ts\<close>): login, refresh, logout, keys, members, the audit log, permissions and
    guards. The locale \<open>account_relation\<close> carries a relation from the single writes to every sequence of
    operations, \<open>member_blind_relation\<close> is the case of relations that ignore memberships; interpreted for
    sessions, owners, keys and merchants.
  \<^item> \<open>Http\<close> (\<open>rate-limiter.ts\<close>, \<open>rate-limit.guard.ts\<close>, \<open>http-exception.filter.ts\<close>, \<open>pagination.ts\<close>): the limit on
    requests over Redis as a parameter with the laws of its counters, what a client is told of an
    error, and lists in pages.
  \<^item> \<open>Admin\<close> (\<open>apps/api/src/admin\<close>, \<open>merchant/webhook-endpoints.service.ts\<close>): the decisions of operators and
    their audit records, lists, a merchant's webhook endpoints; decided rows are final (\<open>records_kept\<close>
    over \<open>office_step\<close>), and a suspended merchant passes no guard.
  \<^item> \<open>MerchantApi\<close> (\<open>apps/api/src/merchant\<close>): deposit addresses, balances, invoices and transfers of a
    merchant; a registered address is the one the adapter and the monitor look up.

  Time is an argument \<open>now\<close> in milliseconds. The loops of the modelled code run over finite lists or
  a bounded number of retries, so the model needs no fuel but for the digits above and for a client
  that follows the pages of a list, where the theorem gives a number of pages that is enough.
  Concurrency is modelled at the level of transactions: the code runs them serializable, so a
  transaction is one step, and the theorems on sequences of calls hold for every interleaving of whole
  transactions. Where the code checks a row before its transaction the two parts are separate
  definitions; the theorems on whole operations then speak of operations that are served one after the
  other, and a lemma beside them shows what an interleaving does.

  Not modelled: the web front end; the wiring of the modules, the start of the processes and the
  parsing of the environment; controllers, which pass their arguments on; logging and metrics; the
  reconciliation schedule and gauges of the worker; the fake adapter and the scripts for seeding and
  demonstration; the read-only views of settings and settlements. Prisma, Redis, \<open>fetch\<close>, name resolution
  and the cryptographic primitives are parameters.
\<close>

end
